(* ===== verification/Prelude.thy ===== *)
theory Prelude
  imports Main "HOL-Library.Word"
begin

text \<open>
  Shared ground of the development: the machine integers of the code, the byte-addressed
  memory that buffered segments live in, the C operations on 32-bit integers that HOL has no
  direct name for, the result type of operations that can go wrong, and the bit-level lemmas
  that the component theories use.

  The code is compiled for a 32-bit little-endian ARM host (OMAP4): \<open>int\<close>, \<open>long\<close> and pointers
  are 32 bits wide.
\<close>

unbundle bit_operations_syntax

section \<open>Machine integers\<close>

type_synonym u8 = "8 word"
type_synonym u16 = "16 word"
type_synonym u32 = "32 word"

text \<open>
  A C \<open>int32_t\<close> is kept as the 32-bit word that holds it; the operations whose result depends
  on the sign are the following. \<open>abs (INT_MIN)\<close> is undefined in C; the generated code negates
  in two's complement, which is what \<^term>\<open>c_abs\<close> does.
\<close>

definition sar :: "u32 \<Rightarrow> nat \<Rightarrow> u32" where
  "sar v n = signed_drop_bit n v"

definition shl :: "u32 \<Rightarrow> nat \<Rightarrow> u32" where
  "shl v n = push_bit n v"

definition shr :: "u32 \<Rightarrow> nat \<Rightarrow> u32" where
  "shr v n = drop_bit n v"

definition c_neg :: "u32 \<Rightarrow> bool" where
  "c_neg v \<longleftrightarrow> sint v < 0"

definition c_abs :: "u32 \<Rightarrow> u32" where
  "c_abs v = (if c_neg v then - v else v)"

definition c_bool :: "bool \<Rightarrow> u32" where
  "c_bool b = (if b then 1 else 0)"

section \<open>Bit-level lemmas\<close>

text \<open>
  Equalities of words of a fixed width are proved bit by bit: \<open>bit_word_eqI\<close>, a case split on the
  position with \<open>bits_32E\<close> (\<open>bits_16E\<close>, \<open>bits_8E\<close>), and the collection \<open>bit_tools\<close>, which rewrites
  the bit of a compound word to bits of its parts.
\<close>

named_theorems bit_tools

declare bit_simps [bit_tools]

lemma and_push_bit_1: "(x::'a::len word) AND push_bit k 1 = (if bit x k then push_bit k 1 else 0)"
  by (rule bit_word_eqI) (auto simp: bit_simps)

lemma uminus_push_bit_1: "- (push_bit k 1 :: 'a::len word) = NOT (mask k)"
  by (simp add: mask_eq_exp_minus_1 push_bit_eq_mult minus_eq_not_minus_1)

lemma less_32_cases: "n < 32 \<longleftrightarrow> n \<in> {0,1,2,3,4,5,6,7,8,9,10,11,12,13,14,15,16,17,18,19,20,21,22,23,24,25,26,27,28,29,30,31::nat}"
  by auto presburger

lemma less_16_cases: "n < 16 \<longleftrightarrow> n \<in> {0,1,2,3,4,5,6,7,8,9,10,11,12,13,14,15::nat}"
  by auto presburger

lemma less_8_cases: "n < 8 \<longleftrightarrow> n \<in> {0,1,2,3,4,5,6,7::nat}"
  by auto

lemma bits_32E:
  "n < 32
     \<Longrightarrow> (n = 0 \<Longrightarrow> P) \<Longrightarrow> (n = 1 \<Longrightarrow> P)
     \<Longrightarrow> (n = 2 \<Longrightarrow> P) \<Longrightarrow> (n = 3 \<Longrightarrow> P)
     \<Longrightarrow> (n = 4 \<Longrightarrow> P) \<Longrightarrow> (n = 5 \<Longrightarrow> P)
     \<Longrightarrow> (n = 6 \<Longrightarrow> P) \<Longrightarrow> (n = 7 \<Longrightarrow> P)
     \<Longrightarrow> (n = 8 \<Longrightarrow> P) \<Longrightarrow> (n = 9 \<Longrightarrow> P)
     \<Longrightarrow> (n = 10 \<Longrightarrow> P) \<Longrightarrow> (n = 11 \<Longrightarrow>
     P) \<Longrightarrow> (n = 12 \<Longrightarrow> P) \<Longrightarrow> (n = 13
     \<Longrightarrow> P) \<Longrightarrow> (n = 14 \<Longrightarrow> P) \<Longrightarrow> (n =
     15 \<Longrightarrow> P) \<Longrightarrow> (n = 16 \<Longrightarrow> P) \<Longrightarrow> (n
     = 17 \<Longrightarrow> P) \<Longrightarrow> (n = 18 \<Longrightarrow> P) \<Longrightarrow>
     (n = 19 \<Longrightarrow> P) \<Longrightarrow> (n = 20 \<Longrightarrow> P)
     \<Longrightarrow> (n = 21 \<Longrightarrow> P) \<Longrightarrow> (n = 22 \<Longrightarrow>
     P) \<Longrightarrow> (n = 23 \<Longrightarrow> P) \<Longrightarrow> (n = 24
     \<Longrightarrow> P) \<Longrightarrow> (n = 25 \<Longrightarrow> P) \<Longrightarrow> (n =
     26 \<Longrightarrow> P) \<Longrightarrow> (n = 27 \<Longrightarrow> P) \<Longrightarrow> (n
     = 28 \<Longrightarrow> P) \<Longrightarrow> (n = 29 \<Longrightarrow> P) \<Longrightarrow>
     (n = 30 \<Longrightarrow> P) \<Longrightarrow> (n = 31 \<Longrightarrow> P) \<Longrightarrow> P" for n :: nat
  unfolding less_32_cases by blast

lemma bits_16E:
  "n < 16
     \<Longrightarrow> (n = 0 \<Longrightarrow> P) \<Longrightarrow> (n = 1 \<Longrightarrow> P)
     \<Longrightarrow> (n = 2 \<Longrightarrow> P) \<Longrightarrow> (n = 3 \<Longrightarrow> P)
     \<Longrightarrow> (n = 4 \<Longrightarrow> P) \<Longrightarrow> (n = 5 \<Longrightarrow> P)
     \<Longrightarrow> (n = 6 \<Longrightarrow> P) \<Longrightarrow> (n = 7 \<Longrightarrow> P)
     \<Longrightarrow> (n = 8 \<Longrightarrow> P) \<Longrightarrow> (n = 9 \<Longrightarrow> P)
     \<Longrightarrow> (n = 10 \<Longrightarrow> P) \<Longrightarrow> (n = 11 \<Longrightarrow>
     P) \<Longrightarrow> (n = 12 \<Longrightarrow> P) \<Longrightarrow> (n = 13
     \<Longrightarrow> P) \<Longrightarrow> (n = 14 \<Longrightarrow> P) \<Longrightarrow> (n =
     15 \<Longrightarrow> P) \<Longrightarrow> P" for n :: nat
  unfolding less_16_cases by blast

lemma bits_8E:
  "n < 8
     \<Longrightarrow> (n = 0 \<Longrightarrow> P) \<Longrightarrow> (n = 1 \<Longrightarrow> P)
     \<Longrightarrow> (n = 2 \<Longrightarrow> P) \<Longrightarrow> (n = 3 \<Longrightarrow> P)
     \<Longrightarrow> (n = 4 \<Longrightarrow> P) \<Longrightarrow> (n = 5 \<Longrightarrow> P)
     \<Longrightarrow> (n = 6 \<Longrightarrow> P) \<Longrightarrow> (n = 7 \<Longrightarrow> P) \<Longrightarrow> P" for n :: nat
  unfolding less_8_cases by blast

text \<open>The same as rules, with one premise for each position.\<close>

lemma word32_bits:
  "bit l 0 = bit r 0 \<Longrightarrow> bit l 1 = bit r 1 \<Longrightarrow> bit l 2 = bit r 2 \<Longrightarrow>
   bit l 3 = bit r 3 \<Longrightarrow> bit l 4 = bit r 4 \<Longrightarrow> bit l 5 = bit r 5 \<Longrightarrow>
   bit l 6 = bit r 6 \<Longrightarrow> bit l 7 = bit r 7 \<Longrightarrow> bit l 8 = bit r 8 \<Longrightarrow>
   bit l 9 = bit r 9 \<Longrightarrow> bit l 10 = bit r 10 \<Longrightarrow> bit l 11 = bit r 11 \<Longrightarrow>
   bit l 12 = bit r 12 \<Longrightarrow> bit l 13 = bit r 13 \<Longrightarrow> bit l 14 = bit r 14 \<Longrightarrow>
   bit l 15 = bit r 15 \<Longrightarrow> bit l 16 = bit r 16 \<Longrightarrow> bit l 17 = bit r 17 \<Longrightarrow>
   bit l 18 = bit r 18 \<Longrightarrow> bit l 19 = bit r 19 \<Longrightarrow> bit l 20 = bit r 20 \<Longrightarrow>
   bit l 21 = bit r 21 \<Longrightarrow> bit l 22 = bit r 22 \<Longrightarrow> bit l 23 = bit r 23 \<Longrightarrow>
   bit l 24 = bit r 24 \<Longrightarrow> bit l 25 = bit r 25 \<Longrightarrow> bit l 26 = bit r 26 \<Longrightarrow>
   bit l 27 = bit r 27 \<Longrightarrow> bit l 28 = bit r 28 \<Longrightarrow> bit l 29 = bit r 29 \<Longrightarrow>
   bit l 30 = bit r 30 \<Longrightarrow> bit l 31 = bit r 31 \<Longrightarrow> l = r" for l r :: u32
  by (rule bit_word_eqI, simp, erule bits_32E; simp only: One_nat_def)

lemma word16_bits:
  "bit l 0 = bit r 0 \<Longrightarrow> bit l 1 = bit r 1 \<Longrightarrow> bit l 2 = bit r 2 \<Longrightarrow>
   bit l 3 = bit r 3 \<Longrightarrow> bit l 4 = bit r 4 \<Longrightarrow> bit l 5 = bit r 5 \<Longrightarrow>
   bit l 6 = bit r 6 \<Longrightarrow> bit l 7 = bit r 7 \<Longrightarrow> bit l 8 = bit r 8 \<Longrightarrow>
   bit l 9 = bit r 9 \<Longrightarrow> bit l 10 = bit r 10 \<Longrightarrow> bit l 11 = bit r 11 \<Longrightarrow>
   bit l 12 = bit r 12 \<Longrightarrow> bit l 13 = bit r 13 \<Longrightarrow> bit l 14 = bit r 14 \<Longrightarrow>
   bit l 15 = bit r 15 \<Longrightarrow> l = r" for l r :: u16
  by (rule bit_word_eqI, simp, erule bits_16E; simp only: One_nat_def)

lemma bit_beyond [bit_tools]:
  "8 \<le> n \<Longrightarrow> \<not> bit (x :: u8) n"
  "16 \<le> n \<Longrightarrow> \<not> bit (y :: u16) n"
  "32 \<le> n \<Longrightarrow> \<not> bit (z :: u32) n"
  by (auto dest: bit_imp_le_length)

declare numeral_2_eq_2 [symmetric, bit_tools]

lemma ucast_add_u16: "(ucast (a + b) :: u16) = ucast a + ucast b" for a b :: u32
proof -
  have "take_bit 16 (take_bit 32 i + take_bit 32 j) = take_bit 16 (i + j)" for i j :: int
    using take_bit_add [of 16 "take_bit 32 i" "take_bit 32 j"] take_bit_add [of 16 i j] by simp
  then show ?thesis by transfer simp
qed

lemma sint_sar: "sint (sar v k) = sint v div 2 ^ k"
  by (simp add: sar_def sint_signed_drop_bit_eq drop_bit_eq_div)

lemma bit_sar [bit_tools]: "bit (sar v k) n \<longleftrightarrow> n < 32 \<and> bit v (if 31 < k + n then 31 else k + n)"
  by (auto simp: sar_def bit_simps dest: bit_imp_le_length)

lemma bit_shl [bit_tools]: "bit (shl v k) n \<longleftrightarrow> k \<le> n \<and> n < 32 \<and> bit v (n - k)"
  by (auto simp: shl_def bit_simps dest: bit_imp_le_length)

lemma bit_shr [bit_tools]: "bit (shr v k) n \<longleftrightarrow> bit v (k + n)"
  by (simp add: shr_def bit_simps)

lemma div_0_or_minus_1:
  fixes x m :: int
  assumes "0 < m"
  shows "x div m = 0 \<or> x div m = - 1 \<longleftrightarrow> - m \<le> x \<and> x < m"
proof -
  have eq: "x = m * (x div m) + x mod m" and lo: "0 \<le> x mod m" and hi: "x mod m < m"
    using assms by simp_all
  have "x div m = - 1" if "- m \<le> x" "x < 0"
  proof -
    have "(x + m) div m = 0" using that by simp
    with assms div_add_self2 [of m x] show ?thesis by simp
  qed
  moreover have "x div m = 0" if "0 \<le> x" "x < m" using that by simp
  moreover have "- m \<le> x \<and> x < m" if "x div m = 0" using eq lo hi that by simp
  moreover have "- m \<le> x \<and> x < m" if "x div m = - 1"
  proof -
    have "x = x mod m - m" using eq that by simp
    with lo hi assms show ?thesis by linarith
  qed
  ultimately show ?thesis by (meson not_le)
qed

lemma sar_sign_fill:
  "sar v k = 0 \<or> sar v k = - 1 \<longleftrightarrow> - (2 ^ k) \<le> sint v \<and> sint v < 2 ^ k"
proof -
  have "sar v k = 0 \<longleftrightarrow> sint (sar v k) = 0"
    by (metis signed_0 signed_word_eqI)
  moreover have "sar v k = - 1 \<longleftrightarrow> sint (sar v k) = - 1"
    by (metis signed_minus_1 signed_word_eqI)
  ultimately have "sar v k = 0 \<or> sar v k = - 1 \<longleftrightarrow> sint v div 2 ^ k = 0 \<or> sint v div 2 ^ k = - 1"
    by (simp add: sint_sar)
  also have "\<dots> \<longleftrightarrow> - (2 ^ k) \<le> sint v \<and> sint v < 2 ^ k"
    by (rule div_0_or_minus_1) simp
  finally show ?thesis .
qed

lemma sar_sign_fill_bit:
  assumes "sar v k = 0 \<or> sar v k = - 1" "k \<le> n" "n < 32"
  shows "bit v n = bit v 31"
proof -
  have "bit (sar v k) (n - k) = bit (sar v k) (31 - k)"
    using assms by (auto simp: bit_minus_1_iff)
  with assms show ?thesis by (auto simp: bit_sar)
qed

lemma and_mask_bits:
  fixes v :: "'a::len word"
  assumes "v AND mask k = 0" "n < k" shows "\<not> bit v n"
proof
  assume "bit v n"
  then have "bit (v AND mask k) n"
    using assms(2) by (auto simp: bit_simps dest: bit_imp_le_length)
  with assms(1) show False by simp
qed

section \<open>Results\<close>

text \<open>
  \<^term>\<open>bindE\<close> runs the continuation on a normal result and passes a failure on.
\<close>

definition bindE :: "'e + 'a \<Rightarrow> ('a \<Rightarrow> 'e + 'b) \<Rightarrow> 'e + 'b" where
  "bindE r k = (case r of Inl e \<Rightarrow> Inl e | Inr x \<Rightarrow> k x)"

lemma bindE_simps [simp]:
  "bindE (Inl e) k = Inl e"
  "bindE (Inr x) k = k x"
  by (simp_all add: bindE_def)

lemma bindE_eq_Inr: "bindE r k = Inr y \<longleftrightarrow> (\<exists>x. r = Inr x \<and> k x = Inr y)"
  by (cases r) auto

section \<open>Byte-addressed memory\<close>

type_synonym mem = "u32 \<Rightarrow> u8"

definition read8 :: "mem \<Rightarrow> u32 \<Rightarrow> u8" where
  "read8 m a = m a"

definition read16 :: "mem \<Rightarrow> u32 \<Rightarrow> u16" where
  "read16 m a = word_cat (m (a + 1)) (m a)"

definition read32 :: "mem \<Rightarrow> u32 \<Rightarrow> u32" where
  "read32 m a = word_cat (read16 m (a + 2)) (read16 m a)"

definition write8 :: "u32 \<Rightarrow> u8 \<Rightarrow> mem \<Rightarrow> mem" where
  "write8 a v m = m(a := v)"

definition write16 :: "u32 \<Rightarrow> u16 \<Rightarrow> mem \<Rightarrow> mem" where
  "write16 a v m = m(a := ucast v, a + 1 := ucast (drop_bit 8 v))"

definition write32 :: "u32 \<Rightarrow> u32 \<Rightarrow> mem \<Rightarrow> mem" where
  "write32 a v m = write16 (a + 2) (ucast (drop_bit 16 v)) (write16 a (ucast v) m)"

text \<open>The addresses a container of \<^term>\<open>n\<close> bytes occupies.\<close>

definition cells :: "u32 \<Rightarrow> nat \<Rightarrow> u32 set" where
  "cells a n = (\<lambda>i. a + of_nat i) ` {..<n}"

text \<open>
  What a typed view of the memory promises to the code that relocates a field: a read after a
  write gives the value back, and nothing outside the container changes.
\<close>

locale typed_view =
  fixes rd :: "mem \<Rightarrow> u32 \<Rightarrow> 'w"
    and wr :: "u32 \<Rightarrow> 'w \<Rightarrow> mem \<Rightarrow> mem"
    and width :: nat
  assumes rd_wr: "rd (wr a v m) a = v"
    and wr_frame: "b \<notin> cells a width \<Longrightarrow> wr a v m b = m b"
    and wr_wr: "wr a v (wr a u m) = wr a v m"
    and wr_rd: "wr a (rd m a) m = m"
begin

lemma update_twice: "wr a (f (rd (wr a (g (rd m a)) m) a)) (wr a (g (rd m a)) m)
    = wr a (f (g (rd m a))) m"
  by (simp add: rd_wr wr_wr)

lemma wr_inj: "wr a v m = wr a u m \<Longrightarrow> v = u"
  by (metis rd_wr)

end

lemma cells_1: "cells a 1 = {a}"
  by (auto simp: cells_def)

lemma cells_Suc: "cells a (Suc n) = insert (a + of_nat n) (cells a n)"
  by (auto simp: cells_def lessThan_Suc)

lemma cells_2: "cells a 2 = {a, a + 1}"
  by (simp add: numeral_2_eq_2 cells_Suc) (auto simp: cells_def)

lemma cells_4: "cells a 4 = {a, a + 1, a + 2, a + 3}"
  by (simp add: eval_nat_numeral cells_Suc) (auto simp: cells_def)

lemma read16_bytes:
  "ucast (read16 m a) = m a" "ucast (drop_bit 8 (read16 m a)) = m (a + 1)"
  by (rule bit_word_eqI, auto simp: read16_def bit_simps bit_word_cat_iff)+

lemma read32_halves:
  "ucast (read32 m a) = read16 m a" "ucast (drop_bit 16 (read32 m a)) = read16 m (a + 2)"
  by (rule bit_word_eqI, auto simp: read32_def bit_simps bit_word_cat_iff)+

lemma word_cat_halves: "word_cat (ucast (drop_bit 8 v) :: u8) (ucast v :: u8) = (v :: u16)"
  by (rule bit_word_eqI) (auto simp: bit_simps bit_word_cat_iff)

lemma word_cat_words: "word_cat (ucast (drop_bit 16 v) :: u16) (ucast v :: u16) = (v :: u32)"
  by (rule bit_word_eqI) (auto simp: bit_simps bit_word_cat_iff)

lemma read16_write16 [simp]: "read16 (write16 a v m) a = v"
  by (simp add: read16_def write16_def word_cat_halves)

lemma read16_write16_apart [simp]:
  "read16 (write16 a v m) (a + 2) = read16 m (a + 2)"
  "read16 (write16 (a + 2) v m) a = read16 m a"
  by (simp_all add: read16_def write16_def)

lemma write16_twice [simp]: "write16 a v (write16 a u m) = write16 a v m"
  by (auto simp: write16_def)

lemma write16_swap: "write16 (a + 2) u (write16 a v m) = write16 a v (write16 (a + 2) u m)"
  by (auto simp: write16_def fun_eq_iff)

lemma write16_read16 [simp]: "write16 a (read16 m a) m = m"
  by (simp add: write16_def read16_bytes)

lemma read32_write32 [simp]: "read32 (write32 a v m) a = v"
  by (simp add: read32_def write32_def word_cat_words)

text \<open>The three widths of access the relocation code uses are views in this sense.\<close>

interpretation byte_view: typed_view read8 write8 1
  by unfold_locales (use cells_1 in \<open>auto simp: read8_def write8_def\<close>)

lemma write16_frame: "b \<notin> cells a 2 \<Longrightarrow> write16 a v m b = m b"
  by (simp add: cells_2 write16_def)

interpretation half_view: typed_view read16 write16 2
  by unfold_locales (simp_all add: write16_frame)

lemma write32_frame: "b \<notin> cells a 4 \<Longrightarrow> write32 a v m b = m b"
  by (auto simp: cells_4 write32_def write16_def add.commute)

lemma write32_twice: "write32 a v (write32 a u m) = write32 a v m"
  by (simp add: write32_def write16_swap)

lemma write32_read32: "write32 a (read32 m a) m = m"
  by (simp add: write32_def read32_halves)

interpretation word_view: typed_view read32 write32 4
  by unfold_locales (simp_all add: write32_frame write32_twice write32_read32)

section \<open>Powers of two\<close>

lemma unat_exp_u32:
  assumes "k < 32" shows "unat (2 ^ k :: u32) = 2 ^ k"
proof -
  have "k \<in> set [0..<32]" using assms by simp
  then show ?thesis by (simp add: upt_conv_Cons del: set_upt) (elim disjE; simp)
qed

end
