(* ===== verification/Elf32.thy ===== *)
theory Elf32
  imports Prelude
begin

text \<open>
  The data structures of 32-bit ELF object files that the loader works on
  (\<open>syslink/api/include/elf32.h\<close>), with the accessor functions the header defines, and the lookup of
  a dynamic tag (\<open>DLIMP_get_first_dyntag\<close> of \<open>elfload/dload.c\<close>).

  Each C struct is a record with the struct's field names. \<open>Elf32_Rela\<close> has the fields of
  \<open>Elf32_Rel\<close> followed by the addend, so it extends that record. The \<open>d_un\<close> union of a dynamic
  entry is one 32-bit cell, here \<open>d_un\<close>.
\<close>

section \<open>File structures\<close>

record Elf32_Ehdr =
  e_ident :: "u8 list"
  e_type :: u16
  e_machine :: u16
  e_version :: u32
  e_entry :: u32
  e_phoff :: u32
  e_shoff :: u32
  e_flags :: u32
  e_ehsize :: u16
  e_phentsize :: u16
  e_phnum :: u16
  e_shentsize :: u16
  e_shnum :: u16
  e_shstrndx :: u16

record Elf32_Phdr =
  p_type :: u32
  p_offset :: u32
  p_vaddr :: u32
  p_paddr :: u32
  p_filesz :: u32
  p_memsz :: u32
  p_flags :: u32
  p_align :: u32

record Elf32_Sym =
  st_name :: u32
  st_value :: u32
  st_size :: u32
  st_info :: u8
  st_other :: u8
  st_shndx :: u16

record Elf32_Rel =
  r_offset :: u32
  r_info :: u32

record Elf32_Rela = Elf32_Rel +
  r_addend :: u32

record Elf32_Dyn =
  d_tag :: u32
  d_un :: u32

section \<open>Constants\<close>

abbreviation (input) ELFDATA2LSB :: nat where "ELFDATA2LSB \<equiv> 1"
abbreviation (input) ELFDATA2MSB :: nat where "ELFDATA2MSB \<equiv> 2"

abbreviation (input) SHN_UNDEF :: u16 where "SHN_UNDEF \<equiv> 0"
abbreviation (input) SHN_LORESERVE :: u16 where "SHN_LORESERVE \<equiv> 0xff00"
abbreviation (input) SHN_XINDEX :: u16 where "SHN_XINDEX \<equiv> 0xffff"

abbreviation (input) STB_LOCAL :: u8 where "STB_LOCAL \<equiv> 0"
abbreviation (input) STV_DEFAULT :: u8 where "STV_DEFAULT \<equiv> 0"

abbreviation (input) DT_NULL :: u32 where "DT_NULL \<equiv> 0"
abbreviation (input) DT_PLTRELSZ :: u32 where "DT_PLTRELSZ \<equiv> 2"
abbreviation (input) DT_RELA :: u32 where "DT_RELA \<equiv> 7"
abbreviation (input) DT_RELASZ :: u32 where "DT_RELASZ \<equiv> 8"
abbreviation (input) DT_RELAENT :: u32 where "DT_RELAENT \<equiv> 9"
abbreviation (input) DT_REL :: u32 where "DT_REL \<equiv> 17"
abbreviation (input) DT_RELSZ :: u32 where "DT_RELSZ \<equiv> 18"
abbreviation (input) DT_RELENT :: u32 where "DT_RELENT \<equiv> 19"
abbreviation (input) DT_PLTREL :: u32 where "DT_PLTREL \<equiv> 20"
abbreviation (input) DT_JMPREL :: u32 where "DT_JMPREL \<equiv> 23"

abbreviation (input) INT_MAX :: u32 where "INT_MAX \<equiv> 0x7FFFFFFF"

section \<open>Accessors\<close>

definition ELF32_ST_BIND :: "u8 \<Rightarrow> u8" where
  "ELF32_ST_BIND i = drop_bit 4 i"

definition ELF32_ST_TYPE :: "u8 \<Rightarrow> u8" where
  "ELF32_ST_TYPE i = i AND 0xf"

definition ELF32_ST_INFO :: "u8 \<Rightarrow> u8 \<Rightarrow> u8" where
  "ELF32_ST_INFO b t = push_bit 4 b + (t AND 0xf)"

definition ELF32_ST_VISIBILITY :: "u8 \<Rightarrow> u8" where
  "ELF32_ST_VISIBILITY v = v AND 0x3"

definition ELF32_R_SYM :: "u32 \<Rightarrow> u32" where
  "ELF32_R_SYM i = shr i 8"

definition ELF32_R_TYPE :: "u32 \<Rightarrow> u8" where
  "ELF32_R_TYPE i = ucast (i AND 0xFF)"

definition ELF32_R_INFO :: "u32 \<Rightarrow> u8 \<Rightarrow> u32" where
  "ELF32_R_INFO s t = shl s 8 + ucast t"

text \<open>Packing and unpacking the two halves of \<open>r_info\<close> and \<open>st_info\<close>.\<close>

lemma ELF32_R_INFO_or: "ELF32_R_INFO s t = shl s 8 OR ucast t"
proof -
  have "shl s 8 AND ucast t = 0"
    by (rule bit_word_eqI) (auto simp: bit_tools dest: bit_imp_le_length)
  then show ?thesis by (simp add: ELF32_R_INFO_def disjunctive_add_eq_or)
qed

lemma ELF32_R_TYPE_INFO: "ELF32_R_TYPE (ELF32_R_INFO s t) = t"
proof (rule bit_word_eqI)
  fix n assume "n < LENGTH(8)"
  then have "n < 8" by simp
  then show "bit (ELF32_R_TYPE (ELF32_R_INFO s t)) n = bit t n"
    by (erule_tac bits_8E; simp add: ELF32_R_TYPE_def ELF32_R_INFO_or bit_tools)
qed

section \<open>The dynamic table\<close>

text \<open>
  A table is the list of its entries up to the \<open>DT_NULL\<close> entry that ends it: the end of the list
  stands for that entry. A tag that is not found gives the bogus value \<open>INT_MAX\<close>.
\<close>

fun DLIMP_get_first_dyntag :: "u32 \<Rightarrow> Elf32_Dyn list \<Rightarrow> u32" where
  "DLIMP_get_first_dyntag tag [] = INT_MAX"
| "DLIMP_get_first_dyntag tag (d # ds) =
     (if d_tag d = DT_NULL then INT_MAX
      else if d_tag d = tag then d_un d
      else DLIMP_get_first_dyntag tag ds)"

lemma DLIMP_get_first_dyntag_missing:
  "tag \<notin> d_tag ` set ds \<Longrightarrow> DLIMP_get_first_dyntag tag ds = INT_MAX"
  by (induction ds) auto

text \<open>The lookup of a dynamic tag gives the value of the first entry with the tag that stands before the
  first \<open>DT_NULL\<close> entry, and \<open>INT_MAX\<close> if there is none.\<close>

theorem DLIMP_get_first_dyntag_first:
  "DLIMP_get_first_dyntag tag ds =
     (case List.find (\<lambda>d. d_tag d = tag) (takeWhile (\<lambda>d. d_tag d \<noteq> DT_NULL) ds) of
        None \<Rightarrow> INT_MAX
      | Some d \<Rightarrow> d_un d)"
  by (induction ds) auto

end
