(* ===== verification/Modules.thy ===== *)
theory Modules
  imports Elf32
begin

text \<open>
  The structures of \<open>include/dload.h\<close> that describe a module while it is loaded and while it stays loaded, and the ways
  in which the code that works on them can leave the defined behaviour of C. Of the target memory of a segment, the
  request and the buffer, only the address is kept (in the program header of the segment) and the offset to the buffer.

  Arrays in host memory are lists: an \<open>Array_List\<close> of segments or of handles is the list of its elements
  (the theory \<open>Array_Lists\<close> shows that the buffers hold them). A function that can fault returns a value of
  a sum type, and one that may in addition not return an option of that.
\<close>

datatype load_fault = OutOfTable | NullNode | WildNode | BadQueue | DivideByZero | LoaderExit | Freed | Overflow | NoReturn

type_synonym 'a result = "(load_fault + 'a) option"

definition bind_result :: "'a result \<Rightarrow> ('a \<Rightarrow> 'b result) \<Rightarrow> 'b result" where
  "bind_result r f = (case r of None \<Rightarrow> None | Some (Inl e) \<Rightarrow> Some (Inl e) | Some (Inr x) \<Rightarrow> f x)"

lemma bind_result_simps [simp]:
  "bind_result None f = None"
  "bind_result (Some (Inl e)) f = Some (Inl e)"
  "bind_result (Some (Inr x)) f = f x"
  by (simp_all add: bind_result_def)

lemma bind_result_assoc: "bind_result (bind_result r f) g = bind_result r (\<lambda>x. bind_result (f x) g)"
  by (auto simp: bind_result_def split: option.splits sum.splits)

lemma bind_result_eq_Inr: "bind_result r h = Some (Inr y) \<longleftrightarrow> (\<exists>x. r = Some (Inr x) \<and> h x = Some (Inr y))"
  by (auto simp: bind_result_def split: option.splits sum.splits)

record DLIMP_Loaded_Segment =
  phdr :: Elf32_Phdr
  input_vaddr :: u32
  reloc_offset :: u32

text \<open>\<open>dependencies\<close> are the file handles of the modules it needs.\<close>

record DLIMP_Loaded_Module =
  file_handle :: u32
  gsymtab :: "Elf32_Sym list"
  gsymnum :: u32
  gstrtab :: u32
  gstrsz :: u32
  loaded_segments :: "DLIMP_Loaded_Segment list"
  dependencies :: "u32 list"
  direct_dependent_only :: bool
  lm_name :: string
  use_count :: u32
  entry_point :: u32
  fini :: u32
  fini_array :: u32
  fini_arraysz :: u32

text \<open>
  \<open>strbuf\<close> is what the buffer at \<open>strtab\<close> holds; \<open>dm_name\<close> is \<^const>\<open>None\<close> while the pointer is NULL. An index of -1 is
  all ones. The arguments \<open>argc\<close> and \<open>argv\<close>, which are stored and never used, are left out.
\<close>

record DLIMP_Dynamic_Module =
  fhdr :: Elf32_Ehdr
  strtab :: u32
  strsz :: u32
  dyntab :: "Elf32_Dyn list"
  symtab :: "Elf32_Sym list"
  symnum :: u32
  gsymtab_offset :: u32
  gstrtab_offset :: u32
  loaded_module :: DLIMP_Loaded_Module
  wrong_endian :: bool
  dsbt_index :: u32
  dsbt_size :: u32
  dsbt_base_tagidx :: u32
  dm_name :: "string option"
  dm_phdr :: "Elf32_Phdr list"
  phnum :: u32
  strbuf :: "u8 list"
  c_args :: u32
  dm_direct_dependent_only :: bool
  is_relocatable :: bool
  relocate_entry_point :: bool
  preinit_array_idx :: u32
  preinit_arraysz :: u32
  init_idx :: u32
  init_array_idx :: u32
  init_arraysz :: u32

end
