(* ===== verification/Queues.thy ===== *)
theory Queues
  imports Prelude
begin

text \<open>
  The linked queue that the loader instantiates with the macros of \<open>include/Queue.h\<close>: nodes on the
  host heap, a front and a back pointer, and a count. NULL is \<^const>\<open>None\<close>; reading a pointer that
  is NULL or freed is the failure \<open>BadNode\<close>. Whether the \<open>i\<close>th call of \<open>DLIF_malloc\<close> succeeds is the
  parameter \<open>malloc_ok i\<close>.
\<close>

datatype queue_fault = BadNode

record 'v qnode =
  node_value :: 'v
  next_ptr :: "nat option"

record 'v Queue =
  nodes :: "nat \<rightharpoonup> 'v qnode"
  fresh :: nat
  front_ptr :: "nat option"
  back_ptr :: "nat option"
  q_size :: nat

section \<open>Operations\<close>

definition initialize_queue :: "'v Queue \<Rightarrow> 'v Queue" where
  "initialize_queue q = q \<lparr> front_ptr := None, back_ptr := None, q_size := 0 \<rparr>"

definition q_malloc :: "(nat \<Rightarrow> bool) \<Rightarrow> 'v Queue \<Rightarrow> nat option \<times> 'v Queue" where
  "q_malloc malloc_ok q =
     (if malloc_ok (fresh q) then Some (fresh q) else None, q \<lparr> fresh := Suc (fresh q) \<rparr>)"

definition enqueue :: "(nat \<Rightarrow> bool) \<Rightarrow> 'v Queue \<Rightarrow> 'v \<Rightarrow> queue_fault + 'v Queue" where
  "enqueue malloc_ok q to_enqueue =
     (let q1 = q \<lparr> q_size := Suc (q_size q) \<rparr>;
          (p, q2) = q_malloc malloc_ok q1;
          linked =
            (case back_ptr q2 of
               None \<Rightarrow> Inr (q2 \<lparr> back_ptr := p, front_ptr := p \<rparr>)
             | Some b \<Rightarrow>
                 (case nodes q2 b of
                    None \<Rightarrow> Inl BadNode
                  | Some nd \<Rightarrow> Inr (q2 \<lparr> nodes := (nodes q2)(b \<mapsto> nd \<lparr> next_ptr := p \<rparr>), back_ptr := p \<rparr>)))
      in bindE linked (\<lambda>q3.
           case back_ptr q3 of
             None \<Rightarrow> Inr q3
           | Some b \<Rightarrow> Inr (q3 \<lparr> nodes := (nodes q3)(b \<mapsto> \<lparr> node_value = to_enqueue, next_ptr = None \<rparr>) \<rparr>)))"

text \<open>The value of an empty queue is a zero of the element type, here \<^const>\<open>None\<close>.\<close>

definition dequeue :: "'v Queue \<Rightarrow> queue_fault + ('v option \<times> 'v Queue)" where
  "dequeue q =
     (if q_size q = 0 then Inr (None, q)
      else case front_ptr q of
        None \<Rightarrow> Inl BadNode
      | Some f \<Rightarrow>
          (case nodes q f of
             None \<Rightarrow> Inl BadNode
           | Some nd \<Rightarrow>
               (let q1 = q \<lparr> q_size := q_size q - 1, nodes := (nodes q)(f := None) \<rparr>
                in Inr (Some (node_value nd),
                        if q_size q1 = 0 then q1 \<lparr> front_ptr := None, back_ptr := None \<rparr>
                        else q1 \<lparr> front_ptr := next_ptr nd \<rparr>))))"

text \<open>
  The search of \<open>remove\<close>: the predecessor, the node that holds the value (if any) and its successor.
  It is bounded by the number of nodes the queue counts plus one, which is enough on a queue that is
  well formed (\<open>find_node_found\<close>, \<open>find_node_missing\<close>).
\<close>

fun find_node :: "nat \<Rightarrow> (nat \<rightharpoonup> 'v qnode) \<Rightarrow> nat option \<Rightarrow> nat option \<Rightarrow> 'v \<Rightarrow>
    queue_fault + (nat option \<times> nat option \<times> nat option)" where
  "find_node 0 h prev cur v = Inl BadNode"
| "find_node (Suc fuel) h prev None v = Inr (prev, None, None)"
| "find_node (Suc fuel) h prev (Some c) v =
     (case h c of
        None \<Rightarrow> Inl BadNode
      | Some nd \<Rightarrow>
          if node_value nd = v then Inr (prev, Some c, next_ptr nd)
          else find_node fuel h (Some c) (next_ptr nd) v)"

definition remove :: "'v Queue \<Rightarrow> 'v \<Rightarrow> queue_fault + 'v Queue" where
  "remove q to_remove =
     bindE (find_node (Suc (q_size q)) (nodes q) None (front_ptr q) to_remove) (\<lambda>(prev_p, curr_p, next_p).
       let q1 =
         (case curr_p of
            None \<Rightarrow> q
          | Some c \<Rightarrow>
              q \<lparr> nodes := (case prev_p of
                              None \<Rightarrow> nodes q
                            | Some p \<Rightarrow> (nodes q)(p := map_option (next_ptr_update (\<lambda>_. next_p)) (nodes q p)))(c := None),
                  q_size := q_size q - 1 \<rparr>)
       in Inr (if q_size q1 = 0 then q1 \<lparr> front_ptr := None, back_ptr := None \<rparr>
               else (let q2 = (if prev_p = None then q1 \<lparr> front_ptr := next_p \<rparr> else q1)
                     in if next_p = None then q2 \<lparr> back_ptr := prev_p \<rparr> else q2)))"

section \<open>Well-formed queues\<close>

text \<open>\<open>path h p rs\<close>: from \<open>p\<close>, the nodes \<open>rs\<close> are linked in this order up to NULL.\<close>

fun path :: "(nat \<rightharpoonup> 'v qnode) \<Rightarrow> nat option \<Rightarrow> nat list \<Rightarrow> bool" where
  "path h p [] = (p = None)"
| "path h p (r # rs) = (p = Some r \<and> (case h r of None \<Rightarrow> False | Some nd \<Rightarrow> path h (next_ptr nd) rs))"

definition q_ok :: "'v Queue \<Rightarrow> nat list \<Rightarrow> bool" where
  "q_ok q rs \<longleftrightarrow>
     path (nodes q) (front_ptr q) rs \<and> distinct rs \<and> q_size q = length rs \<and>
     back_ptr q = (if rs = [] then None else Some (last rs)) \<and>
     (\<forall>r \<in> dom (nodes q). r < fresh q)"

definition q_values :: "'v Queue \<Rightarrow> nat list \<Rightarrow> 'v list" where
  "q_values q rs = map (\<lambda>r. node_value (the (nodes q r))) rs"

lemma path_upd: "r \<notin> set rs \<Longrightarrow> path (h(r := x)) p rs = path h p rs"
  by (induction rs arbitrary: p) (auto split: option.splits)

lemma path_dom: "path h p rs \<Longrightarrow> set rs \<subseteq> dom h"
  by (induction rs arbitrary: p) (auto split: option.splits)

lemma path_snoc:
  "path h p (rs @ [r]) \<Longrightarrow> distinct (rs @ [r]) \<Longrightarrow> n \<notin> set (rs @ [r]) \<Longrightarrow>
   path (h(r \<mapsto> (the (h r)) \<lparr> next_ptr := Some n \<rparr>, n \<mapsto> \<lparr> node_value = v, next_ptr = None \<rparr>)) p (rs @ [r, n])"
  by (induction rs arbitrary: p) (auto split: option.splits)

lemma initialize_queue_ok:
  "(\<forall>r \<in> dom (nodes q). r < fresh q) \<Longrightarrow> q_ok (initialize_queue q) []"
  by (simp add: initialize_queue_def q_ok_def)

lemma enqueue_ok:
  assumes ok: "q_ok q rs" and m: "malloc_ok (fresh q)"
  shows "\<exists>q'. enqueue malloc_ok q v = Inr q' \<and> q_ok q' (rs @ [fresh q]) \<and>
    q_values q' (rs @ [fresh q]) = q_values q rs @ [v]"
proof -
  have new: "fresh q \<notin> set rs" and dom: "set rs \<subseteq> dom (nodes q)"
    using ok path_dom by (fastforce simp: q_ok_def)+
  show ?thesis
  proof (cases rs rule: rev_cases)
    case Nil
    with ok m show ?thesis
      by (fastforce simp: enqueue_def q_malloc_def q_ok_def q_values_def Let_def less_Suc_eq)
  next
    case (snoc xs r)
    then obtain nd where nd: "nodes q r = Some nd" using dom by auto
    have p: "path (nodes q) (front_ptr q) (xs @ [r])" "distinct (xs @ [r])"
      using ok snoc by (simp_all add: q_ok_def)
    have "q_values q' (rs @ [fresh q]) = q_values q rs @ [v]"
      if "nodes q' = (nodes q)(r \<mapsto> nd \<lparr> next_ptr := Some (fresh q) \<rparr>,
            fresh q \<mapsto> \<lparr> node_value = v, next_ptr = None \<rparr>)" for q'
      using that new nd by (auto simp: q_values_def)
    with ok m snoc nd new path_snoc [OF p, of "fresh q" v] show ?thesis
      by (auto simp: enqueue_def q_malloc_def q_ok_def Let_def less_Suc_eq)
  qed
qed

lemma dequeue_ok:
  assumes ok: "q_ok q (r # rs)"
  shows "\<exists>q'. dequeue q = Inr (Some (node_value (the (nodes q r))), q') \<and> q_ok q' rs \<and> q_values q' rs = q_values q rs"
proof -
  from ok obtain nd where nd: "nodes q r = Some nd" "path (nodes q) (next_ptr nd) rs" "r \<notin> set rs"
    by (auto simp: q_ok_def split: option.splits)
  then have "path ((nodes q)(r := None)) (next_ptr nd) rs"
    by (simp add: path_upd)
  with ok nd show ?thesis
    by (cases rs) (auto simp: dequeue_def q_ok_def q_values_def Let_def split: option.splits)
qed

lemma dequeue_empty: "q_ok q [] \<Longrightarrow> dequeue q = Inr (None, q)"
  by (simp add: dequeue_def q_ok_def)

subsection \<open>Removal\<close>

definition last_or :: "nat option \<Rightarrow> nat list \<Rightarrow> nat option" where
  "last_or p xs = (if xs = [] then p else Some (last xs))"

lemma last_or_simps [simp]: "last_or p [] = p" "last_or p (x # xs) = last_or (Some x) xs"
  by (simp_all add: last_or_def)

lemma find_node_found:
  "path h p (xs @ r # ys) \<Longrightarrow> \<forall>x \<in> set xs. node_value (the (h x)) \<noteq> v \<Longrightarrow>
   node_value (the (h r)) = v \<Longrightarrow> length xs < fuel \<Longrightarrow>
   find_node fuel h prev p v = Inr (last_or prev xs, Some r, next_ptr (the (h r)))"
proof (induction xs arbitrary: fuel prev p)
  case Nil
  then show ?case by (cases fuel) (auto split: option.splits)
next
  case (Cons x xs)
  then show ?case by (cases fuel) (auto split: option.splits)
qed

lemma find_node_missing:
  "path h p xs \<Longrightarrow> \<forall>x \<in> set xs. node_value (the (h x)) \<noteq> v \<Longrightarrow> length xs < fuel \<Longrightarrow>
   find_node fuel h prev p v = Inr (last_or prev xs, None, None)"
proof (induction xs arbitrary: fuel prev p)
  case Nil
  then show ?case by (cases fuel) auto
next
  case (Cons x xs)
  then show ?case by (cases fuel) (auto split: option.splits)
qed

lemma path_append:
  "path h p (xs @ ys) \<Longrightarrow> path h (if xs = [] then p else next_ptr (the (h (last xs)))) ys"
  by (induction xs arbitrary: p) (auto split: option.splits)

lemma path_unlink:
  "path h p (xs @ r # ys) \<Longrightarrow> distinct (xs @ r # ys) \<Longrightarrow> xs \<noteq> [] \<Longrightarrow>
   path (h(last xs := map_option (next_ptr_update (\<lambda>_. next_ptr (the (h r)))) (h (last xs)))) p (xs @ ys)"
proof (induction xs arbitrary: p)
  case (Cons x xs)
  then obtain nd where nd: "h x = Some nd" "path h (next_ptr nd) (xs @ r # ys)"
    by (auto split: option.splits)
  show ?case
  proof (cases "xs = []")
    case True
    with Cons.prems nd obtain rd where "h r = Some rd" "path h (next_ptr rd) ys"
      by (auto split: option.splits)
    moreover from this True Cons.prems have "path (h(x := z)) (next_ptr rd) ys" for z
      by (subst path_upd) auto
    ultimately show ?thesis using True Cons.prems nd by (simp del: fun_upd_apply) simp
  next
    case False
    with Cons nd have "x \<noteq> last xs" by (metis Un_iff distinct.simps(2) last_in_set set_append append_Cons)
    with False Cons nd show ?thesis by auto
  qed
qed simp

lemma remove1_map_first:
  "\<forall>x \<in> set xs. f x \<noteq> v \<Longrightarrow> f r = v \<Longrightarrow> remove1 v (map f (xs @ r # ys)) = map f (xs @ ys)"
  by (induction xs) auto

lemma path_head: "path h p rs \<Longrightarrow> p = (if rs = [] then None else Some (hd rs))"
  by (cases rs) auto

lemma remove_missing:
  assumes ok: "q_ok q rs" and v: "\<forall>r \<in> set rs. node_value (the (nodes q r)) \<noteq> v"
  shows "remove q v = Inr q"
proof -
  have "find_node (Suc (q_size q)) (nodes q) None (front_ptr q) v = Inr (last_or None rs, None, None)"
    using ok v by (intro find_node_missing) (auto simp: q_ok_def)
  with ok show ?thesis
    by (cases q; cases rs) (auto simp: remove_def q_ok_def last_or_def)
qed

lemma remove_found:
  assumes ok: "q_ok q (xs @ r # ys)" and v: "\<forall>x \<in> set xs. node_value (the (nodes q x)) \<noteq> v"
    and r: "node_value (the (nodes q r)) = v"
  shows "\<exists>q'. remove q v = Inr q' \<and> q_ok q' (xs @ ys) \<and> q_values q' (xs @ ys) = q_values q (xs @ ys)"
proof -
  let ?nx = "next_ptr (the (nodes q r))"
  have p: "path (nodes q) (front_ptr q) (xs @ r # ys)" and d: "distinct (xs @ r # ys)"
    using ok by (simp_all add: q_ok_def)
  have find: "find_node (Suc (q_size q)) (nodes q) None (front_ptr q) v = Inr (last_or None xs, Some r, ?nx)"
    using ok v r by (intro find_node_found [OF p]) (auto simp: q_ok_def)
  have tail: "path (nodes q) ?nx ys"
    using path_append [of "nodes q" "front_ptr q" "xs @ [r]" ys] p by simp
  have nx: "?nx = None \<longleftrightarrow> ys = []" using path_head [OF tail] by auto
  show ?thesis
  proof (cases "xs = []")
    case True
    have "path ((nodes q)(r := None)) ?nx ys" using tail d by (simp add: path_upd)
    with True ok find nx show ?thesis
      by (auto simp: remove_def q_ok_def q_values_def last_or_def Let_def)
  next
    case False
    let ?h = "(nodes q)(last xs := map_option (next_ptr_update (\<lambda>_. ?nx)) (nodes q (last xs)))"
    have "path (?h(r := None)) (front_ptr q) (xs @ ys)"
      using path_unlink [OF p d False] d by (simp add: path_upd)
    moreover have "node_value (the ((?h(r := None)) x)) = node_value (the (nodes q x))" if "x \<in> set (xs @ ys)" for x
      using that d path_dom [OF p] by auto
    moreover have "\<forall>x \<in> dom (?h(r := None)). x < fresh q"
      using ok by (auto simp: q_ok_def split: if_splits)
    moreover have "remove q v = Inr (q \<lparr> nodes := ?h(r := None), q_size := q_size q - 1,
        back_ptr := if ys = [] then Some (last xs) else back_ptr q \<rparr>)"
      using False find nx ok by (cases q) (auto simp: remove_def last_or_def Let_def q_ok_def)
    ultimately show ?thesis
      using False ok d by (simp add: q_ok_def q_values_def del: fun_upd_apply)
  qed
qed

lemma remove_ok:
  assumes ok: "q_ok q rs"
  shows "\<exists>q' rs'. remove q v = Inr q' \<and> q_ok q' rs' \<and> q_values q' rs' = remove1 v (q_values q rs)"
proof (cases "\<exists>r \<in> set rs. node_value (the (nodes q r)) = v")
  case True
  then obtain xs r ys where rs: "rs = xs @ r # ys" "node_value (the (nodes q r)) = v"
      "\<forall>x \<in> set xs. node_value (the (nodes q x)) \<noteq> v"
    using split_list_first_prop [OF True] by blast
  then have "remove1 v (q_values q rs) = q_values q (xs @ ys)"
    unfolding q_values_def rs(1) by (intro remove1_map_first) auto
  with remove_found [of q xs r ys v] ok rs show ?thesis by auto
next
  case False
  then have "v \<notin> set (q_values q rs)" by (auto simp: q_values_def)
  with remove_missing [OF ok, of v] False ok show ?thesis by (auto simp: remove1_idem)
qed

section \<open>The interface the loader uses\<close>

text \<open>A first-in first-out queue, described by the list of values it holds.\<close>

fun put_all :: "('q \<Rightarrow> 'v \<Rightarrow> 'e + 'q) \<Rightarrow> 'q \<Rightarrow> 'v list \<Rightarrow> 'e + 'q" where
  "put_all enq q [] = Inr q"
| "put_all enq q (v # vs) = bindE (enq q v) (\<lambda>q'. put_all enq q' vs)"

fun take_n :: "('q \<Rightarrow> 'e + ('v option \<times> 'q)) \<Rightarrow> nat \<Rightarrow> 'q \<Rightarrow> 'e + ('v option list \<times> 'q)" where
  "take_n deq 0 q = Inr ([], q)"
| "take_n deq (Suc n) q =
     bindE (deq q) (\<lambda>(v, q'). bindE (take_n deq n q') (\<lambda>(vs, q''). Inr (v # vs, q'')))"

locale fifo =
  fixes enq :: "'q \<Rightarrow> 'v \<Rightarrow> 'e + 'q"
    and deq :: "'q \<Rightarrow> 'e + ('v option \<times> 'q)"
    and holds :: "'q \<Rightarrow> 'v list \<Rightarrow> bool"
  assumes enq_holds: "holds q vs \<Longrightarrow> \<exists>q'. enq q v = Inr q' \<and> holds q' (vs @ [v])"
    and deq_holds: "holds q (v # vs) \<Longrightarrow> \<exists>q'. deq q = Inr (Some v, q') \<and> holds q' vs"
    and deq_none: "holds q [] \<Longrightarrow> deq q = Inr (None, q)"
begin

lemma put_all_holds: "holds q us \<Longrightarrow> \<exists>q'. put_all enq q vs = Inr q' \<and> holds q' (us @ vs)"
proof (induction vs arbitrary: q us)
  case (Cons v vs)
  obtain q1 where "enq q v = Inr q1" "holds q1 (us @ [v])"
    using enq_holds [OF Cons.prems] by blast
  with Cons.IH [of q1 "us @ [v]"] show ?case by auto
qed simp

lemma take_n_holds: "holds q vs \<Longrightarrow> \<exists>q'. take_n deq (length vs) q = Inr (map Some vs, q') \<and> holds q' []"
proof (induction vs arbitrary: q)
  case (Cons v vs)
  obtain q1 where "deq q = Inr (Some v, q1)" "holds q1 vs"
    using deq_holds [OF Cons.prems] by blast
  with Cons.IH [of q1] show ?case by auto
qed simp

lemma first_in_first_out:
  assumes "holds q us"
  shows "\<exists>q' q''. put_all enq q vs = Inr q' \<and>
    take_n deq (length (us @ vs)) q' = Inr (map Some (us @ vs), q'') \<and> deq q'' = Inr (None, q'')"
  using put_all_holds [OF assms, of vs] take_n_holds deq_none by blast

end

definition q_holds :: "'v Queue \<Rightarrow> 'v list \<Rightarrow> bool" where
  "q_holds q vs \<longleftrightarrow> (\<exists>rs. q_ok q rs \<and> q_values q rs = vs)"

interpretation loader_queue: fifo "enqueue (\<lambda>_. True)" dequeue q_holds
proof
  fix q :: "'a Queue" and vs v
  assume "q_holds q vs"
  then show "\<exists>q'. enqueue (\<lambda>_. True) q v = Inr q' \<and> q_holds q' (vs @ [v])"
    unfolding q_holds_def using enqueue_ok [of q _ "\<lambda>_. True" v] by blast
next
  fix q :: "'a Queue" and vs v
  assume "q_holds q (v # vs)"
  then obtain r rs where "q_ok q (r # rs)" "v = node_value (the (nodes q r))" "q_values q rs = vs"
    by (auto simp: q_holds_def q_values_def)
  then show "\<exists>q'. dequeue q = Inr (Some v, q') \<and> q_holds q' vs"
    using dequeue_ok [of q r rs] by (auto simp: q_holds_def)
next
  fix q :: "'a Queue"
  assume "q_holds q []"
  then show "dequeue q = Inr (None, q)"
    by (auto simp: q_holds_def q_values_def dequeue_empty)
qed

text \<open>While the host has memory, a queue gives back the values put into it in the order they were put,
  and then reports that it is empty.\<close>

theorem queue_first_in_first_out:
  assumes "q_ok q rs"
  shows "\<exists>q1 q2. put_all (enqueue (\<lambda>_. True)) q vs = Inr q1 \<and>
           take_n dequeue (length (q_values q rs @ vs)) q1 = Inr (map Some (q_values q rs @ vs), q2) \<and>
           dequeue q2 = Inr (None, q2)"
  using loader_queue.first_in_first_out [of q "q_values q rs" vs] assms by (auto simp: q_holds_def)

definition one_value_queue :: "nat Queue" where
  "one_value_queue = \<lparr> nodes = [0 \<mapsto> \<lparr> node_value = 7, next_ptr = None \<rparr>], fresh = 1, front_ptr = Some 0,
     back_ptr = Some 0, q_size = 1 \<rparr>"

lemma one_value_queue_ok: "q_ok one_value_queue [0]"
  by (simp add: one_value_queue_def q_ok_def)

theorem queue_first_in_first_out_witness:
  "\<exists>q1 q2. put_all (enqueue (\<lambda>_. True)) one_value_queue [8, 9] = Inr q1 \<and>
     take_n dequeue (length (q_values one_value_queue [0] @ [8, 9])) q1 =
       Inr (map Some (q_values one_value_queue [0] @ [8, 9]), q2) \<and>
     dequeue q2 = Inr (None, q2)"
  by (rule queue_first_in_first_out [OF one_value_queue_ok])

text \<open>\<open>remove\<close> takes the first node with the value out of the queue, keeps the others in their order, and
  leaves the queue as it is if there is no such node.\<close>

theorem queue_remove_first:
  assumes "q_ok q rs"
  shows "\<exists>q1 rs1. remove q v = Inr q1 \<and> q_ok q1 rs1 \<and> q_values q1 rs1 = remove1 v (q_values q rs)"
  using remove_ok [OF assms] .

theorem queue_remove_first_witness:
  "\<exists>q1 rs1. remove one_value_queue 7 = Inr q1 \<and> q_ok q1 rs1 \<and>
     q_values q1 rs1 = remove1 7 (q_values one_value_queue [0])"
  by (rule queue_remove_first [OF one_value_queue_ok])

end
