(* ===== verification/Symtab.thy ===== *)
theory Symtab
  imports Modules Queues
begin

text \<open>
  Symbol tables and symbol lookup (\<open>elfload/symtab.c\<close>).

  Names are C strings in memory; after loading, \<open>st_name\<close> holds the address of the name. A symbol table is the
  list of the entries in memory, and reading behind it is the failure \<open>OutOfTable\<close>. The queue of loaded
  modules is the list of its modules in queue order; a walk that leaves it (a NULL node) is \<open>NullNode\<close>.
  The outer option of a result is \<^const>\<open>None\<close> when the code does not return. \<open>DLIF_error\<close> prints a
  message and has no other effect, so it is left out.
\<close>

text \<open>\<open>strcmp (a, b) == 0\<close>.\<close>

partial_function (option) strcmp_eq :: "mem \<Rightarrow> u32 \<Rightarrow> u32 \<Rightarrow> bool option" where [code]:
  "strcmp_eq m a b =
     (if read8 m a \<noteq> read8 m b then Some False
      else if read8 m a = 0 then Some True
      else strcmp_eq m (a + 1) (b + 1))"

section \<open>Lookup in one table\<close>

text \<open>The flag tells whether the symbol was found; the number is what is stored in \<open>sym_value\<close>.\<close>

fun DLSYM_lookup_symtab ::
    "mem \<Rightarrow> u32 \<Rightarrow> Elf32_Sym list \<Rightarrow> nat \<Rightarrow> bool \<Rightarrow> (load_fault + bool \<times> u32) option" where
  "DLSYM_lookup_symtab m sym_name tab 0 require_local_binding = Some (Inr (False, 0))"
| "DLSYM_lookup_symtab m sym_name [] (Suc n) require_local_binding = Some (Inl OutOfTable)"
| "DLSYM_lookup_symtab m sym_name (esym # tab) (Suc n) require_local_binding =
     (if st_shndx esym \<noteq> SHN_UNDEF \<and>
         ((require_local_binding \<and> ELF32_ST_BIND (st_info esym) = STB_LOCAL) \<or>
          (\<not> require_local_binding \<and> ELF32_ST_BIND (st_info esym) \<noteq> STB_LOCAL))
      then
        (case strcmp_eq m sym_name (st_name esym) of
           None \<Rightarrow> None
         | Some same \<Rightarrow>
             if same then Some (Inr (True, st_value esym))
             else DLSYM_lookup_symtab m sym_name tab n require_local_binding)
      else DLSYM_lookup_symtab m sym_name tab n require_local_binding)"

definition DLSYM_lookup_global_symtab ::
    "mem \<Rightarrow> u32 \<Rightarrow> Elf32_Sym list \<Rightarrow> u32 \<Rightarrow> (load_fault + bool \<times> u32) option" where
  "DLSYM_lookup_global_symtab m sym_name tab num = DLSYM_lookup_symtab m sym_name tab (unat num) False"

definition DLSYM_lookup_local_symtab ::
    "mem \<Rightarrow> u32 \<Rightarrow> Elf32_Sym list \<Rightarrow> u32 \<Rightarrow> (load_fault + bool \<times> u32) option" where
  "DLSYM_lookup_local_symtab m sym_name tab num = DLSYM_lookup_symtab m sym_name tab (unat num) True"

section \<open>Lookup in the modules\<close>

fun find_module :: "u32 \<Rightarrow> DLIMP_Loaded_Module list \<Rightarrow> load_fault + DLIMP_Loaded_Module" where
  "find_module h [] = Inl NullNode"
| "find_module h (md # mods) = (if file_handle md = h then Inr md else find_module h mods)"

text \<open>
  The search of the direct dependents. The value that a failed lookup in a table stores is 0; with no
  dependents \<open>sym_value\<close> keeps what it holds, the argument \<open>v\<close>.
\<close>

fun direct_lookup ::
    "mem \<Rightarrow> u32 \<Rightarrow> DLIMP_Loaded_Module list \<Rightarrow> u32 list \<Rightarrow> u32 \<Rightarrow> (load_fault + bool \<times> u32) option" where
  "direct_lookup m sym_name mods [] v = Some (Inr (False, v))"
| "direct_lookup m sym_name mods (h # hs) v =
     (case find_module h mods of
        Inl e \<Rightarrow> Some (Inl e)
      | Inr md \<Rightarrow>
          (case DLSYM_lookup_global_symtab m sym_name (gsymtab md) (gsymnum md) of
             None \<Rightarrow> None
           | Some (Inl e) \<Rightarrow> Some (Inl e)
           | Some (Inr (True, x)) \<Rightarrow> Some (Inr (True, x))
           | Some (Inr (False, x)) \<Rightarrow> direct_lookup m sym_name mods hs x))"

text \<open>
  The breadth-first search. The node of the dequeued handle is looked for with \<open>mod_node++\<close>, which moves
  behind the front node in memory rather than to its successor: unless the front module is the one
  looked for, the code reads memory that is no node (\<open>WildNode\<close>). The dependents put on the queue are those
  of the front module, counted by the module found.
\<close>

fun enqueue_all :: "(nat \<Rightarrow> bool) \<Rightarrow> u32 list \<Rightarrow> u32 Queue \<Rightarrow> load_fault + u32 Queue" where
  "enqueue_all malloc_ok [] q = Inr q"
| "enqueue_all malloc_ok (h # hs) q =
     (case enqueue malloc_ok q h of
        Inl _ \<Rightarrow> Inl BadQueue
      | Inr q1 \<Rightarrow> enqueue_all malloc_ok hs q1)"

definition empty_queue :: "'v Queue" where
  "empty_queue = initialize_queue \<lparr> nodes = (\<lambda>_. None), fresh = 0, front_ptr = None, back_ptr = None, q_size = 0 \<rparr>"

partial_function (option) bfs_loop ::
    "(nat \<Rightarrow> bool) \<Rightarrow> mem \<Rightarrow> u32 \<Rightarrow> DLIMP_Loaded_Module list \<Rightarrow> u32 Queue \<Rightarrow> u32 \<Rightarrow>
     (load_fault + bool \<times> u32) option" where [code]:
  "bfs_loop malloc_ok m sym_name mods q v =
     (if q_size q = 0 then Some (Inr (False, v))
      else
        (case mods of
           [] \<Rightarrow> Some (Inl NullNode)
         | front # _ \<Rightarrow>
             (case dequeue q of
                Inl _ \<Rightarrow> Some (Inl BadQueue)
              | Inr (h, q1) \<Rightarrow>
                  if h \<noteq> Some (file_handle front) then Some (Inl WildNode)
                  else
                    (case DLSYM_lookup_global_symtab m sym_name (gsymtab front) (gsymnum front) of
                       None \<Rightarrow> None
                     | Some (Inl e) \<Rightarrow> Some (Inl e)
                     | Some (Inr (found, x)) \<Rightarrow>
                         if found then Some (Inr (True, x))
                         else
                           (case enqueue_all malloc_ok (dependencies front) q1 of
                              Inl e \<Rightarrow> Some (Inl e)
                            | Inr q2 \<Rightarrow> bfs_loop malloc_ok m sym_name mods q2 x)))))"

definition breadth_first_lookup ::
    "(nat \<Rightarrow> bool) \<Rightarrow> mem \<Rightarrow> DLIMP_Loaded_Module list \<Rightarrow> u32 \<Rightarrow> u32 \<Rightarrow> u32 \<Rightarrow> (load_fault + bool \<times> u32) option" where
  "breadth_first_lookup malloc_ok m mods sym_name handle v =
     (case enqueue malloc_ok empty_queue handle of
        Inl _ \<Rightarrow> Some (Inl BadQueue)
      | Inr q \<Rightarrow> bfs_loop malloc_ok m sym_name mods q v)"

text \<open>The application's handle is the global \<open>DLIMP_application_handle\<close>.\<close>

definition DLSYM_global_lookup ::
    "(nat \<Rightarrow> bool) \<Rightarrow> mem \<Rightarrow> u32 \<Rightarrow> DLIMP_Loaded_Module list \<Rightarrow> u32 \<Rightarrow> DLIMP_Loaded_Module \<Rightarrow> u32 \<Rightarrow>
     (load_fault + bool \<times> u32) option" where
  "DLSYM_global_lookup malloc_ok m application_handle mods sym_name module v =
     (if direct_dependent_only module
      then direct_lookup m sym_name mods (dependencies module) v
      else breadth_first_lookup malloc_ok m mods sym_name application_handle v)"

definition DLSYM_canonical_lookup ::
    "(nat \<Rightarrow> bool) \<Rightarrow> mem \<Rightarrow> u32 \<Rightarrow> DLIMP_Loaded_Module list \<Rightarrow> nat \<Rightarrow> DLIMP_Dynamic_Module \<Rightarrow> u32 \<Rightarrow>
     (load_fault + bool \<times> u32) option" where
  "DLSYM_canonical_lookup malloc_ok m application_handle mods sym_index dyn_module v =
     (if length (symtab dyn_module) \<le> sym_index then Some (Inl OutOfTable)
      else
        let esym = symtab dyn_module ! sym_index;
            st_bind = ELF32_ST_BIND (st_info esym);
            st_vis = ELF32_ST_VISIBILITY (st_other esym);
            is_def = (st_shndx esym \<noteq> SHN_UNDEF \<and>
                      (st_shndx esym < SHN_LORESERVE \<or> st_shndx esym = SHN_XINDEX))
        in if st_bind = STB_LOCAL \<or> st_vis \<noteq> STV_DEFAULT then
             (if \<not> is_def then Some (Inr (False, v)) else Some (Inr (True, st_value esym)))
           else DLSYM_global_lookup malloc_ok m application_handle mods (st_name esym)
                  (loaded_module dyn_module) v)"

section \<open>Copying the global symbols\<close>

text \<open>
  The results of the two calls of \<open>DLIF_malloc\<close> are arguments: whether there is memory for the table, and the
  address of the memory for the names (0 for NULL). The bytes are copied in ascending order, as \<open>memcpy\<close>
  may do on areas that do not overlap.
\<close>

fun copy_bytes :: "u32 \<Rightarrow> u32 \<Rightarrow> nat \<Rightarrow> mem \<Rightarrow> mem" where
  "copy_bytes dst src 0 m = m"
| "copy_bytes dst src (Suc n) m = copy_bytes (dst + 1) (src + 1) n (m(dst := m src))"

definition DLSYM_copy_globals ::
    "bool \<Rightarrow> u32 \<Rightarrow> mem \<Rightarrow> DLIMP_Dynamic_Module \<Rightarrow> load_fault + mem \<times> DLIMP_Dynamic_Module" where
  "DLSYM_copy_globals table_ok names m dyn_module =
     (let global_index = gsymtab_offset dyn_module div 16;
          global_symnum = symnum dyn_module - global_index;
          tab = take (unat global_symnum) (drop (unat global_index) (symtab dyn_module));
          sz = strsz dyn_module - gstrtab_offset dyn_module;
          m1 = (if names \<noteq> 0 then copy_bytes names (strtab dyn_module + gstrtab_offset dyn_module) (unat sz) m else m);
          rebase = (\<lambda>esym. esym \<lparr> st_name :=
                      (st_name esym - strtab dyn_module) - gstrtab_offset dyn_module + names \<rparr>)
      in if length tab \<noteq> unat global_symnum then Inl OutOfTable
         else Inr (m1, dyn_module \<lparr> loaded_module := (loaded_module dyn_module)
                \<lparr> gsymtab := (if table_ok then map rebase tab else []), gsymnum := global_symnum,
                  gstrsz := sz, gstrtab := names \<rparr> \<rparr>))"

section \<open>Names\<close>

text \<open>\<open>str_at m a cs\<close>: the C string at \<open>a\<close> is \<open>cs\<close>.\<close>

fun str_at :: "mem \<Rightarrow> u32 \<Rightarrow> u8 list \<Rightarrow> bool" where
  "str_at m a [] \<longleftrightarrow> read8 m a = 0"
| "str_at m a (c # cs) \<longleftrightarrow> c \<noteq> 0 \<and> read8 m a = c \<and> str_at m (a + 1) cs"

lemma strcmp_eq_strs: "str_at m a s \<Longrightarrow> str_at m b t \<Longrightarrow> strcmp_eq m a b = Some (s = t)"
proof (induction s arbitrary: a b t)
  case Nil
  then show ?case by (cases t) (auto simp: strcmp_eq.simps [of m a b])
next
  case (Cons c s)
  show ?case
  proof (cases t)
    case Nil
    then show ?thesis using Cons.prems by (auto simp: strcmp_eq.simps [of m a b])
  next
    case (Cons d u)
    then show ?thesis using Cons.IH [of "a + 1" "b + 1" u] Cons.prems \<open>str_at m a (c # s)\<close>
      by (auto simp: strcmp_eq.simps [of m a b])
  qed
qed

lemma str_at_unique: "str_at m a s \<Longrightarrow> str_at m a t \<Longrightarrow> s = t"
proof (induction s arbitrary: a t)
  case Nil then show ?case by (cases t) auto
next
  case (Cons c s) then show ?case by (cases t) auto
qed

section \<open>What a lookup finds\<close>

definition eligible :: "bool \<Rightarrow> Elf32_Sym \<Rightarrow> bool" where
  "eligible local_binding esym \<longleftrightarrow>
     st_shndx esym \<noteq> SHN_UNDEF \<and> (ELF32_ST_BIND (st_info esym) = STB_LOCAL \<longleftrightarrow> local_binding)"

definition sym_defines :: "mem \<Rightarrow> bool \<Rightarrow> u8 list \<Rightarrow> Elf32_Sym \<Rightarrow> bool" where
  "sym_defines m local_binding s esym \<longleftrightarrow> eligible local_binding esym \<and> str_at m (st_name esym) s"

definition named :: "mem \<Rightarrow> Elf32_Sym list \<Rightarrow> bool" where
  "named m tab \<longleftrightarrow> (\<forall>esym \<in> set tab. \<exists>t. str_at m (st_name esym) t)"

definition first_definition :: "mem \<Rightarrow> bool \<Rightarrow> u8 list \<Rightarrow> Elf32_Sym list \<Rightarrow> u32 option" where
  "first_definition m local_binding s tab = map_option st_value (List.find (sym_defines m local_binding s) tab)"

definition looked_up :: "u32 option \<Rightarrow> (load_fault + bool \<times> u32) option" where
  "looked_up r = Some (Inr (case r of None \<Rightarrow> (False, 0) | Some v \<Rightarrow> (True, v)))"

lemma lookup_first:
  assumes "str_at m nm s" "n \<le> length tab" "named m (take n tab)"
  shows "DLSYM_lookup_symtab m nm tab n loc = looked_up (first_definition m loc s (take n tab))"
  using assms(2,3)
proof (induction tab arbitrary: n)
  case Nil then show ?case by (simp add: looked_up_def first_definition_def)
next
  case (Cons esym tab)
  show ?case
  proof (cases n)
    case 0 then show ?thesis by (simp add: looked_up_def first_definition_def)
  next
    case (Suc k)
    have IH: "DLSYM_lookup_symtab m nm tab k loc = looked_up (first_definition m loc s (take k tab))"
      using Cons.IH [of k] Cons.prems Suc by (simp add: named_def)
    obtain t where t: "str_at m (st_name esym) t" using Cons.prems(2) Suc by (auto simp: named_def)
    have "str_at m (st_name esym) s \<longleftrightarrow> s = t" using t str_at_unique by blast
    then show ?thesis
      using IH strcmp_eq_strs [OF assms(1) t] Suc
      by (auto simp: first_definition_def sym_defines_def eligible_def looked_up_def)
  qed
qed

definition table_of :: "DLIMP_Loaded_Module \<Rightarrow> Elf32_Sym list" where
  "table_of md = take (unat (gsymnum md)) (gsymtab md)"

definition module_ok :: "mem \<Rightarrow> DLIMP_Loaded_Module \<Rightarrow> bool" where
  "module_ok m md \<longleftrightarrow> unat (gsymnum md) \<le> length (gsymtab md) \<and> named m (table_of md)"

lemma lookup_global_module:
  "str_at m nm s \<Longrightarrow> module_ok m md \<Longrightarrow>
     DLSYM_lookup_global_symtab m nm (gsymtab md) (gsymnum md) = looked_up (first_definition m False s (table_of md))"
  by (simp add: DLSYM_lookup_global_symtab_def module_ok_def table_of_def lookup_first)

lemma find_module_find:
  "find_module h mods = (case List.find (\<lambda>md. file_handle md = h) mods of None \<Rightarrow> Inl NullNode | Some md \<Rightarrow> Inr md)"
  by (induction mods) auto

fun search_in_order :: "mem \<Rightarrow> u8 list \<Rightarrow> DLIMP_Loaded_Module list \<Rightarrow> u32 option" where
  "search_in_order m s [] = None"
| "search_in_order m s (md # mods) =
     (case first_definition m False s (table_of md) of
        None \<Rightarrow> search_in_order m s mods
      | Some v \<Rightarrow> Some v)"

lemma direct_lookup_order:
  assumes "str_at m nm s" "\<forall>md \<in> set mods. module_ok m md"
    and "list_all2 (\<lambda>h md. List.find (\<lambda>x. file_handle x = h) mods = Some md) hs deps" "v = 0"
  shows "direct_lookup m nm mods hs v = looked_up (search_in_order m s deps)"
  using assms(3,4)
proof (induction hs deps arbitrary: v rule: list_all2_induct)
  case Nil then show ?case by (simp add: looked_up_def)
next
  case (Cons h hs md deps)
  then have "module_ok m md" using assms(2) by (auto simp: find_Some_iff)
  then show ?case
    using Cons lookup_global_module [OF assms(1)]
    by (auto simp: find_module_find looked_up_def split: option.splits)
qed

section \<open>Copied names\<close>

definition apart :: "u32 \<Rightarrow> nat \<Rightarrow> u32 \<Rightarrow> nat \<Rightarrow> bool" where
  "apart a n b k \<longleftrightarrow> (\<forall>i < n. \<forall>j < k. a + word_of_nat i \<noteq> b + word_of_nat j)"

lemma apartD: "apart a n b k \<Longrightarrow> i < n \<Longrightarrow> j < k \<Longrightarrow> a + word_of_nat i \<noteq> b + word_of_nat j"
  by (simp add: apart_def)

lemma apart_ranges:
  assumes "unat a + n \<le> unat b \<or> unat b + k \<le> unat a" "unat a + n \<le> 2 ^ 32" "unat b + k \<le> 2 ^ 32"
  shows "apart a n b k"
  unfolding apart_def
proof (intro allI impI notI)
  fix i j assume ij: "i < n" "j < k" and eq: "a + word_of_nat i = b + word_of_nat j"
  have "unat (a + word_of_nat i) = unat a + i" "unat (b + word_of_nat j) = unat b + j"
    using assms(2,3) ij by (simp_all add: unat_word_ariths unat_of_nat)
  then have "unat a + i = unat b + j" using arg_cong [OF eq, of unat] by (simp only:)
  then show False using assms(1) ij by auto
qed

lemma copy_bytes_outside:
  "\<forall>i < n. x \<noteq> dst + word_of_nat i \<Longrightarrow> copy_bytes dst src n m x = m x"
proof (induction n arbitrary: dst src m)
  case (Suc n)
  have "x \<noteq> dst" using Suc.prems by force
  moreover have "x \<noteq> dst + 1 + word_of_nat i" if "i < n" for i
    using Suc.prems that by (auto simp: add.assoc dest: spec [of _ "Suc i"])
  ultimately show ?case using Suc.IH [of "dst + 1"] by simp
qed simp

lemma unat_u32_less: "unat (w :: u32) < 2 ^ 32"
  using unsigned_less [of w] by simp

lemma word_of_nat_neq_0: "0 < n \<Longrightarrow> n < 2 ^ 32 \<Longrightarrow> (word_of_nat n :: u32) \<noteq> 0"
  by (simp add: word_of_nat_eq_0_iff nat_dvd_not_less)

lemma copy_bytes_inside:
  assumes "apart dst n src n" "n \<le> 2 ^ 32" "i < n"
  shows "copy_bytes dst src n m (dst + word_of_nat i) = m (src + word_of_nat i)"
  using assms
proof (induction n arbitrary: dst src m i)
  case (Suc n)
  let ?m = "m(dst := m src)"
  show ?case
  proof (cases i)
    case 0
    have "dst \<noteq> dst + 1 + word_of_nat j" if "j < n" for j
      using word_of_nat_neq_0 [of "Suc j"] that Suc.prems(2) by (simp add: add.assoc)
    then have "copy_bytes (dst + 1) (src + 1) n ?m dst = ?m dst" by (intro copy_bytes_outside) blast
    then show ?thesis by (simp add: 0)
  next
    case (Suc k)
    have "apart (dst + 1) n (src + 1) n"
      unfolding apart_def
    proof (intro allI impI)
      fix a b assume "a < n" "b < n"
      then show "dst + 1 + word_of_nat a \<noteq> src + 1 + word_of_nat b"
        using Suc.prems(1) by (auto simp: apart_def add.assoc dest!: spec [of _ "Suc a"] spec [of _ "Suc b"])
    qed
    then have "copy_bytes (dst + 1) (src + 1) n ?m (dst + 1 + word_of_nat k) = ?m (src + 1 + word_of_nat k)"
      using Suc.IH Suc.prems(2,3) Suc by simp
    moreover have "dst \<noteq> src + word_of_nat i"
      using apartD [OF Suc.prems(1), of 0 i] Suc.prems(3) by simp
    ultimately show ?thesis by (simp add: Suc add.assoc)
  qed
qed simp

lemma str_at_copied:
  assumes "\<forall>i \<le> length s. m' (b + word_of_nat i) = m (a + word_of_nat i)" "str_at m a s"
  shows "str_at m' b s"
  using assms
proof (induction s arbitrary: a b)
  case Nil then show ?case by (simp add: read8_def)
next
  case (Cons c s)
  have "\<forall>i \<le> length s. m' (b + 1 + word_of_nat i) = m (a + 1 + word_of_nat i)"
    using Cons.prems(1) by (auto simp: add.assoc dest: spec [of _ "Suc _"])
  moreover have "m' b = m a" using Cons.prems(1) by force
  ultimately show ?case using Cons.IH [of "b + 1" "a + 1"] Cons.prems(2) by (simp add: read8_def)
qed

definition global_part :: "DLIMP_Dynamic_Module \<Rightarrow> Elf32_Sym list" where
  "global_part d =
     take (unat (symnum d - gsymtab_offset d div 16)) (drop (unat (gsymtab_offset d div 16)) (symtab d))"

text \<open>Every name of a global symbol lies, with its NUL, in the copied part of the string table.\<close>

definition names_inside :: "mem \<Rightarrow> DLIMP_Dynamic_Module \<Rightarrow> bool" where
  "names_inside m d \<longleftrightarrow>
     (\<forall>esym \<in> set (global_part d). \<exists>off t.
        st_name esym = strtab d + gstrtab_offset d + word_of_nat off \<and>
        off + length t < unat (strsz d - gstrtab_offset d) \<and> str_at m (st_name esym) t)"

lemma find_map_option: "List.find P (map f xs) = map_option f (List.find (P \<circ> f) xs)"
  by (induction xs) simp_all

lemma find_cong_on: "(\<And>x. x \<in> set xs \<Longrightarrow> P x = Q x) \<Longrightarrow> List.find P xs = List.find Q xs"
  by (induction xs) auto

lemma copied_lookup:
  assumes n_def: "n = unat (strsz d - gstrtab_offset d)"
    and tab: "length (global_part d) = unat (symnum d - gsymtab_offset d div 16)"
    and names: "names \<noteq> 0" "apart names n (strtab d + gstrtab_offset d) n" "names_inside m d"
    and nm: "str_at m nm s" "apart names n nm (Suc (length s))"
  shows "\<exists>m1 d1. DLSYM_copy_globals True names m d = Inr (m1, d1) \<and>
           DLSYM_lookup_global_symtab m1 nm (gsymtab (loaded_module d1)) (gsymnum (loaded_module d1)) =
           DLSYM_lookup_global_symtab m nm (global_part d) (symnum d - gsymtab_offset d div 16)"
proof -
  let ?num = "symnum d - gsymtab_offset d div 16" and ?src = "strtab d + gstrtab_offset d"
  let ?rebase = "\<lambda>esym. esym \<lparr> st_name := st_name esym - strtab d - gstrtab_offset d + names \<rparr>"
  let ?m1 = "copy_bytes names ?src n m"
  have copied: "str_at ?m1 (st_name (?rebase esym)) t" "str_at m (st_name esym) t"
    if e: "esym \<in> set (global_part d)" and et: "str_at m (st_name esym) t" for esym t
  proof -
    obtain off t' where o: "st_name esym = ?src + word_of_nat off" "off + length t' < n" "str_at m (st_name esym) t'"
      using bspec [OF names(3) [unfolded names_inside_def] e] unfolding n_def by blast
    then have t: "t' = t" using str_at_unique et by blast
    have n32: "n \<le> 2 ^ 32" unfolding n_def by (rule less_imp_le) (rule unat_u32_less)
    have "?m1 (names + word_of_nat (off + i)) = m (?src + word_of_nat (off + i))" if "i \<le> length t'" for i
      by (rule copy_bytes_inside [OF names(2) n32]) (use that o(2) in simp)
    then have "\<forall>i \<le> length t'. ?m1 (names + word_of_nat off + word_of_nat i) = m (st_name esym + word_of_nat i)"
      by (simp add: o(1) add.assoc)
    from str_at_copied [OF this o(3)] show "str_at ?m1 (st_name (?rebase esym)) t"
      by (simp add: o(1) t ac_simps)
    show "str_at m (st_name esym) t" by (rule et)
  qed
  have nm1: "str_at ?m1 nm s"
  proof (rule str_at_copied [OF _ nm(1)], intro allI impI)
    fix i assume "i \<le> length s"
    then show "?m1 (nm + word_of_nat i) = m (nm + word_of_nat i)"
      using nm(2) by (intro copy_bytes_outside) (metis apartD less_Suc_eq_le)
  qed
  have named: "named m (global_part d)" "named ?m1 (map ?rebase (global_part d))"
    using names(3) copied by (auto simp: named_def names_inside_def) blast+
  have eq: "sym_defines ?m1 False s (?rebase esym) = sym_defines m False s esym"
    if e: "esym \<in> set (global_part d)" for esym
  proof -
    obtain t where t: "str_at m (st_name esym) t" using named(1) e by (auto simp: named_def)
    then have "str_at ?m1 (st_name (?rebase esym)) s \<longleftrightarrow> str_at m (st_name esym) s"
      using copied(1) [OF e] str_at_unique by metis
    then show ?thesis by (simp add: sym_defines_def eligible_def)
  qed
  have "first_definition ?m1 False s (map ?rebase (global_part d)) = first_definition m False s (global_part d)"
    using find_cong_on [of "global_part d" "sym_defines ?m1 False s \<circ> ?rebase" "sym_defines m False s"] eq
    by (simp add: first_definition_def find_map_option option.map_comp comp_def)
  moreover have "DLSYM_copy_globals True names m d = Inr (?m1, d \<lparr> loaded_module := (loaded_module d)
      \<lparr> gsymtab := map ?rebase (global_part d), gsymnum := ?num, gstrsz := strsz d - gstrtab_offset d, gstrtab := names \<rparr> \<rparr>)"
    using names(1) tab by (simp add: DLSYM_copy_globals_def Let_def global_part_def n_def)
  ultimately show ?thesis
    using lookup_first [OF nm1, of "unat ?num" "map ?rebase (global_part d)" False]
      lookup_first [OF nm(1), of "unat ?num" "global_part d" False] tab named
    by (simp add: DLSYM_lookup_global_symtab_def)
qed

section \<open>The queue of handles\<close>

lemma empty_queue_holds: "q_holds (empty_queue :: u32 Queue) []"
  by (auto simp: empty_queue_def q_holds_def q_values_def intro!: initialize_queue_ok)

lemma dequeue_holds:
  assumes "q_holds q (v # vs)"
  shows "\<exists>q1. dequeue q = Inr (Some v, q1) \<and> q_holds q1 vs \<and> q_size q \<noteq> 0"
proof -
  have "q_size q \<noteq> 0" using assms by (auto simp: q_holds_def q_ok_def q_values_def)
  then show ?thesis using loader_queue.deq_holds [OF assms] by blast
qed

lemma empty_size: "q_holds q [] \<Longrightarrow> q_size q = 0"
  by (auto simp: q_holds_def q_ok_def q_values_def)

lemma enqueue_all_holds:
  "q_holds q us \<Longrightarrow> \<exists>q1. enqueue_all (\<lambda>_. True) hs q = Inr q1 \<and> q_holds q1 (us @ hs)"
proof (induction hs arbitrary: q us)
  case (Cons h hs)
  obtain q1 where "enqueue (\<lambda>_. True) q h = Inr q1" "q_holds q1 (us @ [h])"
    using loader_queue.enq_holds [OF Cons.prems] by blast
  then show ?case using Cons.IH [of q1 "us @ [h]"] by auto
qed simp

section \<open>Properties\<close>

text \<open>A lookup in a symbol table whose names are C strings returns, and gives the value of the first
  entry that is defined, has the required binding and the name looked for; it fails, storing 0, exactly if
  there is none.\<close>

theorem DLSYM_lookup_symtab_first:
  assumes "str_at m nm s" "n \<le> length tab" "named m (take n tab)"
  shows "DLSYM_lookup_symtab m nm tab n loc =
           Some (Inr (case List.find (sym_defines m loc s) (take n tab) of
                        None \<Rightarrow> (False, 0)
                      | Some esym \<Rightarrow> (True, st_value esym)))"
  using lookup_first [OF assms] by (auto simp: looked_up_def first_definition_def split: option.splits)

definition two_names :: mem where
  "two_names = (\<lambda>_. 0)(0x10 := 97, 0x11 := 98, 0x20 := 97, 0x30 := 97, 0x31 := 98)"

definition global_sym :: "u32 \<Rightarrow> u32 \<Rightarrow> Elf32_Sym" where
  "global_sym name val = \<lparr> st_name = name, st_value = val, st_size = 4, st_info = 0x10, st_other = 0, st_shndx = 1 \<rparr>"

lemma two_names_strs: "str_at two_names 0x10 [97, 98]" "str_at two_names 0x20 [97]" "str_at two_names 0x30 [97, 98]"
  by (simp_all add: two_names_def read8_def)

lemma two_names_ex: "Ex (str_at two_names 0x20)" "Ex (str_at two_names 0x10)"
  using two_names_strs by blast+

theorem DLSYM_lookup_symtab_first_witness:
  "DLSYM_lookup_symtab two_names 0x30 [global_sym 0x20 5, global_sym 0x10 7] 2 False =
     Some (Inr (case List.find (sym_defines two_names False [97, 98]) (take 2 [global_sym 0x20 5, global_sym 0x10 7]) of
                  None \<Rightarrow> (False, 0) | Some esym \<Rightarrow> (True, st_value esym)))"
  by (rule DLSYM_lookup_symtab_first)
     (use two_names_strs two_names_ex in \<open>auto simp: named_def global_sym_def\<close>)

text \<open>A module that sees only its direct dependents is given the definition of the first dependent, in the order
  of its list, that defines the symbol, provided that every dependent is loaded.\<close>

theorem direct_dependents_in_order:
  assumes "direct_dependent_only md" "str_at m nm s" "\<forall>x \<in> set mods. module_ok m x"
    and "list_all2 (\<lambda>h x. List.find (\<lambda>y. file_handle y = h) mods = Some x) (dependencies md) deps"
  shows "DLSYM_global_lookup mok m app mods nm md 0 = looked_up (search_in_order m s deps)"
  using assms direct_lookup_order [OF assms(2,3,4) refl] by (simp add: DLSYM_global_lookup_def)

definition module_with :: "u32 \<Rightarrow> Elf32_Sym list \<Rightarrow> u32 list \<Rightarrow> bool \<Rightarrow> DLIMP_Loaded_Module" where
  "module_with h tab deps direct =
     \<lparr> file_handle = h, gsymtab = tab, gsymnum = word_of_nat (length tab), gstrtab = 0, gstrsz = 0, loaded_segments = [],
       dependencies = deps, direct_dependent_only = direct, lm_name = [], use_count = 1, entry_point = 0, fini = 0, fini_array = 0, fini_arraysz = 0 \<rparr>"

theorem direct_dependents_in_order_witness:
  "DLSYM_global_lookup (\<lambda>_. True) two_names 1
      [module_with 1 [global_sym 0x20 5] [] True, module_with 2 [global_sym 0x10 7] [] True] 0x30
      (module_with 3 [] [1, 2] True) 0 =
   looked_up (search_in_order two_names [97, 98]
      [module_with 1 [global_sym 0x20 5] [] True, module_with 2 [global_sym 0x10 7] [] True])"
  by (rule direct_dependents_in_order)
     (use two_names_strs two_names_ex in \<open>auto simp: module_with_def module_ok_def named_def table_of_def global_sym_def\<close>)

text \<open>The breadth-first search looks at the application and nothing else. When the front module is the
  application, its definition is found; without one, and with a first dependent that is another module, the walk
  to that module reads memory that is no node.\<close>

theorem breadth_first_front_only:
  assumes "str_at m nm s" "module_ok m front" "\<forall>dep deps. dependencies front = dep # deps \<longrightarrow> dep \<noteq> file_handle front"
  shows "breadth_first_lookup (\<lambda>_. True) m (front # mods) nm (file_handle front) v =
           (case first_definition m False s (table_of front) of
              Some x \<Rightarrow> Some (Inr (True, x))
            | None \<Rightarrow> Some (if dependencies front = [] then Inr (False, 0) else Inl WildNode))"
proof -
  obtain q where q: "enqueue (\<lambda>_. True) empty_queue (file_handle front) = Inr q" "q_holds q [file_handle front]"
    using loader_queue.enq_holds [OF empty_queue_holds] by auto
  obtain q1 where q1: "dequeue q = Inr (Some (file_handle front), q1)" "q_holds q1 []" "q_size q \<noteq> 0"
    using dequeue_holds [OF q(2)] by blast
  obtain q2 where q2: "enqueue_all (\<lambda>_. True) (dependencies front) q1 = Inr q2" "q_holds q2 (dependencies front)"
    using enqueue_all_holds [OF q1(2)] by auto
  have step: "bfs_loop (\<lambda>_. True) m nm (front # mods) q v =
      (case first_definition m False s (table_of front) of
         Some x \<Rightarrow> Some (Inr (True, x)) | None \<Rightarrow> bfs_loop (\<lambda>_. True) m nm (front # mods) q2 0)"
    using q1 q2(1) lookup_global_module [OF assms(1,2)]
    by (subst bfs_loop.simps) (auto simp: looked_up_def split: option.splits)
  have rest: "bfs_loop (\<lambda>_. True) m nm (front # mods) q2 0 =
      Some (if dependencies front = [] then Inr (False, 0) else Inl WildNode)"
  proof (cases "dependencies front")
    case Nil
    then have "q_size q2 = 0" using q2(2) empty_size by simp
    then show ?thesis using Nil by (subst bfs_loop.simps) simp
  next
    case (Cons dep deps)
    then have "q_holds q2 (dep # deps)" using q2(2) by simp
    from dequeue_holds [OF this] obtain q3 where "dequeue q2 = Inr (Some dep, q3)" "q_size q2 \<noteq> 0" by blast
    moreover have "dep \<noteq> file_handle front" using assms(3) Cons by simp
    ultimately show ?thesis using Cons by (subst bfs_loop.simps) simp
  qed
  show ?thesis using q(1) step rest by (simp add: breadth_first_lookup_def split: option.splits)
qed

theorem breadth_first_front_only_witness:
  "breadth_first_lookup (\<lambda>_. True) two_names [module_with 1 [global_sym 0x20 5] [2] False, module_with 2 [global_sym 0x10 7] [] False] 0x30
      (file_handle (module_with 1 [global_sym 0x20 5] [2] False)) 0 =
   (case first_definition two_names False [97, 98] (table_of (module_with 1 [global_sym 0x20 5] [2] False)) of
      Some x \<Rightarrow> Some (Inr (True, x))
    | None \<Rightarrow> Some (if dependencies (module_with 1 [global_sym 0x20 5] [2] False) = [] then Inr (False, 0) else Inl WildNode))"
  by (rule breadth_first_front_only)
     (use two_names_strs two_names_ex in \<open>auto simp: module_with_def module_ok_def named_def table_of_def global_sym_def\<close>)

text \<open>A symbol that is local or not of default visibility is never pre-empted: the lookup gives its own value if it
  is a definition and fails otherwise, whatever other modules define. Every other symbol is looked up in the
  global tables.\<close>

theorem DLSYM_canonical_lookup_preemption:
  assumes "i < length (symtab d)"
  shows "DLSYM_canonical_lookup mok m app mods i d v =
    (if ELF32_ST_BIND (st_info (symtab d ! i)) = STB_LOCAL \<or> ELF32_ST_VISIBILITY (st_other (symtab d ! i)) \<noteq> STV_DEFAULT
     then Some (Inr (if st_shndx (symtab d ! i) = SHN_UNDEF \<or>
                        (SHN_LORESERVE \<le> st_shndx (symtab d ! i) \<and> st_shndx (symtab d ! i) \<noteq> SHN_XINDEX)
                     then (False, v) else (True, st_value (symtab d ! i))))
     else DLSYM_global_lookup mok m app mods (st_name (symtab d ! i)) (loaded_module d) v)"
  using assms by (auto simp: DLSYM_canonical_lookup_def Let_def not_less)

text \<open>C31: The global symbols keep their meaning when they are copied to the loaded module: a lookup in the copy
  gives what a lookup in the global part of the dynamic symbol table gave, if the names lie in the copied part
  of the string table and the new memory is apart from it and from the name looked for.\<close>

theorem DLSYM_copy_globals_lookup:
  assumes "length (global_part d) = unat (symnum d - gsymtab_offset d div 16)" "names_inside m d" "names \<noteq> 0"
    and "apart names (unat (strsz d - gstrtab_offset d)) (strtab d + gstrtab_offset d) (unat (strsz d - gstrtab_offset d))"
    and "str_at m nm s" "apart names (unat (strsz d - gstrtab_offset d)) nm (Suc (length s))"
  shows "\<exists>m1 d1. DLSYM_copy_globals True names m d = Inr (m1, d1) \<and>
           DLSYM_lookup_global_symtab m1 nm (gsymtab (loaded_module d1)) (gsymnum (loaded_module d1)) =
           DLSYM_lookup_global_symtab m nm (global_part d) (symnum d - gsymtab_offset d div 16)"
  using copied_lookup [OF refl assms(1,3,4,2,5,6)] .

definition one_global :: DLIMP_Dynamic_Module where
  "one_global = \<lparr> fhdr = \<lparr> e_ident = [], e_type = 0, e_machine = 0, e_version = 0, e_entry = 0, e_phoff = 0,
       e_shoff = 0, e_flags = 0, e_ehsize = 0, e_phentsize = 0, e_phnum = 0, e_shentsize = 0, e_shnum = 0,
       e_shstrndx = 0 \<rparr>,
     strtab = 0x10, strsz = 4, dyntab = [], symtab = [global_sym 0x10 7], symnum = 1, gsymtab_offset = 0,
     gstrtab_offset = 0, loaded_module = module_with 3 [] [] True, wrong_endian = False, dsbt_index = 0, dsbt_size = 0, dsbt_base_tagidx = 0xFFFFFFFF, dm_name = None,
     dm_phdr = [], phnum = 0, strbuf = [], c_args = 0, dm_direct_dependent_only = True, is_relocatable = True,
     relocate_entry_point = False, preinit_array_idx = 0xFFFFFFFF, preinit_arraysz = 0, init_idx = 0xFFFFFFFF,
     init_array_idx = 0xFFFFFFFF, init_arraysz = 0 \<rparr>"

theorem DLSYM_canonical_lookup_preemption_witness:
  "DLSYM_canonical_lookup (\<lambda>_. True) two_names 1 [] 0 one_global 9 =
     DLSYM_global_lookup (\<lambda>_. True) two_names 1 [] 0x10 (module_with 3 [] [] True) 9"
  using DLSYM_canonical_lookup_preemption [of 0 one_global "\<lambda>_. True" two_names 1 "[]" 9]
  by (simp add: one_global_def global_sym_def ELF32_ST_BIND_def ELF32_ST_VISIBILITY_def)

theorem DLSYM_copy_globals_lookup_witness:
  "\<exists>m1 d1. DLSYM_copy_globals True 0x40 two_names one_global = Inr (m1, d1) \<and>
     DLSYM_lookup_global_symtab m1 0x30 (gsymtab (loaded_module d1)) (gsymnum (loaded_module d1)) =
     DLSYM_lookup_global_symtab two_names 0x30 (global_part one_global) (symnum one_global - gsymtab_offset one_global div 16)"
proof (rule DLSYM_copy_globals_lookup [where s = "[97, 98]"])
  show "names_inside two_names one_global"
    unfolding names_inside_def
  proof
    fix esym assume "esym \<in> set (global_part one_global)"
    then have "st_name esym = 0x10" by (simp add: global_part_def one_global_def global_sym_def)
    then show "\<exists>off t. st_name esym = strtab one_global + gstrtab_offset one_global + word_of_nat off \<and>
        off + length t < unat (strsz one_global - gstrtab_offset one_global) \<and> str_at two_names (st_name esym) t"
      using two_names_strs(1) by (intro exI [of _ 0] exI [of _ "[97, 98]"]) (simp add: one_global_def)
  qed
qed (use two_names_strs in \<open>simp_all add: one_global_def global_part_def apart_ranges\<close>)

end
