(* ===== verification/Endian.thy ===== *)
theory Endian
  imports Elf32
begin

text \<open>
  Byte-order conversion (\<open>elfload/dload_endian.c\<close>): the swap of 16- and 32-bit integers, the swap
  of the ELF structures field by field, and the host's own byte order as the probe of
  \<open>DLIMP_get_endian\<close> reads it from memory.

  The C functions take a pointer and store the swapped value through it. The functions here are
  on the value; \<open>change_endian32_at\<close> and \<open>change_endian16_at\<close> are the same on a memory cell.
\<close>

section \<open>Integers\<close>

definition DLIMP_change_endian32 :: "u32 \<Rightarrow> u32" where
  "DLIMP_change_endian32 x =
     (let temp = 0;
          temp = temp + shl (x AND 0x000000FF) 24;
          temp = temp + shl (x AND 0x0000FF00) 8;
          temp = temp + shr (x AND 0x00FF0000) 8;
          temp = temp + shr (x AND 0xFF000000) 24
      in temp)"

text \<open>The 16-bit operand is promoted to \<open>int\<close>, and the sum is stored back in 16 bits.\<close>

definition DLIMP_change_endian16 :: "u16 \<Rightarrow> u16" where
  "DLIMP_change_endian16 x =
     (let v = (scast x :: u32);
          temp = (0 :: u16);
          temp = (ucast ((scast temp :: u32) + shl (v AND 0x00FF) 8) :: u16);
          temp = ucast ((scast temp :: u32) + sar (v AND 0xFF00) 8)
      in temp)"

definition change_endian32_at :: "u32 \<Rightarrow> mem \<Rightarrow> mem" where
  "change_endian32_at a m = write32 a (DLIMP_change_endian32 (read32 m a)) m"

definition change_endian16_at :: "u32 \<Rightarrow> mem \<Rightarrow> mem" where
  "change_endian16_at a m = write16 a (DLIMP_change_endian16 (read16 m a)) m"

text \<open>
  The probe: a 32-bit 1 is stored and its first two bytes are read. The memory of the model is
  that of the little-endian host.
\<close>

definition DLIMP_get_endian :: "mem \<Rightarrow> u32 \<Rightarrow> nat" where
  "DLIMP_get_endian m addr_x =
     (if read16 (write32 addr_x 1 m) addr_x \<noteq> 0 then ELFDATA2LSB else ELFDATA2MSB)"

section \<open>Structures\<close>

definition DLIMP_change_ehdr_endian :: "Elf32_Ehdr \<Rightarrow> Elf32_Ehdr" where
  "DLIMP_change_ehdr_endian h = h
     \<lparr> e_type := DLIMP_change_endian16 (e_type h),
       e_machine := DLIMP_change_endian16 (e_machine h),
       e_version := DLIMP_change_endian32 (e_version h),
       e_entry := DLIMP_change_endian32 (e_entry h),
       e_phoff := DLIMP_change_endian32 (e_phoff h),
       e_shoff := DLIMP_change_endian32 (e_shoff h),
       e_flags := DLIMP_change_endian32 (e_flags h),
       e_ehsize := DLIMP_change_endian16 (e_ehsize h),
       e_phentsize := DLIMP_change_endian16 (e_phentsize h),
       e_phnum := DLIMP_change_endian16 (e_phnum h),
       e_shentsize := DLIMP_change_endian16 (e_shentsize h),
       e_shnum := DLIMP_change_endian16 (e_shnum h),
       e_shstrndx := DLIMP_change_endian16 (e_shstrndx h) \<rparr>"

definition DLIMP_change_phdr_endian :: "Elf32_Phdr \<Rightarrow> Elf32_Phdr" where
  "DLIMP_change_phdr_endian p = p
     \<lparr> p_type := DLIMP_change_endian32 (p_type p),
       p_offset := DLIMP_change_endian32 (p_offset p),
       p_vaddr := DLIMP_change_endian32 (p_vaddr p),
       p_paddr := DLIMP_change_endian32 (p_paddr p),
       p_filesz := DLIMP_change_endian32 (p_filesz p),
       p_memsz := DLIMP_change_endian32 (p_memsz p),
       p_flags := DLIMP_change_endian32 (p_flags p),
       p_align := DLIMP_change_endian32 (p_align p) \<rparr>"

definition DLIMP_change_dynent_endian :: "Elf32_Dyn \<Rightarrow> Elf32_Dyn" where
  "DLIMP_change_dynent_endian d = d
     \<lparr> d_tag := DLIMP_change_endian32 (d_tag d),
       d_un := DLIMP_change_endian32 (d_un d) \<rparr>"

definition DLIMP_change_sym_endian :: "Elf32_Sym \<Rightarrow> Elf32_Sym" where
  "DLIMP_change_sym_endian s = s
     \<lparr> st_name := DLIMP_change_endian32 (st_name s),
       st_value := DLIMP_change_endian32 (st_value s),
       st_size := DLIMP_change_endian32 (st_size s),
       st_shndx := DLIMP_change_endian16 (st_shndx s) \<rparr>"

definition DLIMP_change_rela_endian :: "Elf32_Rela \<Rightarrow> Elf32_Rela" where
  "DLIMP_change_rela_endian ra = ra
     \<lparr> r_offset := DLIMP_change_endian32 (r_offset ra),
       r_info := DLIMP_change_endian32 (r_info ra),
       r_addend := DLIMP_change_endian32 (r_addend ra) \<rparr>"

definition DLIMP_change_rel_endian :: "Elf32_Rel \<Rightarrow> Elf32_Rel" where
  "DLIMP_change_rel_endian r = r
     \<lparr> r_offset := DLIMP_change_endian32 (r_offset r),
       r_info := DLIMP_change_endian32 (r_info r) \<rparr>"

section \<open>The swap reverses the bytes\<close>

text \<open>The summands occupy disjoint bits, so the sums are bitwise unions.\<close>

lemma plus_or_disjoint:
  fixes a b :: "'a::len word"
  assumes "\<And>n. n < LENGTH('a) \<Longrightarrow> \<not> (bit a n \<and> bit b n)"
  shows "a + b = a OR b"
  by (rule disjunctive_add_eq_or, rule bit_word_eqI) (use assms in \<open>auto simp: bit_simps\<close>)

lemma byte_mask_bits:
  "bit (0xFF :: int) n \<longleftrightarrow> n < 8"
  "bit (0xFF00 :: int) n \<longleftrightarrow> 8 \<le> n \<and> n < 16"
  "bit (0xFF0000 :: int) n \<longleftrightarrow> 16 \<le> n \<and> n < 24"
  "bit (0xFF000000 :: int) n \<longleftrightarrow> 24 \<le> n \<and> n < 32"
proof -
  have "(0xFF :: int) = push_bit 0 (mask 8)" "(0xFF00 :: int) = push_bit 8 (mask 8)"
    "(0xFF0000 :: int) = push_bit 16 (mask 8)" "(0xFF000000 :: int) = push_bit 24 (mask 8)"
    by (simp_all add: mask_eq_exp_minus_1 push_bit_eq_mult)
  then show "bit (0xFF :: int) n \<longleftrightarrow> n < 8" "bit (0xFF00 :: int) n \<longleftrightarrow> 8 \<le> n \<and> n < 16"
    "bit (0xFF0000 :: int) n \<longleftrightarrow> 16 \<le> n \<and> n < 24" "bit (0xFF000000 :: int) n \<longleftrightarrow> 24 \<le> n \<and> n < 32"
    by (auto simp only: bit_push_bit_iff bit_mask_iff) auto
qed

lemmas byte_bits = byte_mask_bits bit_sar bit_shl bit_shr bit_and_iff bit_or_iff
  numeral_2_eq_2 [symmetric]

lemma change_endian32_or:
  "DLIMP_change_endian32 x =
     shl (x AND 0xFF) 24 OR shl (x AND 0xFF00) 8 OR shr (x AND 0xFF0000) 8 OR shr (x AND 0xFF000000) 24"
proof -
  let ?a = "shl (x AND 0xFF) 24" and ?b = "shl (x AND 0xFF00) 8"
    and ?c = "shr (x AND 0xFF0000) 8" and ?d = "shr (x AND 0xFF000000) 24"
  have ab: "?a + ?b = ?a OR ?b"
    by (rule plus_or_disjoint) (auto simp: byte_bits)
  have abc: "(?a OR ?b) + ?c = ?a OR ?b OR ?c"
    by (subst plus_or_disjoint) (auto simp: byte_bits or.assoc)
  have abcd: "(?a OR ?b OR ?c) + ?d = ?a OR ?b OR ?c OR ?d"
    by (subst plus_or_disjoint) (auto simp: byte_bits or.assoc)
  show ?thesis
    by (simp add: DLIMP_change_endian32_def ab abc abcd)
qed

lemma bit_change_endian32:
  "n < 32 \<Longrightarrow> bit (DLIMP_change_endian32 x) n \<longleftrightarrow> bit x (8 * (3 - n div 8) + n mod 8)"
  by (erule bits_32E; simp add: change_endian32_or byte_bits)

lemma change_endian16_or:
  "DLIMP_change_endian16 x = push_bit 8 x OR drop_bit 8 x"
proof -
  let ?v = "scast x :: u32"
  have lo: "ucast (shl (?v AND 0xFF) 8) = push_bit 8 x"
    by (rule bit_word_eqI) (auto simp: byte_bits bit_simps)
  have "ucast (scast (push_bit 8 x) + sar (?v AND 0xFF00) 8)
      = (ucast (scast (push_bit 8 x) :: u32) + ucast (sar (?v AND 0xFF00) 8) :: u16)"
    by (rule ucast_add_u16)
  also have "ucast (sar (?v AND 0xFF00) 8) = drop_bit 8 x"
  proof (rule bit_word_eqI)
    fix n assume "n < LENGTH(16)"
    then have "n < 16" by simp
    then show "bit (ucast (sar (?v AND 0xFF00) 8) :: u16) n = bit (drop_bit 8 x) n"
      by (erule_tac bits_16E; simp add: byte_bits bit_tools)
  qed
  also have "ucast (scast (push_bit 8 x) :: u32) = push_bit 8 x"
    by (rule bit_word_eqI) (auto simp: bit_simps)
  also have "push_bit 8 x + drop_bit 8 x = push_bit 8 x OR drop_bit 8 x"
    by (rule plus_or_disjoint) (auto simp: bit_simps dest: bit_imp_le_length)
  finally show ?thesis
    by (simp add: DLIMP_change_endian16_def lo)
qed

lemma bit_change_endian16:
  "n < 16 \<Longrightarrow> bit (DLIMP_change_endian16 x) n \<longleftrightarrow> bit x (8 * (1 - n div 8) + n mod 8)"
  by (erule bits_16E; simp add: change_endian16_or bit_tools)

lemma change_endian32_twice [simp]: "DLIMP_change_endian32 (DLIMP_change_endian32 x) = x"
proof (rule bit_word_eqI)
  fix n assume "n < LENGTH(32)"
  then have "n < 32" by simp
  then show "bit (DLIMP_change_endian32 (DLIMP_change_endian32 x)) n = bit x n"
    by (erule_tac bits_32E; simp add: bit_change_endian32 bit_tools)
qed

lemma change_endian16_twice [simp]: "DLIMP_change_endian16 (DLIMP_change_endian16 x) = x"
proof (rule bit_word_eqI)
  fix n assume "n < LENGTH(16)"
  then have "n < 16" by simp
  then show "bit (DLIMP_change_endian16 (DLIMP_change_endian16 x)) n = bit x n"
    by (erule_tac bits_16E; simp add: bit_change_endian16 bit_tools)
qed

text \<open>What a byte-order conversion promises its callers, and the conversions that keep it.\<close>

locale byte_swap =
  fixes swap :: "'a \<Rightarrow> 'a"
  assumes swap_swap: "swap (swap x) = x"
begin

lemma swap_eq_iff: "swap x = y \<longleftrightarrow> x = swap y"
  using swap_swap by metis

lemma map_swap_swap: "map swap (map swap xs) = xs"
  by (simp add: o_def swap_swap)

end

interpretation swap32: byte_swap DLIMP_change_endian32
  by unfold_locales simp

interpretation swap16: byte_swap DLIMP_change_endian16
  by unfold_locales simp

interpretation swap_ehdr: byte_swap DLIMP_change_ehdr_endian
  by unfold_locales (simp add: DLIMP_change_ehdr_endian_def)

interpretation swap_phdr: byte_swap DLIMP_change_phdr_endian
  by unfold_locales (simp add: DLIMP_change_phdr_endian_def)

interpretation swap_dynent: byte_swap DLIMP_change_dynent_endian
  by unfold_locales (simp add: DLIMP_change_dynent_endian_def)

interpretation swap_sym: byte_swap DLIMP_change_sym_endian
  by unfold_locales (simp add: DLIMP_change_sym_endian_def)

interpretation swap_rela: byte_swap DLIMP_change_rela_endian
  by unfold_locales (simp add: DLIMP_change_rela_endian_def)

interpretation swap_rel: byte_swap DLIMP_change_rel_endian
  by unfold_locales (simp add: DLIMP_change_rel_endian_def)

section \<open>Swaps in memory\<close>

lemma change_endian32_halves:
  "ucast (DLIMP_change_endian32 x) = DLIMP_change_endian16 (ucast (drop_bit 16 x))"
  "ucast (drop_bit 16 (DLIMP_change_endian32 x)) = DLIMP_change_endian16 (ucast x)"
proof -
  have *: "bit (ucast (DLIMP_change_endian32 x) :: u16) n = bit (DLIMP_change_endian16 (ucast (drop_bit 16 x))) n
    \<and> bit (ucast (drop_bit 16 (DLIMP_change_endian32 x)) :: u16) n = bit (DLIMP_change_endian16 (ucast x)) n"
    if "n < 16" for n
    using that by (erule_tac bits_16E; simp add: bit_change_endian32 bit_change_endian16 bit_tools)
  show "ucast (DLIMP_change_endian32 x) = DLIMP_change_endian16 (ucast (drop_bit 16 x))"
    by (rule bit_word_eqI) (use * in simp)
  show "ucast (drop_bit 16 (DLIMP_change_endian32 x)) = DLIMP_change_endian16 (ucast x)"
    by (rule bit_word_eqI) (use * in simp)
qed

lemma change_endian16_bytes:
  "ucast (DLIMP_change_endian16 x) = (ucast (drop_bit 8 x) :: u8)"
  "ucast (drop_bit 8 (DLIMP_change_endian16 x)) = (ucast x :: u8)"
proof -
  have *: "bit (ucast (DLIMP_change_endian16 x) :: u8) n = bit (ucast (drop_bit 8 x) :: u8) n
    \<and> bit (ucast (drop_bit 8 (DLIMP_change_endian16 x)) :: u8) n = bit (ucast x :: u8) n"
    if "n < 8" for n
    using that by (erule_tac bits_8E; simp add: bit_change_endian16 bit_tools)
  show "ucast (DLIMP_change_endian16 x) = (ucast (drop_bit 8 x) :: u8)"
    by (rule bit_word_eqI) (use * in simp)
  show "ucast (drop_bit 8 (DLIMP_change_endian16 x)) = (ucast x :: u8)"
    by (rule bit_word_eqI) (use * in simp)
qed

lemma change_endian16_at_bytes:
  "change_endian16_at a m = m(a := m (a + 1), a + 1 := m a)"
  by (simp add: change_endian16_at_def write16_def change_endian16_bytes read16_bytes)

lemma change_endian32_at_bytes:
  "change_endian32_at a m = m(a := m (a + 3), a + 1 := m (a + 2), a + 2 := m (a + 1), a + 3 := m a)"
  by (auto simp: change_endian32_at_def write32_def change_endian32_halves read32_halves
      write16_def change_endian16_bytes read16_bytes add.commute fun_eq_iff)

lemma change_endian32_at_twice [simp]: "change_endian32_at a (change_endian32_at a m) = m"
  by (simp add: change_endian32_at_def write32_twice write32_read32)

lemma change_endian16_at_twice [simp]: "change_endian16_at a (change_endian16_at a m) = m"
  by (simp add: change_endian16_at_def)

lemma DLIMP_get_endian_host: "DLIMP_get_endian m a = ELFDATA2LSB"
proof -
  have "read16 (write32 a 1 m) a = ucast (read32 (write32 a 1 m) a)"
    by (simp only: read32_halves)
  then show ?thesis by (simp add: DLIMP_get_endian_def)
qed

text \<open>An in-place 32-bit swap exchanges the four bytes at the address end for end and changes no other
  byte; a second swap restores the memory.\<close>

theorem change_endian32_at_reverses:
  "change_endian32_at a m x =
     (if x = a then m (a + 3) else if x = a + 1 then m (a + 2)
      else if x = a + 2 then m (a + 1) else if x = a + 3 then m a else m x) \<and>
   change_endian32_at a (change_endian32_at a m) = m"
  by (simp add: change_endian32_at_bytes)

end
