(* ===== verification/Relocate.thy ===== *)
theory Relocate
  imports Symtab Endian
begin

text \<open>
  What the relocators for the two targets share: the messages they print, cells of memory, the position of a
  relocation, the walk over a table, and the entries of a table in the object file.

  An assignment such as \<open>*p &= c\<close> reads, changes and writes a cell of 16 or 32 bits (\<open>upd16\<close>, \<open>upd32\<close>). Messages of
  \<open>DLIF_error\<close> do not stop the code: they are returned as a list beside the result.
\<close>

datatype reloc_message =
  RelocationOverflow | InvalidWriteType | InvalidPackType | InvalidMaskType | InvalidRelocType | CannotUnpack |
  InvalidOverflowType | StaticBaseMissing

definition overflow_message :: "bool \<Rightarrow> reloc_message list" where
  "overflow_message b = (if b then [RelocationOverflow] else [])"

definition upd16 :: "u32 \<Rightarrow> (u16 \<Rightarrow> u16) \<Rightarrow> mem \<Rightarrow> mem" where
  "upd16 a f m = write16 a (f (read16 m a)) m"

definition upd32 :: "u32 \<Rightarrow> (u32 \<Rightarrow> u32) \<Rightarrow> mem \<Rightarrow> mem" where
  "upd32 a f m = write32 a (f (read32 m a)) m"

text \<open>
  What a run of the relocator depends on beside the module: the outcome of \<open>DLIF_malloc\<close> during symbol
  lookup, the handle of the application, the loaded modules, the contents of local variables that the
  code reads before it sets them, the address of the string \<open>"__TI_STATIC_BASE"\<close>, and the client's function that
  gives the DSBT index of a file.
\<close>

record reloc_env =
  lookup_malloc :: "nat \<Rightarrow> bool"
  application_handle :: u32
  loaded_objects :: "DLIMP_Loaded_Module list"
  stale_symval :: u32
  stale_addend :: u32
  static_base_name :: u32
  DLIF_get_dsbt_index :: "u32 \<Rightarrow> u32"

definition in_segment :: "DLIMP_Loaded_Segment \<Rightarrow> u32 \<Rightarrow> bool" where
  "in_segment seg r_off \<longleftrightarrow> input_vaddr seg \<le> r_off \<and> r_off < input_vaddr seg + p_memsz (phdr seg)"

definition reloc_address :: "DLIMP_Loaded_Segment \<Rightarrow> u32 \<Rightarrow> u32" where
  "reloc_address seg r_off = p_vaddr (phdr seg) + reloc_offset seg + r_off - input_vaddr seg"

text \<open>
  The loop over a table from index \<open>rid\<close>, with the rest of the table from there: entries of the segment are processed,
  and the first entry of another segment after one of this segment ends the loop. The result has the index
  where it stopped.
\<close>

fun scan_table ::
    "('r \<Rightarrow> bool) \<Rightarrow> ('r \<Rightarrow> 's \<Rightarrow> ('s \<times> reloc_message list) result) \<Rightarrow> nat \<Rightarrow> 'r list \<Rightarrow> bool \<Rightarrow> 's \<Rightarrow>
     ((bool \<times> nat) \<times> 's \<times> reloc_message list) result" where
  "scan_table inside step rid [] found m = Some (Inr ((found, rid), m, []))"
| "scan_table inside step rid (entry # rest) found m =
     (if inside entry then
        bind_result (step entry m) (\<lambda>(m1, e1).
        bind_result (scan_table inside step (Suc rid) rest True m1) (\<lambda>(r, m2, e2).
        Some (Inr (r, m2, e1 @ e2))))
      else if found then Some (Inr ((found, rid), m, []))
      else scan_table inside step (Suc rid) rest found m)"

definition rel_entry_at :: "mem \<Rightarrow> u32 \<Rightarrow> Elf32_Rel" where
  "rel_entry_at f off = \<lparr> r_offset = read32 f off, r_info = read32 f (off + 4) \<rparr>"

definition rela_entry_at :: "mem \<Rightarrow> u32 \<Rightarrow> Elf32_Rela" where
  "rela_entry_at f off = \<lparr> r_offset = read32 f off, r_info = read32 f (off + 4), r_addend = read32 f (off + 8) \<rparr>"

datatype plt_table = PltRel "Elf32_Rel list" | PltRela "Elf32_Rela list"

fun plt_segment :: "u32 \<Rightarrow> DLIMP_Loaded_Segment list \<Rightarrow> DLIMP_Loaded_Segment option" where
  "plt_segment r_off [] = None"
| "plt_segment r_off (seg # segs) =
     (if p_filesz (phdr seg) = 0 then plt_segment r_off segs
      else if in_segment seg r_off then Some seg
      else plt_segment r_off segs)"

definition checked_div :: "u32 \<Rightarrow> u32 \<Rightarrow> load_fault + u32" where
  "checked_div a b = (if b = 0 then Inl DivideByZero else Inr (a div b))"

end
