(* ===== verification/Dload_Read.thy ===== *)
theory Dload_Read
  imports Relocate
begin

text \<open>
  How the core loader reads an object file (\<open>elfload/dload.c\<close>, from \<open>new_DLIMP_Dynamic_Module\<close> to
  \<open>dload_dynamic_segment\<close>): headers, dynamic table, string and symbol table, and the checks on them; with the functions for
  the two targets from \<open>arm_dynamic.c\<close> and \<open>c60_dynamic.c\<close>. The library is built with \<open>ARM_TARGET\<close> and
  \<open>C60_TARGET\<close>.

  A file is its bytes by position and its size; what lies behind the end stands for what a read that finds no data leaves in
  the buffer. A buffer that was not allocated is an empty list, and a table read behind its end is the fault \<open>OutOfTable\<close>.
  Messages are left out; the results are those of the C functions.
\<close>

section \<open>Files\<close>

record elf_file =
  content :: mem
  file_size :: u32

datatype host_buffer = ModuleBuffer | PhdrBuffer | DyntabBuffer | StrtabBuffer | SymtabBuffer | NameBuffer | ArrayBuffer

text \<open>Which buffers the host's heap grants, and where it puts the string table.\<close>

record read_env =
  granted :: "host_buffer \<Rightarrow> bool"
  strtab_at :: u32

definition ehdr_at :: "mem \<Rightarrow> u32 \<Rightarrow> Elf32_Ehdr" where
  "ehdr_at f a =
     \<lparr> e_ident = map (\<lambda>i. read8 f (a + of_nat i)) [0..<16], e_type = read16 f (a + 16), e_machine = read16 f (a + 18),
       e_version = read32 f (a + 20), e_entry = read32 f (a + 24), e_phoff = read32 f (a + 28), e_shoff = read32 f (a + 32),
       e_flags = read32 f (a + 36), e_ehsize = read16 f (a + 40), e_phentsize = read16 f (a + 42), e_phnum = read16 f (a + 44),
       e_shentsize = read16 f (a + 46), e_shnum = read16 f (a + 48), e_shstrndx = read16 f (a + 50) \<rparr>"

definition phdr_at :: "mem \<Rightarrow> u32 \<Rightarrow> Elf32_Phdr" where
  "phdr_at f a =
     \<lparr> p_type = read32 f a, p_offset = read32 f (a + 4), p_vaddr = read32 f (a + 8), p_paddr = read32 f (a + 12),
       p_filesz = read32 f (a + 16), p_memsz = read32 f (a + 20), p_flags = read32 f (a + 24), p_align = read32 f (a + 28) \<rparr>"

definition dyn_at :: "mem \<Rightarrow> u32 \<Rightarrow> Elf32_Dyn" where
  "dyn_at f a = \<lparr> d_tag = read32 f a, d_un = read32 f (a + 4) \<rparr>"

definition sym_at :: "mem \<Rightarrow> u32 \<Rightarrow> Elf32_Sym" where
  "sym_at f a =
     \<lparr> st_name = read32 f a, st_value = read32 f (a + 4), st_size = read32 f (a + 8), st_info = read8 f (a + 12),
       st_other = read8 f (a + 13), st_shndx = read16 f (a + 14) \<rparr>"

text \<open>\<open>n\<close> entries of a size that stand one after the other.\<close>

definition table_at :: "(mem \<Rightarrow> u32 \<Rightarrow> 'a) \<Rightarrow> u32 \<Rightarrow> mem \<Rightarrow> u32 \<Rightarrow> nat \<Rightarrow> 'a list" where
  "table_at rd sz f a n = map (\<lambda>i. rd f (a + of_nat i * sz)) [0..<n]"

abbreviation (input) DT_NEEDED :: u32 where "DT_NEEDED \<equiv> 1"
abbreviation (input) DT_HASH :: u32 where "DT_HASH \<equiv> 4"
abbreviation (input) DT_STRTAB :: u32 where "DT_STRTAB \<equiv> 5"
abbreviation (input) DT_SYMTAB :: u32 where "DT_SYMTAB \<equiv> 6"
abbreviation (input) DT_STRSZ :: u32 where "DT_STRSZ \<equiv> 10"
abbreviation (input) DT_INIT :: u32 where "DT_INIT \<equiv> 12"
abbreviation (input) DT_FINI :: u32 where "DT_FINI \<equiv> 13"
abbreviation (input) DT_SONAME :: u32 where "DT_SONAME \<equiv> 14"
abbreviation (input) DT_INIT_ARRAY :: u32 where "DT_INIT_ARRAY \<equiv> 25"
abbreviation (input) DT_FINI_ARRAY :: u32 where "DT_FINI_ARRAY \<equiv> 26"
abbreviation (input) DT_INIT_ARRAYSZ :: u32 where "DT_INIT_ARRAYSZ \<equiv> 27"
abbreviation (input) DT_FINI_ARRAYSZ :: u32 where "DT_FINI_ARRAYSZ \<equiv> 28"
abbreviation (input) DT_PREINIT_ARRAY :: u32 where "DT_PREINIT_ARRAY \<equiv> 32"
abbreviation (input) DT_PREINIT_ARRAYSZ :: u32 where "DT_PREINIT_ARRAYSZ \<equiv> 33"
abbreviation (input) DT_ARM_SYMTABSZ :: u32 where "DT_ARM_SYMTABSZ \<equiv> 0x70000001"
abbreviation (input) DT_C6000_GSYM_OFFSET :: u32 where "DT_C6000_GSYM_OFFSET \<equiv> 0x6000000D"
abbreviation (input) DT_C6000_GSTR_OFFSET :: u32 where "DT_C6000_GSTR_OFFSET \<equiv> 0x6000000F"
abbreviation (input) DT_C6000_DSBT_BASE :: u32 where "DT_C6000_DSBT_BASE \<equiv> 0x70000000"
abbreviation (input) DT_C6000_DSBT_SIZE :: u32 where "DT_C6000_DSBT_SIZE \<equiv> 0x70000001"
abbreviation (input) DT_C6000_DSBT_INDEX :: u32 where "DT_C6000_DSBT_INDEX \<equiv> 0x70000003"

abbreviation (input) PT_LOAD :: u32 where "PT_LOAD \<equiv> 1"
abbreviation (input) PT_DYNAMIC :: u32 where "PT_DYNAMIC \<equiv> 2"
abbreviation (input) ET_EXEC :: u16 where "ET_EXEC \<equiv> 2"
abbreviation (input) ET_DYN :: u16 where "ET_DYN \<equiv> 3"
abbreviation (input) EM_NONE :: u16 where "EM_NONE \<equiv> 0"
abbreviation (input) EM_ARM :: u16 where "EM_ARM \<equiv> 40"
abbreviation (input) EM_TI_C6000 :: u16 where "EM_TI_C6000 \<equiv> 140"
abbreviation (input) ELFOSABI_NONE :: u8 where "ELFOSABI_NONE \<equiv> 0"
abbreviation (input) ELFOSABI_C6000_ELFABI :: u8 where "ELFOSABI_C6000_ELFABI \<equiv> 64"

section \<open>A new module\<close>

definition null_loaded_module :: "DLIMP_Loaded_Module" where
  "null_loaded_module =
     \<lparr> file_handle = 0, gsymtab = [], gsymnum = 0, gstrtab = 0, gstrsz = 0, loaded_segments = [], dependencies = [],
       direct_dependent_only = False, lm_name = [], use_count = 0, entry_point = 0, fini = 0, fini_array = 0, fini_arraysz = 0 \<rparr>"

text \<open>The file header is not initialised by the code; it is read before anything looks at it.\<close>

definition new_DLIMP_Dynamic_Module :: "DLIMP_Dynamic_Module" where
  "new_DLIMP_Dynamic_Module =
     \<lparr> fhdr = ehdr_at (\<lambda>_. 0) 0, strtab = 0, strsz = 0, dyntab = [], symtab = [], symnum = 0, gsymtab_offset = 0, gstrtab_offset = 0,
       loaded_module = null_loaded_module, wrong_endian = False, dsbt_index = 0xFFFFFFFF, dsbt_size = 0,
       dsbt_base_tagidx = 0xFFFFFFFF, dm_name = None, dm_phdr = [], phnum = 0, strbuf = [], c_args = 0,
       dm_direct_dependent_only = True, is_relocatable = False, relocate_entry_point = True,
       preinit_array_idx = 0xFFFFFFFF, preinit_arraysz = 0, init_idx = 0xFFFFFFFF, init_array_idx = 0xFFFFFFFF, init_arraysz = 0 \<rparr>"

section \<open>The file header\<close>

text \<open>The operator \<open>!\<close> of C binds stronger than \<open>==\<close>.\<close>

definition c_not :: "u8 \<Rightarrow> u8" where
  "c_not x = (if x = 0 then 1 else 0)"

definition file_header_magic_number_is_valid :: "Elf32_Ehdr \<Rightarrow> bool" where
  "file_header_magic_number_is_valid h \<longleftrightarrow>
     \<not> (c_not (e_ident h ! 0) = 0x7f \<or> c_not (e_ident h ! 1) = 0x45 \<or> c_not (e_ident h ! 2) = 0x4C \<or> c_not (e_ident h ! 3) = 0x46)"

text \<open>With the new value of \<open>DLOAD_TARGET_MACHINE\<close>.\<close>

definition file_header_machine_is_valid :: "u16 \<Rightarrow> u16 \<Rightarrow> bool \<times> u16" where
  "file_header_machine_is_valid machine m =
     (let target = (if machine = EM_NONE then m else machine) in (m = target, target))"

definition dload_file_header :: "u16 \<Rightarrow> elf_file \<Rightarrow> DLIMP_Dynamic_Module \<Rightarrow> bool \<times> u16 \<times> DLIMP_Dynamic_Module" where
  "dload_file_header machine f dm =
     (let h = ehdr_at (content f) 0;
          wrong = (unat (e_ident h ! 5) \<noteq> ELFDATA2LSB);
          h1 = (if wrong then DLIMP_change_ehdr_endian h else h);
          dm1 = dm \<lparr> fhdr := h1, wrong_endian := wrong \<rparr>
      in if \<not> file_header_magic_number_is_valid h1 then (False, machine, dm1)
         else let (ok, target) = file_header_machine_is_valid machine (e_machine h1)
         in (ok \<and> (e_type h1 = ET_EXEC \<or> e_type h1 = ET_DYN), target, dm1))"

section \<open>The program headers\<close>

text \<open>
  The entries of the table stand in the buffer at the size of a struct, whatever \<open>e_phentsize\<close> says; the byte swap goes
  over all of them.
\<close>

definition dload_program_header_table :: "read_env \<Rightarrow> elf_file \<Rightarrow> DLIMP_Dynamic_Module \<Rightarrow> load_fault + DLIMP_Dynamic_Module" where
  "dload_program_header_table env f dm =
     (let h = fhdr dm; n = unat (e_phnum h);
          whole = n * unat (e_phentsize h) div 32;
          tab = table_at phdr_at 32 (content f) (e_phoff h) whole
      in if \<not> granted env PhdrBuffer then Inr dm
         else if wrong_endian dm \<and> whole < n then Inl OutOfTable
         else Inr (dm \<lparr> dm_phdr := (if wrong_endian dm then map DLIMP_change_phdr_endian tab else tab),
                        phnum := ucast (e_phnum h) \<rparr>))"

definition dload_headers :: "read_env \<Rightarrow> u16 \<Rightarrow> elf_file \<Rightarrow> DLIMP_Dynamic_Module \<Rightarrow>
    load_fault + (bool \<times> u16 \<times> DLIMP_Dynamic_Module)" where
  "dload_headers env machine f dm =
     (case dload_file_header machine f dm of
        (ok, target, dm1) \<Rightarrow>
          if \<not> ok then Inr (False, target, dm1)
          else bindE (dload_program_header_table env f dm1) (\<lambda>dm2. Inr (True, target, dm2)))"

section \<open>The dynamic table\<close>

fun find_dynamic :: "nat \<Rightarrow> nat \<Rightarrow> Elf32_Phdr list \<Rightarrow> load_fault + nat option" where
  "find_dynamic i 0 ps = Inr None"
| "find_dynamic i (Suc n) [] = Inl OutOfTable"
| "find_dynamic i (Suc n) (p # ps) = (if p_type p = PT_DYNAMIC then Inr (Some i) else find_dynamic (Suc i) n ps)"

definition find_dynamic_segment :: "DLIMP_Dynamic_Module \<Rightarrow> load_fault + (nat option \<times> DLIMP_Dynamic_Module)" where
  "find_dynamic_segment dm =
     bindE (find_dynamic 0 (unat (phnum dm)) (dm_phdr dm)) (\<lambda>i. Inr (i, dm \<lparr> is_relocatable := (i \<noteq> None) \<rparr>))"

definition copy_dynamic_table :: "read_env \<Rightarrow> elf_file \<Rightarrow> DLIMP_Dynamic_Module \<Rightarrow> nat \<Rightarrow> DLIMP_Dynamic_Module" where
  "copy_dynamic_table env f dm i =
     (let ph = dm_phdr dm ! i;
          tab = table_at dyn_at 8 (content f) (p_offset ph) (unat (p_filesz ph) div 8)
      in dm \<lparr> dyntab := (if \<not> granted env DyntabBuffer then []
                         else if wrong_endian dm then map DLIMP_change_dynent_endian tab else tab) \<rparr>)"

definition DLDYN_arm_process_dynamic_tag :: "Elf32_Dyn \<Rightarrow> DLIMP_Dynamic_Module \<Rightarrow> bool \<times> DLIMP_Dynamic_Module" where
  "DLDYN_arm_process_dynamic_tag d dm =
     (if d_tag d = DT_ARM_SYMTABSZ then (True, dm \<lparr> symnum := d_un d \<rparr>) else (False, dm))"

definition DLDYN_c60_process_dynamic_tag :: "u32 \<Rightarrow> Elf32_Dyn \<Rightarrow> DLIMP_Dynamic_Module \<Rightarrow> bool \<times> DLIMP_Dynamic_Module" where
  "DLDYN_c60_process_dynamic_tag i d dm =
     (if d_tag d = DT_C6000_GSYM_OFFSET then (True, dm \<lparr> gsymtab_offset := d_un d \<rparr>)
      else if d_tag d = DT_C6000_GSTR_OFFSET then (True, dm \<lparr> gstrtab_offset := d_un d \<rparr>)
      else if d_tag d = DT_C6000_DSBT_BASE then (True, dm \<lparr> dsbt_base_tagidx := i \<rparr>)
      else if d_tag d = DT_C6000_DSBT_INDEX then (True, dm \<lparr> dsbt_index := d_un d \<rparr>)
      else if d_tag d = DT_C6000_DSBT_SIZE then (True, dm \<lparr> dsbt_size := d_un d \<rparr>)
      else (False, dm))"

definition process_target_dynamic_tag :: "u32 \<Rightarrow> Elf32_Dyn \<Rightarrow> DLIMP_Dynamic_Module \<Rightarrow> bool \<times> DLIMP_Dynamic_Module" where
  "process_target_dynamic_tag i d dm =
     (if e_machine (fhdr dm) = EM_ARM then DLDYN_arm_process_dynamic_tag d dm
      else if e_machine (fhdr dm) = EM_TI_C6000 then DLDYN_c60_process_dynamic_tag i d dm
      else (False, dm))"

text \<open>The local variables of \<open>process_dynamic_table\<close>.\<close>

record tag_offsets =
  soname_found :: bool
  soname_offset :: u32
  strtab_offset :: u32
  hash_offset :: u32
  symtab_offset :: u32

definition tag_step :: "u32 \<Rightarrow> Elf32_Dyn \<Rightarrow> tag_offsets \<times> DLIMP_Dynamic_Module \<Rightarrow> tag_offsets \<times> DLIMP_Dynamic_Module" where
  "tag_step i d st =
     (case st of (loc, dm) \<Rightarrow>
       let t = d_tag d; v = d_un d in
       if t = DT_SONAME then (loc \<lparr> soname_found := True, soname_offset := v \<rparr>, dm)
       else if t = DT_STRSZ then (loc, dm \<lparr> strsz := v \<rparr>)
       else if t = DT_STRTAB then (loc \<lparr> strtab_offset := v \<rparr>, dm)
       else if t = DT_HASH then (loc \<lparr> hash_offset := v \<rparr>, dm)
       else if t = DT_SYMTAB then (loc \<lparr> symtab_offset := v \<rparr>, dm)
       else if t = DT_PREINIT_ARRAY then (loc, dm \<lparr> preinit_array_idx := i \<rparr>)
       else if t = DT_PREINIT_ARRAYSZ then (loc, dm \<lparr> preinit_arraysz := v \<rparr>)
       else if t = DT_INIT then (loc, dm \<lparr> init_idx := i \<rparr>)
       else if t = DT_INIT_ARRAY then (loc, dm \<lparr> init_array_idx := i \<rparr>)
       else if t = DT_INIT_ARRAYSZ then (loc, dm \<lparr> init_arraysz := v \<rparr>)
       else if t = DT_FINI_ARRAY \<or> t = DT_FINI_ARRAYSZ \<or> t = DT_FINI then (loc, dm)
       else (loc, snd (process_target_dynamic_tag i d dm)))"

fun process_tags :: "u32 \<Rightarrow> Elf32_Dyn list \<Rightarrow> tag_offsets \<times> DLIMP_Dynamic_Module \<Rightarrow>
    load_fault + (tag_offsets \<times> DLIMP_Dynamic_Module)" where
  "process_tags i [] st = Inl OutOfTable"
| "process_tags i (d # ds) st = (if d_tag d = DT_NULL then Inr st else process_tags (i + 1) ds (tag_step i d st))"

text \<open>The string at an offset in a string table, without a terminator in the buffer a fault.\<close>

definition c_string :: "u8 list \<Rightarrow> u32 \<Rightarrow> load_fault + string" where
  "c_string buf off =
     (let bs = drop (unat off) buf
      in if 0 \<in> set bs then Inr (map (\<lambda>b. char_of (unat b)) (takeWhile (\<lambda>b. b \<noteq> 0) bs)) else Inl OutOfTable)"

definition read_strings :: "read_env \<Rightarrow> elf_file \<Rightarrow> u32 \<Rightarrow> DLIMP_Dynamic_Module \<Rightarrow> bool \<times> DLIMP_Dynamic_Module" where
  "read_strings env f off dm =
     (if off \<noteq> 0 \<and> strsz dm \<noteq> 0 \<and> granted env StrtabBuffer
      then (True, dm \<lparr> strtab := strtab_at env, strbuf := table_at read8 1 (content f) off (unat (strsz dm)) \<rparr>)
      else (False, dm))"

text \<open>The number of symbols is the second word of the hash table.\<close>

definition read_symnum :: "elf_file \<Rightarrow> u32 \<Rightarrow> DLIMP_Dynamic_Module \<Rightarrow> bool \<times> DLIMP_Dynamic_Module" where
  "read_symnum f off dm =
     (if off \<noteq> 0
      then let n = read32 (content f) (off + 4)
           in (True, dm \<lparr> symnum := (if wrong_endian dm then DLIMP_change_endian32 n else n) \<rparr>)
      else (False, dm))"

definition read_symbols :: "read_env \<Rightarrow> elf_file \<Rightarrow> u32 \<Rightarrow> u32 \<Rightarrow> DLIMP_Dynamic_Module \<Rightarrow>
    load_fault + (bool \<times> DLIMP_Dynamic_Module)" where
  "read_symbols env f strtab_off off dm =
     (if off = 0 \<or> \<not> granted env SymtabBuffer then Inr (False, dm)
      else if 2 ^ 28 \<le> unat (symnum dm) then Inl OutOfTable
      else
        let tab = table_at sym_at 16 (content f) off (unat (symnum dm));
            tab1 = (if wrong_endian dm then map DLIMP_change_sym_endian tab else tab);
            tab2 = (if strtab_off \<noteq> 0 then map (\<lambda>s. s \<lparr> st_name := st_name s + strtab dm \<rparr>) tab1 else tab1)
        in Inr (True, dm \<lparr> symtab := tab2 \<rparr>))"

definition read_soname :: "read_env \<Rightarrow> tag_offsets \<Rightarrow> DLIMP_Dynamic_Module \<Rightarrow> load_fault + (bool \<times> DLIMP_Dynamic_Module)" where
  "read_soname env loc dm =
     bindE (if soname_found loc then c_string (strbuf dm) (soname_offset loc) else Inr []) (\<lambda>nm.
       if granted env NameBuffer then Inr (True, dm \<lparr> dm_name := Some nm \<rparr>) else Inr (False, dm))"

definition process_dynamic_table :: "read_env \<Rightarrow> elf_file \<Rightarrow> DLIMP_Dynamic_Module \<Rightarrow>
    load_fault + (bool \<times> DLIMP_Dynamic_Module)" where
  "process_dynamic_table env f dm =
     bindE (process_tags 0 (dyntab dm)
         (\<lparr> soname_found = False, soname_offset = 0, strtab_offset = 0, hash_offset = 0, symtab_offset = 0 \<rparr>, dm)) (\<lambda>(loc, dm1).
       let (ok, dm2) = read_strings env f (strtab_offset loc) dm1 in
       if \<not> ok then Inr (False, dm2)
       else let (ok, dm3) = read_symnum f (hash_offset loc) dm2 in
       if \<not> ok then Inr (False, dm3)
       else bindE (read_symbols env f (strtab_offset loc) (symtab_offset loc) dm3) (\<lambda>(ok, dm4).
         if \<not> ok then Inr (False, dm4) else read_soname env loc dm4))"

definition DLDYN_arm_process_eiosabi :: "DLIMP_Dynamic_Module \<Rightarrow> bool" where
  "DLDYN_arm_process_eiosabi dm \<longleftrightarrow> e_ident (fhdr dm) ! 7 = ELFOSABI_NONE"

definition DLDYN_c60_process_eiosabi :: "DLIMP_Dynamic_Module \<Rightarrow> bool" where
  "DLDYN_c60_process_eiosabi dm \<longleftrightarrow>
     (if is_relocatable dm then e_ident (fhdr dm) ! 7 = ELFOSABI_C6000_ELFABI else e_ident (fhdr dm) ! 7 = ELFOSABI_NONE)"

definition process_eiosabi :: "DLIMP_Dynamic_Module \<Rightarrow> bool" where
  "process_eiosabi dm \<longleftrightarrow>
     (if e_machine (fhdr dm) = EM_ARM then DLDYN_arm_process_eiosabi dm
      else if e_machine (fhdr dm) = EM_TI_C6000 then DLDYN_c60_process_eiosabi dm
      else False)"

definition dload_dynamic_information :: "read_env \<Rightarrow> elf_file \<Rightarrow> DLIMP_Dynamic_Module \<Rightarrow> nat \<Rightarrow>
    load_fault + (bool \<times> DLIMP_Dynamic_Module)" where
  "dload_dynamic_information env f dm i = process_dynamic_table env f (copy_dynamic_table env f dm i)"

text \<open>The names of the modules that are being loaded; \<^const>\<open>None\<close> is a name whose memory has been given back.\<close>

fun check_circular_dependency :: "string option list \<Rightarrow> string \<Rightarrow> load_fault + bool" where
  "check_circular_dependency [] nm = Inr True"
| "check_circular_dependency (None # rest) nm = Inl Freed"
| "check_circular_dependency (Some other # rest) nm = (if nm = other then Inr False else check_circular_dependency rest nm)"

definition dload_dynamic_segment :: "read_env \<Rightarrow> string option list \<Rightarrow> elf_file \<Rightarrow> DLIMP_Dynamic_Module \<Rightarrow>
    load_fault + (bool \<times> DLIMP_Dynamic_Module)" where
  "dload_dynamic_segment env loading f dm =
     bindE (find_dynamic_segment dm) (\<lambda>(idx, dm1).
       case idx of
         None \<Rightarrow> Inr (True, dm1)
       | Some i \<Rightarrow>
           if \<not> process_eiosabi dm1 then Inr (False, dm1)
           else bindE (dload_dynamic_information env f dm1 i) (\<lambda>(ok, dm2).
             if \<not> ok then Inr (False, dm2)
             else bindE (check_circular_dependency loading (the (dm_name dm2))) (\<lambda>fresh. Inr (fresh, dm2))))"

section \<open>Sanity checks\<close>

fun valid_phdrs :: "u32 \<Rightarrow> nat \<Rightarrow> Elf32_Phdr list \<Rightarrow> load_fault + bool" where
  "valid_phdrs fsz 0 ps = Inr True"
| "valid_phdrs fsz (Suc n) [] = Inl OutOfTable"
| "valid_phdrs fsz (Suc n) (p # ps) =
     (if p_type p = PT_LOAD \<and> \<not> p_filesz p \<le> p_memsz p then Inr False
      else if \<not> p_offset p + p_filesz p < fsz then Inr False
      else valid_phdrs fsz n ps)"

text \<open>A module has a dynamic table, and a symbol table, exactly if it is relocatable.\<close>

definition is_valid_elf_object_file :: "elf_file \<Rightarrow> DLIMP_Dynamic_Module \<Rightarrow> load_fault + bool" where
  "is_valid_elf_object_file f dm =
     (let fsz = file_size f in
      if \<not> (strsz dm < fsz \<and> symnum dm < fsz \<and> phnum dm * 32 < fsz) then Inr False
      else if is_relocatable dm \<and> dm_name dm = Some [] then Inr False
      else bindE (valid_phdrs fsz (unat (phnum dm)) (dm_phdr dm)) (\<lambda>ok.
        Inr (ok \<and> \<not> (e_type (fhdr dm) = ET_DYN \<and> \<not> is_relocatable dm))))"

end
