(* ===== verification/Dload_Place.thy ===== *)
theory Dload_Place
  imports Dload_Read
begin

text \<open>
  Placing a module (\<open>elfload/dload.c\<close>): the loaded module that \<open>initialize_loaded_module\<close> makes of the file, the target
  memory that the client grants for its segments, and the move of all addresses of the module to it: program headers, entry
  point, symbols and the values of dynamic tags. The addresses that \<open>DLIF_allocate\<close> grants are a function of the
  number of the segment, \<^const>\<open>None\<close> when it fails.
\<close>

section \<open>The loaded module\<close>

definition load_segment :: "Elf32_Phdr \<Rightarrow> DLIMP_Loaded_Segment" where
  "load_segment p = \<lparr> phdr = p \<lparr> p_type := PT_LOAD, p_paddr := 0 \<rparr>, input_vaddr = 0, reloc_offset = 0 \<rparr>"

text \<open>
  The first part of \<open>initialize_loaded_module\<close> and the copy of the global symbols (\<open>copied\<close>) is followed by the list of
  segments. The allocations of host memory for the module, its name and its segments succeed; the code ends the
  process or stores nothing when they fail.
\<close>

definition new_loaded_module :: "u32 \<Rightarrow> DLIMP_Dynamic_Module \<Rightarrow> DLIMP_Dynamic_Module" where
  "new_loaded_module h dm = dm
     \<lparr> loaded_module := null_loaded_module
         \<lparr> lm_name := the (dm_name dm), file_handle := h, direct_dependent_only := dm_direct_dependent_only dm, use_count := 1 \<rparr> \<rparr>"

definition add_segments :: "DLIMP_Dynamic_Module \<Rightarrow> load_fault + DLIMP_Dynamic_Module" where
  "add_segments dm =
     (if length (dm_phdr dm) < unat (phnum dm) then Inl OutOfTable
      else Inr (dm \<lparr> loaded_module := (loaded_module dm)
             \<lparr> loaded_segments := map load_segment (filter (\<lambda>p. p_type p = PT_LOAD) (take (unat (phnum dm)) (dm_phdr dm))) \<rparr> \<rparr>))"

section \<open>Moving a segment\<close>

definition within :: "u32 \<Rightarrow> u32 \<Rightarrow> u32 \<Rightarrow> bool" where
  "within lo sz a \<longleftrightarrow> lo \<le> a \<and> a < lo + sz"

definition move_entry :: "u32 \<Rightarrow> u32 \<Rightarrow> u32 \<Rightarrow> DLIMP_Dynamic_Module \<Rightarrow> DLIMP_Dynamic_Module" where
  "move_entry off va sz dm =
     (if relocate_entry_point dm \<and> within va sz (e_entry (fhdr dm))
      then dm \<lparr> fhdr := (fhdr dm) \<lparr> e_entry := e_entry (fhdr dm) + off \<rparr>, relocate_entry_point := False \<rparr>
      else dm)"

text \<open>
  The first program header with the address of the segment moves. The physical address that is changed beside is the one of
  the program header with the number of the segment.
\<close>

fun find_phdr :: "u32 \<Rightarrow> nat \<Rightarrow> Elf32_Phdr list \<Rightarrow> nat option" where
  "find_phdr va j [] = None"
| "find_phdr va j (p # ps) = (if p_vaddr p = va then Some j else find_phdr va (Suc j) ps)"

definition move_phdr :: "u32 \<Rightarrow> u32 \<Rightarrow> nat \<Rightarrow> nat \<Rightarrow> Elf32_Phdr list \<Rightarrow> Elf32_Phdr list" where
  "move_phdr off va n i ps =
     (case find_phdr va 0 (take n ps) of
        None \<Rightarrow> ps
      | Some j \<Rightarrow>
          (let ps1 = ps[j := (ps ! j) \<lparr> p_vaddr := p_vaddr (ps ! j) + off \<rparr>]
           in ps1[i := (ps1 ! i) \<lparr> p_paddr := p_paddr (ps1 ! i) + off \<rparr>]))"

text \<open>
  Symbols from \<open>j\<close> on, with the module's copy of the global symbols, which begin at \<open>global_index\<close>. A symbol that has
  moved is marked in \<open>st_shndx\<close>.
\<close>

abbreviation (input) INT16_MAX :: u16 where "INT16_MAX \<equiv> 0x7FFF"

fun move_symbols :: "u32 \<Rightarrow> u32 \<Rightarrow> u32 \<Rightarrow> nat \<Rightarrow> nat \<Rightarrow> Elf32_Sym list \<Rightarrow> Elf32_Sym list \<Rightarrow>
    Elf32_Sym list \<times> Elf32_Sym list" where
  "move_symbols off start sz gi j [] g = ([], g)"
| "move_symbols off start sz gi j (s # ss) g =
     (let adj = st_value s + off in
      if within start sz adj \<and> st_shndx s \<noteq> INT16_MAX then
        (let g1 = (if gi \<le> j then g[j - gi := (g ! (j - gi)) \<lparr> st_value := adj \<rparr>] else g);
             (ss1, g2) = move_symbols off start sz gi (Suc j) ss g1
         in (s \<lparr> st_value := adj, st_shndx := INT16_MAX \<rparr> # ss1, g2))
      else
        (let (ss1, g1) = move_symbols off start sz gi (Suc j) ss g in (s # ss1, g1)))"

definition global_index :: "DLIMP_Dynamic_Module \<Rightarrow> nat" where
  "global_index dm = unat (symnum dm - gsymnum (loaded_module dm))"

definition place_segment :: "u32 \<Rightarrow> nat \<Rightarrow> DLIMP_Dynamic_Module \<Rightarrow> DLIMP_Dynamic_Module" where
  "place_segment target i dm =
     (let seg = loaded_segments (loaded_module dm) ! i;
          va = p_vaddr (phdr seg); sz = p_memsz (phdr seg);
          off = target - va;
          dm1 = move_entry off va sz dm;
          dm2 = dm1 \<lparr> dm_phdr := move_phdr off va (unat (e_phnum (fhdr dm1))) i (dm_phdr dm1) \<rparr>;
          seg1 = seg \<lparr> input_vaddr := va, phdr := (phdr seg) \<lparr> p_vaddr := va + off \<rparr> \<rparr>;
          (syms, gsyms) = move_symbols off (va + off) sz (global_index dm2) 0 (symtab dm2) (gsymtab (loaded_module dm2))
      in dm2 \<lparr> symtab := syms,
               loaded_module := (loaded_module dm2)
                 \<lparr> loaded_segments := (loaded_segments (loaded_module dm2))[i := seg1], gsymtab := gsyms \<rparr> \<rparr>)"

fun place_segments :: "(nat \<Rightarrow> u32 option) \<Rightarrow> nat list \<Rightarrow> DLIMP_Dynamic_Module \<Rightarrow> bool \<times> DLIMP_Dynamic_Module" where
  "place_segments alloc [] dm = (True, dm)"
| "place_segments alloc (i # is) dm =
     (case alloc i of
        None \<Rightarrow> (False, dm)
      | Some target \<Rightarrow> place_segments alloc is (place_segment target i dm))"

section \<open>Dynamic tags\<close>

fun DLIMP_update_dyntag_section_address :: "DLIMP_Loaded_Segment list \<Rightarrow> u32 \<Rightarrow> u32 option" where
  "DLIMP_update_dyntag_section_address [] v = None"
| "DLIMP_update_dyntag_section_address (seg # segs) v =
     (if within (input_vaddr seg) (p_memsz (phdr seg)) v then Some (v + (p_vaddr (phdr seg) - input_vaddr seg))
      else DLIMP_update_dyntag_section_address segs v)"

text \<open>The result of a tag: the new value, or \<^const>\<open>None\<close> for FALSE.\<close>

definition DLDYN_arm_relocate_dynamic_tag_info :: "Elf32_Dyn \<Rightarrow> u32 option" where
  "DLDYN_arm_relocate_dynamic_tag_info d =
     (if d_tag d \<in> {0x70000000, 0x70000001, 0x70000002, 0x70000003} then Some (d_un d) else None)"

definition DLDYN_c60_relocate_dynamic_tag_info :: "DLIMP_Loaded_Segment list \<Rightarrow> Elf32_Dyn \<Rightarrow> u32 option" where
  "DLDYN_c60_relocate_dynamic_tag_info segs d =
     (if d_tag d \<in> {DT_C6000_GSYM_OFFSET, DT_C6000_GSTR_OFFSET, DT_C6000_DSBT_INDEX, DT_C6000_DSBT_SIZE} then Some (d_un d)
      else if d_tag d = DT_C6000_DSBT_BASE then DLIMP_update_dyntag_section_address segs (d_un d)
      else None)"

definition relocate_target_dynamic_tag_info :: "DLIMP_Dynamic_Module \<Rightarrow> Elf32_Dyn \<Rightarrow> u32 option" where
  "relocate_target_dynamic_tag_info dm d =
     (if e_machine (fhdr dm) = EM_ARM then DLDYN_arm_relocate_dynamic_tag_info d
      else if e_machine (fhdr dm) = EM_TI_C6000
      then DLDYN_c60_relocate_dynamic_tag_info (loaded_segments (loaded_module dm)) d
      else None)"

definition plain_tags :: "u32 list" where
  "plain_tags = [DT_NEEDED, DT_PLTRELSZ, DT_HASH, DT_STRTAB, DT_SYMTAB, DT_RELA, DT_RELASZ, DT_RELAENT, DT_STRSZ, 11, DT_SONAME, 15, 16,
     DT_REL, DT_RELSZ, DT_RELENT, DT_PLTREL, 21, 22, 24, DT_INIT_ARRAYSZ, 29, 30, DT_PREINIT_ARRAYSZ]"

definition relocate_tag :: "Elf32_Dyn \<Rightarrow> DLIMP_Dynamic_Module \<Rightarrow> (u32 \<times> DLIMP_Dynamic_Module) option" where
  "relocate_tag d dm =
     (let t = d_tag d; moved = DLIMP_update_dyntag_section_address (loaded_segments (loaded_module dm)) (d_un d) in
      if t \<in> set plain_tags then Some (d_un d, dm)
      else if t = DT_PREINIT_ARRAY \<or> t = DT_INIT \<or> t = DT_INIT_ARRAY then map_option (\<lambda>v. (v, dm)) moved
      else if t = DT_FINI then
        map_option (\<lambda>v. (v, dm \<lparr> loaded_module := (loaded_module dm) \<lparr> fini := v \<rparr> \<rparr>)) moved
      else if t = DT_FINI_ARRAY then
        map_option (\<lambda>v. (v, dm \<lparr> loaded_module := (loaded_module dm) \<lparr> fini_array := v \<rparr> \<rparr>)) moved
      else if t = DT_FINI_ARRAYSZ then
        Some (d_un d, dm \<lparr> loaded_module := (loaded_module dm) \<lparr> fini_arraysz := d_un d \<rparr> \<rparr>)
      else if t = DT_JMPREL then Some (d_un d, dm)
      else map_option (\<lambda>v. (v, dm)) (relocate_target_dynamic_tag_info dm d))"

text \<open>From the tags on that are left; those already treated are in front of them.\<close>

fun relocate_tags :: "Elf32_Dyn list \<Rightarrow> Elf32_Dyn list \<Rightarrow> DLIMP_Dynamic_Module \<Rightarrow> load_fault + (bool \<times> DLIMP_Dynamic_Module)" where
  "relocate_tags front [] dm = Inl OutOfTable"
| "relocate_tags front (d # ds) dm =
     (if d_tag d = DT_NULL then Inr (True, dm \<lparr> dyntab := front @ d # ds \<rparr>)
      else case relocate_tag d dm of
             None \<Rightarrow> Inr (False, dm \<lparr> dyntab := front @ d # ds \<rparr>)
           | Some (v, dm1) \<Rightarrow> relocate_tags (front @ [d \<lparr> d_un := v \<rparr>]) ds dm1)"

definition relocate_dynamic_tag_info :: "DLIMP_Dynamic_Module \<Rightarrow> load_fault + (bool \<times> DLIMP_Dynamic_Module)" where
  "relocate_dynamic_tag_info dm = relocate_tags [] (dyntab dm) dm"

definition allocate_dynamic_segments_and_relocate_symbols ::
    "(nat \<Rightarrow> u32 option) \<Rightarrow> DLIMP_Dynamic_Module \<Rightarrow> load_fault + (bool \<times> DLIMP_Dynamic_Module)" where
  "allocate_dynamic_segments_and_relocate_symbols alloc dm =
     (case place_segments alloc [0..<length (loaded_segments (loaded_module dm))] dm of
        (False, dm1) \<Rightarrow> Inr (False, dm1)
      | (True, dm1) \<Rightarrow> relocate_dynamic_tag_info dm1)"

end
