(* ===== verification/Arm_Types.thy ===== *)
theory Arm_Types
  imports Modules Endian
begin

text \<open>
  ARM relocation types and the questions \<open>elfload/arm_reloc.c\<close> asks about them: which concern data, which are
  swapped, how wide their fields are, and the arithmetic of the group relocations.

  The datatype has the types that the code tells apart; the values of the enumeration that it treats
  alike, as unknown types, are \<open>R_ARM_OTHER\<close>. Shift distances and group numbers are small
  non-negative numbers and are kept as \<^typ>\<open>nat\<close>.
\<close>

section \<open>Relocation types\<close>

datatype (plugins only: code) ARM_RELOC_TYPE =
    R_ARM_NONE | R_ARM_PC24 | R_ARM_ABS32 | R_ARM_REL32 | R_ARM_LDR_PC_G0 | R_ARM_ABS16 | R_ARM_ABS12 |
    R_ARM_THM_ABS5 | R_ARM_ABS8 | R_ARM_THM_CALL | R_ARM_THM_PC8 | R_ARM_PLT32 | R_ARM_CALL | R_ARM_JUMP24 |
    R_ARM_THM_JUMP24 | R_ARM_PREL31 | R_ARM_MOVW_ABS_NC | R_ARM_MOVT_ABS | R_ARM_MOVW_PREL_NC |
    R_ARM_MOVT_PREL | R_ARM_THM_MOVW_ABS_NC | R_ARM_THM_MOVT_ABS | R_ARM_THM_MOVW_PREL_NC |
    R_ARM_THM_MOVT_PREL | R_ARM_THM_JUMP19 | R_ARM_THM_JUMP6 | R_ARM_THM_ALU_PREL_11_0 | R_ARM_THM_PC12 |
    R_ARM_ABS32_NOI | R_ARM_REL32_NOI | R_ARM_ALU_PC_G0_NC | R_ARM_ALU_PC_G0 | R_ARM_ALU_PC_G1_NC |
    R_ARM_ALU_PC_G1 | R_ARM_ALU_PC_G2 | R_ARM_LDR_PC_G1 | R_ARM_LDR_PC_G2 | R_ARM_LDRS_PC_G0 |
    R_ARM_LDRS_PC_G1 | R_ARM_LDRS_PC_G2 | R_ARM_LDC_PC_G0 | R_ARM_LDC_PC_G1 | R_ARM_LDC_PC_G2 |
    R_ARM_THM_MOVW_BREL_NC | R_ARM_THM_MOVT_BREL | R_ARM_THM_MOVW_BREL | R_ARM_PLT32_ABS | R_ARM_THM_JUMP11 |
    R_ARM_THM_JUMP8 | R_ARM_OTHER u8

definition arm_reloc_type :: "u8 \<Rightarrow> ARM_RELOC_TYPE" where
  "arm_reloc_type r =
  (if r = 0 then R_ARM_NONE
   else if r = 1 then R_ARM_PC24
   else if r = 2 then R_ARM_ABS32
   else if r = 3 then R_ARM_REL32
   else if r = 4 then R_ARM_LDR_PC_G0
   else if r = 5 then R_ARM_ABS16
   else if r = 6 then R_ARM_ABS12
   else if r = 7 then R_ARM_THM_ABS5
   else if r = 8 then R_ARM_ABS8
   else if r = 10 then R_ARM_THM_CALL
   else if r = 11 then R_ARM_THM_PC8
   else if r = 27 then R_ARM_PLT32
   else if r = 28 then R_ARM_CALL
   else if r = 29 then R_ARM_JUMP24
   else if r = 30 then R_ARM_THM_JUMP24
   else if r = 42 then R_ARM_PREL31
   else if r = 43 then R_ARM_MOVW_ABS_NC
   else if r = 44 then R_ARM_MOVT_ABS
   else if r = 45 then R_ARM_MOVW_PREL_NC
   else if r = 46 then R_ARM_MOVT_PREL
   else if r = 47 then R_ARM_THM_MOVW_ABS_NC
   else if r = 48 then R_ARM_THM_MOVT_ABS
   else if r = 49 then R_ARM_THM_MOVW_PREL_NC
   else if r = 50 then R_ARM_THM_MOVT_PREL
   else if r = 51 then R_ARM_THM_JUMP19
   else if r = 52 then R_ARM_THM_JUMP6
   else if r = 53 then R_ARM_THM_ALU_PREL_11_0
   else if r = 54 then R_ARM_THM_PC12
   else if r = 55 then R_ARM_ABS32_NOI
   else if r = 56 then R_ARM_REL32_NOI
   else if r = 57 then R_ARM_ALU_PC_G0_NC
   else if r = 58 then R_ARM_ALU_PC_G0
   else if r = 59 then R_ARM_ALU_PC_G1_NC
   else if r = 60 then R_ARM_ALU_PC_G1
   else if r = 61 then R_ARM_ALU_PC_G2
   else if r = 62 then R_ARM_LDR_PC_G1
   else if r = 63 then R_ARM_LDR_PC_G2
   else if r = 64 then R_ARM_LDRS_PC_G0
   else if r = 65 then R_ARM_LDRS_PC_G1
   else if r = 66 then R_ARM_LDRS_PC_G2
   else if r = 67 then R_ARM_LDC_PC_G0
   else if r = 68 then R_ARM_LDC_PC_G1
   else if r = 69 then R_ARM_LDC_PC_G2
   else if r = 87 then R_ARM_THM_MOVW_BREL_NC
   else if r = 88 then R_ARM_THM_MOVT_BREL
   else if r = 89 then R_ARM_THM_MOVW_BREL
   else if r = 94 then R_ARM_PLT32_ABS
   else if r = 102 then R_ARM_THM_JUMP11
   else if r = 103 then R_ARM_THM_JUMP8
   else R_ARM_OTHER r)"

datatype ARM_RELOC_SIZE = ARM_RELOC | THUMB32_RELOC | THUMB16_RELOC | ARM8_RELOC

abbreviation (input) EF_ARM_BE8 :: u32 where "EF_ARM_BE8 \<equiv> 0x00800000"

definition obj_is_be8 :: "Elf32_Ehdr \<Rightarrow> bool" where
  "obj_is_be8 hdr \<longleftrightarrow> e_flags hdr AND EF_ARM_BE8 \<noteq> 0"

definition is_data_relocation :: "ARM_RELOC_TYPE \<Rightarrow> bool" where
  "is_data_relocation r_type \<longleftrightarrow> r_type \<in> {R_ARM_ABS32, R_ARM_ABS16, R_ARM_ABS8, R_ARM_PREL31, R_ARM_REL32, R_ARM_ABS32_NOI, R_ARM_REL32_NOI}"

definition rel_swap_endian :: "DLIMP_Dynamic_Module \<Rightarrow> ARM_RELOC_TYPE \<Rightarrow> bool" where
  "rel_swap_endian dyn_module r_type =
     (if wrong_endian dyn_module \<and> obj_is_be8 (fhdr dyn_module) \<and> is_data_relocation r_type then True
      else if \<not> wrong_endian dyn_module \<and> obj_is_be8 (fhdr dyn_module) \<and> \<not> is_data_relocation r_type then True
      else if wrong_endian dyn_module then True
      else False)"

definition get_reloc_size :: "ARM_RELOC_TYPE \<Rightarrow> ARM_RELOC_SIZE" where
  "get_reloc_size r_type =
     (if r_type \<in> {R_ARM_THM_ABS5, R_ARM_THM_PC8, R_ARM_THM_JUMP6, R_ARM_THM_JUMP11, R_ARM_THM_JUMP8} then THUMB16_RELOC
      else if r_type \<in> {R_ARM_THM_CALL, R_ARM_THM_JUMP24, R_ARM_THM_MOVW_ABS_NC, R_ARM_THM_MOVT_ABS, R_ARM_THM_MOVW_PREL_NC,
         R_ARM_THM_MOVT_PREL, R_ARM_THM_JUMP19, R_ARM_THM_ALU_PREL_11_0, R_ARM_THM_PC12,
         R_ARM_THM_MOVW_BREL_NC, R_ARM_THM_MOVT_BREL, R_ARM_THM_MOVW_BREL} then THUMB32_RELOC
      else if r_type = R_ARM_ABS8 then ARM8_RELOC
      else ARM_RELOC)"

definition rel_change_endian :: "ARM_RELOC_TYPE \<Rightarrow> u32 \<Rightarrow> mem \<Rightarrow> mem" where
  "rel_change_endian r_type address m =
     (case get_reloc_size r_type of
        ARM_RELOC \<Rightarrow> change_endian32_at address m
      | THUMB32_RELOC \<Rightarrow> change_endian16_at (address + 2) (change_endian16_at address m)
      | THUMB16_RELOC \<Rightarrow> change_endian16_at address m
      | ARM8_RELOC \<Rightarrow> m)"

section \<open>Group relocations\<close>

definition rel_concludes_group :: "ARM_RELOC_TYPE \<Rightarrow> bool" where
  "rel_concludes_group r_type \<longleftrightarrow> r_type \<in> {R_ARM_ALU_PC_G0, R_ARM_ALU_PC_G1, R_ARM_ALU_PC_G2, R_ARM_LDC_PC_G0, R_ARM_LDC_PC_G1, R_ARM_LDC_PC_G2,
     R_ARM_LDR_PC_G0, R_ARM_LDR_PC_G1, R_ARM_LDR_PC_G2, R_ARM_LDRS_PC_G0, R_ARM_LDRS_PC_G1, R_ARM_LDRS_PC_G2}"

definition rel_group_num :: "ARM_RELOC_TYPE \<Rightarrow> nat" where
  "rel_group_num r_type =
     (if r_type \<in> {R_ARM_ALU_PC_G0, R_ARM_ALU_PC_G0_NC, R_ARM_LDC_PC_G0, R_ARM_LDR_PC_G0, R_ARM_LDRS_PC_G0} then 0
      else if r_type \<in> {R_ARM_ALU_PC_G1, R_ARM_ALU_PC_G1_NC, R_ARM_LDC_PC_G1, R_ARM_LDR_PC_G1, R_ARM_LDRS_PC_G1} then 1
      else if r_type \<in> {R_ARM_ALU_PC_G2, R_ARM_LDC_PC_G2, R_ARM_LDR_PC_G2, R_ARM_LDRS_PC_G2} then 2
      else 0)"

text \<open>The loop over the bit positions from 31 down to 8: where it stops, 7 if no bit is set.\<close>

fun highest_bit_from :: "nat \<Rightarrow> u32 \<Rightarrow> nat" where
  "highest_bit_from mask_offset residual =
     (if mask_offset \<le> 7 then mask_offset
      else if residual AND shl 1 mask_offset \<noteq> 0 then mask_offset
      else highest_bit_from (mask_offset - 1) residual)"

declare highest_bit_from.simps [simp del]

definition rel_alu_mask_offset :: "u32 \<Rightarrow> nat \<Rightarrow> nat" where
  "rel_alu_mask_offset residual bit_align =
     (let mask_offset = highest_bit_from 31 residual - 7;
          bit_align = (if bit_align = 0 then 1 else bit_align)
      in if mask_offset AND bit_align \<noteq> 0
         then mask_offset + (bit_align - mask_offset mod bit_align)
         else mask_offset)"

text \<open>The loop over the groups, with the value and the residual of the last round.\<close>

fun mask_groups :: "nat \<Rightarrow> u32 \<times> u32 \<Rightarrow> u32 \<times> u32" where
  "mask_groups 0 (reloc_val, curr_residual) = (reloc_val, curr_residual)"
| "mask_groups (Suc n) (reloc_val, curr_residual) =
     (let cres_mask = shl 0xFF (rel_alu_mask_offset curr_residual 2)
      in mask_groups n (curr_residual AND cres_mask, curr_residual AND NOT cres_mask))"

definition rel_mask_for_group :: "ARM_RELOC_TYPE \<Rightarrow> u32 \<Rightarrow> u32" where
  "rel_mask_for_group r_type reloc_val =
     (let num_alu_groups = rel_group_num r_type + 1 - (if rel_concludes_group r_type then 1 else 0);
          (masked, residual) = mask_groups num_alu_groups (reloc_val, reloc_val)
      in if rel_concludes_group r_type then residual else masked)"

end
