(* ===== verification/Arm_Fields.thy ===== *)
theory Arm_Fields
  imports Arm_Types Relocate
begin

text \<open>
  The relocation fields of ARM and Thumb instructions and of data: \<open>write_reloc_r\<close> and
  \<open>rel_unpack_addend\<close> of \<open>elfload/arm_reloc.c\<close>, one definition per group of cases of their switches.

  A field lies in memory at an address. A shift of a byte by 32, which C leaves undefined, gives 0, as the ARM shift
  instructions do.
\<close>

section \<open>The macros\<close>

definition EXTRACT :: "u32 \<Rightarrow> nat \<Rightarrow> nat \<Rightarrow> u32" where
  "EXTRACT field lsb_offset field_size = shr field lsb_offset AND (shl 1 field_size - 1)"

definition OPND_S :: "u32 \<Rightarrow> u32" where
  "OPND_S symval = symval AND NOT 0x1"

definition OPND_T :: "u32 \<Rightarrow> u32" where
  "OPND_T symval = symval AND 0x1"

definition IS_BLX :: "u32 \<Rightarrow> bool" where
  "IS_BLX field \<longleftrightarrow> EXTRACT field 24 8 AND NOT 0x1 = 0xFA"

definition SIGN_EXTEND :: "u32 \<Rightarrow> nat \<Rightarrow> u32" where
  "SIGN_EXTEND field field_size = field OR - (field AND shl 1 (field_size - 1))"

text \<open>The field of a 16-bit cell, and the values of \<open>uint8_t\<close> and \<open>uint16_t\<close> variables.\<close>

abbreviation (input) EXTRACT16 :: "u16 \<Rightarrow> nat \<Rightarrow> nat \<Rightarrow> u32" where
  "EXTRACT16 field lsb_offset field_size \<equiv> EXTRACT (ucast field) lsb_offset field_size"

definition as_u8 :: "u32 \<Rightarrow> u32" where
  "as_u8 v = v AND 0xFF"

definition as_u16 :: "u32 \<Rightarrow> u32" where
  "as_u16 v = v AND 0xFFFF"

section \<open>Writing a field\<close>

definition write_arm_branch :: "u32 \<Rightarrow> u32 \<Rightarrow> u32 \<Rightarrow> mem \<Rightarrow> mem" where
  "write_arm_branch a reloc_val symval m =
     (let rel_field = read32 m a;
          rel_field = (if OPND_T symval \<noteq> 0 then rel_field OR 0xF0000000 else rel_field);
          rel_field = rel_field AND NOT 0xFFFFFF;
          rel_field = (if IS_BLX rel_field
                       then (rel_field AND NOT 0x01000000) OR shl (reloc_val AND 0x1) 24
                       else rel_field)
      in write32 a (rel_field OR sar reloc_val 1) m)"

definition write_thm_branch :: "ARM_RELOC_TYPE \<Rightarrow> u32 \<Rightarrow> u32 \<Rightarrow> u32 \<Rightarrow> mem \<Rightarrow> mem" where
  "write_thm_branch r_type a reloc_val symval m =
     (let to_blx = (OPND_T symval = 0 \<and> r_type = R_ARM_THM_CALL);
          m1 = (if to_blx then upd16 (a + 2) (\<lambda>w. w AND 0xEFFF) m else m);
          reloc_val = (if to_blx \<and> reloc_val AND 0x1 \<noteq> 0 then reloc_val + 1 else reloc_val);
          Sval = sar reloc_val 23 AND 0x1;
          J1 = (sar reloc_val 22 XOR c_bool (Sval = 0)) AND 0x1;
          J2 = (sar reloc_val 21 XOR c_bool (Sval = 0)) AND 0x1;
          imm10 = sar reloc_val 11 AND 0x3FF;
          imm11 = reloc_val AND 0x7FF;
          m2 = upd16 a (\<lambda>w. (w AND 0xF800) OR ucast (shl Sval 10) OR ucast imm10) m1
      in upd16 (a + 2) (\<lambda>w. (w AND 0xD000) OR ucast (shl J1 13) OR ucast (shl J2 11) OR ucast imm11) m2)"

definition write_thm_jump19 :: "u32 \<Rightarrow> u32 \<Rightarrow> mem \<Rightarrow> mem" where
  "write_thm_jump19 a reloc_val m =
     (let S = sar reloc_val 19 AND 0x1;
          J2 = sar reloc_val 18 AND 0x1;
          J1 = sar reloc_val 17 AND 0x1;
          imm6 = sar reloc_val 11 AND 0x3F;
          imm11 = reloc_val AND 0x7FF;
          m1 = upd16 a (\<lambda>w. (w AND 0xFBC0) OR ucast (shl S 10) OR ucast imm6) m
      in upd16 (a + 2) (\<lambda>w. (w AND 0xD800) OR ucast (shl J2 13) OR ucast (shl J1 11) OR ucast imm11) m1)"

text \<open>The cases that change one 16-bit cell, and the two smaller data relocations.\<close>

definition write_thm16 :: "ARM_RELOC_TYPE \<Rightarrow> u32 \<Rightarrow> u32 \<Rightarrow> mem \<Rightarrow> mem" where
  "write_thm16 r_type a reloc_val m =
     (if r_type = R_ARM_THM_JUMP11 then
        upd16 a (\<lambda>w. w OR ucast reloc_val) (upd16 a (\<lambda>w. w AND NOT 0x7FF) m)
      else if r_type = R_ARM_THM_JUMP8 then
        upd16 a (\<lambda>w. w OR ucast reloc_val) (upd16 a (\<lambda>w. w AND NOT 0xFF) m)
      else if r_type = R_ARM_THM_ABS5 then
        upd16 a (\<lambda>w. w OR ucast (shl reloc_val 6)) (upd16 a (\<lambda>w. w AND 0xF83F) m)
      else if r_type = R_ARM_THM_PC8 then
        upd16 a (\<lambda>w. w OR ucast reloc_val) (upd16 a (\<lambda>w. w AND 0xFF00) m)
      else if r_type = R_ARM_THM_JUMP6 then
        (let Ival = sar reloc_val 5 AND 0x1; imm5 = reloc_val AND 0x1F
         in upd16 a (\<lambda>w. w OR ucast (shl imm5 3))
              (upd16 a (\<lambda>w. w OR ucast (shl Ival 9)) (upd16 a (\<lambda>w. w AND 0xFD07) m)))
      else m)"

definition write_movw :: "u32 \<Rightarrow> u32 \<Rightarrow> mem \<Rightarrow> mem" where
  "write_movw a reloc_val m =
     (let imm4 = as_u8 (sar reloc_val 12);
          imm12 = reloc_val AND 0xFFF
      in upd32 a (\<lambda>w. w OR shl imm4 16) (upd32 a (\<lambda>w. w OR imm12) (upd32 a (\<lambda>w. w AND 0xFFF0F000) m)))"

definition write_thm_movw :: "u32 \<Rightarrow> u32 \<Rightarrow> mem \<Rightarrow> mem" where
  "write_thm_movw a reloc_val m =
     (let imm4 = as_u8 (sar reloc_val 12);
          i = sar reloc_val 11 AND 0x1;
          imm3 = sar reloc_val 8 AND 0x7;
          imm8 = reloc_val AND 0xFF;
          m1 = upd16 a (\<lambda>w. (w AND 0xFBF0) OR ucast (shl i 10) OR ucast imm4) m
      in upd16 (a + 2) (\<lambda>w. (w AND 0x8F00) OR ucast (shl imm3 12) OR ucast imm8) m1)"

definition write_abs12 :: "u32 \<Rightarrow> u32 \<Rightarrow> mem \<Rightarrow> mem" where
  "write_abs12 a reloc_val m =
     (let S = c_bool (sar reloc_val 31 AND 0x1 = 0);
          reloc_val = c_abs reloc_val AND 0xFFF
      in upd32 a (\<lambda>w. w OR shl S 23) (upd32 a (\<lambda>w. w OR reloc_val) (upd32 a (\<lambda>w. w AND 0xFF7FF000) m)))"

definition write_thm_pc12 :: "u32 \<Rightarrow> u32 \<Rightarrow> mem \<Rightarrow> mem" where
  "write_thm_pc12 a reloc_val m =
     (let U = (if c_neg reloc_val then 0 else 1) :: u32;
          reloc_val = c_abs reloc_val AND 0xFFF;
          m1 = upd16 a (\<lambda>w. (w AND 0xFF7F) OR ucast (shl U 7)) m
      in upd16 (a + 2) (\<lambda>w. (w AND 0xF000) OR ucast reloc_val) m1)"

definition write_alu_pc :: "ARM_RELOC_TYPE \<Rightarrow> u32 \<Rightarrow> u32 \<Rightarrow> mem \<Rightarrow> mem \<times> reloc_message list" where
  "write_alu_pc r_type a reloc_val m =
     (let m1 = upd32 a (\<lambda>w. w AND 0xFF3FF000) m;
          m2 = upd32 a (\<lambda>w. w OR (if \<not> c_neg reloc_val then shl 0x1 23 else shl 0x1 22)) m1;
          reloc_val = rel_mask_for_group r_type (c_abs reloc_val);
          mask_offset = rel_alu_mask_offset reloc_val 2;
          Rval = as_u8 (32 - word_of_nat mask_offset);
          Ival = as_u8 (sar reloc_val mask_offset AND 0xFF);
          m3 = upd32 a (\<lambda>w. w OR shl (shr Rval 1 AND 0xF) 8) m2
      in (upd32 a (\<lambda>w. w OR (Ival AND 0xFF)) m3,
          overflow_message (reloc_val AND NOT (shl 0xFF mask_offset) \<noteq> 0)))"

definition write_ldr_pc :: "ARM_RELOC_TYPE \<Rightarrow> u32 \<Rightarrow> u32 \<Rightarrow> mem \<Rightarrow> mem \<times> reloc_message list" where
  "write_ldr_pc r_type a reloc_val m =
     (let Uval = (if c_neg reloc_val then 0 else 1) :: u32;
          reloc_val = rel_mask_for_group r_type (c_abs reloc_val);
          Lval = reloc_val AND 0xFFF
      in (upd32 a (\<lambda>w. w OR Lval) (upd32 a (\<lambda>w. w OR shl Uval 23) (upd32 a (\<lambda>w. w AND 0xFF7FF000) m)),
          overflow_message (0x1000 \<le> sint (c_abs reloc_val))))"

definition write_ldrs_pc :: "ARM_RELOC_TYPE \<Rightarrow> u32 \<Rightarrow> u32 \<Rightarrow> mem \<Rightarrow> mem \<times> reloc_message list" where
  "write_ldrs_pc r_type a reloc_val m =
     (let Uval = (if c_neg reloc_val then 0 else 1) :: u32;
          reloc_val = rel_mask_for_group r_type (c_abs reloc_val);
          Hval = sar reloc_val 4 AND 0xF;
          Lval = reloc_val AND 0xF
      in (upd32 a (\<lambda>w. w OR Lval) (upd32 a (\<lambda>w. w OR shl Hval 8)
            (upd32 a (\<lambda>w. w OR shl Uval 23) (upd32 a (\<lambda>w. w AND 0xFF7FF0F0) m))),
          overflow_message (0x100 \<le> sint (c_abs reloc_val))))"

definition write_ldc_pc :: "ARM_RELOC_TYPE \<Rightarrow> u32 \<Rightarrow> u32 \<Rightarrow> mem \<Rightarrow> mem \<times> reloc_message list" where
  "write_ldc_pc r_type a reloc_val m =
     (let Uval = (if c_neg reloc_val then 0 else 1) :: u32;
          reloc_val = rel_mask_for_group r_type (c_abs reloc_val);
          Lval = reloc_val AND 0xFF
      in (upd32 a (\<lambda>w. w OR Lval) (upd32 a (\<lambda>w. w OR shl Uval 23) (upd32 a (\<lambda>w. w AND 0xFF7FFF00) m)),
          overflow_message (0x1000 \<le> sint (c_abs reloc_val))))"

text \<open>
  The immediate of a Thumb-2 data-processing instruction for the absolute value of the relocation, and whether
  the value does not fit.
\<close>

definition thm_alu_imm12 :: "u32 \<Rightarrow> u32 \<times> bool" where
  "thm_alu_imm12 reloc_val =
     (let bits_7_0 = reloc_val AND 0xFF;
          bits_15_8 = sar reloc_val 8 AND 0xFF;
          bits_23_16 = sar reloc_val 16 AND 0xFF;
          bits_31_24 = sar reloc_val 24 AND 0xFF
      in if bits_23_16 = bits_7_0 \<and> bits_31_24 = 0 \<and> bits_15_8 = 0 then (shl 0x1 8 OR bits_7_0, False)
         else if bits_31_24 = bits_15_8 \<and> bits_23_16 = 0 \<and> bits_7_0 = 0 then (shl 0x2 8 OR bits_7_0, False)
         else if bits_31_24 = bits_23_16 \<and> bits_31_24 = bits_15_8 \<and> bits_31_24 = bits_7_0
           then (shl 0x3 8 OR bits_7_0, False)
         else if \<not> c_neg reloc_val \<and> sint reloc_val \<le> 255 then (as_u16 reloc_val, False)
         else
           (let mask_offset = rel_alu_mask_offset reloc_val 1;
                Rval = as_u8 (32 - word_of_nat mask_offset);
                Sval = sar reloc_val mask_offset AND 0x7F
            in (as_u16 (shl Rval 7 OR Sval), reloc_val AND NOT (shl 0xFF mask_offset) \<noteq> 0)))"

definition write_thm_alu_prel :: "u32 \<Rightarrow> u32 \<Rightarrow> mem \<Rightarrow> mem \<times> reloc_message list" where
  "write_thm_alu_prel a reloc_val m =
     (let m1 = upd16 a (\<lambda>w. w AND 0xFB5F) m;
          m2 = (if c_neg reloc_val then upd16 a (\<lambda>w. w OR 0x00A0) m1 else m1);
          (imm12, overflow) = thm_alu_imm12 (c_abs reloc_val);
          Ival = sar imm12 11 AND 0x1;
          imm3 = sar imm12 8 AND 0x7;
          imm8 = imm12 AND 0xFF;
          m3 = upd16 a (\<lambda>w. w OR ucast (shl Ival 10)) m2
      in (upd16 (a + 2) (\<lambda>w. w OR ucast imm8) (upd16 (a + 2) (\<lambda>w. w OR ucast (shl imm3 12)) m3),
          overflow_message overflow))"

definition write_reloc_r ::
    "u32 \<Rightarrow> ARM_RELOC_TYPE \<Rightarrow> u32 \<Rightarrow> u32 \<Rightarrow> mem \<Rightarrow> mem \<times> reloc_message list" where
  "write_reloc_r a r_type reloc_val symval m =
     (if r_type \<in> {R_ARM_ABS32, R_ARM_REL32, R_ARM_REL32_NOI, R_ARM_ABS32_NOI} then (write32 a reloc_val m, [])
      else if r_type = R_ARM_PREL31 then (upd32 a (\<lambda>w. w OR reloc_val) m, [])
      else if r_type \<in> {R_ARM_PC24, R_ARM_CALL, R_ARM_PLT32} then (write_arm_branch a reloc_val symval m, [])
      else if r_type = R_ARM_JUMP24 then
        (upd32 a (\<lambda>w. w OR reloc_val) (upd32 a (\<lambda>w. w AND NOT 0xFFFFFF) m), [])
      else if r_type \<in> {R_ARM_THM_CALL, R_ARM_THM_JUMP24} then (write_thm_branch r_type a reloc_val symval m, [])
      else if r_type = R_ARM_THM_JUMP19 then (write_thm_jump19 a reloc_val m, [])
      else if r_type \<in> {R_ARM_THM_JUMP11, R_ARM_THM_JUMP8, R_ARM_THM_ABS5, R_ARM_THM_PC8, R_ARM_THM_JUMP6} then
        (write_thm16 r_type a reloc_val m, [])
      else if r_type = R_ARM_ABS16 then (write16 a (ucast reloc_val) m, [])
      else if r_type = R_ARM_ABS8 then (write8 a (ucast reloc_val) m, [])
      else if r_type \<in> {R_ARM_MOVW_ABS_NC, R_ARM_MOVT_ABS, R_ARM_MOVW_PREL_NC, R_ARM_MOVT_PREL} then
        (write_movw a reloc_val m, [])
      else if r_type \<in> {R_ARM_THM_MOVW_ABS_NC, R_ARM_THM_MOVT_ABS, R_ARM_THM_MOVW_PREL_NC, R_ARM_THM_MOVT_PREL} then
        (write_thm_movw a reloc_val m, [])
      else if r_type = R_ARM_ABS12 then (write_abs12 a reloc_val m, [])
      else if r_type = R_ARM_THM_PC12 then (write_thm_pc12 a reloc_val m, [])
      else if r_type \<in> {R_ARM_ALU_PC_G0_NC, R_ARM_ALU_PC_G0, R_ARM_ALU_PC_G1_NC, R_ARM_ALU_PC_G2} then
        write_alu_pc r_type a reloc_val m
      else if r_type \<in> {R_ARM_LDR_PC_G0, R_ARM_LDR_PC_G1, R_ARM_LDR_PC_G2} then write_ldr_pc r_type a reloc_val m
      else if r_type \<in> {R_ARM_LDRS_PC_G0, R_ARM_LDRS_PC_G1, R_ARM_LDRS_PC_G2} then write_ldrs_pc r_type a reloc_val m
      else if r_type \<in> {R_ARM_LDC_PC_G0, R_ARM_LDC_PC_G1, R_ARM_LDC_PC_G2} then write_ldc_pc r_type a reloc_val m
      else if r_type = R_ARM_THM_ALU_PREL_11_0 then write_thm_alu_prel a reloc_val m
      else (m, [InvalidWriteType]))"

section \<open>Unpacking the addend from a field\<close>

definition unpack_arm_branch :: "u32 \<Rightarrow> mem \<Rightarrow> u32" where
  "unpack_arm_branch a m =
     (let rel_field = read32 m a;
          Hval = (if IS_BLX rel_field then EXTRACT rel_field 24 1 else 0);
          imm24 = EXTRACT rel_field 0 24
      in SIGN_EXTEND (shl (shl imm24 1 + Hval) 1) 26)"

definition unpack_thm_branch :: "u32 \<Rightarrow> mem \<Rightarrow> u32" where
  "unpack_thm_branch a m =
     (let Sval = EXTRACT16 (read16 m a) 10 1;
          imm10 = EXTRACT16 (read16 m a) 0 10;
          I1 = c_bool (EXTRACT16 (read16 m (a + 2)) 13 1 XOR Sval = 0);
          I2 = c_bool (EXTRACT16 (read16 m (a + 2)) 11 1 XOR Sval = 0);
          imm11 = EXTRACT16 (read16 m (a + 2)) 0 11
      in SIGN_EXTEND (shl (shl Sval 23 OR shl I1 22 OR shl I2 21 OR shl imm10 11 OR imm11) 1) 25)"

definition unpack_thm_jump19 :: "u32 \<Rightarrow> mem \<Rightarrow> u32" where
  "unpack_thm_jump19 a m =
     (let Sval = EXTRACT16 (read16 m a) 10 1;
          imm6 = EXTRACT16 (read16 m a) 0 6;
          J1 = EXTRACT16 (read16 m (a + 2)) 13 1;
          J2 = EXTRACT16 (read16 m (a + 2)) 11 1;
          imm11 = EXTRACT16 (read16 m (a + 2)) 0 11
      in SIGN_EXTEND (shl (shl Sval 19 OR shl J2 18 OR shl J1 17 OR shl imm6 11 OR imm11) 1) 21)"

text \<open>The fields of one 16-bit cell.\<close>

definition unpack_thm16 :: "ARM_RELOC_TYPE \<Rightarrow> u16 \<Rightarrow> u32" where
  "unpack_thm16 r_type rel_field =
     (if r_type = R_ARM_THM_JUMP11 then SIGN_EXTEND (shl (EXTRACT16 rel_field 0 11) 1) 12
      else if r_type = R_ARM_THM_JUMP8 then SIGN_EXTEND (shl (EXTRACT16 rel_field 0 8) 1) 9
      else if r_type = R_ARM_THM_JUMP6 then
        ((shl (shl (EXTRACT16 rel_field 9 1) 5 OR EXTRACT16 rel_field 3 5) 1 + 4) AND 0x7F) - 4
      else if r_type = R_ARM_THM_ABS5 then shl (EXTRACT16 rel_field 6 5) 2
      else ((shl (EXTRACT16 rel_field 0 8) 2 + 4) AND 0x3FF) - 4)"

definition unpack_imm12 :: "u32 \<Rightarrow> u32" where
  "unpack_imm12 rel_field =
     (let Uval = EXTRACT rel_field 23 1; imm12 = EXTRACT rel_field 0 12
      in if Uval = 1 then imm12 else - imm12)"

definition unpack_thm_pc12 :: "u32 \<Rightarrow> mem \<Rightarrow> u32" where
  "unpack_thm_pc12 a m =
     (let Uval = EXTRACT16 (read16 m a) 7 1; imm12 = EXTRACT16 (read16 m (a + 2)) 0 12
      in if Uval = 1 then imm12 else - imm12)"

definition unpack_ldrs :: "u32 \<Rightarrow> u32" where
  "unpack_ldrs rel_field =
     (let Uval = EXTRACT rel_field 23 1; imm4H = EXTRACT rel_field 8 4; imm4L = EXTRACT rel_field 0 4;
          addend = shl imm4H 4 OR imm4L
      in if Uval = 0 then - addend else addend)"

definition unpack_ldc :: "u32 \<Rightarrow> u32" where
  "unpack_ldc rel_field =
     (let Uval = EXTRACT rel_field 23 1; imm8 = EXTRACT rel_field 0 8
      in if Uval = 1 then imm8 else - imm8)"

definition unpack_alu :: "u32 \<Rightarrow> u32" where
  "unpack_alu rel_field =
     (let Rval = EXTRACT rel_field 8 4; Ival = EXTRACT rel_field 0 8;
          addend = sar Ival (unat Rval) OR shl Ival (32 - unat Rval)
      in if EXTRACT rel_field 22 2 = 1 then - addend else addend)"

definition unpack_movw :: "u32 \<Rightarrow> u32" where
  "unpack_movw rel_field =
     (let Ival = EXTRACT rel_field 16 4; Jval = EXTRACT rel_field 0 12
      in SIGN_EXTEND (shl Ival 12 OR Jval) 16)"

definition unpack_thm_movw :: "u32 \<Rightarrow> mem \<Rightarrow> u32" where
  "unpack_thm_movw a m =
     (let Ival = EXTRACT16 (read16 m a) 0 4; Jval = EXTRACT16 (read16 m a) 10 1;
          Kval = EXTRACT16 (read16 m (a + 2)) 12 3; Lval = EXTRACT16 (read16 m (a + 2)) 0 8
      in SIGN_EXTEND (shl Ival 12 OR shl Jval 11 OR shl Kval 8 OR Lval) 16)"

text \<open>The immediate constant that a 12-bit Thumb-2 encoding stands for.\<close>

definition thm_alu_constant :: "u32 \<Rightarrow> u32" where
  "thm_alu_constant imm12 =
     (let bits_11_10 = sar imm12 10 AND 0x3
      in if bits_11_10 = 0 then
           (let bits_9_8 = sar imm12 8 AND 0x3; bits_7_0 = imm12 AND 0xFF
            in if bits_9_8 = 0x0 then bits_7_0
               else if bits_9_8 = 0x1 then shl bits_7_0 16 OR bits_7_0
               else if bits_9_8 = 0x2 then shl bits_7_0 24 OR shl bits_7_0 8
               else shl bits_7_0 24 OR shl bits_7_0 16 OR shl bits_7_0 8 OR bits_7_0)
         else
           (let bits_6_0 = imm12 AND 0x7F; bits_11_7 = sar imm12 7 AND 0x1F; byte = 0x80 OR bits_6_0
            in sar byte (unat bits_11_7) OR shl byte (32 - unat bits_11_7)))"

definition unpack_thm_alu_prel :: "u32 \<Rightarrow> mem \<Rightarrow> u32" where
  "unpack_thm_alu_prel a m =
     (let Ival = EXTRACT16 (read16 m a) 12 3;
          Jval = EXTRACT16 (read16 m (a + 2)) 12 3;
          Kval = EXTRACT16 (read16 m (a + 2)) 0 8;
          imm12 = as_u16 (shl Ival 11 OR shl Jval 8 OR Kval);
          addend = thm_alu_constant imm12
      in if EXTRACT16 (read16 m a) 7 1 = 1 \<and> EXTRACT16 (read16 m a) 5 1 = 1 then - addend else addend)"

text \<open>For a type that it cannot unpack the code leaves \<open>*addend\<close> as it is, the argument \<open>addend\<close>.\<close>

definition rel_unpack_addend ::
    "ARM_RELOC_TYPE \<Rightarrow> u32 \<Rightarrow> u32 \<Rightarrow> mem \<Rightarrow> u32 \<times> reloc_message list" where
  "rel_unpack_addend r_type a addend m =
     (if r_type \<in> {R_ARM_ABS32, R_ARM_REL32, R_ARM_ABS32_NOI, R_ARM_REL32_NOI} then (read32 m a, [])
      else if r_type = R_ARM_ABS16 then (SIGN_EXTEND (ucast (read16 m a)) 16, [])
      else if r_type = R_ARM_ABS8 then (SIGN_EXTEND (ucast (read8 m a)) 8, [])
      else if r_type \<in> {R_ARM_CALL, R_ARM_PC24, R_ARM_PLT32, R_ARM_JUMP24} then (unpack_arm_branch a m, [])
      else if r_type \<in> {R_ARM_THM_JUMP11, R_ARM_THM_JUMP8, R_ARM_THM_JUMP6, R_ARM_THM_ABS5, R_ARM_THM_PC8} then
        (unpack_thm16 r_type (read16 m a), [])
      else if r_type \<in> {R_ARM_THM_CALL, R_ARM_THM_JUMP24} then (unpack_thm_branch a m, [])
      else if r_type = R_ARM_THM_JUMP19 then (unpack_thm_jump19 a m, [])
      else if r_type \<in> {R_ARM_LDR_PC_G0, R_ARM_LDR_PC_G1, R_ARM_LDR_PC_G2, R_ARM_ABS12} then
        (unpack_imm12 (read32 m a), [])
      else if r_type = R_ARM_THM_PC12 then (unpack_thm_pc12 a m, [])
      else if r_type \<in> {R_ARM_LDRS_PC_G0, R_ARM_LDRS_PC_G1, R_ARM_LDRS_PC_G2} then (unpack_ldrs (read32 m a), [])
      else if r_type \<in> {R_ARM_LDC_PC_G0, R_ARM_LDC_PC_G1, R_ARM_LDC_PC_G2} then (unpack_ldc (read32 m a), [])
      else if r_type \<in> {R_ARM_ALU_PC_G0_NC, R_ARM_ALU_PC_G0, R_ARM_ALU_PC_G1_NC, R_ARM_ALU_PC_G1, R_ARM_ALU_PC_G2}
        then (unpack_alu (read32 m a), [])
      else if r_type \<in> {R_ARM_MOVW_ABS_NC, R_ARM_MOVT_ABS, R_ARM_MOVW_PREL_NC, R_ARM_MOVT_PREL} then
        (unpack_movw (read32 m a), [])
      else if r_type \<in> {R_ARM_THM_MOVW_ABS_NC, R_ARM_THM_MOVT_ABS, R_ARM_THM_MOVW_PREL_NC, R_ARM_THM_MOVT_PREL} then
        (unpack_thm_movw a m, [])
      else if r_type = R_ARM_THM_ALU_PREL_11_0 then (unpack_thm_alu_prel a m, [])
      else if r_type = R_ARM_PREL31 then (SIGN_EXTEND (EXTRACT (read32 m a) 0 31) 31, [])
      else (addend, [CannotUnpack]))"

end
