(* ===== verification/Arm_Reloc.thy ===== *)
theory Arm_Reloc
  imports Arm_Fields
begin

text \<open>
  One ARM relocation (\<open>reloc_do\<close>, with \<open>pack_result\<close>, \<open>mask_result\<close> and \<open>rel_overflow\<close>) and the tables of
  relocations (\<open>process_rel_table\<close> to \<open>DLREL_relocate\<close>) of \<open>elfload/arm_reloc.c\<close>.
\<close>

section \<open>Packing, masking and range checks\<close>

definition pack_result :: "u32 \<Rightarrow> ARM_RELOC_TYPE \<Rightarrow> u32 \<times> reloc_message list" where
  "pack_result unpacked_result r_type =
     (if r_type \<in> {R_ARM_ABS32, R_ARM_REL32, R_ARM_ABS16, R_ARM_ABS8, R_ARM_PREL31, R_ARM_MOVW_ABS_NC,
          R_ARM_MOVW_PREL_NC, R_ARM_THM_MOVW_ABS_NC, R_ARM_THM_MOVW_PREL_NC, R_ARM_ABS32_NOI, R_ARM_REL32_NOI,
          R_ARM_ABS12, R_ARM_ALU_PC_G0_NC, R_ARM_ALU_PC_G0, R_ARM_ALU_PC_G1_NC, R_ARM_ALU_PC_G1, R_ARM_ALU_PC_G2,
          R_ARM_LDR_PC_G0, R_ARM_LDR_PC_G1, R_ARM_LDR_PC_G2, R_ARM_LDRS_PC_G0, R_ARM_LDRS_PC_G1, R_ARM_LDRS_PC_G2,
          R_ARM_LDC_PC_G0, R_ARM_LDC_PC_G1, R_ARM_LDC_PC_G2, R_ARM_THM_PC12, R_ARM_THM_ALU_PREL_11_0}
      then (unpacked_result, [])
      else if r_type \<in> {R_ARM_PC24, R_ARM_CALL, R_ARM_PLT32, R_ARM_THM_CALL, R_ARM_THM_JUMP24, R_ARM_THM_JUMP11,
          R_ARM_THM_JUMP8, R_ARM_THM_JUMP6, R_ARM_THM_JUMP19}
      then (sar unpacked_result 1, [])
      else if r_type \<in> {R_ARM_JUMP24, R_ARM_THM_ABS5, R_ARM_THM_PC8} then (sar unpacked_result 2, [])
      else if r_type \<in> {R_ARM_MOVT_ABS, R_ARM_MOVT_PREL, R_ARM_THM_MOVT_ABS, R_ARM_THM_MOVT_PREL}
      then (sar unpacked_result 16, [])
      else (0, [InvalidPackType]))"

definition mask_result :: "u32 \<Rightarrow> ARM_RELOC_TYPE \<Rightarrow> u32 \<times> reloc_message list" where
  "mask_result unmasked_result r_type =
     (if r_type \<in> {R_ARM_ABS8, R_ARM_THM_JUMP8, R_ARM_THM_PC8} then (unmasked_result AND 0xFF, [])
      else if r_type \<in> {R_ARM_ABS16, R_ARM_MOVW_ABS_NC, R_ARM_MOVT_ABS, R_ARM_MOVW_PREL_NC, R_ARM_MOVT_PREL,
          R_ARM_THM_MOVW_ABS_NC, R_ARM_THM_MOVT_ABS, R_ARM_THM_MOVW_PREL_NC, R_ARM_THM_MOVT_PREL}
      then (unmasked_result AND 0xFFFF, [])
      else if r_type \<in> {R_ARM_ABS32, R_ARM_REL32, R_ARM_ABS32_NOI, R_ARM_REL32_NOI, R_ARM_ABS12,
          R_ARM_ALU_PC_G0_NC, R_ARM_ALU_PC_G0, R_ARM_ALU_PC_G1_NC, R_ARM_ALU_PC_G1, R_ARM_ALU_PC_G2,
          R_ARM_LDR_PC_G0, R_ARM_LDR_PC_G1, R_ARM_LDR_PC_G2, R_ARM_LDRS_PC_G0, R_ARM_LDRS_PC_G1, R_ARM_LDRS_PC_G2,
          R_ARM_LDC_PC_G0, R_ARM_LDC_PC_G1, R_ARM_LDC_PC_G2, R_ARM_THM_PC12, R_ARM_THM_ALU_PREL_11_0}
      then (unmasked_result, [])
      else if r_type = R_ARM_PREL31 then (unmasked_result AND 0x7FFFFFFF, [])
      else if r_type \<in> {R_ARM_CALL, R_ARM_PC24, R_ARM_THM_CALL, R_ARM_THM_JUMP24}
      then (unmasked_result AND 0x01FFFFFF, [])
      else if r_type = R_ARM_JUMP24 then (unmasked_result AND 0x00FFFFFF, [])
      else if r_type = R_ARM_THM_JUMP11 then (unmasked_result AND 0x7FF, [])
      else if r_type = R_ARM_THM_ABS5 then (unmasked_result AND 0x1F, [])
      else if r_type = R_ARM_THM_JUMP6 then (unmasked_result AND 0x3F, [])
      else if r_type = R_ARM_THM_JUMP19 then (unmasked_result AND 0xFFFFF, [])
      else (0, [InvalidMaskType]))"

definition rel_overflow :: "ARM_RELOC_TYPE \<Rightarrow> u32 \<Rightarrow> bool" where
  "rel_overflow r_type reloc_value =
     (if r_type \<in> {R_ARM_JUMP24, R_ARM_CALL, R_ARM_PC24} then
        (let sbits = sar reloc_value 25 in sbits \<noteq> 0 \<and> sbits \<noteq> - 1)
      else if r_type \<in> {R_ARM_THM_CALL, R_ARM_THM_JUMP24} then
        (let sbits = sar reloc_value 24 in sbits \<noteq> 0 \<and> sbits \<noteq> - 1)
      else if r_type = R_ARM_THM_JUMP19 then
        (let sbits = sar reloc_value 20 in sbits \<noteq> 0 \<and> sbits \<noteq> - 1)
      else if r_type \<in> {R_ARM_ABS12, R_ARM_THM_PC12} then 0x1000 \<le> sint (c_abs reloc_value)
      else if r_type = R_ARM_PREL31 then
        (let sbits = sar reloc_value 30 in sbits \<noteq> 0 \<and> sbits \<noteq> - 1)
      else if r_type = R_ARM_ABS16 then 65535 < sint reloc_value \<or> sint reloc_value < - 32768
      else if r_type = R_ARM_ABS8 then 255 < sint reloc_value \<or> sint reloc_value < - 128
      else False)"

section \<open>One relocation\<close>

definition arm_reloc_value :: "ARM_RELOC_TYPE \<Rightarrow> u32 \<Rightarrow> u32 \<Rightarrow> u32 \<Rightarrow> u32 \<times> reloc_message list" where
  "arm_reloc_value r_type addend symval pc =
     (if r_type = R_ARM_NONE then (addend, [])
      else if r_type \<in> {R_ARM_ABS16, R_ARM_ABS12, R_ARM_THM_ABS5, R_ARM_ABS8, R_ARM_MOVT_ABS, R_ARM_THM_MOVT_ABS,
          R_ARM_ABS32_NOI, R_ARM_PLT32_ABS}
      then (OPND_S symval + addend, [])
      else if r_type \<in> {R_ARM_ABS32, R_ARM_MOVW_ABS_NC, R_ARM_THM_MOVW_ABS_NC}
      then ((OPND_S symval + addend) OR OPND_T symval, [])
      else if r_type \<in> {R_ARM_LDR_PC_G0, R_ARM_LDR_PC_G1, R_ARM_LDR_PC_G2, R_ARM_MOVT_PREL, R_ARM_THM_MOVT_PREL,
          R_ARM_REL32_NOI, R_ARM_THM_JUMP6, R_ARM_THM_JUMP11, R_ARM_THM_JUMP8, R_ARM_LDRS_PC_G0, R_ARM_LDRS_PC_G1,
          R_ARM_LDRS_PC_G2, R_ARM_LDC_PC_G0, R_ARM_LDC_PC_G1, R_ARM_LDC_PC_G2}
      then ((OPND_S symval + addend) - pc, [])
      else if r_type \<in> {R_ARM_THM_PC8, R_ARM_THM_PC12}
      then ((OPND_S symval + addend) - (pc AND 0xFFFFFFFC), [])
      else if r_type \<in> {R_ARM_REL32, R_ARM_PC24, R_ARM_THM_CALL, R_ARM_PLT32, R_ARM_CALL, R_ARM_JUMP24,
          R_ARM_THM_JUMP24, R_ARM_PREL31, R_ARM_MOVW_PREL_NC, R_ARM_THM_MOVW_PREL_NC, R_ARM_THM_JUMP19,
          R_ARM_THM_ALU_PREL_11_0, R_ARM_ALU_PC_G0_NC, R_ARM_ALU_PC_G0, R_ARM_ALU_PC_G1_NC, R_ARM_ALU_PC_G1,
          R_ARM_ALU_PC_G2}
      then (((OPND_S symval + addend) OR OPND_T symval) - pc, [])
      else (0, [InvalidRelocType]))"

definition reloc_do ::
    "ARM_RELOC_TYPE \<Rightarrow> u32 \<Rightarrow> u32 \<Rightarrow> u32 \<Rightarrow> u32 \<Rightarrow> mem \<Rightarrow> mem \<times> reloc_message list" where
  "reloc_do r_type address addend symval pc m =
     (let (v0, e0) = arm_reloc_value r_type addend symval pc;
          e1 = overflow_message (rel_overflow r_type v0);
          (v1, e2) = pack_result v0 r_type;
          (v2, e3) = mask_result v1 r_type;
          (m1, e4) = write_reloc_r address r_type v2 symval m
      in (m1, e0 @ e1 @ e2 @ e3 @ e4))"

section \<open>Tables of relocations\<close>

text \<open>The body of the loops of \<open>process_rel_table\<close> and \<open>process_rela_table\<close> for an entry that falls in the segment.\<close>

definition do_rel_entry ::
    "reloc_env \<Rightarrow> DLIMP_Dynamic_Module \<Rightarrow> DLIMP_Loaded_Segment \<Rightarrow> Elf32_Rel \<Rightarrow> mem \<Rightarrow>
     (mem \<times> reloc_message list) result" where
  "do_rel_entry env dyn_module seg entry m =
     bind_result (DLSYM_canonical_lookup (lookup_malloc env) m (application_handle env) (loaded_objects env)
         (unat (ELF32_R_SYM (r_info entry))) dyn_module (stale_symval env)) (\<lambda>(found, r_symval).
       if \<not> found then Some (Inr (m, []))
       else
         (let r_type = arm_reloc_type (ELF32_R_TYPE (r_info entry));
              address = reloc_address seg (r_offset entry);
              change_endian = rel_swap_endian dyn_module r_type;
              m1 = (if change_endian then rel_change_endian r_type address m else m);
              (addend, e1) = rel_unpack_addend r_type address (stale_addend env) m1;
              (m2, e2) = reloc_do r_type address addend r_symval address m1;
              m3 = (if change_endian then rel_change_endian r_type address m2 else m2)
          in Some (Inr (m3, e1 @ e2))))"

definition do_rela_entry ::
    "reloc_env \<Rightarrow> DLIMP_Dynamic_Module \<Rightarrow> DLIMP_Loaded_Segment \<Rightarrow> Elf32_Rela \<Rightarrow> mem \<Rightarrow>
     (mem \<times> reloc_message list) result" where
  "do_rela_entry env dyn_module seg entry m =
     bind_result (DLSYM_canonical_lookup (lookup_malloc env) m (application_handle env) (loaded_objects env)
         (unat (ELF32_R_SYM (r_info entry))) dyn_module (stale_symval env)) (\<lambda>(found, r_symval).
       if \<not> found then Some (Inr (m, []))
       else
         (let r_type = arm_reloc_type (ELF32_R_TYPE (r_info entry));
              address = reloc_address seg (r_offset entry);
              change_endian = rel_swap_endian dyn_module r_type;
              m1 = (if change_endian then rel_change_endian r_type address m else m);
              (m2, e2) = reloc_do r_type address (r_addend entry) r_symval address m1;
              m3 = (if change_endian then rel_change_endian r_type address m2 else m2)
          in Some (Inr (m3, e2))))"

definition process_rel_table ::
    "reloc_env \<Rightarrow> DLIMP_Loaded_Segment \<Rightarrow> Elf32_Rel list \<Rightarrow> nat \<Rightarrow> DLIMP_Dynamic_Module \<Rightarrow> mem \<Rightarrow>
     ((bool \<times> nat) \<times> mem \<times> reloc_message list) result" where
  "process_rel_table env seg rel_table start_rid dyn_module m =
     (let rid = (if length rel_table \<le> start_rid then 0 else start_rid)
      in scan_table (\<lambda>entry. in_segment seg (r_offset entry)) (do_rel_entry env dyn_module seg) rid
           (drop rid rel_table) False m)"

definition process_rela_table ::
    "reloc_env \<Rightarrow> DLIMP_Loaded_Segment \<Rightarrow> Elf32_Rela list \<Rightarrow> nat \<Rightarrow> DLIMP_Dynamic_Module \<Rightarrow> mem \<Rightarrow>
     ((bool \<times> nat) \<times> mem \<times> reloc_message list) result" where
  "process_rela_table env seg rela_table start_rid dyn_module m =
     (let rid = (if length rela_table \<le> start_rid then 0 else start_rid)
      in scan_table (\<lambda>entry. in_segment seg (r_offset entry)) (do_rela_entry env dyn_module seg) rid
           (drop rid rela_table) False m)"

section \<open>Reading the tables\<close>

text \<open>
  The object file is what \<open>DLIF_fread\<close> delivers at each offset. A table is read as \<open>relnum\<close> items of \<open>relent\<close> bytes and
  used as an array of entries of 8 (12 for RELA) bytes; entries that the bytes read do not cover are the
  failure \<open>OutOfTable\<close>. The tables are NULL (\<^const>\<open>None\<close>) when \<open>DLIF_malloc\<close> fails.
\<close>

definition read_rel_table ::
    "bool \<Rightarrow> mem \<Rightarrow> u32 \<Rightarrow> u32 \<Rightarrow> u32 \<Rightarrow> bool \<Rightarrow> load_fault + Elf32_Rel list option" where
  "read_rel_table malloc_ok elf_file table_offset relnum relent swap =
     (if \<not> malloc_ok then Inr None
      else if unat (relnum * relent) < 8 * unat relnum then Inl OutOfTable
      else
        (let rel_table = map (\<lambda>i. rel_entry_at elf_file (table_offset + word_of_nat (8 * i))) [0..<unat relnum]
         in Inr (Some (if swap then map DLIMP_change_rel_endian rel_table else rel_table))))"

definition read_rela_table ::
    "bool \<Rightarrow> mem \<Rightarrow> u32 \<Rightarrow> u32 \<Rightarrow> u32 \<Rightarrow> bool \<Rightarrow> load_fault + Elf32_Rela list option" where
  "read_rela_table malloc_ok elf_file table_offset relanum relaent swap =
     (if \<not> malloc_ok then Inr None
      else if unat (relanum * relaent) < 12 * unat relanum then Inl OutOfTable
      else
        (let rela_table = map (\<lambda>i. rela_entry_at elf_file (table_offset + word_of_nat (12 * i))) [0..<unat relanum]
         in Inr (Some (if swap then map DLIMP_change_rela_endian rela_table else rela_table))))"

section \<open>All the relocations of a module\<close>

text \<open>The loop over the segments, with the positions in the two tables that are carried from one to the next.\<close>

fun process_got_segments ::
    "reloc_env \<Rightarrow> Elf32_Rel list option \<Rightarrow> Elf32_Rela list option \<Rightarrow> DLIMP_Dynamic_Module \<Rightarrow>
     DLIMP_Loaded_Segment list \<Rightarrow> nat \<Rightarrow> nat \<Rightarrow> mem \<Rightarrow> (mem \<times> reloc_message list) result" where
  "process_got_segments env rel_table rela_table dyn_module [] rel_rid rela_rid m = Some (Inr (m, []))"
| "process_got_segments env rel_table rela_table dyn_module (seg # segs) rel_rid rela_rid m =
     (if p_filesz (phdr seg) = 0 then
        process_got_segments env rel_table rela_table dyn_module segs rel_rid rela_rid m
      else
        bind_result (case rela_table of
             None \<Rightarrow> Some (Inr (rela_rid, m, []))
           | Some t \<Rightarrow> bind_result (process_rela_table env seg t rela_rid dyn_module m)
               (\<lambda>((found, rid), m1, e1). Some (Inr (rid, m1, e1)))) (\<lambda>(rela_rid1, m1, e1).
        bind_result (case rel_table of
             None \<Rightarrow> Some (Inr (rel_rid, m1, []))
           | Some t \<Rightarrow> bind_result (process_rel_table env seg t rel_rid dyn_module m1)
               (\<lambda>((found, rid), m2, e2). Some (Inr (rid, m2, e2)))) (\<lambda>(rel_rid1, m2, e2).
        bind_result (process_got_segments env rel_table rela_table dyn_module segs rel_rid1 rela_rid1 m2)
          (\<lambda>(m3, e3). Some (Inr (m3, e1 @ e2 @ e3))))))"

definition process_got_relocs ::
    "reloc_env \<Rightarrow> Elf32_Rel list option \<Rightarrow> Elf32_Rela list option \<Rightarrow> DLIMP_Dynamic_Module \<Rightarrow> mem \<Rightarrow>
     (mem \<times> reloc_message list) result" where
  "process_got_relocs env rel_table rela_table dyn_module m =
     process_got_segments env rel_table rela_table dyn_module (loaded_segments (loaded_module dyn_module)) 0 0 m"

definition process_pltgot_relocs ::
    "reloc_env \<Rightarrow> plt_table \<Rightarrow> DLIMP_Dynamic_Module \<Rightarrow> mem \<Rightarrow> (mem \<times> reloc_message list) result" where
  "process_pltgot_relocs env plt dyn_module m =
     (let segs = loaded_segments (loaded_module dyn_module);
          finish = (\<lambda>r. bind_result r (\<lambda>((found, rid), m1, e1). Some (Inr (m1, e1))))
      in case plt of
           PltRel [] \<Rightarrow> Some (Inl OutOfTable)
         | PltRela [] \<Rightarrow> Some (Inl OutOfTable)
         | PltRel (r # rs) \<Rightarrow>
             (case plt_segment (r_offset r) segs of
                None \<Rightarrow> Some (Inr (m, []))
              | Some seg \<Rightarrow> finish (process_rel_table env seg (r # rs) 0 dyn_module m))
         | PltRela (r # rs) \<Rightarrow>
             (case plt_segment (r_offset r) segs of
                None \<Rightarrow> Some (Inr (m, []))
              | Some seg \<Rightarrow> finish (process_rela_table env seg (r # rs) 0 dyn_module m)))"

text \<open>
  The sizes of the tables as \<open>DLREL_relocate\<close> computes them. \<open>plt_sizes\<close> is the part for the PLTGOT table:
  its number of entries and the sizes of the other two tables, which are reduced by its own.
\<close>

definition read_plt_table ::
    "(nat \<Rightarrow> bool) \<Rightarrow> mem \<Rightarrow> DLIMP_Dynamic_Module \<Rightarrow> load_fault + (plt_table option \<times> u32 \<times> u32)" where
  "read_plt_table malloc_ok elf_file dyn_module =
     (let tag = (\<lambda>t. DLIMP_get_first_dyntag t (dyntab dyn_module));
          relasz = tag DT_RELASZ; relaent = tag DT_RELAENT; relsz = tag DT_RELSZ; relent = tag DT_RELENT;
          pltrelsz = tag DT_PLTRELSZ; pltreltype = tag DT_PLTREL
      in if pltrelsz \<noteq> INT_MAX then
           (if pltreltype = DT_REL then
              bindE (checked_div pltrelsz relent) (\<lambda>pltnum.
              bindE (read_rel_table (malloc_ok 0) elf_file (tag DT_JMPREL) pltnum relent (wrong_endian dyn_module)) (\<lambda>t.
              Inr (map_option PltRel t, relsz - pltrelsz, relasz)))
            else if pltreltype = DT_RELA then
              bindE (checked_div pltrelsz relaent) (\<lambda>pltnum.
              bindE (read_rela_table (malloc_ok 0) elf_file (tag DT_JMPREL) pltnum relaent (wrong_endian dyn_module)) (\<lambda>t.
              Inr (map_option PltRela t, relsz, relasz - pltrelsz)))
            else Inr (None, relsz, relasz))
         else Inr (None, relsz, relasz))"

definition read_got_tables ::
    "(nat \<Rightarrow> bool) \<Rightarrow> mem \<Rightarrow> DLIMP_Dynamic_Module \<Rightarrow> u32 \<Rightarrow> u32 \<Rightarrow>
     load_fault + (Elf32_Rel list option \<times> Elf32_Rela list option)" where
  "read_got_tables malloc_ok elf_file dyn_module relsz relasz =
     (let tag = (\<lambda>t. DLIMP_get_first_dyntag t (dyntab dyn_module));
          relaent = tag DT_RELAENT; relent = tag DT_RELENT
      in bindE (if relasz \<noteq> INT_MAX then
                  bindE (checked_div relasz relaent) (\<lambda>relanum.
                    read_rela_table (malloc_ok 1) elf_file (tag DT_RELA) relanum relaent (wrong_endian dyn_module))
                else Inr None) (\<lambda>rela_table.
         bindE (if relsz \<noteq> INT_MAX then
                  bindE (checked_div relsz relent) (\<lambda>relnum.
                    read_rel_table (malloc_ok 2) elf_file (tag DT_REL) relnum relent (wrong_endian dyn_module))
                else Inr None) (\<lambda>rel_table.
         Inr (rel_table, rela_table))))"

definition DLREL_relocate ::
    "reloc_env \<Rightarrow> (nat \<Rightarrow> bool) \<Rightarrow> mem \<Rightarrow> DLIMP_Dynamic_Module \<Rightarrow> mem \<Rightarrow> (mem \<times> reloc_message list) result" where
  "DLREL_relocate env malloc_ok elf_file dyn_module m =
     bind_result (Some (read_plt_table malloc_ok elf_file dyn_module)) (\<lambda>(plt, relsz, relasz).
     bind_result (Some (read_got_tables malloc_ok elf_file dyn_module relsz relasz)) (\<lambda>(rel_table, rela_table).
     bind_result (case plt of None \<Rightarrow> Some (Inr (m, [])) | Some t \<Rightarrow> process_pltgot_relocs env t dyn_module m)
       (\<lambda>(m1, e1).
     bind_result (if rel_table \<noteq> None \<or> rela_table \<noteq> None
                  then process_got_relocs env rel_table rela_table dyn_module m1 else Some (Inr (m1, [])))
       (\<lambda>(m2, e2). Some (Inr (m2, e1 @ e2))))))"

end
