(* ===== verification/C60_Reloc.thy ===== *)
theory C60_Reloc
  imports Relocate
begin

text \<open>
  The C6000 relocator (\<open>elfload/c60_reloc.c\<close>). Its functions have the names of their ARM counterparts; here they begin
  with \<open>c60_\<close>. Instructions are 32 bits wide, addends come from RELA entries, and an addend in the field
  is not supported: \<open>rel_unpack_addend\<close> ends the process, the failure \<open>LoaderExit\<close>.
\<close>

section \<open>Relocation types\<close>

datatype (plugins only: code) C60_RELOC_TYPE =
    R_C6000_NONE | R_C6000_ABS32 | R_C6000_ABS16 | R_C6000_ABS8 | R_C6000_PCR_S21 | R_C6000_PCR_S12 |
    R_C6000_PCR_S10 | R_C6000_PCR_S7 | R_C6000_ABS_S16 | R_C6000_ABS_L16 | R_C6000_ABS_H16 |
    R_C6000_SBR_U15_B | R_C6000_SBR_U15_H | R_C6000_SBR_U15_W | R_C6000_SBR_S16 | R_C6000_SBR_L16_B |
    R_C6000_SBR_L16_H | R_C6000_SBR_L16_W | R_C6000_SBR_H16_B | R_C6000_SBR_H16_H | R_C6000_SBR_H16_W |
    R_C6000_DSBT_INDEX | R_C6000_PREL31 | R_C6000_COPY | R_C6000_OTHER u8

definition c60_reloc_type :: "u8 \<Rightarrow> C60_RELOC_TYPE" where
  "c60_reloc_type r =
  (if r = 0 then R_C6000_NONE
   else if r = 1 then R_C6000_ABS32
   else if r = 2 then R_C6000_ABS16
   else if r = 3 then R_C6000_ABS8
   else if r = 4 then R_C6000_PCR_S21
   else if r = 5 then R_C6000_PCR_S12
   else if r = 6 then R_C6000_PCR_S10
   else if r = 7 then R_C6000_PCR_S7
   else if r = 8 then R_C6000_ABS_S16
   else if r = 9 then R_C6000_ABS_L16
   else if r = 10 then R_C6000_ABS_H16
   else if r = 11 then R_C6000_SBR_U15_B
   else if r = 12 then R_C6000_SBR_U15_H
   else if r = 13 then R_C6000_SBR_U15_W
   else if r = 14 then R_C6000_SBR_S16
   else if r = 15 then R_C6000_SBR_L16_B
   else if r = 16 then R_C6000_SBR_L16_H
   else if r = 17 then R_C6000_SBR_L16_W
   else if r = 18 then R_C6000_SBR_H16_B
   else if r = 19 then R_C6000_SBR_H16_H
   else if r = 20 then R_C6000_SBR_H16_W
   else if r = 24 then R_C6000_DSBT_INDEX
   else if r = 25 then R_C6000_PREL31
   else if r = 26 then R_C6000_COPY
   else R_C6000_OTHER r)"

definition MASK :: "nat \<Rightarrow> nat \<Rightarrow> u32" where
  "MASK n s = shl (shl 1 n - 1) s"

section \<open>Writing a field\<close>

definition c60_write_reloc_r ::
    "u32 \<Rightarrow> u32 \<Rightarrow> C60_RELOC_TYPE \<Rightarrow> u32 \<Rightarrow> mem \<Rightarrow> mem \<times> reloc_message list" where
  "c60_write_reloc_r buffered_segment segment_offset r_type r m =
     (let a = buffered_segment + segment_offset;
          field = (\<lambda>n s. upd32 a (\<lambda>w. (w AND NOT (MASK n s)) OR shl r s) m)
      in if r_type = R_C6000_ABS32 then (write32 a r m, [])
         else if r_type = R_C6000_PREL31 then (upd32 a (\<lambda>w. (w AND NOT (MASK 30 0)) OR r) m, [])
         else if r_type = R_C6000_ABS16 then (write16 a (ucast r) m, [])
         else if r_type = R_C6000_ABS8 then (write8 a (ucast r) m, [])
         else if r_type = R_C6000_PCR_S21 then (field 21 7, [])
         else if r_type = R_C6000_PCR_S12 then (field 12 16, [])
         else if r_type = R_C6000_PCR_S10 then (field 10 13, [])
         else if r_type = R_C6000_PCR_S7 then (field 7 16, [])
         else if r_type \<in> {R_C6000_ABS_S16, R_C6000_ABS_L16, R_C6000_ABS_H16} then (field 16 7, [])
         else if r_type \<in> {R_C6000_SBR_U15_B, R_C6000_SBR_U15_H, R_C6000_SBR_U15_W, R_C6000_DSBT_INDEX}
           then (field 15 8, [])
         else if r_type \<in> {R_C6000_SBR_S16, R_C6000_SBR_L16_B, R_C6000_SBR_L16_H, R_C6000_SBR_L16_W,
             R_C6000_SBR_H16_B, R_C6000_SBR_H16_H, R_C6000_SBR_H16_W} then (field 16 7, [])
         else (m, [InvalidWriteType]))"

section \<open>Packing, masking and range checks\<close>

definition c60_pack_result :: "u32 \<Rightarrow> C60_RELOC_TYPE \<Rightarrow> u32 \<times> reloc_message list" where
  "c60_pack_result unpacked_result r_type =
     (if r_type \<in> {R_C6000_ABS32, R_C6000_ABS16, R_C6000_ABS8, R_C6000_ABS_S16, R_C6000_ABS_L16,
          R_C6000_SBR_U15_B, R_C6000_SBR_S16, R_C6000_SBR_L16_B} then (unpacked_result, [])
      else if r_type \<in> {R_C6000_SBR_U15_H, R_C6000_SBR_L16_H, R_C6000_PREL31} then (sar unpacked_result 1, [])
      else if r_type \<in> {R_C6000_PCR_S21, R_C6000_PCR_S12, R_C6000_PCR_S10, R_C6000_PCR_S7, R_C6000_SBR_U15_W,
          R_C6000_SBR_L16_W, R_C6000_DSBT_INDEX} then (sar unpacked_result 2, [])
      else if r_type \<in> {R_C6000_ABS_H16, R_C6000_SBR_H16_B} then (sar unpacked_result 16, [])
      else if r_type = R_C6000_SBR_H16_H then (sar unpacked_result 17, [])
      else if r_type = R_C6000_SBR_H16_W then (sar unpacked_result 18, [])
      else (0, [InvalidPackType]))"

definition c60_mask_result :: "u32 \<Rightarrow> C60_RELOC_TYPE \<Rightarrow> u32 \<times> reloc_message list" where
  "c60_mask_result unmasked_result r_type =
     (if r_type = R_C6000_ABS8 then (unmasked_result AND 0xFF, [])
      else if r_type = R_C6000_ABS32 then (unmasked_result, [])
      else if r_type \<in> {R_C6000_ABS16, R_C6000_ABS_S16, R_C6000_ABS_L16, R_C6000_ABS_H16, R_C6000_SBR_S16,
          R_C6000_SBR_L16_B, R_C6000_SBR_L16_H, R_C6000_SBR_L16_W, R_C6000_SBR_H16_B, R_C6000_SBR_H16_H,
          R_C6000_SBR_H16_W} then (unmasked_result AND 0xFFFF, [])
      else if r_type = R_C6000_PCR_S21 then (unmasked_result AND 0x1FFFFF, [])
      else if r_type = R_C6000_PCR_S12 then (unmasked_result AND 0xFFF, [])
      else if r_type = R_C6000_PCR_S10 then (unmasked_result AND 0x3FF, [])
      else if r_type = R_C6000_PCR_S7 then (unmasked_result AND 0x7F, [])
      else if r_type \<in> {R_C6000_SBR_U15_B, R_C6000_SBR_U15_H, R_C6000_SBR_U15_W, R_C6000_DSBT_INDEX}
        then (unmasked_result AND 0x7FFF, [])
      else if r_type = R_C6000_PREL31 then (unmasked_result AND 0x7FFFFFFF, [])
      else (0, [InvalidMaskType]))"

definition c60_rel_overflow :: "C60_RELOC_TYPE \<Rightarrow> u32 \<Rightarrow> bool \<times> reloc_message list" where
  "c60_rel_overflow r_type reloc_value =
     (let v = sint reloc_value
      in if r_type = R_C6000_ABS16 then (65535 < v \<or> v < - 32768, [])
         else if r_type = R_C6000_ABS8 then (255 < v \<or> v < - 128, [])
         else if r_type = R_C6000_PCR_S21 then (0x400000 \<le> v \<or> v < - 0x400000, [])
         else if r_type = R_C6000_PCR_S12 then (0x2000 \<le> v \<or> v < - 0x2000, [])
         else if r_type = R_C6000_PCR_S10 then (0x800 \<le> v \<or> v < - 0x800, [])
         else if r_type = R_C6000_PCR_S7 then (0x100 \<le> v \<or> v < - 0x100, [])
         else if r_type \<in> {R_C6000_SBR_S16, R_C6000_ABS_S16} then (0x8000 \<le> v \<or> v < - 0x8000, [])
         else if r_type = R_C6000_SBR_U15_B then (0x8000 \<le> reloc_value, [])
         else if r_type = R_C6000_SBR_U15_H then (0xFFFF \<le> reloc_value, [])
         else if r_type \<in> {R_C6000_DSBT_INDEX, R_C6000_SBR_U15_W} then (0x1FFFD \<le> reloc_value, [])
         else if r_type \<in> {R_C6000_ABS_L16, R_C6000_ABS_H16, R_C6000_SBR_L16_B, R_C6000_SBR_L16_H,
             R_C6000_SBR_L16_W, R_C6000_SBR_H16_B, R_C6000_SBR_H16_H, R_C6000_SBR_H16_W} then (False, [])
         else if r_type \<in> {R_C6000_ABS32, R_C6000_PREL31} then (False, [])
         else (True, [InvalidOverflowType]))"

section \<open>One relocation\<close>

definition c60_reloc_value ::
    "C60_RELOC_TYPE \<Rightarrow> u32 \<Rightarrow> u32 \<Rightarrow> u32 \<Rightarrow> u32 \<Rightarrow> u32 \<Rightarrow> u32 \<Rightarrow> u32 \<times> reloc_message list" where
  "c60_reloc_value r_type segment_address addend symval spc base_pointer dsbt =
     (if r_type \<in> {R_C6000_ABS32, R_C6000_ABS16, R_C6000_ABS8, R_C6000_ABS_S16, R_C6000_ABS_L16, R_C6000_ABS_H16}
      then (symval + addend, [])
      else if r_type \<in> {R_C6000_PCR_S21, R_C6000_PCR_S12, R_C6000_PCR_S10, R_C6000_PCR_S7}
      then (symval + addend - ((spc + segment_address) AND 0xffffffe0), [])
      else if r_type = R_C6000_PREL31 then (symval + addend - (spc + segment_address), [])
      else if r_type \<in> {R_C6000_SBR_U15_B, R_C6000_SBR_U15_H, R_C6000_SBR_U15_W, R_C6000_SBR_S16, R_C6000_SBR_L16_B,
          R_C6000_SBR_L16_H, R_C6000_SBR_L16_W, R_C6000_SBR_H16_B, R_C6000_SBR_H16_H, R_C6000_SBR_H16_W}
      then (symval + addend - base_pointer, [])
      else if r_type = R_C6000_DSBT_INDEX then ((symval + addend) - base_pointer + shl dsbt 2, [])
      else (0, [InvalidRelocType]))"

definition c60_reloc_do ::
    "C60_RELOC_TYPE \<Rightarrow> u32 \<Rightarrow> u32 \<Rightarrow> u32 \<Rightarrow> u32 \<Rightarrow> bool \<Rightarrow> u32 \<Rightarrow> u32 \<Rightarrow> mem \<Rightarrow> mem \<times> reloc_message list" where
  "c60_reloc_do r_type segment_address addend symval spc swap base_pointer dsbt m =
     (let (v0, e0) = c60_reloc_value r_type segment_address addend symval spc base_pointer dsbt;
          (overflow, e1) = c60_rel_overflow r_type v0;
          (v1, e2) = c60_pack_result v0 r_type;
          (v2, e3) = c60_mask_result v1 r_type;
          m1 = (if swap then change_endian32_at (segment_address + spc) m else m);
          (m2, e4) = c60_write_reloc_r segment_address spc r_type v2 m1;
          m3 = (if swap then change_endian32_at (segment_address + spc) m2 else m2)
      in (m3, e0 @ e1 @ overflow_message overflow @ e2 @ e3 @ e4))"

section \<open>Tables of relocations\<close>

definition c60_rel_unpack_addend :: "C60_RELOC_TYPE \<Rightarrow> u32 \<Rightarrow> mem \<Rightarrow> load_fault + u32" where
  "c60_rel_unpack_addend r_type address m = Inl LoaderExit"

definition c60_rel_swap_endian :: "DLIMP_Dynamic_Module \<Rightarrow> C60_RELOC_TYPE \<Rightarrow> bool" where
  "c60_rel_swap_endian dyn_module r_type = (if wrong_endian dyn_module then True else False)"

definition c60_rel_change_endian :: "C60_RELOC_TYPE \<Rightarrow> u32 \<Rightarrow> mem \<Rightarrow> mem" where
  "c60_rel_change_endian r_type address m = change_endian32_at address m"

text \<open>\<open>r_symval\<close> is 0 before the lookup in the REL loop, and not set in the RELA loop.\<close>

definition c60_do_rel_entry ::
    "reloc_env \<Rightarrow> u32 \<Rightarrow> DLIMP_Dynamic_Module \<Rightarrow> DLIMP_Loaded_Segment \<Rightarrow> Elf32_Rel \<Rightarrow> mem \<Rightarrow>
     (mem \<times> reloc_message list) result" where
  "c60_do_rel_entry env ti_static_base dyn_module seg entry m =
     bind_result (DLSYM_canonical_lookup (lookup_malloc env) m (application_handle env) (loaded_objects env)
         (unat (ELF32_R_SYM (r_info entry))) dyn_module 0) (\<lambda>(found, r_symval).
       if \<not> found then Some (Inr (m, []))
       else
         (let r_type = c60_reloc_type (ELF32_R_TYPE (r_info entry));
              address = reloc_address seg (r_offset entry);
              change_endian = c60_rel_swap_endian dyn_module r_type;
              m1 = (if change_endian then c60_rel_change_endian r_type address m else m)
          in bind_result (Some (c60_rel_unpack_addend r_type address m1)) (\<lambda>addend.
               Some (Inr (c60_reloc_do r_type address addend r_symval address (wrong_endian dyn_module)
                 ti_static_base (dsbt_index dyn_module) m1)))))"

definition c60_do_rela_entry ::
    "reloc_env \<Rightarrow> u32 \<Rightarrow> DLIMP_Dynamic_Module \<Rightarrow> DLIMP_Loaded_Segment \<Rightarrow> Elf32_Rela \<Rightarrow> mem \<Rightarrow>
     (mem \<times> reloc_message list) result" where
  "c60_do_rela_entry env ti_static_base dyn_module seg entry m =
     bind_result (DLSYM_canonical_lookup (lookup_malloc env) m (application_handle env) (loaded_objects env)
         (unat (ELF32_R_SYM (r_info entry))) dyn_module (stale_symval env)) (\<lambda>(found, r_symval).
       if \<not> found then Some (Inr (m, []))
       else Some (Inr (c60_reloc_do (c60_reloc_type (ELF32_R_TYPE (r_info entry)))
              (p_vaddr (phdr seg) + reloc_offset seg) (r_addend entry) r_symval
              (r_offset entry - input_vaddr seg) (wrong_endian dyn_module) ti_static_base
              (dsbt_index dyn_module) m)))"

text \<open>The index at which a scan stops is not stored back, so only the new memory is returned.\<close>

definition c60_process_rel_table ::
    "reloc_env \<Rightarrow> DLIMP_Loaded_Segment \<Rightarrow> Elf32_Rel list \<Rightarrow> nat \<Rightarrow> u32 \<Rightarrow> DLIMP_Dynamic_Module \<Rightarrow> mem \<Rightarrow>
     (mem \<times> reloc_message list) result" where
  "c60_process_rel_table env seg rel_table start_relidx ti_static_base dyn_module m =
     (let relidx = (if length rel_table \<le> start_relidx then 0 else start_relidx)
      in bind_result (scan_table (\<lambda>entry. in_segment seg (r_offset entry))
             (c60_do_rel_entry env ti_static_base dyn_module seg) relidx (drop relidx rel_table) False m)
           (\<lambda>(r, m1, e). Some (Inr (m1, e))))"

definition c60_process_rela_table ::
    "reloc_env \<Rightarrow> DLIMP_Loaded_Segment \<Rightarrow> Elf32_Rela list \<Rightarrow> nat \<Rightarrow> u32 \<Rightarrow> DLIMP_Dynamic_Module \<Rightarrow> mem \<Rightarrow>
     (mem \<times> reloc_message list) result" where
  "c60_process_rela_table env seg rela_table start_relidx ti_static_base dyn_module m =
     (let relidx = (if length rela_table < start_relidx then 0 else start_relidx)
      in bind_result (scan_table (\<lambda>entry. in_segment seg (r_offset entry))
             (c60_do_rela_entry env ti_static_base dyn_module seg) relidx (drop relidx rela_table) False m)
           (\<lambda>(r, m1, e). Some (Inr (m1, e))))"

section \<open>Reading the tables\<close>

definition c60_read_rel_table ::
    "bool \<Rightarrow> mem \<Rightarrow> u32 \<Rightarrow> u32 \<Rightarrow> u32 \<Rightarrow> bool \<Rightarrow> load_fault + Elf32_Rel list option" where
  "c60_read_rel_table malloc_ok elf_file table_offset relnum relent swap =
     (if \<not> malloc_ok then Inr None
      else if unat (relnum * relent) < 8 * unat relnum then Inl OutOfTable
      else
        (let rel_table = map (\<lambda>i. rel_entry_at elf_file (table_offset + word_of_nat (8 * i))) [0..<unat relnum]
         in Inr (Some (if swap then map DLIMP_change_rel_endian rel_table else rel_table))))"

definition c60_read_rela_table ::
    "bool \<Rightarrow> mem \<Rightarrow> u32 \<Rightarrow> u32 \<Rightarrow> u32 \<Rightarrow> bool \<Rightarrow> load_fault + Elf32_Rela list option" where
  "c60_read_rela_table malloc_ok elf_file table_offset relanum relaent swap =
     (if \<not> malloc_ok then Inr None
      else if unat (relanum * relaent) < 12 * unat relanum then Inl OutOfTable
      else
        (let rela_table = map (\<lambda>i. rela_entry_at elf_file (table_offset + word_of_nat (12 * i))) [0..<unat relanum]
         in Inr (Some (if swap then map DLIMP_change_rela_endian rela_table else rela_table))))"

section \<open>All the relocations of a module\<close>

text \<open>The static base: 0, and a message, if the module has no local symbol of its name.\<close>

definition c60_static_base :: "reloc_env \<Rightarrow> DLIMP_Dynamic_Module \<Rightarrow> mem \<Rightarrow> (u32 \<times> reloc_message list) result" where
  "c60_static_base env dyn_module m =
     bind_result (DLSYM_lookup_local_symtab m (static_base_name env) (symtab dyn_module) (symnum dyn_module))
       (\<lambda>(found, v). Some (Inr (v, if found then [] else [StaticBaseMissing])))"

fun c60_process_got_segments ::
    "reloc_env \<Rightarrow> u32 \<Rightarrow> Elf32_Rel list option \<Rightarrow> Elf32_Rela list option \<Rightarrow> DLIMP_Dynamic_Module \<Rightarrow>
     DLIMP_Loaded_Segment list \<Rightarrow> mem \<Rightarrow> (mem \<times> reloc_message list) result" where
  "c60_process_got_segments env base rel_table rela_table dyn_module [] m = Some (Inr (m, []))"
| "c60_process_got_segments env base rel_table rela_table dyn_module (seg # segs) m =
     (if p_filesz (phdr seg) = 0 then c60_process_got_segments env base rel_table rela_table dyn_module segs m
      else
        bind_result (case rela_table of
             None \<Rightarrow> Some (Inr (m, []))
           | Some t \<Rightarrow> c60_process_rela_table env seg t 0 base dyn_module m) (\<lambda>(m1, e1).
        bind_result (case rel_table of
             None \<Rightarrow> Some (Inr (m1, []))
           | Some t \<Rightarrow> c60_process_rel_table env seg t 0 base dyn_module m1) (\<lambda>(m2, e2).
        bind_result (c60_process_got_segments env base rel_table rela_table dyn_module segs m2)
          (\<lambda>(m3, e3). Some (Inr (m3, e1 @ e2 @ e3))))))"

definition c60_process_got_relocs ::
    "reloc_env \<Rightarrow> Elf32_Rel list option \<Rightarrow> Elf32_Rela list option \<Rightarrow> DLIMP_Dynamic_Module \<Rightarrow> mem \<Rightarrow>
     (mem \<times> reloc_message list) result" where
  "c60_process_got_relocs env rel_table rela_table dyn_module m =
     bind_result (c60_static_base env dyn_module m) (\<lambda>(base, e0).
     bind_result (c60_process_got_segments env base rel_table rela_table dyn_module
         (loaded_segments (loaded_module dyn_module)) m) (\<lambda>(m1, e1). Some (Inr (m1, e0 @ e1))))"

definition c60_process_pltgot_relocs ::
    "reloc_env \<Rightarrow> plt_table \<Rightarrow> DLIMP_Dynamic_Module \<Rightarrow> mem \<Rightarrow> (mem \<times> reloc_message list) result" where
  "c60_process_pltgot_relocs env plt dyn_module m =
     (let segs = loaded_segments (loaded_module dyn_module);
          run = (\<lambda>r_off f. bind_result (c60_static_base env dyn_module m) (\<lambda>(base, e0).
                   case plt_segment r_off segs of
                     None \<Rightarrow> Some (Inr (m, e0))
                   | Some seg \<Rightarrow> bind_result (f seg base) (\<lambda>(m1, e1). Some (Inr (m1, e0 @ e1)))))
      in case plt of
           PltRel [] \<Rightarrow> Some (Inl OutOfTable)
         | PltRela [] \<Rightarrow> Some (Inl OutOfTable)
         | PltRel (r # rs) \<Rightarrow>
             run (r_offset r) (\<lambda>seg base. c60_process_rel_table env seg (r # rs) 0 base dyn_module m)
         | PltRela (r # rs) \<Rightarrow>
             run (r_offset r) (\<lambda>seg base. c60_process_rela_table env seg (r # rs) 0 base dyn_module m))"

definition c60_set_dsbt_index :: "reloc_env \<Rightarrow> DLIMP_Dynamic_Module \<Rightarrow> DLIMP_Dynamic_Module" where
  "c60_set_dsbt_index env dyn_module =
     (if dsbt_size dyn_module \<noteq> 0 \<and> dsbt_index dyn_module = - 1
      then dyn_module \<lparr> dsbt_index := DLIF_get_dsbt_index env (file_handle (loaded_module dyn_module)) \<rparr>
      else dyn_module)"

definition c60_read_plt_table ::
    "(nat \<Rightarrow> bool) \<Rightarrow> mem \<Rightarrow> DLIMP_Dynamic_Module \<Rightarrow> load_fault + (plt_table option \<times> u32 \<times> u32)" where
  "c60_read_plt_table malloc_ok elf_file dyn_module =
     (let tag = (\<lambda>t. DLIMP_get_first_dyntag t (dyntab dyn_module));
          relasz = tag DT_RELASZ; relaent = tag DT_RELAENT; relsz = tag DT_RELSZ; relent = tag DT_RELENT;
          pltrelsz = tag DT_PLTRELSZ; pltreltype = tag DT_PLTREL
      in if pltrelsz \<noteq> INT_MAX then
           (if pltreltype = DT_REL then
              bindE (checked_div pltrelsz relent) (\<lambda>pltnum.
              bindE (c60_read_rel_table (malloc_ok 0) elf_file (tag DT_JMPREL) pltnum relent (wrong_endian dyn_module)) (\<lambda>t.
              Inr (map_option PltRel t, relsz - pltrelsz, relasz)))
            else if pltreltype = DT_RELA then
              bindE (checked_div pltrelsz relaent) (\<lambda>pltnum.
              bindE (c60_read_rela_table (malloc_ok 0) elf_file (tag DT_JMPREL) pltnum relaent (wrong_endian dyn_module)) (\<lambda>t.
              Inr (map_option PltRela t, relsz, relasz - pltrelsz)))
            else Inr (None, relsz, relasz))
         else Inr (None, relsz, relasz))"

definition c60_read_got_tables ::
    "(nat \<Rightarrow> bool) \<Rightarrow> mem \<Rightarrow> DLIMP_Dynamic_Module \<Rightarrow> u32 \<Rightarrow> u32 \<Rightarrow>
     load_fault + (Elf32_Rel list option \<times> Elf32_Rela list option)" where
  "c60_read_got_tables malloc_ok elf_file dyn_module relsz relasz =
     (let tag = (\<lambda>t. DLIMP_get_first_dyntag t (dyntab dyn_module));
          relaent = tag DT_RELAENT; relent = tag DT_RELENT
      in bindE (if relasz \<noteq> INT_MAX then
                  bindE (checked_div relasz relaent) (\<lambda>relanum.
                    c60_read_rela_table (malloc_ok 1) elf_file (tag DT_RELA) relanum relaent (wrong_endian dyn_module))
                else Inr None) (\<lambda>rela_table.
         bindE (if relsz \<noteq> INT_MAX then
                  bindE (checked_div relsz relent) (\<lambda>relnum.
                    c60_read_rel_table (malloc_ok 2) elf_file (tag DT_REL) relnum relent (wrong_endian dyn_module))
                else Inr None) (\<lambda>rel_table.
         Inr (rel_table, rela_table))))"

definition DLREL_relocate_c60 ::
    "reloc_env \<Rightarrow> (nat \<Rightarrow> bool) \<Rightarrow> mem \<Rightarrow> DLIMP_Dynamic_Module \<Rightarrow> mem \<Rightarrow>
     (mem \<times> DLIMP_Dynamic_Module \<times> reloc_message list) result" where
  "DLREL_relocate_c60 env malloc_ok elf_file dyn_module0 m =
     (let dyn_module = c60_set_dsbt_index env dyn_module0
      in bind_result (Some (c60_read_plt_table malloc_ok elf_file dyn_module)) (\<lambda>(plt, relsz, relasz).
         bind_result (Some (c60_read_got_tables malloc_ok elf_file dyn_module relsz relasz))
           (\<lambda>(rel_table, rela_table).
         bind_result (case plt of None \<Rightarrow> Some (Inr (m, [])) | Some t \<Rightarrow> c60_process_pltgot_relocs env t dyn_module m)
           (\<lambda>(m1, e1).
         bind_result (if rel_table \<noteq> None \<or> rela_table \<noteq> None
                      then c60_process_got_relocs env rel_table rela_table dyn_module m1 else Some (Inr (m1, [])))
           (\<lambda>(m2, e2). Some (Inr (m2, dyn_module, e1 @ e2)))))))"

end
