(* ===== verification/Dload_Graph.thy ===== *)
theory Dload_Graph
  imports Dload_Place Arm_Reloc C60_Reloc
begin

text \<open>
  The core loader at work (\<open>elfload/dload.c\<close>): \<open>DLOAD_load\<close> with its dependents, the relocation of the modules on the
  dependency stack, \<open>DLOAD_unload\<close> and the queries; and the two functions of the client (\<open>dlw_client.c\<close>) by which the core
  calls itself for a dependent file.

  A module is known by its file handle, which is given to one module only: the pointers to a dynamic module and to its loaded module are
  the handle. \<open>freed\<close> are the dynamic modules, \<open>gone\<close> the loaded modules whose memory has been given back; following a pointer
  to one of them is the fault \<open>Freed\<close>. A counter of type \<open>int32_t\<close> that would overflow is the fault \<open>Overflow\<close>, a relocation
  that does not return the fault \<open>NoReturn\<close>. What the client and the target do beside is a parameter, and a list of events tells
  what has been done to the target.
\<close>

section \<open>State\<close>

datatype load_event =
    Copied u32 nat
  | Relocated u32
  | Wrote u32 nat
  | Executed u32
  | Closed u32
  | Released u32 nat
  | DsbtsAssigned
  | DsbtReleased u32

text \<open>
  The files by name; the host's heap while a module is read, and for its symbols; the target addresses its segments get; the host
  addresses at which the client maps them (\<^const>\<open>None\<close> when \<open>DLIF_copy\<close> fails); words in target memory; the outcome of the
  DSBT request; and what relocation depends on.
\<close>

record load_env =
  files :: "string \<Rightarrow> elf_file option"
  reads :: "u32 \<Rightarrow> read_env"
  symbols_granted :: "u32 \<Rightarrow> bool"
  names_at :: "u32 \<Rightarrow> u32"
  place :: "u32 \<Rightarrow> nat \<Rightarrow> u32 option"
  mapped_at :: "u32 \<Rightarrow> nat \<Rightarrow> u32 option"
  target_words :: "u32 \<Rightarrow> nat \<Rightarrow> u32 list"
  dsbt_registered :: "u32 \<Rightarrow> bool"
  relocs :: reloc_env
  reloc_malloc :: "nat \<Rightarrow> bool"

record loader =
  dependency_list :: "(u32 \<times> string) list"
  objects :: "DLIMP_Loaded_Module list"
  dependency_stack :: "(DLIMP_Dynamic_Module \<times> elf_file) list"
  next_handle :: u32
  target_machine :: u16
  application :: u32
  host_memory :: mem
  freed :: "u32 list"
  gone :: "u32 list"
  events :: "load_event list"

definition DLOAD_create :: loader where
  "DLOAD_create =
     \<lparr> dependency_list = [], objects = [], dependency_stack = [], next_handle = 1, target_machine = EM_NONE, application = 0,
       host_memory = (\<lambda>_. 0), freed = [], gone = [], events = [] \<rparr>"

definition dm_handle :: "DLIMP_Dynamic_Module \<Rightarrow> u32" where
  "dm_handle dm = file_handle (loaded_module dm)"

definition log :: "load_event list \<Rightarrow> loader \<Rightarrow> loader" where
  "log ev s = s \<lparr> events := events s @ ev \<rparr>"

definition update_object :: "u32 \<Rightarrow> (DLIMP_Loaded_Module \<Rightarrow> DLIMP_Loaded_Module) \<Rightarrow> loader \<Rightarrow> loader" where
  "update_object h f s = s \<lparr> objects := map (\<lambda>ob. if file_handle ob = h then f ob else ob) (objects s) \<rparr>"

definition remove_object :: "u32 \<Rightarrow> loader \<Rightarrow> loader" where
  "remove_object h s = s \<lparr> objects := filter (\<lambda>ob. file_handle ob \<noteq> h) (objects s) \<rparr>"

section \<open>Destruction\<close>

definition delete_DLIMP_Loaded_Module :: "DLIMP_Loaded_Module \<Rightarrow> loader \<Rightarrow> loader" where
  "delete_DLIMP_Loaded_Module lm s =
     log (map (Released (file_handle lm)) [0..<length (loaded_segments lm)])
       (s \<lparr> application := (if file_handle lm = application s then 0 else application s), gone := file_handle lm # gone s \<rparr>)"

text \<open>Of a dynamic module with a loaded module attached, or detached.\<close>

definition delete_DLIMP_Dynamic_Module :: "bool \<Rightarrow> DLIMP_Dynamic_Module \<Rightarrow> loader \<Rightarrow> loader" where
  "delete_DLIMP_Dynamic_Module attached dm s =
     (let s1 = (if attached then delete_DLIMP_Loaded_Module (loaded_module dm) s else s)
      in s1 \<lparr> freed := dm_handle dm # freed s1 \<rparr>)"

definition pop_module :: "loader \<Rightarrow> load_fault + loader" where
  "pop_module s =
     (case dependency_stack s of [] \<Rightarrow> Inl NullNode | _ # rest \<Rightarrow> Inr (s \<lparr> dependency_stack := rest \<rparr>))"

section \<open>Reading\<close>

definition names_loading :: "loader \<Rightarrow> string option list" where
  "names_loading s = map (\<lambda>(h, nm). if h \<in> set (freed s) then None else Some nm) (dependency_list s)"

text \<open>From the new dynamic module to the sanity checks; \<^const>\<open>None\<close> when the load ends here.\<close>

definition start_load :: "load_env \<Rightarrow> elf_file \<Rightarrow> loader \<Rightarrow> load_fault + (DLIMP_Dynamic_Module option \<times> loader)" where
  "start_load env f s =
     (let renv = reads env (next_handle s) in
      if \<not> granted renv ModuleBuffer then Inr (None, s)
      else bindE (dload_headers renv (target_machine s) f new_DLIMP_Dynamic_Module) (\<lambda>(ok, target, dm).
        let s1 = s \<lparr> target_machine := target \<rparr> in
        if \<not> ok then Inr (None, s1)
        else bindE (dload_dynamic_segment renv (names_loading s1) f dm) (\<lambda>(ok, dm1).
          if \<not> ok then Inr (None, s1)
          else if dm_name dm1 = None \<and> \<not> granted renv NameBuffer then Inr (None, s1)
          else
            let dm2 = dm1 \<lparr> c_args := 0x02204000, dm_name := Some (case dm_name dm1 of None \<Rightarrow> [] | Some nm \<Rightarrow> nm) \<rparr>
            in bindE (is_valid_elf_object_file f dm2) (\<lambda>ok. Inr (if ok then Some dm2 else None, s1)))))"

text \<open>Bytes put into host memory.\<close>

definition store_bytes :: "u32 \<Rightarrow> u8 list \<Rightarrow> mem \<Rightarrow> mem" where
  "store_bytes a bs m = (\<lambda>x. if unat (x - a) < length bs then bs ! unat (x - a) else m x)"

text \<open>The names of the symbols are in the string table, which is in host memory since it was read.\<close>

definition initialize_loaded_module :: "load_env \<Rightarrow> DLIMP_Dynamic_Module \<Rightarrow> loader \<Rightarrow> load_fault + (DLIMP_Dynamic_Module \<times> loader)" where
  "initialize_loaded_module env dm s =
     (let h = next_handle s in
      if h = 0x7FFFFFFF then Inl Overflow
      else
        let dm1 = new_loaded_module h dm; s1 = s \<lparr> next_handle := h + 1 \<rparr> in
        bindE (if is_relocatable dm1
               then map_sum id (\<lambda>(m, d). (d, s1 \<lparr> host_memory := m \<rparr>))
                 (DLSYM_copy_globals (symbols_granted env h) (names_at env h)
                   (store_bytes (strtab dm1) (strbuf dm1) (host_memory s1)) dm1)
               else Inr (dm1, s1)) (\<lambda>(dm2, s2).
          bindE (add_segments dm2) (\<lambda>dm3. Inr (dm3, s2))))"

section \<open>Initialisation and termination functions\<close>

definition read_array :: "load_env \<Rightarrow> u32 \<Rightarrow> u32 \<Rightarrow> u32 list" where
  "read_array env a sz = target_words env a (unat sz div 4)"

definition tag_value :: "DLIMP_Dynamic_Module \<Rightarrow> u32 \<Rightarrow> load_fault + u32" where
  "tag_value dm i = (if unat i < length (dyntab dm) then Inr (d_un (dyntab dm ! unat i)) else Inl OutOfTable)"

definition run_array :: "load_env \<Rightarrow> DLIMP_Dynamic_Module \<Rightarrow> u32 \<Rightarrow> u32 \<Rightarrow> loader \<Rightarrow> load_fault + loader" where
  "run_array env dm i sz s =
     (if sz = 0 then Inr s
      else bindE (tag_value dm i) (\<lambda>a.
        Inr (if granted (reads env (dm_handle dm)) ArrayBuffer then log (map Executed (read_array env a sz)) s else s)))"

definition execute_module_pre_initialization :: "load_env \<Rightarrow> DLIMP_Dynamic_Module \<Rightarrow> loader \<Rightarrow> load_fault + loader" where
  "execute_module_pre_initialization env dm s = run_array env dm (preinit_array_idx dm) (preinit_arraysz dm) s"

definition execute_module_initialization :: "load_env \<Rightarrow> DLIMP_Dynamic_Module \<Rightarrow> loader \<Rightarrow> load_fault + loader" where
  "execute_module_initialization env dm s =
     bindE (if init_idx dm \<noteq> 0xFFFFFFFF then bindE (tag_value dm (init_idx dm)) (\<lambda>a. Inr (log [Executed a] s)) else Inr s)
       (run_array env dm (init_array_idx dm) (init_arraysz dm))"

definition execute_module_termination :: "load_env \<Rightarrow> DLIMP_Loaded_Module \<Rightarrow> loader \<Rightarrow> loader" where
  "execute_module_termination env lm s =
     (let s1 = (if fini_arraysz lm \<noteq> 0 \<and> granted (reads env (file_handle lm)) ArrayBuffer
                then log (map Executed (rev (read_array env (fini_array lm) (fini_arraysz lm)))) s else s)
      in if fini lm \<noteq> 0 then log [Executed (fini lm)] s1 else s1)"

section \<open>Relocation\<close>

text \<open>The status of \<open>DLIF_copy\<close> is not looked at: when it fails the address of the buffer is not set.\<close>

fun copy_segments :: "load_env \<Rightarrow> elf_file \<Rightarrow> u32 \<Rightarrow> nat \<Rightarrow> DLIMP_Loaded_Segment list \<Rightarrow> mem \<Rightarrow>
    load_fault + (DLIMP_Loaded_Segment list \<times> mem)" where
  "copy_segments env f h i [] m = Inr ([], m)"
| "copy_segments env f h i (seg # segs) m =
     (case mapped_at env h i of
        None \<Rightarrow> Inl WildNode
      | Some a \<Rightarrow>
          (let m1 = store_bytes a (replicate (unat (p_memsz (phdr seg))) 0) m;
               m2 = store_bytes a (table_at read8 1 (content f) (p_offset (phdr seg)) (unat (p_filesz (phdr seg)))) m1
           in bindE (copy_segments env f h (Suc i) segs m2) (\<lambda>(segs1, m3).
                Inr (seg \<lparr> reloc_offset := a - p_vaddr (phdr seg) \<rparr> # segs1, m3))))"

definition run_relocator :: "load_env \<Rightarrow> elf_file \<Rightarrow> DLIMP_Dynamic_Module \<Rightarrow> loader \<Rightarrow> mem \<Rightarrow>
    (mem \<times> DLIMP_Dynamic_Module) result" where
  "run_relocator env f dm s m =
     (let renv = (relocs env) \<lparr> application_handle := application s, loaded_objects := objects s \<rparr> in
      if e_machine (fhdr dm) = EM_ARM
      then bind_result (DLREL_relocate renv (reloc_malloc env) (content f) dm m) (\<lambda>(m1, msgs). Some (Inr (m1, dm)))
      else if e_machine (fhdr dm) = EM_TI_C6000
      then bind_result (DLREL_relocate_c60 renv (reloc_malloc env) (content f) dm m) (\<lambda>(m1, dm1, msgs). Some (Inr (m1, dm1)))
      else Some (Inr (m, dm)))"

text \<open>The loaded module that the dynamic module points to, with what has been done to it since.\<close>

definition attached_module :: "DLIMP_Dynamic_Module \<Rightarrow> loader \<Rightarrow> DLIMP_Loaded_Module" where
  "attached_module dm s =
     (case List.find (\<lambda>ob. file_handle ob = dm_handle dm) (objects s) of None \<Rightarrow> loaded_module dm | Some ob \<Rightarrow> ob)"

definition process_dynamic_module_relocations :: "load_env \<Rightarrow> elf_file \<Rightarrow> DLIMP_Dynamic_Module \<Rightarrow> loader \<Rightarrow>
    load_fault + (DLIMP_Dynamic_Module \<times> loader)" where
  "process_dynamic_module_relocations env f dm s =
     (let h = dm_handle dm; lm = attached_module dm s; n = length (loaded_segments lm) in
      bindE (copy_segments env f h 0 (loaded_segments lm) (host_memory s)) (\<lambda>(segs, m).
        let dm1 = dm \<lparr> loaded_module := lm \<lparr> loaded_segments := segs \<rparr> \<rparr>;
            s1 = update_object h (\<lambda>ob. ob \<lparr> loaded_segments := segs \<rparr>) s
        in case run_relocator env f dm1 s1 m of
             None \<Rightarrow> Inl NoReturn
           | Some (Inl e) \<Rightarrow> Inl e
           | Some (Inr (m1, dm2)) \<Rightarrow>
               Inr (dm2, log (map (Copied h) [0..<n] @ [Relocated h] @ map (Wrote h) [0..<n]) (s1 \<lparr> host_memory := m1 \<rparr>))))"

text \<open>
  One turn of the loop over the stack, for the module that was taken from it; \<open>root\<close> is the module whose file belongs to the
  caller. The look-up of \<open>__c_args__\<close>, which nothing uses, is left out.
\<close>

definition relocate_popped :: "load_env \<Rightarrow> u32 \<Rightarrow> DLIMP_Dynamic_Module \<times> elf_file \<Rightarrow> loader \<Rightarrow> load_fault + loader" where
  "relocate_popped env root entry s =
     (let (dm, f) = entry; h = dm_handle dm in
      if h \<in> set (freed s) then Inl Freed
      else bindE (process_dynamic_module_relocations env f dm s) (\<lambda>(dm1, s1).
        bindE (execute_module_initialization env dm1 (update_object h (\<lambda>ob. ob \<lparr> entry_point := e_entry (fhdr dm1) \<rparr>) s1)) (\<lambda>s2.
          Inr (delete_DLIMP_Dynamic_Module False dm1 (if h \<noteq> root then log [Closed h] s2 else s2)))))"

fun relocate_stack :: "load_env \<Rightarrow> u32 \<Rightarrow> (DLIMP_Dynamic_Module \<times> elf_file) list \<Rightarrow> loader \<Rightarrow> load_fault + loader" where
  "relocate_stack env root [] s = Inr (s \<lparr> dependency_stack := [] \<rparr>)"
| "relocate_stack env root (entry # rest) s =
     bindE (relocate_popped env root entry (s \<lparr> dependency_stack := rest \<rparr>)) (relocate_stack env root rest)"

text \<open>Only the module at the bottom of the stack goes on to the relocations; on an empty stack there is nothing to do.\<close>

definition relocate_dependency_graph_modules :: "load_env \<Rightarrow> DLIMP_Dynamic_Module \<Rightarrow> loader \<Rightarrow> load_fault + (u32 \<times> loader)" where
  "relocate_dependency_graph_modules env dm s =
     (let h = dm_handle dm; st = dependency_stack s in
      if st \<noteq> [] \<and> dm_handle (fst (last st)) \<noteq> h then Inr (h, s)
      else bindE (relocate_stack env h st (log [DsbtsAssigned] s)) (\<lambda>s1. Inr (h, s1)))"

section \<open>Dependents\<close>

text \<open>The search for a loaded module by its name.\<close>

fun find_named :: "u32 list \<Rightarrow> string \<Rightarrow> DLIMP_Loaded_Module list \<Rightarrow> load_fault + u32 option" where
  "find_named dead nm [] = Inr None"
| "find_named dead nm (ob # obs) =
     (if file_handle ob \<in> set dead then Inl Freed
      else if lm_name ob = nm then Inr (Some (file_handle ob))
      else find_named dead nm obs)"

definition use_object :: "u32 \<Rightarrow> loader \<Rightarrow> load_fault + loader" where
  "use_object h s =
     (if \<exists>ob \<in> set (objects s). file_handle ob = h \<and> use_count ob = 0x7FFFFFFF then Inl Overflow
      else Inr (update_object h (\<lambda>ob. ob \<lparr> use_count := use_count ob + 1 \<rparr>) s))"

definition add_dependency :: "u32 \<Rightarrow> u32 \<Rightarrow> loader \<Rightarrow> loader" where
  "add_dependency h d = update_object h (\<lambda>ob. ob \<lparr> dependencies := dependencies ob @ [d] \<rparr>)"

definition DLIF_load_dependent :: "(elf_file \<Rightarrow> loader \<Rightarrow> (u32 \<times> loader) result) \<Rightarrow> load_env \<Rightarrow> string \<Rightarrow> loader \<Rightarrow>
    (u32 \<times> loader) result" where
  "DLIF_load_dependent load env nm s = (case files env nm of None \<Rightarrow> Some (Inr (0, s)) | Some f \<Rightarrow> load f s)"

fun dload_and_allocate_dependencies :: "(elf_file \<Rightarrow> loader \<Rightarrow> (u32 \<times> loader) result) \<Rightarrow> load_env \<Rightarrow> DLIMP_Dynamic_Module \<Rightarrow>
    Elf32_Dyn list \<Rightarrow> loader \<Rightarrow> (bool \<times> loader) result" where
  "dload_and_allocate_dependencies load env dm [] s = Some (Inl OutOfTable)"
| "dload_and_allocate_dependencies load env dm (d # ds) s =
     (if d_tag d = DT_NULL then Some (Inr (True, s))
      else if d_tag d \<noteq> DT_NEEDED then dload_and_allocate_dependencies load env dm ds s
      else bind_result (Some (c_string (strbuf dm) (d_un d))) (\<lambda>nm.
        bind_result (Some (find_named (gone s) nm (objects s))) (\<lambda>found.
          case found of
            Some h \<Rightarrow>
              bind_result (Some (use_object h s)) (\<lambda>s1.
                dload_and_allocate_dependencies load env dm ds (add_dependency (dm_handle dm) h s1))
          | None \<Rightarrow>
              bind_result (DLIF_load_dependent load env nm s) (\<lambda>(h, s1).
                let s2 = add_dependency (dm_handle dm) h s1
                in if h = 0 then Some (Inr (False, s2)) else dload_and_allocate_dependencies load env dm ds s2))))"

section \<open>Loading\<close>

text \<open>A static executable gets the addresses it asks for, or the load fails; the module stays in the queue in both cases.\<close>

definition dload_static_executable :: "load_env \<Rightarrow> DLIMP_Dynamic_Module \<Rightarrow> loader \<Rightarrow> u32 \<times> loader" where
  "dload_static_executable env dm s =
     (let h = dm_handle dm; segs = loaded_segments (loaded_module dm);
          s1 = update_object h (\<lambda>ob. ob \<lparr> entry_point := e_entry (fhdr dm) \<rparr>) s;
          got = takeWhile (\<lambda>i. place env h i \<noteq> None) [0..<length segs];
          s2 = log (concat (map (\<lambda>i. if p_filesz (phdr (segs ! i)) \<noteq> 0 then [Copied h i, Wrote h i] else []) got)) s1
      in if length got = length segs then (h, delete_DLIMP_Dynamic_Module False dm s2)
         else (0, delete_DLIMP_Dynamic_Module True dm s2))"

text \<open>
  From \<open>initialize_loaded_module\<close> to the DSBT request, with the file of the module: either the load has ended with a handle
  (0 for failure), or the dependents are next.
\<close>

definition place_load :: "load_env \<Rightarrow> elf_file \<Rightarrow> DLIMP_Dynamic_Module \<Rightarrow> loader \<Rightarrow>
    load_fault + ((u32 + DLIMP_Dynamic_Module) \<times> loader)" where
  "place_load env f dm s =
     bindE (initialize_loaded_module env dm s) (\<lambda>(dm1, s1).
       let h = dm_handle dm1; s2 = s1 \<lparr> objects := objects s1 @ [loaded_module dm1] \<rparr> in
       if \<not> is_relocatable dm1 then (let (r, s3) = dload_static_executable env dm1 s2 in Inr (Inl r, s3))
       else bindE (allocate_dynamic_segments_and_relocate_symbols (place env h) dm1) (\<lambda>(ok, dm2).
         if \<not> ok then Inr (Inl 0, delete_DLIMP_Dynamic_Module True dm2 (remove_object h s2))
         else bindE (if e_type (fhdr dm2) = ET_EXEC
                     then execute_module_pre_initialization env dm2 (update_object h (\<lambda>_. loaded_module dm2) s2)
                     else Inr (update_object h (\<lambda>_. loaded_module dm2) s2)) (\<lambda>s3.
           let s4 = s3 \<lparr> dependency_list := dependency_list s3 @ [(h, the (dm_name dm2))],
                         dependency_stack := (dm2, f) # dependency_stack s3 \<rparr>
           in if dsbt_size dm2 \<noteq> 0 \<and> \<not> dsbt_registered env h
              then bindE (pop_module s4) (\<lambda>s5. Inr (Inl 0, delete_DLIMP_Dynamic_Module True dm2 (remove_object h s5)))
              else Inr (Inr dm2, s4))))"

text \<open>The end of a load: the dependents could not be loaded, or the module leaves the list of modules being loaded.\<close>

definition end_load :: "load_env \<Rightarrow> DLIMP_Dynamic_Module \<Rightarrow> bool \<Rightarrow> loader \<Rightarrow> load_fault + (u32 \<times> loader)" where
  "end_load env dm ok s =
     (if ok then relocate_dependency_graph_modules env dm (s \<lparr> dependency_list := butlast (dependency_list s) \<rparr>)
      else bindE (pop_module s) (\<lambda>s1. Inr (0, delete_DLIMP_Dynamic_Module True dm (remove_object (dm_handle dm) s1))))"

text \<open>The argument counts the loads that may be under way at once.\<close>

primrec DLOAD_load :: "load_env \<Rightarrow> nat \<Rightarrow> elf_file \<Rightarrow> loader \<Rightarrow> (u32 \<times> loader) result" where
  "DLOAD_load env 0 f s = None"
| "DLOAD_load env (Suc n) f s =
     bind_result (Some (start_load env f s)) (\<lambda>(opened, s1).
       case opened of
         None \<Rightarrow> Some (Inr (0, s1))
       | Some dm \<Rightarrow>
           bind_result (Some (place_load env f dm s1)) (\<lambda>(placed, s2).
             case placed of
               Inl h \<Rightarrow> Some (Inr (h, s2))
             | Inr dm1 \<Rightarrow>
                 bind_result (dload_and_allocate_dependencies (DLOAD_load env n) env dm1 (dyntab dm1) s2) (\<lambda>(ok, s3).
                   Some (end_load env dm1 ok s3))))"

section \<open>Unloading\<close>

text \<open>
  The search for the handle: every module with it loses a use, until one has none left. The result has the modules with their
  new counts, and that one.
\<close>

fun drop_use :: "u32 list \<Rightarrow> u32 \<Rightarrow> DLIMP_Loaded_Module list \<Rightarrow>
    load_fault + (DLIMP_Loaded_Module option \<times> DLIMP_Loaded_Module list)" where
  "drop_use dead h [] = Inr (None, [])"
| "drop_use dead h (ob # obs) =
     (if file_handle ob \<in> set dead then Inl Freed
      else if file_handle ob = h then
        (let ob1 = ob \<lparr> use_count := use_count ob - 1 \<rparr>
         in if use_count ob1 = 0 then Inr (Some ob1, ob1 # obs)
            else map_sum id (\<lambda>(r, obs1). (r, ob1 # obs1)) (drop_use dead h obs))
      else map_sum id (\<lambda>(r, obs1). (r, ob # obs1)) (drop_use dead h obs))"

definition remove_loaded_module :: "DLIMP_Loaded_Module \<Rightarrow> loader \<Rightarrow> loader" where
  "remove_loaded_module lm s = delete_DLIMP_Loaded_Module lm (remove_object (file_handle lm) s)"

definition DLIF_unload_dependent :: "(u32 \<Rightarrow> loader \<Rightarrow> (bool \<times> loader) result) \<Rightarrow> u32 \<Rightarrow> loader \<Rightarrow> loader result" where
  "DLIF_unload_dependent unload h s =
     bind_result (unload h s) (\<lambda>(destroyed, s1). Some (Inr (if destroyed then log [DsbtReleased h] s1 else s1)))"

fun unload_dependents :: "(u32 \<Rightarrow> loader \<Rightarrow> (bool \<times> loader) result) \<Rightarrow> u32 list \<Rightarrow> loader \<Rightarrow> loader result" where
  "unload_dependents unload [] s = Some (Inr s)"
| "unload_dependents unload (h # hs) s = bind_result (DLIF_unload_dependent unload h s) (unload_dependents unload hs)"

primrec DLOAD_unload :: "load_env \<Rightarrow> nat \<Rightarrow> u32 \<Rightarrow> loader \<Rightarrow> (bool \<times> loader) result" where
  "DLOAD_unload env 0 h s = None"
| "DLOAD_unload env (Suc n) h s =
     bind_result (Some (drop_use (gone s) h (objects s))) (\<lambda>(last_use, obs).
       let s1 = s \<lparr> objects := obs \<rparr> in
       case last_use of
         None \<Rightarrow> Some (Inr (False, s1))
       | Some lm \<Rightarrow>
           bind_result (unload_dependents (DLOAD_unload env n) (dependencies lm) (execute_module_termination env lm s1)) (\<lambda>s2.
             let s3 = remove_loaded_module lm s2
             in Some (Inr (True, if objects s3 = [] then s3 \<lparr> target_machine := EM_NONE \<rparr> else s3))))"

section \<open>Symbols of a file only, and queries\<close>

definition DLOAD_load_symbols :: "load_env \<Rightarrow> elf_file \<Rightarrow> loader \<Rightarrow> load_fault + (u32 \<times> loader)" where
  "DLOAD_load_symbols env f s =
     (let renv = reads env (next_handle s) in
      if \<not> granted renv ModuleBuffer then Inr (0, s)
      else bindE (dload_headers renv (target_machine s) f new_DLIMP_Dynamic_Module) (\<lambda>(ok, target, dm).
        let s1 = s \<lparr> target_machine := target \<rparr> in
        if \<not> ok then Inr (0, s1)
        else bindE (dload_dynamic_segment renv (names_loading s1) f dm) (\<lambda>(ok, dm1).
          if \<not> ok then Inr (0, s1)
          else bindE (is_valid_elf_object_file f dm1) (\<lambda>ok.
            if \<not> ok then Inr (0, s1)
            else if dm_name dm1 = None then Inl NullNode
            else bindE (initialize_loaded_module env dm1 s1) (\<lambda>(dm2, s2).
              let s3 = s2 \<lparr> objects := objects s2 @ [loaded_module dm2] \<rparr>;
                  s4 = (if dsbt_size dm2 \<noteq> 0 then log [DsbtsAssigned] s3 else s3)
              in Inr (dm_handle dm2, delete_DLIMP_Dynamic_Module False dm2 s4))))))"

text \<open>The walk of the queries to the module with a handle.\<close>

fun object_with :: "u32 list \<Rightarrow> u32 \<Rightarrow> DLIMP_Loaded_Module list \<Rightarrow> load_fault + DLIMP_Loaded_Module option" where
  "object_with dead h [] = Inr None"
| "object_with dead h (ob # obs) =
     (if file_handle ob \<in> set dead then Inl Freed
      else if file_handle ob = h then Inr (Some ob) else object_with dead h obs)"

definition DLOAD_get_entry_point :: "u32 \<Rightarrow> loader \<Rightarrow> load_fault + u32 option" where
  "DLOAD_get_entry_point h s = map_sum id (map_option entry_point) (object_with (gone s) h (objects s))"

end
