(* ===== verification/Dload_Count.thy ===== *)
theory Dload_Count
  imports Dload_Graph "HOL-Library.Multiset"
begin

text \<open>
  The use counts of the loader (\<open>elfload/dload.c\<close>): the count of a module is the number of times the client holds its handle
  and the number of times other modules name it as a dependent. While modules are being unloaded, those whose count has
  become 0 are still in the queue and their dependents are released one after the other.
\<close>

section \<open>What the counts depend on\<close>

definition handles :: "loader \<Rightarrow> u32 set" where
  "handles s = file_handle ` set (objects s)"

definition count_data :: "DLIMP_Loaded_Module \<Rightarrow> u32 \<times> u32 \<times> u32 list" where
  "count_data ob = (file_handle ob, use_count ob, dependencies ob)"

definition counts :: "loader \<Rightarrow> (u32 \<times> u32 \<times> u32 list) list \<times> u32 list \<times> u32" where
  "counts s = (map count_data (objects s), gone s, next_handle s)"

lemma counts_update [simp]:
  "counts (log ev s) = counts s"
  "counts (s \<lparr> target_machine := t \<rparr>) = counts s"
  "counts (s \<lparr> dependency_list := l \<rparr>) = counts s"
  "counts (s \<lparr> dependency_stack := st \<rparr>) = counts s"
  "counts (s \<lparr> host_memory := m \<rparr>) = counts s"
  "counts (s \<lparr> freed := fr \<rparr>) = counts s"
  by (simp_all add: counts_def log_def)

lemma counts_object:
  assumes "\<And>ob. ob \<in> set (objects s) \<Longrightarrow> file_handle ob = h \<Longrightarrow> count_data (f ob) = count_data ob"
  shows "counts (update_object h f s) = counts s"
  using assms by (auto simp: counts_def update_object_def)

lemma counts_object_fields [simp]:
  "counts (update_object h (\<lambda>ob. ob \<lparr> entry_point := e \<rparr>) s) = counts s"
  "counts (update_object h (\<lambda>ob. ob \<lparr> loaded_segments := sg \<rparr>) s) = counts s"
  by (simp_all add: counts_object count_data_def)

lemma counts_detached [simp]: "counts (delete_DLIMP_Dynamic_Module False dm s) = counts s"
  by (simp add: delete_DLIMP_Dynamic_Module_def)

lemma counts_start: "start_load env f s = Inr (d, s') \<Longrightarrow> counts s' = counts s"
  unfolding start_load_def by (auto simp: Let_def bindE_eq_Inr split: if_splits)

lemma counts_run_array: "run_array env dm i sz s = Inr s' \<Longrightarrow> counts s' = counts s"
  by (auto simp: run_array_def bindE_eq_Inr split: if_splits)

lemma counts_initialization: "execute_module_initialization env dm s = Inr s' \<Longrightarrow> counts s' = counts s"
  unfolding execute_module_initialization_def
  by (auto simp: bindE_eq_Inr split: if_splits dest!: counts_run_array)

lemma counts_termination [simp]: "counts (execute_module_termination env lm s) = counts s"
  by (simp add: execute_module_termination_def Let_def)

lemma counts_relocations: "process_dynamic_module_relocations env f dm s = Inr (dm', s') \<Longrightarrow> counts s' = counts s"
  unfolding process_dynamic_module_relocations_def Let_def bindE_eq_Inr
  by (elim exE conjE, split prod.splits, split option.splits, auto split: sum.splits)

lemma counts_popped: "relocate_popped env root entry s = Inr s' \<Longrightarrow> counts s' = counts s"
  unfolding relocate_popped_def
  by (auto simp: Let_def bindE_eq_Inr split: if_splits prod.splits dest!: counts_relocations counts_initialization)

lemma counts_stack: "relocate_stack env root st s = Inr s' \<Longrightarrow> counts s' = counts s"
  by (induction env root st s rule: relocate_stack.induct) (auto simp: bindE_eq_Inr dest!: counts_popped)

lemma counts_graph: "relocate_dependency_graph_modules env dm s = Inr (h, s') \<Longrightarrow> counts s' = counts s \<and> h = dm_handle dm"
  unfolding relocate_dependency_graph_modules_def
  by (auto simp: Let_def bindE_eq_Inr split: if_splits dest!: counts_stack)


section \<open>Counted states\<close>

text \<open>What the modules that are not being unloaded name as their dependents, each as often as it is named.\<close>

definition refs :: "u32 set \<Rightarrow> loader \<Rightarrow> u32 multiset" where
  "refs D s = mset (concat (map dependencies (filter (\<lambda>ob. file_handle ob \<notin> D) (objects s))))"

text \<open>\<open>E\<close> are the handles that are held outside of the modules, \<open>D\<close> the modules that are being unloaded.\<close>

definition counted :: "u32 set \<Rightarrow> u32 multiset \<Rightarrow> loader \<Rightarrow> bool" where
  "counted D E s \<longleftrightarrow>
     distinct (map file_handle (objects s)) \<and>
     (\<forall>ob \<in> set (objects s).
        0 < file_handle ob \<and> file_handle ob < next_handle s \<and> file_handle ob \<notin> set (gone s) \<and>
        unat (use_count ob) = Multiset.count (E + refs D s) (file_handle ob) \<and> use_count ob \<le> 0x7FFFFFFF \<and>
        (use_count ob = 0 \<longleftrightarrow> file_handle ob \<in> D)) \<and>
     set_mset (E + refs D s) \<subseteq> handles s \<and>
     (\<forall>h \<in> set (gone s). h < next_handle s) \<and> 0 < next_handle s \<and> next_handle s \<le> 0x7FFFFFFF"

lemma refs_counts: "refs D s = mset (concat (map (snd \<circ> snd) (filter (\<lambda>c. fst c \<notin> D) (fst (counts s)))))"
  by (simp add: refs_def counts_def filter_map comp_def count_data_def)

lemma handles_counts: "handles s = fst ` set (fst (counts s))"
  by (simp add: handles_def counts_def count_data_def image_image)

lemma counted_counts:
  "counted D E s \<longleftrightarrow>
     (let (cs, gn, nx) = counts s; total = E + mset (concat (map (snd \<circ> snd) (filter (\<lambda>c. fst c \<notin> D) cs))) in
      distinct (map fst cs) \<and>
      (\<forall>(h, n, ds) \<in> set cs. 0 < h \<and> h < nx \<and> h \<notin> set gn \<and> unat n = Multiset.count total h \<and> n \<le> 0x7FFFFFFF \<and> (n = 0 \<longleftrightarrow> h \<in> D)) \<and>
      set_mset total \<subseteq> fst ` set cs \<and> (\<forall>h \<in> set gn. h < nx) \<and> 0 < nx \<and> nx \<le> 0x7FFFFFFF)"
  by (simp add: counted_def refs_counts handles_def counts_def count_data_def comp_def image_image)

lemma counted_same: "counts s' = counts s \<Longrightarrow> counted D E s' = counted D E s"
  by (simp add: counted_counts)

lemma handles_same: "counts s' = counts s \<Longrightarrow> handles s' = handles s"
  by (simp add: handles_counts)

lemma handles_map:
  assumes "\<And>ob. file_handle (f ob) = file_handle ob"
  shows "map file_handle (objects (update_object h f s)) = map file_handle (objects s)" "handles (update_object h f s) = handles s"
proof -
  show m: "map file_handle (objects (update_object h f s)) = map file_handle (objects s)"
    using assms by (simp add: update_object_def)
  show "handles (update_object h f s) = handles s"
    using arg_cong [OF m, of set] by (simp add: handles_def)
qed

lemma update_object_simps [simp]:
  "(\<forall>ob \<in> set (objects (update_object h f s)). P ob) \<longleftrightarrow> (\<forall>ob \<in> set (objects s). P (if file_handle ob = h then f ob else ob))"
  "gone (update_object h f s) = gone s"
  "next_handle (update_object h f s) = next_handle s"
  by (auto simp: update_object_def)

lemma counted_create: "counted {} {#} DLOAD_create"
  by (simp add: counted_def refs_def handles_def DLOAD_create_def)

text \<open>A use more, by a module that names it.\<close>

lemma refs_add_dependency:
  assumes "distinct (map file_handle (objects s))" "h \<in> handles s" "h \<notin> D"
  shows "refs D (add_dependency h d s) = add_mset d (refs D s)"
proof -
  obtain xs ob ys where s: "objects s = xs @ ob # ys" "file_handle ob = h"
    using assms(2) by (auto simp: handles_def dest: split_list)
  then have out: "\<forall>x \<in> set xs. file_handle x \<noteq> h" "\<forall>y \<in> set ys. file_handle y \<noteq> h"
    using assms(1) by (auto simp: image_iff)
  then have "map (\<lambda>ob. if file_handle ob = h then ob \<lparr> dependencies := dependencies ob @ [d] \<rparr> else ob) xs = xs"
    "map (\<lambda>ob. if file_handle ob = h then ob \<lparr> dependencies := dependencies ob @ [d] \<rparr> else ob) ys = ys"
    by (simp_all add: map_idI)
  then show ?thesis
    using s assms(3) by (simp add: refs_def add_dependency_def update_object_def)
qed

lemma counted_add_dependency:
  assumes "counted D (add_mset d E) s" "h \<in> handles s" "h \<notin> D"
  shows "counted D E (add_dependency h d s)"
proof -
  have r: "refs D (add_dependency h d s) = add_mset d (refs D s)"
    using assms by (intro refs_add_dependency) (auto simp: counted_def)
  have m: "map file_handle (objects (add_dependency h d s)) = map file_handle (objects s)"
    and hs: "handles (add_dependency h d s) = handles s"
    by (simp_all add: add_dependency_def handles_map)
  show ?thesis
    using assms unfolding counted_def r m hs by (auto simp: add_dependency_def)
qed

lemma counted_use_object:
  assumes c: "counted D E s" and u: "use_object h s = Inr s'" and h: "h \<in> handles s" "h \<notin> D"
  shows "counted D (add_mset h E) s'" "handles s' = handles s"
proof -
  have s': "s' = update_object h (\<lambda>ob. ob \<lparr> use_count := use_count ob + 1 \<rparr>) s"
    and u: "\<And>ob. ob \<in> set (objects s) \<Longrightarrow> file_handle ob = h \<Longrightarrow> use_count ob \<noteq> 0x7FFFFFFF"
    using u by (auto simp: use_object_def split: if_splits)
  have r: "refs D s' = refs D s"
    unfolding s' by (induction "objects s") (auto simp: refs_def update_object_def filter_map comp_def if_distrib cong: if_cong)
  show handles: "handles s' = handles s"
    by (simp add: s' handles_map)
  have m: "map file_handle (objects s') = map file_handle (objects s)"
    by (simp add: s' handles_map)
  have inc: "unat (n + 1) = Suc (unat n) \<and> n + 1 \<le> 0x7FFFFFFF \<and> n + 1 \<noteq> 0" if "n \<le> 0x7FFFFFFF" "n \<noteq> 0x7FFFFFFF" for n :: u32
  proof -
    have "unat n < 0x7FFFFFFF"
      using that by (simp add: word_le_nat_alt word_unat_eq_iff)
    moreover from this have "unat (n + 1) = Suc (unat n)"
      by (subst unat_plus_if') simp
    ultimately show ?thesis
      by (simp add: word_le_nat_alt unat_eq_0 [symmetric] del: unat_eq_0)
  qed
  have "unat (use_count (if file_handle ob = h then ob \<lparr> use_count := use_count ob + 1 \<rparr> else ob)) =
        Multiset.count (add_mset h E + refs D s) (file_handle ob) \<and>
      use_count (if file_handle ob = h then ob \<lparr> use_count := use_count ob + 1 \<rparr> else ob) \<le> 0x7FFFFFFF \<and>
      (use_count (if file_handle ob = h then ob \<lparr> use_count := use_count ob + 1 \<rparr> else ob) = 0 \<longleftrightarrow> file_handle ob \<in> D)"
    if ob: "ob \<in> set (objects s)" for ob
  proof (cases "file_handle ob = h")
    case True
    have "use_count ob \<le> 0x7FFFFFFF" "unat (use_count ob) = Multiset.count (E + refs D s) h"
      using c ob True by (auto simp: counted_def)
    then show ?thesis
      using True h inc [of "use_count ob"] u [OF ob True] by simp
  qed (use c ob in \<open>simp add: counted_def\<close>)
  then show "counted D (add_mset h E) s'"
    unfolding counted_def r handles m
    using c h by (auto simp: counted_def s' split: if_splits)
qed

end
