(* ===== verification/Dload_Load.thy ===== *)
theory Dload_Load
  imports Dload_Count
begin

text \<open>What \<open>DLOAD_load\<close> does to the use counts: the parts of a load one by one, the loop over the dependents, and a whole load.\<close>

section \<open>Loading keeps the counts exact\<close>

lemma count_data_globals:
  "DLSYM_copy_globals ok a m dm = Inr (m', dm') \<Longrightarrow> count_data (loaded_module dm') = count_data (loaded_module dm)"
  by (auto simp: DLSYM_copy_globals_def count_data_def Let_def split: if_splits option.splits sum.splits prod.splits)

lemma initialize_counts:
  assumes "initialize_loaded_module env dm s = Inr (dm', s')"
  shows "counts s' = (fst (counts s), gone s, next_handle s + 1)" "next_handle s \<noteq> 0x7FFFFFFF"
    "count_data (loaded_module dm') = (next_handle s, 1, [])"
proof -
  have new: "count_data (loaded_module (new_loaded_module h dm)) = (h, 1, [])" for h
    by (simp add: new_loaded_module_def null_loaded_module_def count_data_def)
  show "counts s' = (fst (counts s), gone s, next_handle s + 1)" "next_handle s \<noteq> 0x7FFFFFFF"
    "count_data (loaded_module dm') = (next_handle s, 1, [])"
    using assms new [of "next_handle s"]
    by (auto simp: initialize_loaded_module_def Let_def bindE_eq_Inr add_segments_def counts_def count_data_def map_sum_def
        split: if_splits sum.splits dest!: count_data_globals)
qed

lemma count_data_place_segment: "count_data (loaded_module (place_segment t i dm)) = count_data (loaded_module dm)"
  by (simp add: place_segment_def Let_def count_data_def move_entry_def split: prod.split)

lemma count_data_place_segments:
  "count_data (loaded_module (snd (place_segments alloc is dm))) = count_data (loaded_module dm)"
  by (induction alloc "is" dm rule: place_segments.induct) (auto simp: count_data_place_segment split: option.splits)

lemma count_data_tag: "relocate_tag d dm = Some (v, dm') \<Longrightarrow> count_data (loaded_module dm') = count_data (loaded_module dm)"
  by (auto simp: relocate_tag_def Let_def count_data_def split: if_splits)

lemma count_data_tags:
  "relocate_tags front ds dm = Inr (ok, dm') \<Longrightarrow> count_data (loaded_module dm') = count_data (loaded_module dm)"
  by (induction front ds dm rule: relocate_tags.induct)
    (auto split: if_splits option.splits dest!: count_data_tag)

lemma count_data_allocate:
  "allocate_dynamic_segments_and_relocate_symbols alloc dm = Inr (ok, dm') \<Longrightarrow>
   count_data (loaded_module dm') = count_data (loaded_module dm)"
  using count_data_place_segments [of alloc "[0..<length (loaded_segments (loaded_module dm))]" dm]
  by (auto simp: allocate_dynamic_segments_and_relocate_symbols_def relocate_dynamic_tag_info_def
      split: prod.splits bool.splits dest!: count_data_tags)

text \<open>What a new module adds.\<close>

definition counts_new :: "loader \<Rightarrow> (u32 \<times> u32 \<times> u32 list) list \<times> u32 list \<times> u32" where
  "counts_new s = (fst (counts s) @ [(next_handle s, 1, [])], gone s, next_handle s + 1)"

lemma counted_new:
  assumes "counted {} E s" "next_handle s \<noteq> 0x7FFFFFFF" "counts s' = counts_new s"
  shows "counted {} (add_mset (next_handle s) E) s'" "handles s' = insert (next_handle s) (handles s)"
proof -
  obtain cs gn nx where c: "counts s = (cs, gn, nx)" by (metis prod_cases3)
  then have nx: "next_handle s = nx" "gone s = gn" by (simp_all add: counts_def)
  have lt: "nx < nx + 1" "nx + 1 \<le> 0x7FFFFFFF" "0 < nx"
  proof -
    have "unat nx < 0x7FFFFFFF" "0 < nx"
      using assms(1,2) by (auto simp: counted_counts c nx word_le_nat_alt word_unat_eq_iff)
    moreover from this have "unat (nx + 1) = Suc (unat nx)"
      by (subst unat_plus_if') simp
    ultimately show "nx < nx + 1" "nx + 1 \<le> 0x7FFFFFFF" "0 < nx"
      by (simp_all add: word_le_nat_alt word_less_nat_alt)
  qed
  have old: "\<forall>c \<in> set cs. fst c < nx" "\<forall>h \<in> set gn. h < nx"
    using assms(1) by (auto simp: counted_counts c)
  then have fresh: "nx \<notin> fst ` set cs" "nx \<notin> set gn"
    by auto
  let ?t = "E + mset (concat (map (snd \<circ> snd) cs))"
  have out: "Multiset.count ?t nx = 0"
    using assms(1) fresh by (auto simp: counted_counts c not_in_iff [symmetric])
  show "handles s' = insert (next_handle s) (handles s)"
    by (simp add: handles_counts assms(3) counts_new_def c nx)
  show "counted {} (add_mset (next_handle s) E) s'"
    using assms(1) lt fresh out old unfolding counted_counts assms(3) counts_new_def c nx
    by (auto dest: order.strict_trans)
qed

lemma counts_append:
  "counts (s \<lparr> objects := objects s @ [ob] \<rparr>) = (fst (counts s) @ [count_data ob], gone s, next_handle s)"
  by (simp add: counts_def)

lemma static_counts:
  "dload_static_executable env dm s = (r, s') \<Longrightarrow> r \<noteq> 0 \<Longrightarrow> counts s' = counts s \<and> r = dm_handle dm"
  by (auto simp: dload_static_executable_def Let_def split: if_splits)

lemma counts_replaced:
  assumes "counts s = (cs @ [(h, n, ds)], g, nx)" "h \<notin> fst ` set cs" "count_data ob = (h, n, ds)"
  shows "counts (update_object h (\<lambda>_. ob) s) = counts s"
proof (rule counts_object)
  fix x
  assume x: "x \<in> set (objects s)" "file_handle x = h"
  have "map count_data (objects s) = cs @ [(h, n, ds)]"
    using assms(1) by (simp add: counts_def)
  then have "count_data x \<in> set (cs @ [(h, n, ds)])"
    using x(1) by (metis image_eqI list.set_map)
  moreover have "fst (count_data x) = h"
    using x(2) by (simp add: count_data_def)
  ultimately show "count_data ob = count_data x"
    using assms(2,3) by force
qed

lemma place_counts:
  assumes "place_load env f dm s = Inr (placed, s')" "next_handle s \<notin> handles s"
  shows "next_handle s \<noteq> 0x7FFFFFFF"
    "placed = Inr dm1 \<Longrightarrow> counts s' = counts_new s \<and> dm_handle dm1 = next_handle s"
    "placed = Inl h \<Longrightarrow> h \<noteq> 0 \<Longrightarrow> counts s' = counts_new s \<and> h = next_handle s"
proof -
  obtain dm2 s1 where i: "initialize_loaded_module env dm s = Inr (dm2, s1)"
    using assms(1) by (auto simp: place_load_def bindE_eq_Inr)
  note c = initialize_counts [OF i]
  have h: "dm_handle dm2 = next_handle s" "count_data (loaded_module dm2) = (next_handle s, 1, [])"
    using c(3) by (auto simp: dm_handle_def count_data_def)
  let ?s2 = "s1 \<lparr> objects := objects s1 @ [loaded_module dm2] \<rparr>"
  have s2: "counts ?s2 = counts_new s"
    using c h by (simp add: counts_append counts_new_def) (simp add: counts_def)
  have repl: "counts (update_object (next_handle s) (\<lambda>_. ob) ?s2) = counts ?s2" if "count_data ob = (next_handle s, 1, [])" for ob
    using assms(2) that by (intro counts_replaced [where cs = "fst (counts s)"]) (simp_all add: s2 counts_new_def handles_counts)
  show "next_handle s \<noteq> 0x7FFFFFFF" by (rule c(2))
  show "counts s' = counts_new s \<and> h = next_handle s" if "placed = Inl h" "h \<noteq> 0"
    using assms(1) that i h s2
    by (auto simp: place_load_def bindE_eq_Inr Let_def split: if_splits prod.splits dest!: static_counts)
  show "counts s' = counts_new s \<and> dm_handle dm1 = next_handle s" if p: "placed = Inr dm1"
  proof -
    obtain s3 where a: "allocate_dynamic_segments_and_relocate_symbols (place env (next_handle s)) dm2 = Inr (True, dm1)"
      and s3: "counts s3 = counts (update_object (next_handle s) (\<lambda>_. loaded_module dm1) ?s2)" "counts s' = counts s3"
      using assms(1) p i h
      by (auto simp: place_load_def bindE_eq_Inr Let_def execute_module_pre_initialization_def
          split: if_splits prod.splits dest!: counts_run_array)
    have "count_data (loaded_module dm1) = (next_handle s, 1, [])"
      using count_data_allocate [OF a] h by simp
    then show ?thesis
      using s3 repl s2 by (simp add: dm_handle_def count_data_def)
  qed
qed

section \<open>Dependents\<close>

lemma find_named_handle: "find_named dead nm obs = Inr (Some h) \<Longrightarrow> h \<in> file_handle ` set obs"
  by (induction obs) (auto split: if_splits)

lemma counted_fresh: "counted D E s \<Longrightarrow> next_handle s \<notin> handles s"
  by (auto simp: counted_def handles_def)

text \<open>What the core asks of the loads that the client starts for it: a load that gives a handle keeps the counts.\<close>

locale counting_load =
  fixes load :: "elf_file \<Rightarrow> loader \<Rightarrow> (u32 \<times> loader) result"
  assumes load_counted: "load f s = Some (Inr (h, s')) \<Longrightarrow> h \<noteq> 0 \<Longrightarrow> counted {} E s \<Longrightarrow>
    counted {} (add_mset h E) s' \<and> handles s \<subseteq> handles s'"
begin

lemma dependencies_counted:
  "dload_and_allocate_dependencies load env dm ds s = Some (Inr (True, s')) \<Longrightarrow> counted {} E s \<Longrightarrow>
   dm_handle dm \<in> handles s \<Longrightarrow> counted {} E s' \<and> handles s \<subseteq> handles s'"
proof (induction ds arbitrary: s)
  case (Cons d ds)
  let ?all = "dload_and_allocate_dependencies load env dm"
  have add: "counted {} E s' \<and> handles s \<subseteq> handles s'"
    if "counted {} (add_mset h E) s1" "handles s \<subseteq> handles s1" "?all ds (add_dependency (dm_handle dm) h s1) = Some (Inr (True, s'))"
    for h s1
  proof -
    have "dm_handle dm \<in> handles s1" "handles (add_dependency (dm_handle dm) h s1) = handles s1"
      using that Cons.prems(3) by (auto simp: add_dependency_def handles_map)
    then show ?thesis
      using Cons.IH [OF that(3)] counted_add_dependency [OF that(1)] that(2) by auto
  qed
  show ?case
  proof (cases "d_tag d = DT_NULL \<or> d_tag d \<noteq> DT_NEEDED")
    case True
    then show ?thesis
      using Cons by (auto split: if_splits)
  next
    case False
    then obtain nm found where nm: "c_string (strbuf dm) (d_un d) = Inr nm" and found: "find_named (gone s) nm (objects s) = Inr found"
      using Cons.prems(1) by (auto simp: bind_result_eq_Inr)
    show ?thesis
    proof (cases found)
      case None
      then obtain h s1 where l: "DLIF_load_dependent load env nm s = Some (Inr (h, s1))" "h \<noteq> 0"
        and rest: "?all ds (add_dependency (dm_handle dm) h s1) = Some (Inr (True, s'))"
        using Cons.prems(1) False nm found by (auto simp: bind_result_eq_Inr Let_def split: if_splits)
      have "counted {} (add_mset h E) s1 \<and> handles s \<subseteq> handles s1"
        using l load_counted Cons.prems(2) by (auto simp: DLIF_load_dependent_def split: option.splits)
      then show ?thesis
        using add rest by blast
    next
      case (Some h)
      then obtain s1 where u: "use_object h s = Inr s1"
        and rest: "?all ds (add_dependency (dm_handle dm) h s1) = Some (Inr (True, s'))"
        using Cons.prems(1) False nm found by (auto simp: bind_result_eq_Inr)
      have "h \<in> handles s"
        using found Some by (auto simp: handles_def dest: find_named_handle)
      then show ?thesis
        using add [OF _ _ rest] counted_use_object [OF Cons.prems(2) u] by auto
    qed
  qed
qed simp

end

lemma load_keeps_counts: "counting_load (DLOAD_load env n)"
proof (induction n)
  case 0
  show ?case by unfold_locales simp
next
  case (Suc n)
  show ?case
  proof
    fix f s h s' E
    assume l: "DLOAD_load env (Suc n) f s = Some (Inr (h, s'))" and h: "h \<noteq> 0" and c: "counted {} E s"
    then obtain dm s1 where st: "start_load env f s = Inr (Some dm, s1)"
      by (auto simp: bind_result_eq_Inr split: option.splits)
    have s1: "counted {} E s1" "handles s1 = handles s"
      using c counted_same [OF counts_start [OF st]] handles_same [OF counts_start [OF st]] by simp_all
    obtain placed s2 where p: "place_load env f dm s1 = Inr (placed, s2)"
      using l st by (auto simp: bind_result_eq_Inr split: option.splits)
    note pc = place_counts [OF p counted_fresh [OF s1(1)]]
    show "counted {} (add_mset h E) s' \<and> handles s \<subseteq> handles s'"
    proof (cases placed)
      case (Inl h1)
      then have "h = h1" "s' = s2"
        using l st p Inl by simp_all
      then show ?thesis
        using counted_new [OF s1(1) pc(1)] pc(3) [OF Inl] h s1(2) by auto
    next
      case (Inr dm1)
      then have s2: "counted {} (add_mset (dm_handle dm1) E) s2" "handles s2 = insert (dm_handle dm1) (handles s)"
        using counted_new [OF s1(1) pc(1)] pc(2) [OF Inr] s1(2) by simp_all
      obtain ok s3 where d: "dload_and_allocate_dependencies (DLOAD_load env n) env dm1 (dyntab dm1) s2 = Some (Inr (ok, s3))"
        and e: "end_load env dm1 ok s3 = Inr (h, s')"
        using l st p Inr by (auto simp: bind_result_eq_Inr)
      have ok: "ok"
        using e h by (auto simp: end_load_def bindE_eq_Inr split: if_splits)
      have "counted {} (add_mset (dm_handle dm1) E) s3 \<and> handles s2 \<subseteq> handles s3"
        using counting_load.dependencies_counted [OF Suc.IH d [unfolded eqTrueI [OF ok]] s2(1)] s2(2) by simp
      moreover have "counts s' = counts s3" "h = dm_handle dm1"
        using e ok by (auto simp: end_load_def dest!: counts_graph)
      ultimately show ?thesis
        using s2(2) counted_same [of s' s3] handles_same [of s' s3] by (metis subset_insertI subset_trans)
    qed
  qed
qed

interpretation dload: counting_load "DLOAD_load env n" for env n
  by (rule load_keeps_counts)

end
