(* ===== verification/Dload_Unload.thy ===== *)
theory Dload_Unload
  imports Dload_Load
begin

text \<open>What \<open>DLOAD_unload\<close> does to the use counts, that it returns, and that it spares modules which need each other.\<close>

section \<open>Unloading\<close>

text \<open>The search finds the only module with the handle.\<close>

lemma drop_use_found:
  assumes "file_handle ob = h" "h \<notin> set dead" "\<forall>x \<in> set (xs @ ys). file_handle x \<notin> set dead \<and> file_handle x \<noteq> h"
  shows "drop_use dead h (xs @ ob # ys) =
     (let ob1 = ob \<lparr> use_count := use_count ob - 1 \<rparr> in Inr (if use_count ob1 = 0 then Some ob1 else None, xs @ ob1 # ys))"
proof -
  have none: "drop_use dead h zs = Inr (None, zs)" if "\<forall>x \<in> set zs. file_handle x \<notin> set dead \<and> file_handle x \<noteq> h" for zs
    using that by (induction zs) auto
  show ?thesis
    using assms by (induction xs) (auto simp: Let_def none)
qed

lemma counted_split:
  assumes "counted D E s" "h \<in> handles s"
  obtains xs ob ys where "objects s = xs @ ob # ys" "file_handle ob = h" "h \<notin> set (gone s)"
    "\<forall>x \<in> set (xs @ ys). file_handle x \<notin> set (gone s) \<and> file_handle x \<noteq> h"
proof -
  obtain ob where "ob \<in> set (objects s)" "file_handle ob = h"
    using assms(2) by (auto simp: handles_def)
  then obtain xs ys where s: "objects s = xs @ ob # ys" "file_handle ob = h"
    by (auto dest: split_list)
  moreover have "distinct (map file_handle (objects s))" "\<forall>x \<in> set (objects s). file_handle x \<notin> set (gone s)"
    using assms(1) by (simp_all add: counted_def)
  ultimately show thesis
    by (intro that [of xs ob ys]) (auto simp: image_iff)
qed

lemma counted_known:
  assumes "counted D E s" "h \<in># E + refs D s"
  shows "h \<in> handles s" "h \<notin> D"
proof -
  show h: "h \<in> handles s"
    using assms by (auto simp: counted_def)
  then obtain ob where ob: "ob \<in> set (objects s)" "file_handle ob = h"
    by (auto simp: handles_def)
  then have "unat (use_count ob) = Multiset.count (E + refs D s) h" "use_count ob = 0 \<longleftrightarrow> h \<in> D"
    using assms(1) by (auto simp: counted_def)
  moreover have "0 < Multiset.count (E + refs D s) h"
    using assms(2) by (simp only: count_greater_zero_iff)
  ultimately show "h \<notin> D"
    by (metis less_not_refl unat_0)
qed

lemma counted_held:
  assumes "counted D E s" "h \<in># E"
  shows "h \<in> handles s" "h \<notin> D"
  using counted_known [OF assms(1), of h] assms(2) by auto

lemma counted_decremented:
  assumes "counted D E s" "objects s = xs @ ob # ys" "file_handle ob = h" "h \<in># E"
    and objs: "objects s' = xs @ ob \<lparr> use_count := use_count ob - 1 \<rparr> # ys" "gone s' = gone s" "next_handle s' = next_handle s"
    and total: "E' + refs D' s' = E + refs D s - {#h#}"
    and D': "D' = (if use_count ob - 1 = 0 then insert h D else D)"
  shows "counted D' E' s'" "handles s' = handles s"
proof -
  have n: "unat (use_count ob) = Multiset.count (E + refs D s) h" "use_count ob \<le> 0x7FFFFFFF" "use_count ob = 0 \<longleftrightarrow> h \<in> D"
    using assms(1-3) by (auto simp: counted_def)
  then have pos: "0 < unat (use_count ob)"
    using assms(4) by (simp add: count_greater_zero_iff [symmetric] del: count_greater_zero_iff)
  then have nz: "use_count ob \<noteq> 0"
    by auto
  then have dec: "unat (use_count ob - 1) = unat (use_count ob) - 1"
    by (simp add: unat_minus_one)
  then have le: "use_count ob - 1 \<le> 0x7FFFFFFF"
    using n(2) by (simp add: word_le_nat_alt)
  have hD: "h \<notin> D"
    using n(3) nz by simp
  show hd: "handles s' = handles s"
    by (simp add: handles_def assms(2) objs)
  have others: "file_handle x \<noteq> h" if "x \<in> set (xs @ ys)" for x
    using assms(1,2,3) that by (auto simp: counted_def image_iff)
  have "set_mset (E + refs D s - {#h#}) \<subseteq> set_mset (E + refs D s)"
    by (auto dest: in_diffD simp del: diff_union_single_conv diff_single_trivial)
  also have "\<dots> \<subseteq> handles s"
    using assms(1) by (simp add: counted_def)
  finally have "set_mset (E + refs D s - {#h#}) \<subseteq> handles s" .
  moreover have "unat (use_count x) = Multiset.count (E + refs D s - {#h#}) (file_handle x) \<and> (use_count x = 0 \<longleftrightarrow> file_handle x \<in> D')"
    if "x \<in> set (xs @ ys)" for x
    using assms(1,2) others [OF that] that D' by (auto simp: counted_def)
  ultimately show "counted D' E' s'"
    using assms(1) n dec le D' hD unfolding counted_def total hd objs
    by (simp add: assms(2,3))
qed

text \<open>Which modules name which.\<close>

definition named_by :: "loader \<Rightarrow> (u32 \<times> u32 list) list" where
  "named_by s = map (\<lambda>ob. (file_handle ob, dependencies ob)) (objects s)"

text \<open>Modules of which each is named by one of them.\<close>

definition mutual :: "u32 set \<Rightarrow> u32 set \<Rightarrow> loader \<Rightarrow> bool" where
  "mutual D C s \<longleftrightarrow> C \<inter> D = {} \<and> C \<subseteq> handles s \<and> (\<forall>c \<in> C. \<exists>ob \<in> set (objects s). file_handle ob \<in> C \<and> c \<in> set (dependencies ob))"

lemma mutual_named: "mutual D C s \<longleftrightarrow> C \<inter> D = {} \<and> C \<subseteq> fst ` set (named_by s) \<and> (\<forall>c \<in> C. \<exists>(h, ds) \<in> set (named_by s). h \<in> C \<and> c \<in> set ds)"
  by (auto simp: mutual_def named_by_def handles_def image_image)

lemma named_by_counts: "named_by s = map (\<lambda>(h, n, ds). (h, ds)) (fst (counts s))"
  by (simp add: named_by_def counts_def count_data_def)

lemma mutual_same: "named_by s' = named_by s \<Longrightarrow> mutual D C s' = mutual D C s"
  by (simp add: mutual_named)

lemma mutual_counts: "counts s' = counts s \<Longrightarrow> mutual D C s' = mutual D C s"
  by (simp add: mutual_named named_by_counts)

text \<open>The module with the handle loses a use: it stays, or its dependents are to be released.\<close>

lemma counted_drop:
  assumes c: "counted D E s" and h: "h \<in># E"
  obtains obs where "drop_use (gone s) h (objects s) = Inr (None, obs)" "counted D (E - {#h#}) (s \<lparr> objects := obs \<rparr>)"
    "handles (s \<lparr> objects := obs \<rparr>) = handles s"
    "named_by (s \<lparr> objects := obs \<rparr>) = named_by s"
  | lm obs where "drop_use (gone s) h (objects s) = Inr (Some lm, obs)" "file_handle lm = h" "h \<notin> D" "h \<in> handles s"
    "counted (insert h D) (E - {#h#} + mset (dependencies lm)) (s \<lparr> objects := obs \<rparr>)"
    "handles (s \<lparr> objects := obs \<rparr>) = handles s" "named_by (s \<lparr> objects := obs \<rparr>) = named_by s" "lm \<in> set obs"
proof -
  note hs = counted_held(1) [OF c h] and hD = counted_held(2) [OF c h]
  obtain xs ob ys where s: "objects s = xs @ ob # ys" "file_handle ob = h" "h \<notin> set (gone s)"
      "\<forall>x \<in> set (xs @ ys). file_handle x \<notin> set (gone s) \<and> file_handle x \<noteq> h"
    using counted_split [OF c hs] by blast
  let ?ob = "ob \<lparr> use_count := use_count ob - 1 \<rparr>"
  let ?s = "s \<lparr> objects := xs @ ?ob # ys \<rparr>"
  have objs: "objects ?s = xs @ ?ob # ys" "gone ?s = gone s" "next_handle ?s = next_handle s"
    by simp_all
  note dec = counted_decremented [OF c s(1,2) h objs]
  have lk: "named_by ?s = named_by s"
    by (simp add: named_by_def s(1))
  show thesis
  proof (cases "use_count ?ob = 0")
    case False
    have "E - {#h#} + refs D ?s = E + refs D s - {#h#}"
      using h by (simp add: refs_def s(1))
    then have "counted D (E - {#h#}) ?s" "handles ?s = handles s"
      using dec [of "E - {#h#}" D] False by simp_all
    then show thesis
      using that(1) drop_use_found [OF s(2,3,4)] False s(1) lk by (simp add: Let_def)
  next
    case True
    have keep: "filter (\<lambda>x. file_handle x \<noteq> h \<and> file_handle x \<notin> D) zs = filter (\<lambda>x. file_handle x \<notin> D) zs"
      if "set zs \<subseteq> set (xs @ ys)" for zs
      using that s(4) by (intro filter_cong) auto
    have "E - {#h#} + mset (dependencies ?ob) + refs (insert h D) ?s = E + refs D s - {#h#}"
      using h hD by (simp add: refs_def s(1,2) keep ac_simps)
    then have "counted (insert h D) (E - {#h#} + mset (dependencies ?ob)) ?s" "handles ?s = handles s"
      using dec(1,2) [of "E - {#h#} + mset (dependencies ?ob)" "insert h D"] True by simp_all
    then show thesis
      using that(2) [of ?ob] drop_use_found [OF s(2,3,4)] True s(1,2) hD hs lk by (simp add: Let_def)
  qed
qed


text \<open>A module that nobody uses any more goes.\<close>

lemma counted_remove:
  assumes c: "counted (insert h D) E s" and h: "h \<notin> D" "h < next_handle s" "file_handle lm = h"
  shows "counted D E (remove_loaded_module lm s)" "handles (remove_loaded_module lm s) = handles s - {h}"
proof -
  let ?s = "remove_loaded_module lm s"
  have objs: "objects ?s = filter (\<lambda>ob. file_handle ob \<noteq> h) (objects s)" "gone ?s = h # gone s" "next_handle ?s = next_handle s"
    by (simp_all add: remove_loaded_module_def delete_DLIMP_Loaded_Module_def remove_object_def log_def h)
  have r: "refs D ?s = refs (insert h D) s"
    by (simp add: refs_def objs conj_commute)
  show hd: "handles ?s = handles s - {h}"
    by (auto simp: handles_def objs)
  have "h \<notin># E + refs (insert h D) s"
    using counted_known(2) [OF c, of h] by blast
  then show "counted D E ?s"
    using c h(1,2) unfolding counted_def r hd objs
    by (auto simp: distinct_map_filter)
qed

lemma mutual_spared:
  assumes c: "counted (insert h D) (E + mset (dependencies lm)) s" and m: "mutual D C s" and lm: "lm \<in> set (objects s)" "file_handle lm = h"
  shows "mutual (insert h D) C s"
proof -
  have "h \<notin> C"
  proof
    assume "h \<in> C"
    then obtain ob where ob: "ob \<in> set (objects s)" "file_handle ob \<in> C" "h \<in> set (dependencies ob)"
      using m by (auto simp: mutual_def)
    have "h \<in># E + mset (dependencies lm) + refs (insert h D) s"
    proof (cases "file_handle ob = h")
      case True
      have "distinct (map file_handle (objects s))"
        using c by (simp add: counted_def)
      then have "ob = lm"
        using True lm ob(1) by (auto simp: distinct_map inj_on_def)
      then show ?thesis
        using ob(3) by simp
    next
      case False
      then have "file_handle ob \<notin> insert h D"
        using m ob(2) by (auto simp: mutual_def)
      then show ?thesis
        using ob(1,3) by (auto simp: refs_def)
    qed
    then show False
      using counted_known(2) [OF c] by blast
  qed
  then show ?thesis
    using m by (simp add: mutual_def)
qed

lemma mutual_removed:
  assumes "mutual (insert h D) C s" "file_handle lm = h"
  shows "mutual D C (remove_loaded_module lm s)"
proof -
  have "objects (remove_loaded_module lm s) = filter (\<lambda>ob. file_handle ob \<noteq> h) (objects s)"
    by (simp add: remove_loaded_module_def delete_DLIMP_Loaded_Module_def remove_object_def log_def assms(2))
  then show ?thesis
    using assms(1) by (fastforce simp: mutual_def handles_def)
qed

text \<open>What an unload does to a held handle, of which at most \<open>n\<close> modules are left to be unloaded.\<close>

definition unloads :: "nat \<Rightarrow> (u32 \<Rightarrow> loader \<Rightarrow> (bool \<times> loader) result) \<Rightarrow> bool" where
  "unloads n unload \<longleftrightarrow>
     (\<forall>D E h s. counted D E s \<longrightarrow> h \<in># E \<longrightarrow> card (handles s - D) < n \<longrightarrow>
        (\<exists>b s'. unload h s = Some (Inr (b, s')) \<and> counted D (E - {#h#}) s' \<and> handles s' - D \<subseteq> handles s - D \<and>
           next_handle s' = next_handle s \<and> (b \<longleftrightarrow> h \<notin> handles s') \<and> (\<forall>C. mutual D C s \<longrightarrow> mutual D C s')))"

lemma counts_transfer:
  assumes "counts s' = counts s"
  shows "counted D E s' \<longleftrightarrow> counted D E s" "handles s' = handles s" "next_handle s' = next_handle s"
  using counted_same [OF assms] handles_same [OF assms] assms by (simp_all add: counts_def)

lemma unload_dependents_counted:
  assumes u: "unloads n unload"
  shows "counted D (E + mset hs) s \<Longrightarrow> card (handles s - D) < n \<Longrightarrow>
    \<exists>s'. unload_dependents unload hs s = Some (Inr s') \<and> counted D E s' \<and> handles s' - D \<subseteq> handles s - D \<and>
      next_handle s' = next_handle s \<and> (\<forall>C. mutual D C s \<longrightarrow> mutual D C s')"
proof (induction hs arbitrary: s)
  case (Cons h hs)
  obtain b s1 where s1: "unload h s = Some (Inr (b, s1))" "counted D (E + mset hs) s1" "handles s1 - D \<subseteq> handles s - D"
      "next_handle s1 = next_handle s" and m1: "\<And>C. mutual D C s \<Longrightarrow> mutual D C s1"
  proof -
    have "h \<in># E + mset (h # hs)" "E + mset (h # hs) - {#h#} = E + mset hs"
      by simp_all
    with that show thesis
      using u Cons.prems unfolding unloads_def by metis
  qed
  let ?s2 = "if b then log [DsbtReleased h] s1 else s1"
  have c2: "counts ?s2 = counts s1"
    by simp
  note s2 = counts_transfer [OF c2]
  have "card (handles s1 - D) \<le> card (handles s - D)"
    using s1(3) by (intro card_mono) (simp_all add: handles_def)
  then obtain s' where s': "unload_dependents unload hs ?s2 = Some (Inr s')" "counted D E s'" "handles s' - D \<subseteq> handles ?s2 - D"
      "next_handle s' = next_handle ?s2" "\<forall>C. mutual D C ?s2 \<longrightarrow> mutual D C s'"
    using Cons.IH [of ?s2] s1(2) Cons.prems(2) unfolding s2 by auto
  have "\<forall>C. mutual D C s \<longrightarrow> mutual D C s'"
    using s'(5) m1 unfolding mutual_counts [OF c2] by blast
  moreover have "unload_dependents unload (h # hs) s = Some (Inr s')"
    using s1(1) s'(1) by (simp add: DLIF_unload_dependent_def)
  ultimately show ?case
    using s1(3,4) s'(2-4) s2(2,3) by auto
qed simp

lemma unload_returns_counted: "unloads n (DLOAD_unload env n)"
proof (induction n)
  case 0
  show ?case by (simp add: unloads_def)
next
  case (Suc n)
  show ?case
    unfolding unloads_def
  proof (intro allI impI)
    fix D E h s
    assume c: "counted D E s" and h: "h \<in># E" and n: "card (handles s - D) < Suc n"
    show "\<exists>b s'. DLOAD_unload env (Suc n) h s = Some (Inr (b, s')) \<and> counted D (E - {#h#}) s' \<and> handles s' - D \<subseteq> handles s - D \<and>
           next_handle s' = next_handle s \<and> (b \<longleftrightarrow> h \<notin> handles s') \<and> (\<forall>C. mutual D C s \<longrightarrow> mutual D C s')"
      using c h
    proof (cases rule: counted_drop)
      case (1 obs)
      then show ?thesis
        using counted_held(1) [OF c h] mutual_same [OF 1(4)]
        by (intro exI [of _ False] exI [of _ "s \<lparr> objects := obs \<rparr>"]) (simp add: counts_def)
    next
      case (2 lm obs)
      let ?s1 = "execute_module_termination env lm (s \<lparr> objects := obs \<rparr>)"
      have s1: "counted (insert h D) (E - {#h#} + mset (dependencies lm)) ?s1" "handles ?s1 = handles s"
          "next_handle ?s1 = next_handle s"
        using 2(5,6) by (simp_all add: counts_transfer [OF counts_termination])
      have "card (handles s - insert h D) < card (handles s - D)"
        using 2(3,4) by (intro psubset_card_mono) (auto simp: handles_def)
      then obtain s2 where s2: "unload_dependents (DLOAD_unload env n) (dependencies lm) ?s1 = Some (Inr s2)"
          "counted (insert h D) (E - {#h#}) s2" "handles s2 - insert h D \<subseteq> handles s - insert h D" "next_handle s2 = next_handle s"
          "\<forall>C. mutual (insert h D) C ?s1 \<longrightarrow> mutual (insert h D) C s2"
        using unload_dependents_counted [OF Suc.IH s1(1)] n s1(2,3) by auto
      have "h < next_handle s"
        using 2(4) c by (auto simp: counted_def handles_def)
      then have s3: "counted D (E - {#h#}) (remove_loaded_module lm s2)"
          "handles (remove_loaded_module lm s2) = handles s2 - {h}" "next_handle (remove_loaded_module lm s2) = next_handle s"
        using counted_remove [OF s2(2) 2(3) _ 2(2)] s2(4)
        by (simp_all add: remove_loaded_module_def delete_DLIMP_Loaded_Module_def remove_object_def log_def)
      define s3 where "s3 = remove_loaded_module lm s2"
      define s4 where "s4 = (if objects s3 = [] then s3 \<lparr> target_machine := EM_NONE \<rparr> else s3)"
      have "counts s4 = counts s3"
        by (simp add: s4_def)
      note s4 = counts_transfer [OF this]
      have "DLOAD_unload env (Suc n) h s = Some (Inr (True, s4))"
        using 2(1) s2(1) by (simp add: Let_def s4_def s3_def)
      moreover have "counted D (E - {#h#}) s4" "next_handle s4 = next_handle s"
        using s3 by (simp_all only: s4 s3_def)
      moreover have "handles s4 - D \<subseteq> handles s - D"
        using s2(3) s3(2) by (auto simp: s4(2) s3_def)
      moreover have "h \<notin> handles s4"
        using s3(2) by (simp add: s4(2) s3_def)
      moreover have "mutual D C s4" if "mutual D C s" for C
      proof -
        have "mutual D C (s \<lparr> objects := obs \<rparr>)"
          using that by (simp add: mutual_same [OF 2(7)])
        then have "mutual (insert h D) C (s \<lparr> objects := obs \<rparr>)"
          using mutual_spared [OF 2(5)] 2(2,8) by simp
        then have "mutual (insert h D) C s2"
          using s2(5) mutual_counts [OF counts_termination] by blast
        then show ?thesis
          unfolding mutual_counts [OF \<open>counts s4 = counts s3\<close>] s3_def by (rule mutual_removed) (rule 2(2))
      qed
      ultimately show ?thesis
        by blast
    qed
  qed
qed

end
