(* ===== verification/Dload_Failures.thy ===== *)
theory Dload_Failures
  imports Dload_Unload
begin

text \<open>
  Use counts when loads may fail (\<open>elfload/dload.c\<close>). A load that fails after its module has been put into the queue leaves
  the uses of the dependents it has loaded, and the names of its module in the lists of dependents; counts are then
  too high, but never too low.
\<close>

section \<open>Covered states\<close>

text \<open>
  What the client (and the modules that are being unloaded) holds and what modules name is covered by the use counts. \<open>gone\<close>
  does not matter here, nor whether what is named is in the queue.
\<close>

definition covered :: "u32 set \<Rightarrow> u32 multiset \<Rightarrow> loader \<Rightarrow> bool" where
  "covered D E s \<longleftrightarrow>
     distinct (map file_handle (objects s)) \<and>
     (\<forall>ob \<in> set (objects s). 0 < file_handle ob \<and> file_handle ob < next_handle s \<and>
        Multiset.count (E + refs D s) (file_handle ob) \<le> unat (use_count ob) \<and> use_count ob \<le> 0x7FFFFFFF \<and>
        (use_count ob = 0 \<longleftrightarrow> file_handle ob \<in> D)) \<and>
     (\<forall>h \<in># E + refs D s. h < next_handle s) \<and> 0 < next_handle s \<and> next_handle s \<le> 0x7FFFFFFF"

definition uses :: "loader \<Rightarrow> (u32 \<times> u32 \<times> u32 list) list \<times> u32" where
  "uses s = (map count_data (objects s), next_handle s)"

lemma uses_counts: "counts s' = counts s \<Longrightarrow> uses s' = uses s"
  by (simp add: uses_def counts_def)

lemma refs_uses: "refs D s = mset (concat (map (snd \<circ> snd) (filter (\<lambda>c. fst c \<notin> D) (fst (uses s)))))"
  by (simp add: refs_def uses_def filter_map comp_def count_data_def)

lemma covered_uses:
  "covered D E s \<longleftrightarrow>
     (let (cs, nx) = uses s; total = E + mset (concat (map (snd \<circ> snd) (filter (\<lambda>c. fst c \<notin> D) cs))) in
      distinct (map fst cs) \<and>
      (\<forall>(h, n, ds) \<in> set cs. 0 < h \<and> h < nx \<and> Multiset.count total h \<le> unat n \<and> n \<le> 0x7FFFFFFF \<and> (n = 0 \<longleftrightarrow> h \<in> D)) \<and>
      (\<forall>h \<in># total. h < nx) \<and> 0 < nx \<and> nx \<le> 0x7FFFFFFF)"
  by (simp add: covered_def refs_uses uses_def count_data_def comp_def image_image)

lemma handles_uses: "handles s = fst ` set (fst (uses s))"
  by (simp add: handles_def uses_def count_data_def image_image)

lemma covered_same:
  assumes "uses s' = uses s"
  shows "covered D E s' \<longleftrightarrow> covered D E s" "handles s' = handles s" "next_handle s' = next_handle s"
  using assms by (simp_all add: covered_uses handles_uses) (simp add: uses_def)

lemmas covered_transfer = covered_same [OF uses_counts]

lemma covered_create: "covered {} {#} DLOAD_create"
  by (simp add: covered_def refs_def DLOAD_create_def)

text \<open>Fewer modules, or fewer uses that are to be covered.\<close>

lemma covered_weaker:
  assumes c: "covered D E s" and m: "E' + refs D s' \<subseteq># E + refs D s"
    and d: "distinct (map file_handle (objects s'))" "next_handle s' = next_handle s"
      "(\<lambda>ob. (file_handle ob, use_count ob)) ` set (objects s') \<subseteq> (\<lambda>ob. (file_handle ob, use_count ob)) ` set (objects s)"
  shows "covered D E' s'"
proof -
  have "\<forall>x \<in> set (objects s'). 0 < file_handle x \<and> file_handle x < next_handle s \<and> Multiset.count (E' + refs D s') (file_handle x) \<le> unat (use_count x) \<and>
      use_count x \<le> 0x7FFFFFFF \<and> (use_count x = 0 \<longleftrightarrow> file_handle x \<in> D)"
  proof
    fix x
    assume "x \<in> set (objects s')"
    then obtain ob where ob: "ob \<in> set (objects s)" "file_handle x = file_handle ob" "use_count x = use_count ob"
      using d(3) by (smt (verit) Pair_inject image_iff subsetD)
    have "Multiset.count (E + refs D s) (file_handle ob) \<le> unat (use_count ob)"
      using c ob(1) unfolding covered_def by blast
    then have "Multiset.count (E' + refs D s') (file_handle ob) \<le> unat (use_count ob)"
      using mset_subset_eq_count [OF m, of "file_handle ob"] by (rule order_trans [rotated])
    then show "0 < file_handle x \<and> file_handle x < next_handle s \<and> Multiset.count (E' + refs D s') (file_handle x) \<le> unat (use_count x) \<and>
      use_count x \<le> 0x7FFFFFFF \<and> (use_count x = 0 \<longleftrightarrow> file_handle x \<in> D)"
      using c ob unfolding covered_def by simp
  qed
  moreover have "\<forall>h \<in># E' + refs D s'. h < next_handle s"
    using c mset_subset_eqD [OF m] unfolding covered_def by blast
  ultimately show ?thesis
    using c d(1) unfolding covered_def d(2) by blast
qed

lemma covered_mono: "covered D E s \<Longrightarrow> E' \<subseteq># E \<Longrightarrow> covered D E' s"
  by (rule covered_weaker) (auto simp: covered_def)

lemma covered_more_zero: "covered D E s \<Longrightarrow> covered D (add_mset 0 E) s"
  by (auto simp: covered_def)

lemma covered_held:
  assumes "covered D E s" "h \<in># E" "h \<in> handles s"
  shows "h \<notin> D"
proof -
  obtain ob where ob: "ob \<in> set (objects s)" "file_handle ob = h"
    using assms(3) by (auto simp: handles_def)
  have "0 < Multiset.count E h"
    using assms(2) by (simp only: count_greater_zero_iff)
  also have "Multiset.count E h \<le> Multiset.count (E + refs D s) h"
    by simp
  also have "\<dots> \<le> unat (use_count ob)"
    using assms(1) ob unfolding covered_def by blast
  finally have "use_count ob \<noteq> 0"
    by auto
  then show ?thesis
    using assms(1) ob by (auto simp: covered_def)
qed

text \<open>What a load does: a new module, a use more, a dependent more, and a module taken out again.\<close>

lemma covered_new:
  assumes "covered {} E s" "next_handle s \<noteq> 0x7FFFFFFF" "uses s' = (fst (uses s) @ [(next_handle s, 1, [])], next_handle s + 1)"
  shows "covered {} (add_mset (next_handle s) E) s'" "handles s' = insert (next_handle s) (handles s)"
proof -
  obtain cs nx where c: "uses s = (cs, nx)" by (cases "uses s")
  then have nx: "next_handle s = nx" by (simp add: uses_def)
  have lt: "nx < nx + 1" "nx + 1 \<le> 0x7FFFFFFF" "0 < nx"
  proof -
    have "unat nx < 0x7FFFFFFF" "0 < nx"
      using assms(1,2) by (auto simp: covered_uses c nx word_le_nat_alt word_unat_eq_iff)
    moreover from this have "unat (nx + 1) = Suc (unat nx)"
      by (subst unat_plus_if') simp
    ultimately show "nx < nx + 1" "nx + 1 \<le> 0x7FFFFFFF" "0 < nx"
      by (simp_all add: word_le_nat_alt word_less_nat_alt)
  qed
  let ?t = "E + mset (concat (map (snd \<circ> snd) cs))"
  have old: "\<forall>c \<in> set cs. fst c < nx" "\<forall>h \<in># ?t. h < nx"
    using assms(1) by (auto simp: covered_uses c)
  then have out: "nx \<notin> fst ` set cs" "Multiset.count ?t nx = 0"
    by (auto simp: not_in_iff [symmetric])
  show "handles s' = insert (next_handle s) (handles s)"
    by (simp add: handles_uses assms(3) c nx)
  show "covered {} (add_mset (next_handle s) E) s'"
    using assms(1) lt out old unfolding covered_uses assms(3) c nx
    by (auto dest: order.strict_trans)
qed

lemma covered_remove_object:
  assumes "covered {} E s"
  shows "covered {} E (remove_object h s)" "handles (remove_object h s) = handles s - {h}"
proof -
  let ?s = "remove_object h s"
  have objs: "objects ?s = filter (\<lambda>ob. file_handle ob \<noteq> h) (objects s)" "next_handle ?s = next_handle s"
    by (simp_all add: remove_object_def)
  have "mset (concat (map dependencies (filter P xs))) \<subseteq># mset (concat (map dependencies xs))" for P and xs :: "DLIMP_Loaded_Module list"
    by (induction xs) (auto intro: subset_mset.add_mono subset_mset.add_increasing)
  then have r: "refs {} ?s \<subseteq># refs {} s"
    by (simp add: refs_def objs)
  have "distinct (map file_handle (objects ?s))"
    using assms by (simp add: covered_def objs distinct_map_filter)
  then show "covered {} E ?s"
    using r by (intro covered_weaker [OF assms]) (auto simp: objs)
  show "handles ?s = handles s - {h}"
    by (auto simp: handles_def objs)
qed

lemma refs_add_dependency_le:
  assumes "distinct (map file_handle (objects s))"
  shows "refs D (add_dependency h d s) \<subseteq># add_mset d (refs D s)"
proof (cases "h \<in> handles s \<and> h \<notin> D")
  case True
  then show ?thesis
    using assms by (simp add: refs_add_dependency)
next
  case False
  have "concat (map dependencies (filter (\<lambda>ob. file_handle ob \<notin> D)
        (map (\<lambda>ob. if file_handle ob = h then ob \<lparr> dependencies := dependencies ob @ [d] \<rparr> else ob) xs))) =
      concat (map dependencies (filter (\<lambda>ob. file_handle ob \<notin> D) xs))" if "h \<in> file_handle ` set xs \<longrightarrow> h \<in> D" for xs
    using that by (induction xs) auto
  from this [of "objects s"] have "refs D (add_dependency h d s) = refs D s"
    using False by (auto simp: refs_def add_dependency_def update_object_def handles_def)
  then show ?thesis
    by simp
qed

lemma covered_add_dependency:
  assumes "covered D (add_mset d E) s"
  shows "covered D E (add_dependency h d s)" "handles (add_dependency h d s) = handles s"
proof -
  let ?s = "add_dependency h d s"
  have r: "refs D ?s \<subseteq># add_mset d (refs D s)"
    using assms by (intro refs_add_dependency_le) (simp add: covered_def)
  have m: "map file_handle (objects ?s) = map file_handle (objects s)"
    by (simp add: add_dependency_def handles_map)
  show "handles ?s = handles s"
    by (simp add: add_dependency_def handles_map)
  have "add_mset d (E + refs D s) = E + add_mset d (refs D s)"
    by simp
  then have le: "E + refs D ?s \<subseteq># add_mset d E + refs D s"
    using r by (metis subset_mset.add_left_mono union_mset_add_mset_left)
  have "distinct (map file_handle (objects ?s))" "next_handle ?s = next_handle s"
    using assms by (simp_all add: covered_def m) (simp add: add_dependency_def)
  then show "covered D E ?s"
    by (rule covered_weaker [OF assms le]) (auto simp: add_dependency_def update_object_def)
qed

lemma refs_update_object:
  assumes "\<And>ob. dependencies (f ob) = dependencies ob" "\<And>ob. file_handle (f ob) = file_handle ob"
  shows "refs D (update_object h f s) = refs D s"
proof -
  have "concat (map dependencies (filter (\<lambda>ob. file_handle ob \<notin> D) (map (\<lambda>ob. if file_handle ob = h then f ob else ob) xs))) =
      concat (map dependencies (filter (\<lambda>ob. file_handle ob \<notin> D) xs))" for xs
    using assms by (induction xs) auto
  then show ?thesis
    by (simp add: refs_def update_object_def)
qed

lemma one_more:
  assumes "n \<le> 0x7FFFFFFF" "n \<noteq> 0x7FFFFFFF"
  shows "unat (n + 1) = Suc (unat n) \<and> n + 1 \<le> 0x7FFFFFFF \<and> n + 1 \<noteq> (0 :: u32)"
proof -
  have "unat n < 0x7FFFFFFF"
    using assms by (simp add: word_le_nat_alt word_unat_eq_iff)
  moreover from this have "unat (n + 1) = Suc (unat n)"
    by (subst unat_plus_if') simp
  ultimately show ?thesis
    by (simp add: word_le_nat_alt unat_eq_0 [symmetric] del: unat_eq_0)
qed

lemma covered_use_object:
  assumes c: "covered {} E s" and u: "use_object h s = Inr s'" and h: "h \<in> handles s"
  shows "covered {} (add_mset h E) s'" "handles s' = handles s"
proof -
  let ?f = "\<lambda>ob :: DLIMP_Loaded_Module. ob \<lparr> use_count := use_count ob + 1 \<rparr>"
  have s': "s' = update_object h ?f s"
    and u: "\<And>ob. ob \<in> set (objects s) \<Longrightarrow> file_handle ob = h \<Longrightarrow> use_count ob \<noteq> 0x7FFFFFFF"
    using u by (auto simp: use_object_def split: if_splits)
  have r: "refs {} s' = refs {} s"
    unfolding s' by (rule refs_update_object) simp_all
  show "handles s' = handles s"
    by (simp add: s' handles_map)
  have m: "map file_handle (objects s') = map file_handle (objects s)" "next_handle s' = next_handle s"
    by (simp_all add: s' handles_map)
  have "\<forall>x \<in> set (objects s'). 0 < file_handle x \<and> file_handle x < next_handle s \<and> Multiset.count (add_mset h E + refs {} s) (file_handle x) \<le> unat (use_count x) \<and>
      use_count x \<le> 0x7FFFFFFF \<and> (use_count x = 0 \<longleftrightarrow> file_handle x \<in> {})"
  proof
    fix x
    assume x: "x \<in> set (objects s')"
    obtain ob where ob: "ob \<in> set (objects s)" "x = (if file_handle ob = h then ?f ob else ob)"
      using x by (auto simp: s' update_object_def)
    show "0 < file_handle x \<and> file_handle x < next_handle s \<and> Multiset.count (add_mset h E + refs {} s) (file_handle x) \<le> unat (use_count x) \<and>
      use_count x \<le> 0x7FFFFFFF \<and> (use_count x = 0 \<longleftrightarrow> file_handle x \<in> {})"
    proof (cases "file_handle ob = h")
      case True
      have "use_count ob \<le> 0x7FFFFFFF" "Multiset.count (E + refs {} s) h \<le> unat (use_count ob)" "0 < h" "h < next_handle s"
        using c ob(1) True by (auto simp: covered_def)
      then show ?thesis
        using True one_more [of "use_count ob"] u [OF ob(1) True] ob(2) by simp
    next
      case False
      then show ?thesis
        using c ob unfolding covered_def by auto
    qed
  qed
  moreover have "\<forall>x \<in># add_mset h E + refs {} s. x < next_handle s"
    using c h by (auto simp: covered_def handles_def)
  ultimately show "covered {} (add_mset h E) s'"
    using c unfolding covered_def r m by blast
qed

section \<open>Loads that fail\<close>

lemma covered_fresh: "covered D E s \<Longrightarrow> next_handle s \<notin> handles s"
  by (auto simp: covered_def handles_def)

lemma uses_deleted [simp]: "uses (delete_DLIMP_Dynamic_Module a dm s) = uses s"
  by (simp add: uses_def delete_DLIMP_Dynamic_Module_def delete_DLIMP_Loaded_Module_def log_def Let_def)

lemma uses_removed: "uses s' = uses s \<Longrightarrow> uses (remove_object h s') = uses (remove_object h s)"
proof -
  have "uses (remove_object h t) = (filter (\<lambda>c. fst c \<noteq> h) (fst (uses t)), snd (uses t))" for t
    by (simp add: uses_def remove_object_def filter_map comp_def count_data_def)
  then show "uses s' = uses s \<Longrightarrow> uses (remove_object h s') = uses (remove_object h s)"
    by simp
qed

lemma uses_of_counts: "uses s = (fst (counts s), snd (snd (counts s)))"
  by (simp add: uses_def counts_def)

lemma uses_update [simp]:
  "uses (log ev s) = uses s" "uses (update_object h (\<lambda>ob. ob \<lparr> entry_point := e \<rparr>) s) = uses s"
  "uses (s \<lparr> dependency_list := l \<rparr>) = uses s" "uses (s \<lparr> dependency_stack := st \<rparr>) = uses s"
  by (simp_all add: uses_of_counts)

lemma uses_static: "dload_static_executable env dm s = (r, s') \<Longrightarrow> uses s' = uses s"
  unfolding dload_static_executable_def Let_def
  by (split if_split_asm) (simp_all only: prod.inject, (elim conjE, drule sym, simp)+)

lemma place_failed:
  assumes p: "place_load env f dm s = Inr (Inl 0, s')" and c: "covered {} E s"
  shows "covered {} E s' \<and> handles s \<subseteq> handles s'"
proof -
  obtain dm2 s1 where i: "initialize_loaded_module env dm s = Inr (dm2, s1)"
    using p by (auto simp: place_load_def bindE_eq_Inr)
  note ini = initialize_counts [OF i]
  let ?h = "next_handle s"
  have h: "dm_handle dm2 = ?h" "count_data (loaded_module dm2) = (?h, 1, [])"
    using ini(3) by (auto simp: dm_handle_def count_data_def)
  let ?s2 = "s1 \<lparr> objects := objects s1 @ [loaded_module dm2] \<rparr>"
  have cs: "counts ?s2 = counts_new s"
    using ini h by (simp add: counts_append counts_new_def) (simp add: counts_def)
  then have s2: "uses ?s2 = (fst (uses s) @ [(?h, 1, [])], ?h + 1)"
    by (simp add: uses_of_counts counts_new_def)
  note new = covered_new [OF c ini(2) s2]
  have kept: "covered {} E s' \<and> handles s \<subseteq> handles s'" if "uses s' = uses ?s2"
    using covered_mono [OF new(1), of E] new(2) covered_same [OF that] by auto
  have removed: "covered {} E s' \<and> handles s \<subseteq> handles s'"
    if "uses s' = uses (remove_object ?h s3)" "uses s3 = uses ?s2" for s3
    using covered_remove_object [OF covered_mono [OF new(1), of E], of ?h] new(2) covered_same [OF that(1)]
      covered_same [OF uses_removed [OF that(2)]] covered_fresh [OF c] by auto
  have repl: "counts (update_object ?h (\<lambda>_. ob) ?s2) = counts ?s2" if "count_data ob = (?h, 1, [])" for ob
    using covered_fresh [OF c] that
    by (intro counts_replaced [where cs = "fst (counts s)"]) (simp_all add: cs counts_new_def handles_counts)
  show ?thesis
  proof (cases "is_relocatable dm2")
    case False
    then obtain r where "dload_static_executable env dm2 ?s2 = (r, s')"
      using p i by (auto simp: place_load_def Let_def split: prod.splits)
    then show ?thesis
      by (intro kept) (rule uses_static)
  next
    case True
    then obtain ok dm3 where a: "allocate_dynamic_segments_and_relocate_symbols (place env (dm_handle dm2)) dm2 = Inr (ok, dm3)"
      using p i by (auto simp: place_load_def Let_def bindE_eq_Inr)
    show ?thesis
    proof (cases ok)
      case False
      then have "s' = delete_DLIMP_Dynamic_Module True dm3 (remove_object ?h ?s2)"
        using p i True a by (simp add: place_load_def Let_def h(1))
      then show ?thesis
        by (intro removed [of ?s2]) simp_all
    next
      case ok: True
      let ?u = "update_object (dm_handle dm2) (\<lambda>_. loaded_module dm3) ?s2"
      have "count_data (loaded_module dm3) = (?h, 1, [])"
        using count_data_allocate [OF a] h by simp
      then have u: "counts ?u = counts ?s2"
        unfolding h(1) by (rule repl)
      have "bindE (if e_type (fhdr dm3) = ET_EXEC then execute_module_pre_initialization env dm3 ?u else Inr ?u) (\<lambda>s3.
          let s4 = s3 \<lparr> dependency_list := dependency_list s3 @ [(dm_handle dm2, the (dm_name dm3))],
                        dependency_stack := (dm3, f) # dependency_stack s3 \<rparr>
          in if dsbt_size dm3 \<noteq> 0 \<and> \<not> dsbt_registered env (dm_handle dm2)
             then bindE (pop_module s4) (\<lambda>s5. Inr (Inl 0, delete_DLIMP_Dynamic_Module True dm3 (remove_object (dm_handle dm2) s5)))
             else Inr (Inr dm3, s4)) = Inr (Inl (0 :: u32), s')"
        using p by (simp only: place_load_def i a True ok Let_def bindE_simps prod.case not_True_eq_False if_False)
      then obtain s3 where e: "(if e_type (fhdr dm3) = ET_EXEC then execute_module_pre_initialization env dm3 ?u else Inr ?u) = Inr s3"
        and rest: "(let s4 = s3 \<lparr> dependency_list := dependency_list s3 @ [(dm_handle dm2, the (dm_name dm3))],
                        dependency_stack := (dm3, f) # dependency_stack s3 \<rparr>
          in if dsbt_size dm3 \<noteq> 0 \<and> \<not> dsbt_registered env (dm_handle dm2)
             then bindE (pop_module s4) (\<lambda>s5. Inr (Inl 0, delete_DLIMP_Dynamic_Module True dm3 (remove_object (dm_handle dm2) s5)))
             else Inr (Inr dm3, s4)) = Inr (Inl (0 :: u32), s')"
        unfolding bindE_eq_Inr by blast
      from e have "counts s3 = counts ?u"
        by (auto simp: execute_module_pre_initialization_def split: if_splits dest!: counts_run_array)
      then have s3: "counts s3 = counts ?s2"
        using u by simp
      let ?s5 = "s3 \<lparr> dependency_list := dependency_list s3 @ [(?h, the (dm_name dm3))], dependency_stack := dependency_stack s3 \<rparr>"
      have "s' = delete_DLIMP_Dynamic_Module True dm3 (remove_object ?h ?s5)"
        using rest by (simp add: Let_def h(1) pop_module_def split: if_splits)
      moreover have "uses ?s5 = uses ?s2"
        using s3 by (simp add: uses_of_counts)
      ultimately show ?thesis
        by (intro removed [of ?s5]) simp_all
    qed
  qed
qed

text \<open>
  What the core asks of the loads that the client starts for it: whatever has been held, be it by the client, be it by nobody any more, is
  covered afterwards.
\<close>

locale surviving_load =
  fixes load :: "elf_file \<Rightarrow> loader \<Rightarrow> (u32 \<times> loader) result"
  assumes load_covered: "load f s = Some (Inr (h, s')) \<Longrightarrow> covered {} E s \<Longrightarrow>
    covered {} (if h = 0 then E else add_mset h E) s' \<and> handles s \<subseteq> handles s' \<and> (h \<noteq> 0 \<longrightarrow> h \<in> handles s')"
begin

lemma dependencies_covered:
  "dload_and_allocate_dependencies load env dm ds s = Some (Inr (ok, s')) \<Longrightarrow> covered {} E s \<Longrightarrow>
   covered {} E s' \<and> handles s \<subseteq> handles s'"
proof (induction ds arbitrary: s)
  case (Cons d ds)
  let ?all = "dload_and_allocate_dependencies load env dm"
  have add: "covered {} E s' \<and> handles s \<subseteq> handles s'"
    if "covered {} (add_mset h E) s1" "handles s \<subseteq> handles s1" "?all ds (add_dependency (dm_handle dm) h s1) = Some (Inr (ok, s'))"
    for h s1
    using Cons.IH [OF that(3) covered_add_dependency(1) [OF that(1)]] that(2) covered_add_dependency(2) [OF that(1)] by auto
  show ?case
  proof (cases "d_tag d = DT_NULL \<or> d_tag d \<noteq> DT_NEEDED")
    case True
    then show ?thesis
      using Cons by (auto split: if_splits)
  next
    case False
    then obtain nm found where nm: "c_string (strbuf dm) (d_un d) = Inr nm" and found: "find_named (gone s) nm (objects s) = Inr found"
      using Cons.prems(1) by (auto simp: bind_result_eq_Inr)
    show ?thesis
    proof (cases found)
      case None
      then obtain h s1 where l: "DLIF_load_dependent load env nm s = Some (Inr (h, s1))"
        and rest: "if h = 0 then s' = add_dependency (dm_handle dm) h s1
          else ?all ds (add_dependency (dm_handle dm) h s1) = Some (Inr (ok, s'))"
        using Cons.prems(1) False nm found by (auto simp: bind_result_eq_Inr Let_def split: if_splits)
      have s1: "covered {} (if h = 0 then E else add_mset h E) s1" "handles s \<subseteq> handles s1"
        using l load_covered [of _ s h s1 E] Cons.prems(2) by (auto simp: DLIF_load_dependent_def split: option.splits)
      show ?thesis
      proof (cases "h = 0")
        case True
        then show ?thesis
          using s1 rest covered_add_dependency [OF covered_more_zero] by auto
      next
        case False
        then show ?thesis
          using s1 rest add by auto
      qed
    next
      case (Some h)
      then obtain s1 where u: "use_object h s = Inr s1"
        and rest: "?all ds (add_dependency (dm_handle dm) h s1) = Some (Inr (ok, s'))"
        using Cons.prems(1) False nm found by (auto simp: bind_result_eq_Inr)
      have "h \<in> handles s"
        using found Some by (auto simp: handles_def dest: find_named_handle)
      then show ?thesis
        using add [OF _ _ rest] covered_use_object [OF Cons.prems(2) u] by auto
    qed
  qed
qed simp

end

lemma load_survives: "surviving_load (DLOAD_load env n)"
proof (induction n)
  case 0
  show ?case by unfold_locales simp
next
  case (Suc n)
  show ?case
  proof
    fix f s h s' E
    assume l: "DLOAD_load env (Suc n) f s = Some (Inr (h, s'))" and c: "covered {} E s"
    let ?goal = "covered {} (if h = 0 then E else add_mset h E) s' \<and> handles s \<subseteq> handles s' \<and> (h \<noteq> 0 \<longrightarrow> h \<in> handles s')"
    obtain opened s1 where st: "start_load env f s = Inr (opened, s1)"
      using l by (auto simp: bind_result_eq_Inr)
    have s1: "covered {} E s1" "handles s1 = handles s"
      using c covered_transfer [OF counts_start [OF st]] by simp_all
    show ?goal
    proof (cases opened)
      case None
      then show ?goal
        using l st s1 by simp
    next
      case (Some dm)
      then obtain placed s2 where p: "place_load env f dm s1 = Inr (placed, s2)"
        using l st by (auto simp: bind_result_eq_Inr)
      note pc = place_counts [OF p covered_fresh [OF s1(1)]]
      have new: "uses s2 = (fst (uses s1) @ [(next_handle s1, 1, [])], next_handle s1 + 1)" if "counts s2 = counts_new s1"
        using that by (simp add: uses_of_counts counts_new_def)
      show ?goal
      proof (cases placed)
        case (Inl h1)
        then have h1: "h = h1" "s' = s2"
          using l st p Some by simp_all
        show ?goal
        proof (cases "h = 0")
          case True
          then show ?goal
            using place_failed [OF p [unfolded Inl h1(1) [symmetric] True] s1(1)] h1 s1(2) by simp
        next
          case False
          then show ?goal
            using covered_new [OF s1(1) pc(1) new] pc(3) [OF Inl] h1 s1(2) by auto
        qed
      next
        case (Inr dm1)
        then have s2: "covered {} (add_mset (dm_handle dm1) E) s2" "handles s2 = insert (dm_handle dm1) (handles s)"
          and fresh: "dm_handle dm1 \<notin> handles s"
          using covered_new [OF s1(1) pc(1) new] pc(2) [OF Inr] s1(2) covered_fresh [OF s1(1)] by simp_all
        obtain ok s3 where d: "dload_and_allocate_dependencies (DLOAD_load env n) env dm1 (dyntab dm1) s2 = Some (Inr (ok, s3))"
          and e: "end_load env dm1 ok s3 = Inr (h, s')"
          using l st p Some Inr by (auto simp: bind_result_eq_Inr)
        have s3: "covered {} (add_mset (dm_handle dm1) E) s3" "handles s2 \<subseteq> handles s3"
          using surviving_load.dependencies_covered [OF Suc.IH d s2(1)] by simp_all
        show ?goal
        proof (cases ok)
          case True
          then have "counts s' = counts s3" "h = dm_handle dm1"
            using e by (auto simp: end_load_def dest!: counts_graph)
          moreover have "covered {} E s3"
            by (rule covered_mono [OF s3(1)]) simp
          ultimately show ?goal
            using s2(2) s3 covered_transfer [of s' s3] by auto
        next
          case False
          define s4 where "s4 = s3 \<lparr> dependency_stack := tl (dependency_stack s3) \<rparr>"
          have s4: "counts s4 = counts s3" "h = 0" "s' = delete_DLIMP_Dynamic_Module True dm1 (remove_object (dm_handle dm1) s4)"
            using e False by (auto simp: s4_def end_load_def bindE_eq_Inr pop_module_def split: list.splits)
          have "covered {} E s4"
            using s3(1) covered_mono [of "{}" "add_mset (dm_handle dm1) E" s4 E] covered_transfer(1) [OF s4(1)] by simp
          note rem = covered_remove_object [OF this, of "dm_handle dm1"]
          have "uses s' = uses (remove_object (dm_handle dm1) s4)"
            by (simp add: s4(3))
          then show ?goal
            using rem s4(2) covered_same [of s'] s3(2) s2(2) fresh covered_transfer(2) [OF s4(1)] by auto
        qed
      qed
    qed
  qed
qed

interpretation dload_all: surviving_load "DLOAD_load env n" for env n
  by (rule load_survives)

lemma symbols_covered:
  assumes "DLOAD_load_symbols env f s = Inr (h, s')" "covered {} E s"
  shows "covered {} (if h = 0 then E else add_mset h E) s' \<and> handles s \<subseteq> handles s' \<and> (h \<noteq> 0 \<longrightarrow> h \<in> handles s')"
proof -
  consider (none) "counts s' = counts s" "h = 0"
  | (new) t dm1 dm2 s2 where "initialize_loaded_module env dm1 (s \<lparr> target_machine := t \<rparr>) = Inr (dm2, s2)" "h = dm_handle dm2"
      "counts s' = counts (s2 \<lparr> objects := objects s2 @ [loaded_module dm2] \<rparr>)"
    using assms(1) by (auto simp: DLOAD_load_symbols_def Let_def bindE_eq_Inr split: if_splits)
  then show ?thesis
  proof cases
    case none
    then show ?thesis
      using assms(2) covered_transfer [OF none(1)] by simp
  next
    case new
    note i = initialize_counts [OF new(1)]
    have h: "h = next_handle s" "count_data (loaded_module dm2) = (next_handle s, 1, [])"
      using new(2) i(3) by (auto simp: dm_handle_def count_data_def)
    have "counts s' = counts_new s"
      unfolding new(3) using i h by (simp add: counts_append counts_new_def) (simp add: counts_def)
    then have "uses s' = (fst (uses s) @ [(next_handle s, 1, [])], next_handle s + 1)"
      by (simp add: uses_of_counts counts_new_def)
    moreover have "next_handle s \<noteq> 0" "next_handle s \<noteq> 0x7FFFFFFF"
      using assms(2) i(2) by (auto simp: covered_def)
    ultimately show ?thesis
      using covered_new [OF assms(2)] h(1) by auto
  qed
qed

section \<open>Unloading in such states\<close>

lemma drop_use_cases:
  "drop_use dead h obs = Inr (r, obs') \<Longrightarrow> distinct (map file_handle obs) \<Longrightarrow>
   (h \<notin> file_handle ` set obs \<and> r = None \<and> obs' = obs) \<or>
   (\<exists>xs ob ys. obs = xs @ ob # ys \<and> file_handle ob = h \<and> obs' = xs @ ob \<lparr> use_count := use_count ob - 1 \<rparr> # ys \<and>
      r = (if use_count ob - 1 = 0 then Some (ob \<lparr> use_count := use_count ob - 1 \<rparr>) else None))"
proof (induction obs arbitrary: r obs')
  case (Cons ob obs)
  let ?ob = "ob \<lparr> use_count := use_count ob - 1 \<rparr>"
  show ?case
  proof (cases "file_handle ob = h")
    case True
    then show ?thesis
    proof (cases "use_count ?ob = 0")
      case False
      then obtain r1 obs1 where "drop_use dead h obs = Inr (r1, obs1)" "r = r1" "obs' = ?ob # obs1"
        using Cons.prems(1) True by (cases "drop_use dead h obs") (auto simp: Let_def split: if_splits)
      then have "r = None \<and> obs' = ?ob # obs"
        using Cons.IH [of r1 obs1] Cons.prems(2) True by auto
      then show ?thesis
        using True False by (intro disjI2 exI [of _ "[]"] exI [of _ ob] exI [of _ obs]) simp
    qed (use Cons.prems(1) in \<open>intro disjI2 exI [of _ "[]"] exI [of _ ob] exI [of _ obs], simp add: Let_def split: if_splits\<close>)
  next
    case False
    then obtain obs1 where d: "drop_use dead h obs = Inr (r, obs1)" "obs' = ob # obs1"
      using Cons.prems(1) by (cases "drop_use dead h obs") (auto split: if_splits)
    have "distinct (map file_handle obs)"
      using Cons.prems(2) by simp
    from Cons.IH [OF d(1) this] show ?thesis
    proof (elim disjE exE conjE)
      fix xs x ys
      assume "obs = xs @ x # ys" "file_handle x = h" "obs1 = xs @ x \<lparr> use_count := use_count x - 1 \<rparr> # ys"
        "r = (if use_count x - 1 = 0 then Some (x \<lparr> use_count := use_count x - 1 \<rparr>) else None)"
      then show ?thesis
        using d(2) by (intro disjI2 exI [of _ "ob # xs"] exI [of _ x] exI [of _ ys]) simp
    qed (use d(2) False in auto)
  qed
qed simp

lemma covered_decremented:
  assumes "covered D E s" "objects s = xs @ ob # ys" "file_handle ob = h" "h \<in># E"
    and objs: "objects s' = xs @ ob \<lparr> use_count := use_count ob - 1 \<rparr> # ys" "next_handle s' = next_handle s"
    and total: "E' + refs D' s' = E + refs D s - {#h#}"
    and D': "D' = (if use_count ob - 1 = 0 then insert h D else D)"
  shows "covered D' E' s'"
proof -
  have n: "Multiset.count (E + refs D s) h \<le> unat (use_count ob)" "use_count ob \<le> 0x7FFFFFFF" "use_count ob = 0 \<longleftrightarrow> h \<in> D"
    using assms(1-3) by (auto simp: covered_def)
  have "0 < Multiset.count E h"
    using assms(4) by (simp only: count_greater_zero_iff)
  also have "Multiset.count E h \<le> Multiset.count (E + refs D s) h"
    by simp
  finally have pos: "0 < unat (use_count ob)"
    using n(1) by linarith
  then have nz: "use_count ob \<noteq> 0"
    by auto
  then have dec: "unat (use_count ob - 1) = unat (use_count ob) - 1"
    by (simp add: unat_minus_one)
  then have le: "use_count ob - 1 \<le> 0x7FFFFFFF"
    using n(2) by (simp add: word_le_nat_alt)
  have hD: "h \<notin> D"
    using n(3) nz by simp
  have others: "file_handle x \<noteq> h" if "x \<in> set (xs @ ys)" for x
    using assms(1,2,3) that by (auto simp: covered_def image_iff)
  have known: "\<forall>x \<in># E + refs D s - {#h#}. x < next_handle s"
    using assms(1) by (auto simp: covered_def dest: in_diffD simp del: diff_union_single_conv diff_single_trivial)
  have "Multiset.count (E + refs D s - {#h#}) (file_handle x) \<le> unat (use_count x) \<and> (use_count x = 0 \<longleftrightarrow> file_handle x \<in> D')"
    if "x \<in> set (xs @ ys)" for x
    using assms(1,2) others [OF that] that D' by (auto simp: covered_def)
  then show "covered D' E' s'"
    using assms(1) n dec le D' hD known unfolding covered_def total objs
    by (simp add: assms(2,3)) (auto intro: diff_le_mono)
qed

lemma covered_drop:
  assumes c: "covered D E s" and h: "h \<in># E" and u: "drop_use (gone s) h (objects s) = Inr (r, obs)"
  shows "handles (s \<lparr> objects := obs \<rparr>) = handles s"
    "r = None \<Longrightarrow> covered D (E - {#h#}) (s \<lparr> objects := obs \<rparr>)"
    "r = Some lm \<Longrightarrow> file_handle lm = h \<and> h \<in> handles s \<and> h \<notin> D \<and>
      covered (insert h D) (E - {#h#} + mset (dependencies lm)) (s \<lparr> objects := obs \<rparr>)"
proof -
  have "distinct (map file_handle (objects s))"
    using c by (simp add: covered_def)
  note cs = drop_use_cases [OF u this]
  show "handles (s \<lparr> objects := obs \<rparr>) = handles s"
    using cs by (auto simp: handles_def)
  show "covered D (E - {#h#}) (s \<lparr> objects := obs \<rparr>)" if r: "r = None"
    using cs
  proof (elim disjE exE conjE)
    assume "obs = objects s"
    then show ?thesis
      using covered_mono [OF c, of "E - {#h#}"] by simp
  next
    fix xs ob ys
    assume s: "objects s = xs @ ob # ys" "file_handle ob = h" "obs = xs @ ob \<lparr> use_count := use_count ob - 1 \<rparr> # ys"
      and "r = (if use_count ob - 1 = 0 then Some (ob \<lparr> use_count := use_count ob - 1 \<rparr>) else None)"
    then have nz: "use_count ob - 1 \<noteq> 0"
      using r by (auto split: if_splits)
    have "E - {#h#} + refs D (s \<lparr> objects := obs \<rparr>) = E + refs D s - {#h#}"
      using h by (simp add: refs_def s)
    then show ?thesis
      using nz s(3) by (intro covered_decremented [OF c s(1,2) h]) simp_all
  qed
  show "file_handle lm = h \<and> h \<in> handles s \<and> h \<notin> D \<and> covered (insert h D) (E - {#h#} + mset (dependencies lm)) (s \<lparr> objects := obs \<rparr>)"
    if r: "r = Some lm"
    using cs
  proof (elim disjE exE conjE)
    fix xs ob ys
    assume s: "objects s = xs @ ob # ys" "file_handle ob = h" "obs = xs @ ob \<lparr> use_count := use_count ob - 1 \<rparr> # ys"
      and "r = (if use_count ob - 1 = 0 then Some (ob \<lparr> use_count := use_count ob - 1 \<rparr>) else None)"
    then have z: "use_count ob - 1 = 0" "lm = ob \<lparr> use_count := use_count ob - 1 \<rparr>"
      using r by (auto split: if_splits)
    have hs: "h \<in> handles s"
      using s(1,2) by (simp add: handles_def)
    then have hD: "h \<notin> D"
      by (rule covered_held [OF c h])
    have "file_handle x \<noteq> h" if "x \<in> set (xs @ ys)" for x
      using c s(1,2) that by (auto simp: covered_def image_iff)
    then have keep: "filter (\<lambda>x. file_handle x \<noteq> h \<and> file_handle x \<notin> D) zs = filter (\<lambda>x. file_handle x \<notin> D) zs"
      if "set zs \<subseteq> set (xs @ ys)" for zs
      using that by (intro filter_cong) auto
    have "E - {#h#} + mset (dependencies lm) + refs (insert h D) (s \<lparr> objects := obs \<rparr>) = E + refs D s - {#h#}"
      using h hD by (simp add: refs_def s keep z(2) ac_simps)
    then have "covered (insert h D) (E - {#h#} + mset (dependencies lm)) (s \<lparr> objects := obs \<rparr>)"
      using z s(3) by (intro covered_decremented [OF c s(1,2) h]) simp_all
    then show ?thesis
      using hs hD z(2) s(2) by simp
  qed (use r in simp)
qed

lemma covered_remove:
  assumes c: "covered (insert h D) E s" and h: "h \<notin> D" "file_handle lm = h"
  shows "covered D E (remove_loaded_module lm s)" "handles (remove_loaded_module lm s) = handles s - {h}"
    "next_handle (remove_loaded_module lm s) = next_handle s"
proof -
  let ?s = "remove_loaded_module lm s"
  have objs: "objects ?s = filter (\<lambda>ob. file_handle ob \<noteq> h) (objects s)"
    by (simp add: remove_loaded_module_def delete_DLIMP_Loaded_Module_def remove_object_def log_def h)
  show nx: "next_handle ?s = next_handle s"
    by (simp add: remove_loaded_module_def delete_DLIMP_Loaded_Module_def remove_object_def log_def)
  have r: "refs D ?s = refs (insert h D) s"
    by (simp add: refs_def objs conj_commute)
  show "handles ?s = handles s - {h}"
    by (auto simp: handles_def objs)
  show "covered D E ?s"
    using c h(1) unfolding covered_def r objs nx by (auto simp: distinct_map_filter)
qed

text \<open>What an unload that returns does: it takes one use, and nobody who is still held goes.\<close>

locale sparing_unload =
  fixes unload :: "u32 \<Rightarrow> loader \<Rightarrow> (bool \<times> loader) result"
  assumes unload_covered: "unload h s = Some (Inr (b, s')) \<Longrightarrow> covered D E s \<Longrightarrow> h \<in># E \<Longrightarrow>
    covered D (E - {#h#}) s' \<and> next_handle s' = next_handle s \<and> handles s' \<subseteq> handles s \<and>
    (\<forall>x \<in># E - {#h#}. x \<in> handles s \<longrightarrow> x \<in> handles s')"
begin

lemma dependents_covered:
  "unload_dependents unload hs s = Some (Inr s') \<Longrightarrow> covered D (E + mset hs) s \<Longrightarrow>
   covered D E s' \<and> next_handle s' = next_handle s \<and> handles s' \<subseteq> handles s \<and> (\<forall>x \<in># E. x \<in> handles s \<longrightarrow> x \<in> handles s')"
proof (induction hs arbitrary: s)
  case (Cons h hs)
  obtain b s1 where s1: "unload h s = Some (Inr (b, s1))"
    and rest: "unload_dependents unload hs (if b then log [DsbtReleased h] s1 else s1) = Some (Inr s')"
    using Cons.prems(1) by (auto simp: DLIF_unload_dependent_def bind_result_eq_Inr)
  have "h \<in># E + mset (h # hs)" "E + mset (h # hs) - {#h#} = E + mset hs"
    by simp_all
  with unload_covered [OF s1 Cons.prems(2)] have u: "covered D (E + mset hs) s1" "next_handle s1 = next_handle s"
      "handles s1 \<subseteq> handles s" "\<forall>x \<in># E + mset hs. x \<in> handles s \<longrightarrow> x \<in> handles s1"
    by simp_all
  let ?s2 = "if b then log [DsbtReleased h] s1 else s1"
  have "counts ?s2 = counts s1"
    by simp
  note t = covered_transfer [OF this]
  have "covered D (E + mset hs) ?s2"
    using u(1) by (simp only: t(1))
  from Cons.IH [OF rest this] u(2-4) show ?case
    unfolding t by auto
qed simp

end

lemma unload_spares: "sparing_unload (DLOAD_unload env n)"
proof (induction n)
  case 0
  show ?case by unfold_locales simp
next
  case (Suc n)
  show ?case
  proof
    fix h s b s' D E
    assume l: "DLOAD_unload env (Suc n) h s = Some (Inr (b, s'))" and c: "covered D E s" and h: "h \<in># E"
    obtain r obs where d: "drop_use (gone s) h (objects s) = Inr (r, obs)"
      using l by (auto simp: bind_result_eq_Inr)
    note drop = covered_drop [OF c h d]
    show "covered D (E - {#h#}) s' \<and> next_handle s' = next_handle s \<and> handles s' \<subseteq> handles s \<and>
        (\<forall>x \<in># E - {#h#}. x \<in> handles s \<longrightarrow> x \<in> handles s')"
    proof (cases r)
      case None
      then have "s' = s \<lparr> objects := obs \<rparr>"
        using l d by simp
      then show ?thesis
        using drop(1) drop(2) [OF None] by simp
    next
      case (Some lm)
      note lm = drop(3) [OF Some]
      let ?s1 = "execute_module_termination env lm (s \<lparr> objects := obs \<rparr>)"
      obtain s2 where s2: "unload_dependents (DLOAD_unload env n) (dependencies lm) ?s1 = Some (Inr s2)"
        and s': "s' = (let s3 = remove_loaded_module lm s2 in if objects s3 = [] then s3 \<lparr> target_machine := EM_NONE \<rparr> else s3)"
        using l d Some by (auto simp: bind_result_eq_Inr Let_def)
      note t1 = covered_transfer [OF counts_termination [of env lm "s \<lparr> objects := obs \<rparr>"]]
      have "covered (insert h D) (E - {#h#} + mset (dependencies lm)) ?s1"
        using lm by (simp add: t1)
      from sparing_unload.dependents_covered [OF Suc.IH s2 this]
      have s2c: "covered (insert h D) (E - {#h#}) s2" "next_handle s2 = next_handle s" "handles s2 \<subseteq> handles s"
        "\<forall>x \<in># E - {#h#}. x \<in> handles s \<longrightarrow> x \<in> handles s2"
        using drop(1) by (simp_all add: t1)
      have "counts s' = counts (remove_loaded_module lm s2)"
        by (simp add: s' Let_def)
      note t3 = covered_transfer [OF this]
      have "h \<notin> handles s2" if "h \<in># E - {#h#}"
        using covered_held [OF s2c(1) that] by blast
      then show ?thesis
        using covered_remove [OF s2c(1)] lm s2c(2-4) by (auto simp: t3)
    qed
  qed
qed

interpretation dload_unload: sparing_unload "DLOAD_unload env n" for env n
  by (rule unload_spares)

section \<open>Runs of a client with loads that fail\<close>

text \<open>
  One call of a client and the handles it holds then, each as often as it has got it: it loads a file, or the symbols of a file, and gets a
  handle or 0; or it gives a handle back.
\<close>

inductive client_step :: "load_env \<Rightarrow> u32 multiset \<times> loader \<Rightarrow> u32 multiset \<times> loader \<Rightarrow> bool" for env where
  load: "DLOAD_load env n f s = Some (Inr (h, s')) \<Longrightarrow> client_step env (E, s) (if h = 0 then E else add_mset h E, s')"
| symbols: "DLOAD_load_symbols env f s = Inr (h, s') \<Longrightarrow> client_step env (E, s) (if h = 0 then E else add_mset h E, s')"
| unload: "h \<in># E \<Longrightarrow> DLOAD_unload env n h s = Some (Inr (b, s')) \<Longrightarrow> client_step env (E, s) (E - {#h#}, s')"

text \<open>Whatever is covered beside what the client holds stays covered, and in the queue.\<close>

lemma step_covered:
  assumes "client_step env (E, s) (E', s')" "covered {} (E + X) s" "set_mset (E + X) \<subseteq> handles s"
  shows "covered {} (E' + X) s' \<and> set_mset (E' + X) \<subseteq> handles s'"
  using assms(1)
proof (cases rule: client_step.cases)
  case (load n f h)
  then show ?thesis
    using dload_all.load_covered [OF load(2) assms(2)] assms(3) by (auto split: if_splits)
next
  case (symbols f h)
  then show ?thesis
    using symbols_covered [OF symbols(2) assms(2)] assms(3) by (auto split: if_splits)
next
  case (unload h n b)
  have "h \<in># E + X" "E - {#h#} + X = E + X - {#h#}"
    using unload(2) by simp_all
  then show ?thesis
    using dload_unload.unload_covered [OF unload(3) assms(2)] assms(3) unload(1) by (fastforce dest: in_diffD)
qed

lemma run_covered:
  "(client_step env)\<^sup>*\<^sup>* (E, s) (E', s') \<Longrightarrow> covered {} (E + X) s \<Longrightarrow> set_mset (E + X) \<subseteq> handles s \<Longrightarrow>
   covered {} (E' + X) s' \<and> set_mset (E' + X) \<subseteq> handles s'"
proof (induction rule: rtranclp_induct2)
  case (step E1 s1 E2 s2)
  then show ?case
    using step_covered [of env E1 s1 E2 s2 X] by blast
qed simp

lemma client_covered:
  assumes "(client_step env)\<^sup>*\<^sup>* ({#}, DLOAD_create) (E, s)"
  shows "covered {} E s" "set_mset E \<subseteq> handles s"
  using run_covered [OF assms, of "{#}"] covered_create by simp_all

lemma covered_excess:
  assumes "covered {} E s" "ob \<in> set (objects s)" "Multiset.count (E + refs {} s) (file_handle ob) < unat (use_count ob)"
  shows "covered {} (E + {#file_handle ob#}) s"
proof -
  have "distinct (map file_handle (objects s))"
    using assms(1) by (simp add: covered_def)
  then have same: "x = ob" if "x \<in> set (objects s)" "file_handle x = file_handle ob" for x
    using that assms(2) by (auto simp: distinct_map inj_on_def)
  have "Multiset.count (E + {#file_handle ob#} + refs {} s) (file_handle x) \<le> unat (use_count x)" if x: "x \<in> set (objects s)" for x
  proof (cases "x = ob")
    case False
    then have "file_handle ob \<noteq> file_handle x"
      using same [OF x] by auto
    then show ?thesis
      using x assms(1) by (simp add: covered_def)
  qed (use assms(3) in simp)
  then show ?thesis
    using assms(1,2) unfolding covered_def by auto
qed

text \<open>The uses of a module that the client or a module in the queue can give back.\<close>

definition known_uses :: "u32 multiset \<Rightarrow> loader \<Rightarrow> u32 \<Rightarrow> nat" where
  "known_uses E s h = Multiset.count E h + (\<Sum>x\<leftarrow>objects s. count_list (dependencies x) h)"

lemma known_uses_refs: "known_uses E s h = Multiset.count (E + refs {} s) h"
proof -
  have "Multiset.count (mset (concat (map f xs))) h = (\<Sum>x\<leftarrow>xs. count_list (f x) h)" for f :: "DLIMP_Loaded_Module \<Rightarrow> u32 list" and xs
    by (induction xs) (auto simp: count_mset)
  then show ?thesis
    by (simp add: known_uses_def refs_def)
qed

end
