(* ===== verification/Dload_Order.thy ===== *)
theory Dload_Order
  imports Dload_Load
begin

text \<open>
  The order of a load (\<open>elfload/dload.c\<close>): how deep loads are nested, and in which order the modules are relocated and
  initialised that one load has brought.
\<close>

section \<open>What the steps leave alone\<close>

fun relocations_in :: "load_event list \<Rightarrow> u32 list" where
  "relocations_in [] = []"
| "relocations_in (Relocated h # ev) = h # relocations_in ev"
| "relocations_in (_ # ev) = relocations_in ev"

text \<open>The modules that have been relocated, in order.\<close>

definition relocated :: "loader \<Rightarrow> u32 list" where
  "relocated s = relocations_in (events s)"

lemma relocations_in_append [simp]: "relocations_in (ev @ ev') = relocations_in ev @ relocations_in ev'"
  by (induction ev rule: relocations_in.induct) simp_all

lemma relocations_in_none [simp]:
  "relocations_in (map Executed xs) = []" "relocations_in (map (Released h) is) = []"
  "relocations_in (map (Copied h) is) = []" "relocations_in (map (Wrote h) is) = []"
  by (induction xs, simp_all) (induction "is", simp_all)+

text \<open>The order is about the two lists of modules, the handles and the relocations.\<close>

definition frame :: "loader \<Rightarrow> (u32 \<times> string) list \<times> (DLIMP_Dynamic_Module \<times> elf_file) list \<times> u32 \<times> u32 list" where
  "frame s = (dependency_list s, dependency_stack s, next_handle s, relocated s)"

lemma frame_update [simp]:
  "frame (update_object h f s) = frame s" "frame (add_dependency h d s) = frame s"
  "frame (s \<lparr> objects := obs \<rparr>) = frame s" "frame (s \<lparr> target_machine := t \<rparr>) = frame s"
  "frame (s \<lparr> host_memory := m \<rparr>) = frame s" "frame (s \<lparr> freed := fr \<rparr>) = frame s"
  "frame (log (map Executed xs) s) = frame s" "frame (log [Executed a] s) = frame s" "frame (log [Closed h] s) = frame s"
  "frame (log [DsbtsAssigned] s) = frame s"
  "frame (delete_DLIMP_Dynamic_Module False dm s) = frame s"
  by (simp_all add: frame_def relocated_def update_object_def add_dependency_def log_def delete_DLIMP_Dynamic_Module_def)

lemma frame_run_array: "run_array env dm i sz s = Inr s' \<Longrightarrow> frame s' = frame s"
  by (auto simp: run_array_def bindE_eq_Inr split: if_splits)

lemma frame_initialization: "execute_module_initialization env dm s = Inr s' \<Longrightarrow> frame s' = frame s"
  unfolding execute_module_initialization_def by (auto simp: bindE_eq_Inr split: if_splits dest!: frame_run_array)

lemma frame_start: "start_load env f s = Inr (d, s') \<Longrightarrow> frame s' = frame s"
  unfolding start_load_def by (auto simp: Let_def bindE_eq_Inr split: if_splits)

text \<open>One turn over the stack.\<close>

lemma relocations_frame:
  assumes "process_dynamic_module_relocations env f dm s = Inr (dm', s')"
  shows "frame s' = (dependency_list s, dependency_stack s, next_handle s, relocated s @ [dm_handle dm])"
proof -
  obtain n m segs where "s' = log (map (Copied (dm_handle dm)) [0..<n] @ [Relocated (dm_handle dm)] @ map (Wrote (dm_handle dm)) [0..<n])
      (update_object (dm_handle dm) (\<lambda>ob. ob \<lparr> loaded_segments := segs \<rparr>) s \<lparr> host_memory := m \<rparr>)"
  proof -
    obtain segs m where r: "(case run_relocator env f (dm \<lparr> loaded_module := attached_module dm s \<lparr> loaded_segments := segs \<rparr> \<rparr>)
        (update_object (dm_handle dm) (\<lambda>ob. ob \<lparr> loaded_segments := segs \<rparr>) s) m of
        None \<Rightarrow> Inl NoReturn
      | Some (Inl e) \<Rightarrow> Inl e
      | Some (Inr (m1, dm2)) \<Rightarrow>
          Inr (dm2, log (map (Copied (dm_handle dm)) [0..<length (loaded_segments (attached_module dm s))] @ [Relocated (dm_handle dm)] @
              map (Wrote (dm_handle dm)) [0..<length (loaded_segments (attached_module dm s))])
            (update_object (dm_handle dm) (\<lambda>ob. ob \<lparr> loaded_segments := segs \<rparr>) s \<lparr> host_memory := m1 \<rparr>))) = Inr (dm', s')"
      using assms unfolding process_dynamic_module_relocations_def Let_def bindE_eq_Inr by (elim exE conjE) (simp split: prod.splits)
    show thesis
      using r
      apply (cases "run_relocator env f (dm \<lparr> loaded_module := attached_module dm s \<lparr> loaded_segments := segs \<rparr> \<rparr>)
        (update_object (dm_handle dm) (\<lambda>ob. ob \<lparr> loaded_segments := segs \<rparr>) s) m")
       apply simp
      subgoal for x by (cases x) (auto intro: that)
      done
  qed
  then show ?thesis
    by (simp add: frame_def relocated_def log_def update_object_def)
qed

lemma popped_frame:
  assumes "relocate_popped env root entry s = Inr s'"
  shows "frame s' = (dependency_list s, dependency_stack s, next_handle s, relocated s @ [dm_handle (fst entry)])"
  using assms unfolding relocate_popped_def
  by (auto simp: Let_def bindE_eq_Inr split: if_splits prod.splits dest!: relocations_frame frame_initialization)

lemma stack_frame:
  "relocate_stack env root st s = Inr s' \<Longrightarrow>
   frame s' = (dependency_list s, [], next_handle s, relocated s @ map (dm_handle \<circ> fst) st)"
  by (induction env root st s rule: relocate_stack.induct)
    (auto simp: bindE_eq_Inr frame_def relocated_def dest!: popped_frame)


section \<open>The stack of a load\<close>

lemma frame_static:
  assumes "dload_static_executable env dm s = (r, s')" "r \<noteq> 0"
  shows "frame s' = frame s"
proof -
  define segs where "segs = loaded_segments (loaded_module dm)"
  define got where "got = takeWhile (\<lambda>i. place env (dm_handle dm) i \<noteq> None) [0..<length segs]"
  define ev where "ev = concat (map (\<lambda>i. if p_filesz (phdr (segs ! i)) \<noteq> 0
    then [Copied (dm_handle dm) i, Wrote (dm_handle dm) i] else []) got)"
  have "relocations_in ev = []"
    unfolding ev_def by (induction got) auto
  moreover have "frame s' = frame (log ev (update_object (dm_handle dm) (\<lambda>ob. ob \<lparr> entry_point := e_entry (fhdr dm) \<rparr>) s))"
    using assms unfolding dload_static_executable_def Let_def segs_def [symmetric] got_def [symmetric] ev_def [symmetric]
    by (auto split: if_splits)
  ultimately show ?thesis
    by (simp add: frame_def relocated_def log_def update_object_def)
qed

lemma frame_initialize:
  "initialize_loaded_module env dm s = Inr (dm', s') \<Longrightarrow>
   frame s' = (dependency_list s, dependency_stack s, next_handle s + 1, relocated s)"
  by (auto simp: initialize_loaded_module_def Let_def bindE_eq_Inr frame_def relocated_def map_sum_def split: if_splits sum.splits)

lemma place_frame:
  assumes "place_load env f dm s = Inr (placed, s')"
  shows "placed = Inr dm1 \<Longrightarrow> frame s' =
      (dependency_list s @ [(dm_handle dm1, the (dm_name dm1))], (dm1, f) # dependency_stack s, next_handle s + 1, relocated s) \<and>
      dm_handle dm1 = next_handle s \<and> next_handle s \<noteq> 0x7FFFFFFF"
    "placed = Inl h \<Longrightarrow> h \<noteq> 0 \<Longrightarrow> frame s' = (dependency_list s, dependency_stack s, next_handle s + 1, relocated s) \<and>
      h = next_handle s \<and> next_handle s \<noteq> 0x7FFFFFFF"
proof -
  obtain dm2 s1 where i: "initialize_loaded_module env dm s = Inr (dm2, s1)"
    using assms(1) by (auto simp: place_load_def bindE_eq_Inr)
  note fr = frame_initialize [OF i] initialize_counts(2) [OF i]
  have h: "dm_handle dm2 = next_handle s"
    using initialize_counts(3) [OF i] by (auto simp: dm_handle_def count_data_def)
  show "frame s' = (dependency_list s, dependency_stack s, next_handle s + 1, relocated s) \<and>
      h = next_handle s \<and> next_handle s \<noteq> 0x7FFFFFFF" if p: "placed = Inl h" "h \<noteq> 0"
  proof -
    have "dload_static_executable env dm2 (s1 \<lparr> objects := objects s1 @ [loaded_module dm2] \<rparr>) = (h, s')"
      using assms p i by (auto simp: place_load_def bindE_eq_Inr Let_def split: if_splits prod.splits)
    then show ?thesis
      using fr h p(2) static_counts frame_static by fastforce
  qed
  show "frame s' =
      (dependency_list s @ [(dm_handle dm1, the (dm_name dm1))], (dm1, f) # dependency_stack s, next_handle s + 1, relocated s) \<and>
      dm_handle dm1 = next_handle s \<and> next_handle s \<noteq> 0x7FFFFFFF" if p: "placed = Inr dm1"
  proof -
    let ?u = "update_object (dm_handle dm2) (\<lambda>_. loaded_module dm1) (s1 \<lparr> objects := objects s1 @ [loaded_module dm2] \<rparr>)"
    have rel: "is_relocatable dm2"
      using assms p i by (auto simp: place_load_def Let_def split: if_splits prod.splits)
    have a: "allocate_dynamic_segments_and_relocate_symbols (place env (dm_handle dm2)) dm2 = Inr (True, dm1)"
      using assms p i rel by (auto simp: place_load_def bindE_eq_Inr Let_def split: if_splits)
    obtain s3 where e: "(if e_type (fhdr dm1) = ET_EXEC then execute_module_pre_initialization env dm1 ?u else Inr ?u) = Inr s3"
      using assms p i rel a by (cases "if e_type (fhdr dm1) = ET_EXEC then execute_module_pre_initialization env dm1 ?u else Inr ?u")
        (simp_all add: place_load_def Let_def)
    then have s3: "frame s3 = frame s1"
      by (auto simp: execute_module_pre_initialization_def split: if_splits dest!: frame_run_array)
    have s': "s' = s3 \<lparr> dependency_list := dependency_list s3 @ [(dm_handle dm2, the (dm_name dm1))],
                   dependency_stack := (dm1, f) # dependency_stack s3 \<rparr>"
      using assms p i rel a e by (simp add: place_load_def Let_def bindE_eq_Inr split: if_splits)
    have "dm_handle dm1 = next_handle s"
      using count_data_allocate [OF a] h by (simp add: dm_handle_def count_data_def)
    then show ?thesis
      using s3 s' fr h by (simp add: frame_def relocated_def)
  qed
qed

lemma copy_globals_name:
  "DLSYM_copy_globals ok a m dm = Inr (m', dm') \<Longrightarrow> dm_name dm' = dm_name dm \<and> is_relocatable dm' = is_relocatable dm"
  by (auto simp: DLSYM_copy_globals_def Let_def split: if_splits)

lemma initialize_name:
  assumes "initialize_loaded_module env dm s = Inr (dm', s')"
  shows "dm_name dm' = dm_name dm" "is_relocatable dm' = is_relocatable dm"
proof -
  define dm1 where "dm1 = new_loaded_module (next_handle s) dm"
  have dm1: "dm_name dm1 = dm_name dm" "is_relocatable dm1 = is_relocatable dm"
    by (simp_all add: dm1_def new_loaded_module_def)
  obtain dm2 where dm2: "dm_name dm2 = dm_name dm1 \<and> is_relocatable dm2 = is_relocatable dm1" "add_segments dm2 = Inr dm'"
    using assms unfolding initialize_loaded_module_def Let_def dm1_def [symmetric]
    by (auto simp: bindE_eq_Inr map_sum_def split: if_splits sum.splits dest!: copy_globals_name)
  then show "dm_name dm' = dm_name dm" "is_relocatable dm' = is_relocatable dm"
    using dm1 by (auto simp: add_segments_def split: if_splits)
qed

text \<open>A file whose modules all have a dynamic segment: a library, or an executable that can be relocated.\<close>

definition dynamic :: "load_env \<Rightarrow> elf_file \<Rightarrow> bool" where
  "dynamic env f \<longleftrightarrow> (\<forall>s dm s'. start_load env f s = Inr (Some dm, s') \<longrightarrow> is_relocatable dm)"

lemma place_static:
  assumes "place_load env f dm s = Inr (Inl h, s')" "h \<noteq> 0"
  shows "\<not> is_relocatable dm"
proof -
  obtain dm2 s1 where i: "initialize_loaded_module env dm s = Inr (dm2, s1)"
    using assms(1) by (auto simp: place_load_def bindE_eq_Inr)
  have "\<not> is_relocatable dm2"
    using assms i by (auto simp: place_load_def Let_def bindE_eq_Inr split: if_splits)
  then show ?thesis
    using initialize_name(2) [OF i] by simp
qed

text \<open>
  What a load has done that is not at the bottom of the stack: it has pushed its modules with new handles, the later
  the higher, and has relocated nothing. With \<open>D\<close>, where all files are dynamic, every new handle is on the stack.
\<close>

definition stacked :: "bool \<Rightarrow> loader \<Rightarrow> loader \<Rightarrow> bool" where
  "stacked D s s' \<longleftrightarrow> dependency_list s' = dependency_list s \<and> relocated s' = relocated s \<and>
     next_handle s \<le> next_handle s' \<and> next_handle s' \<le> 0x7FFFFFFF \<and>
     (\<exists>st. dependency_stack s' = st @ dependency_stack s \<and> sorted_wrt (>) (map (dm_handle \<circ> fst) st) \<and>
        (\<forall>e \<in> set st. next_handle s \<le> dm_handle (fst e) \<and> dm_handle (fst e) < next_handle s') \<and>
        (D \<longrightarrow> unat (next_handle s') = unat (next_handle s) + length st))"

lemma stacked_trans: "stacked D s s1 \<Longrightarrow> stacked D s1 s2 \<Longrightarrow> stacked D s s2"
  unfolding stacked_def
  apply (elim conjE exE)
  subgoal for st1 st2
    apply (intro conjI exI [of _ "st2 @ st1"])
    apply (auto simp: sorted_wrt_append)
    apply fastforce+
    done
  done

lemma stacked_weaken: "stacked D s s' \<Longrightarrow> D' \<longrightarrow> D \<Longrightarrow> stacked D' s s'"
  by (auto simp: stacked_def)

lemma stacked_refl: "next_handle s \<le> 0x7FFFFFFF \<Longrightarrow> stacked D s s"
  by (simp add: stacked_def)

lemma frame_eq:
  assumes "frame s' = frame s"
  shows "dependency_list s' = dependency_list s" "dependency_stack s' = dependency_stack s" "next_handle s' = next_handle s"
    "relocated s' = relocated s"
  using assms by (simp_all add: frame_def)

lemma stacked_frame: "frame s1' = frame s1 \<Longrightarrow> stacked D s s1 \<Longrightarrow> stacked D s s1'"
  using frame_eq [of s1' s1] by (simp add: stacked_def)

lemma stacked_frame_left: "frame s' = frame s \<Longrightarrow> stacked D s' s1 \<Longrightarrow> stacked D s s1"
  using frame_eq [of s' s] by (simp add: stacked_def)

text \<open>A state with a load under way.\<close>

definition nested :: "loader \<Rightarrow> bool" where
  "nested s \<longleftrightarrow> dependency_stack s \<noteq> [] \<and> dm_handle (fst (last (dependency_stack s))) < next_handle s \<and> next_handle s \<le> 0x7FFFFFFF"

lemma nested_stacked: "nested s \<Longrightarrow> stacked D s s1 \<Longrightarrow> nested s1"
  by (auto simp: nested_def stacked_def)

lemma nested_frame: "frame s' = frame s \<Longrightarrow> nested s' = nested s"
  using frame_eq [of s' s] by (simp add: nested_def)

lemma frame_use_object: "use_object h s = Inr s' \<Longrightarrow> frame s' = frame s"
  by (auto simp: use_object_def split: if_splits)

text \<open>What the core asks of a load of a dependent.\<close>

definition all_dynamic :: "load_env \<Rightarrow> bool" where
  "all_dynamic env \<longleftrightarrow> (\<forall>g \<in> ran (files env). dynamic env g)"

locale stacking_load =
  fixes env :: load_env and load :: "elf_file \<Rightarrow> loader \<Rightarrow> (u32 \<times> loader) result"
  assumes load_stacked: "load f s = Some (Inr (h, s')) \<Longrightarrow> h \<noteq> 0 \<Longrightarrow> nested s \<Longrightarrow> stacked (dynamic env f \<and> all_dynamic env) s s'"
begin

lemma dependencies_stacked:
  "dload_and_allocate_dependencies load env dm ds s = Some (Inr (True, s')) \<Longrightarrow> nested s \<Longrightarrow> stacked (all_dynamic env) s s'"
proof (induction ds arbitrary: s)
  case (Cons d ds)
  let ?all = "dload_and_allocate_dependencies load env dm"
  have add: "stacked (all_dynamic env) s s'" if "stacked (all_dynamic env) s s1" "?all ds (add_dependency (dm_handle dm) h s1) = Some (Inr (True, s'))" for h s1
  proof -
    have f: "frame (add_dependency (dm_handle dm) h s1) = frame s1"
      by simp
    have "nested (add_dependency (dm_handle dm) h s1)"
      unfolding nested_frame [OF f] by (rule nested_stacked [OF Cons.prems(2) that(1)])
    then show ?thesis
      by (rule stacked_trans [OF that(1) stacked_frame_left [OF f Cons.IH [OF that(2)]]])
  qed
  show ?case
  proof (cases "d_tag d = DT_NULL \<or> d_tag d \<noteq> DT_NEEDED")
    case True
    then show ?thesis
      using Cons by (auto simp: nested_def intro: stacked_refl split: if_splits)
  next
    case False
    then obtain nm found where nm: "c_string (strbuf dm) (d_un d) = Inr nm" and found: "find_named (gone s) nm (objects s) = Inr found"
      using Cons.prems(1) by (auto simp: bind_result_eq_Inr)
    show ?thesis
    proof (cases found)
      case None
      then obtain h s1 where l: "DLIF_load_dependent load env nm s = Some (Inr (h, s1))" "h \<noteq> 0"
        and rest: "?all ds (add_dependency (dm_handle dm) h s1) = Some (Inr (True, s'))"
        using Cons.prems(1) False nm found by (auto simp: bind_result_eq_Inr Let_def split: if_splits)
      have "stacked (all_dynamic env) s s1"
        using l load_stacked [of _ s h s1] Cons.prems(2)
        by (auto simp: DLIF_load_dependent_def all_dynamic_def ran_def intro: stacked_weaken split: option.splits)
      then show ?thesis
        using add rest by blast
    next
      case (Some h)
      then obtain s1 where u: "use_object h s = Inr s1"
        and rest: "?all ds (add_dependency (dm_handle dm) h s1) = Some (Inr (True, s'))"
        using Cons.prems(1) False nm found by (auto simp: bind_result_eq_Inr)
      have "stacked (all_dynamic env) s s1"
        using frame_use_object [OF u] Cons.prems(2) by (auto simp: nested_def intro: stacked_frame stacked_refl)
      then show ?thesis
        using add rest by blast
    qed
  qed
qed simp

end

text \<open>From the start of a load to its end.\<close>

lemma load_parts:
  assumes "DLOAD_load env (Suc n) f s = Some (Inr (h, s'))" "h \<noteq> 0"
  obtains dm s1 where "start_load env f s = Inr (Some dm, s1)" "place_load env f dm s1 = Inr (Inl h, s')"
  | dm s1 dm1 s2 s3 where "start_load env f s = Inr (Some dm, s1)" "place_load env f dm s1 = Inr (Inr dm1, s2)"
    "dload_and_allocate_dependencies (DLOAD_load env n) env dm1 (dyntab dm1) s2 = Some (Inr (True, s3))"
    "relocate_dependency_graph_modules env dm1 (s3 \<lparr> dependency_list := butlast (dependency_list s3) \<rparr>) = Inr (h, s')"
proof -
  obtain dm s1 where st: "start_load env f s = Inr (Some dm, s1)"
    using assms by (auto simp: bind_result_eq_Inr split: option.splits)
  obtain placed s2 where p: "place_load env f dm s1 = Inr (placed, s2)"
    using assms(1) st by (auto simp: bind_result_eq_Inr)
  show thesis
  proof (cases placed)
    case (Inl h1)
    then have "h = h1" "s' = s2"
      using assms(1) st p by simp_all
    then show thesis
      using that(1) st p Inl by simp
  next
    case (Inr dm1)
    then obtain ok s3 where d: "dload_and_allocate_dependencies (DLOAD_load env n) env dm1 (dyntab dm1) s2 = Some (Inr (ok, s3))"
      and e: "end_load env dm1 ok s3 = Inr (h, s')"
      using assms(1) st p by (auto simp: bind_result_eq_Inr)
    then show thesis
      using that(2) st p Inr assms(2) by (cases ok) (auto simp: end_load_def bindE_eq_Inr)
  qed
qed

lemma handle_step: "h \<le> 0x7FFFFFFF \<Longrightarrow> h \<noteq> 0x7FFFFFFF \<Longrightarrow> h < h + 1 \<and> h + 1 \<le> (0x7FFFFFFF :: u32)"
proof -
  assume a: "h \<le> 0x7FFFFFFF" "h \<noteq> 0x7FFFFFFF"
  then have "unat h < 0x7FFFFFFF"
    by (simp add: word_le_nat_alt word_unat_eq_iff)
  moreover from this have "unat (h + 1) = Suc (unat h)"
    by (subst unat_plus_if') simp
  ultimately show ?thesis
    by (simp add: word_le_nat_alt word_less_nat_alt)
qed

text \<open>A module that was placed and its dependents, before the relocations.\<close>

lemma placed_stacked:
  assumes load: "stacking_load env (DLOAD_load env n)"
    and st: "start_load env f s = Inr (Some dm, s1)" and p: "place_load env f dm s1 = Inr (Inr dm1, s2)"
    and d: "dload_and_allocate_dependencies (DLOAD_load env n) env dm1 (dyntab dm1) s2 = Some (Inr (True, s3))"
    and nx: "next_handle s \<le> 0x7FFFFFFF" "dependency_stack s \<noteq> [] \<Longrightarrow> dm_handle (fst (last (dependency_stack s))) < next_handle s"
  shows "dm_handle dm1 = next_handle s" "stacked (all_dynamic env) s (s3 \<lparr> dependency_list := butlast (dependency_list s3) \<rparr>)"
    "dependency_list s3 = dependency_list s @ [(next_handle s, the (dm_name dm1))]"
    "\<exists>st. dependency_stack s3 = st @ (dm1, f) # dependency_stack s"
proof -
  note s1 = frame_eq [OF frame_start [OF st]]
  have h: "dm_handle dm1 = next_handle s" "next_handle s \<noteq> 0x7FFFFFFF"
    and s2: "dependency_list s2 = dependency_list s @ [(next_handle s, the (dm_name dm1))]"
      "dependency_stack s2 = (dm1, f) # dependency_stack s" "next_handle s2 = next_handle s + 1" "relocated s2 = relocated s"
    using place_frame(1) [OF p refl] s1 by (auto simp: frame_def)
  note up = handle_step [OF nx(1) h(2)]
  have "nested s2"
    using up h(1) nx(2) by (auto simp: nested_def s2 dest: order.strict_trans)
  then have s3: "stacked (all_dynamic env) s2 s3"
    using stacking_load.dependencies_stacked [OF load d] by blast
  show "dm_handle dm1 = next_handle s" by (rule h)
  show "dependency_list s3 = dependency_list s @ [(next_handle s, the (dm_name dm1))]"
    using s3 s2 by (simp add: stacked_def)
  show "\<exists>st. dependency_stack s3 = st @ (dm1, f) # dependency_stack s"
    using s3 s2 by (auto simp: stacked_def)
  have one: "unat (next_handle s + 1) = Suc (unat (next_handle s))"
    using up by (subst unat_plus_if') (simp add: word_less_nat_alt word_le_nat_alt)
  obtain st where st: "dependency_stack s3 = st @ (dm1, f) # dependency_stack s" "sorted_wrt (>) (map (dm_handle \<circ> fst) st)"
    "all_dynamic env \<longrightarrow> unat (next_handle s3) = Suc (unat (next_handle s)) + length st"
    "\<forall>e \<in> set st. next_handle s + 1 \<le> dm_handle (fst e) \<and> dm_handle (fst e) < next_handle s3"
    using s3 s2 one by (auto simp: stacked_def)
  have "next_handle s + 1 \<le> next_handle s3" "next_handle s3 \<le> 0x7FFFFFFF" "relocated s3 = relocated s"
    using s3 s2 by (auto simp: stacked_def)
  moreover have "relocated (s3 \<lparr> dependency_list := l \<rparr>) = relocated s3" for l
    by (simp add: relocated_def)
  moreover have "next_handle s < dm_handle (fst e)" "next_handle s \<le> dm_handle (fst e)" if "e \<in> set st" for e
    using st(4) up that by force+
  ultimately show "stacked (all_dynamic env) s (s3 \<lparr> dependency_list := butlast (dependency_list s3) \<rparr>)"
    unfolding stacked_def using s3 s2 st up h(1)
    by (intro conjI exI [of _ "st @ [(dm1, f)]"]) (auto simp: stacked_def sorted_wrt_append)
qed

lemma load_keeps_stack: "stacking_load env (DLOAD_load env n)"
proof (induction n)
  case 0
  show ?case by unfold_locales simp
next
  case (Suc n)
  show ?case
  proof
    fix f s h s'
    assume l: "DLOAD_load env (Suc n) f s = Some (Inr (h, s'))" and nz: "h \<noteq> 0" and nst: "nested s"
    have nx: "next_handle s \<le> 0x7FFFFFFF" "dm_handle (fst (last (dependency_stack s))) < next_handle s" "dependency_stack s \<noteq> []"
      using nst by (simp_all add: nested_def)
    show "stacked (dynamic env f \<and> all_dynamic env) s s'"
      using l nz
    proof (cases rule: load_parts)
      case (1 dm s1)
      note s1 = frame_eq [OF frame_start [OF 1(1)]]
      have static: "\<not> dynamic env f"
        using 1(1) place_static [OF 1(2) nz] by (auto simp: dynamic_def)
      have "frame s' = (dependency_list s, dependency_stack s, next_handle s + 1, relocated s)" "next_handle s \<noteq> 0x7FFFFFFF"
        using place_frame(2) [OF 1(2) refl nz] s1 by (simp_all add: frame_def)
      then show ?thesis
        using handle_step [OF nx(1)] static by (auto simp: stacked_def frame_def)
    next
      case (2 dm s1 dm1 s2 s3)
      let ?s4 = "s3 \<lparr> dependency_list := butlast (dependency_list s3) \<rparr>"
      note ps = placed_stacked [OF Suc.IH 2(1-3) nx(1,2)]
      obtain st where st: "dependency_stack s3 = st @ (dm1, f) # dependency_stack s"
        using ps(4) by blast
      then have "dm_handle (fst (last (dependency_stack ?s4))) \<noteq> dm_handle dm1"
        using ps(1) nx(2,3) by auto
      then have "s' = ?s4"
        using 2(4) st by (simp add: relocate_dependency_graph_modules_def Let_def)
      then show ?thesis
        using ps(2) by (auto intro: stacked_weaken)
    qed
  qed
qed

interpretation dload_stack: stacking_load env "DLOAD_load env n" for env n
  by (rule load_keeps_stack)

end
