(* ===== verification/Dload_Depth.thy ===== *)
theory Dload_Depth
  imports Dload_Order
begin

text \<open>How deep loads are nested: no further than there are names of modules.\<close>

section \<open>The list of names\<close>

lemma graph_list:
  "relocate_dependency_graph_modules env dm s = Inr (h, s') \<Longrightarrow> dependency_list s' = dependency_list s"
  unfolding relocate_dependency_graph_modules_def
  by (auto simp: Let_def bindE_eq_Inr frame_def log_def split: if_splits dest!: stack_frame)

text \<open>The names in the list stay while dependents are loaded.\<close>

definition returns_from :: "(elf_file \<Rightarrow> bool) \<Rightarrow> (u32 \<times> string) list \<Rightarrow> (elf_file \<Rightarrow> loader \<Rightarrow> (u32 \<times> loader) result) \<Rightarrow> bool" where
  "returns_from known l load \<longleftrightarrow>
     (\<forall>f s. known f \<longrightarrow> dependency_list s = l \<longrightarrow>
        load f s \<noteq> None \<and> (\<forall>h s'. load f s = Some (Inr (h, s')) \<longrightarrow> h \<noteq> 0 \<longrightarrow> dependency_list s' = l))"

lemma dependencies_return:
  assumes load: "returns_from known l load" and known: "\<forall>nm f. files env nm = Some f \<longrightarrow> known f"
  shows "dependency_list s = l \<Longrightarrow> dload_and_allocate_dependencies load env dm ds s \<noteq> None \<and>
    (\<forall>s'. dload_and_allocate_dependencies load env dm ds s = Some (Inr (True, s')) \<longrightarrow> dependency_list s' = l)"
proof (induction ds arbitrary: s)
  case (Cons d ds)
  let ?all = "dload_and_allocate_dependencies load env dm"
  show ?case
  proof (cases "d_tag d = DT_NULL \<or> d_tag d \<noteq> DT_NEEDED")
    case True
    then show ?thesis
      using Cons.IH [OF Cons.prems] Cons.prems by (cases "d_tag d = DT_NULL") simp_all
  next
    case needed: False
    show ?thesis
    proof (cases "c_string (strbuf dm) (d_un d)")
      case (Inr nm)
      note nm = Inr
      show ?thesis
      proof (cases "find_named (gone s) nm (objects s)")
        case (Inr found)
        show ?thesis
        proof (cases found)
          case (Some h)
          show ?thesis
          proof (cases "use_object h s")
            case u: (Inr s1)
            have "dependency_list (add_dependency (dm_handle dm) h s1) = l"
              using frame_use_object [OF u] Cons.prems by (simp add: frame_def add_dependency_def update_object_def)
            from Cons.IH [OF this] show ?thesis
              using needed nm Inr Some u by simp
          qed (use needed nm Inr Some in simp)
        next
          case None
          have r: "DLIF_load_dependent load env nm s \<noteq> None"
            "\<And>h s1. DLIF_load_dependent load env nm s = Some (Inr (h, s1)) \<Longrightarrow> h \<noteq> 0 \<Longrightarrow> dependency_list s1 = l"
            using load known Cons.prems by (auto simp: DLIF_load_dependent_def returns_from_def split: option.splits)
          then obtain x where x: "DLIF_load_dependent load env nm s = Some x"
            by auto
          show ?thesis
          proof (cases x)
            case y: (Inr p)
            obtain h s1 where p: "p = (h, s1)" by (cases p)
            show ?thesis
            proof (cases "h = 0")
              case False
              then have "dependency_list (add_dependency (dm_handle dm) h s1) = l"
                using r(2) x y p by (simp add: add_dependency_def update_object_def)
              from Cons.IH [OF this] show ?thesis
                using False needed nm Inr None x y p by (simp add: Let_def)
            qed (use needed nm Inr None x y p in \<open>simp add: Let_def\<close>)
          qed (use needed nm Inr None x in simp)
        qed
      qed (use needed nm in simp)
    qed (use needed in simp)
  qed
qed simp

section \<open>Names are new\<close>

lemma check_new: "check_circular_dependency loading nm = Inr True \<Longrightarrow> Some nm \<notin> set loading \<and> None \<notin> set loading"
  by (induction loading nm rule: check_circular_dependency.induct) (auto split: if_splits)

lemma soname_read: "read_soname renv loc dm = Inr (True, dm') \<Longrightarrow> dm_name dm' \<noteq> None"
  by (auto simp: read_soname_def bindE_eq_Inr split: if_splits)

lemma table_name:
  assumes "process_dynamic_table renv f dm = Inr (True, dm')"
  shows "dm_name dm' \<noteq> None"
proof -
  obtain loc dm1 where t: "process_tags 0 (dyntab dm)
      (\<lparr> soname_found = False, soname_offset = 0, strtab_offset = 0, hash_offset = 0, symtab_offset = 0 \<rparr>, dm) = Inr (loc, dm1)"
    using assms by (auto simp: process_dynamic_table_def bindE_eq_Inr)
  obtain ok2 dm2 where r: "read_strings renv f (strtab_offset loc) dm1 = (ok2, dm2)"
    by (cases "read_strings renv f (strtab_offset loc) dm1")
  obtain ok3 dm3 where n: "read_symnum f (hash_offset loc) dm2 = (ok3, dm3)"
    by (cases "read_symnum f (hash_offset loc) dm2")
  have "ok2" "ok3"
    using assms t r n by (auto simp: process_dynamic_table_def Let_def split: if_splits)
  then obtain dm4 where "read_soname renv loc dm4 = Inr (True, dm')"
    using assms t r n by (auto simp: process_dynamic_table_def bindE_eq_Inr split: if_splits)
  then show ?thesis
    by (rule soname_read)
qed

lemma segment_name:
  assumes "dload_dynamic_segment renv loading f dm = Inr (True, dm')" "is_relocatable dm'"
  shows "check_circular_dependency loading (the (dm_name dm')) = Inr True" "dm_name dm' \<noteq> None"
proof -
  obtain idx dm1 where d: "find_dynamic_segment dm = Inr (idx, dm1)" "is_relocatable dm1 \<longleftrightarrow> idx \<noteq> None"
    using assms(1) by (auto simp: dload_dynamic_segment_def find_dynamic_segment_def bindE_eq_Inr)
  obtain i where i: "idx = Some i"
    using assms d by (cases idx) (auto simp: dload_dynamic_segment_def)
  then obtain dm2 where "process_dynamic_table renv f dm2 = Inr (True, dm')"
    "check_circular_dependency loading (the (dm_name dm')) = Inr True"
    using assms(1) d by (auto simp: dload_dynamic_segment_def dload_dynamic_information_def bindE_eq_Inr split: if_splits)
  then show "check_circular_dependency loading (the (dm_name dm')) = Inr True" "dm_name dm' \<noteq> None"
    by (auto dest: table_name)
qed

lemma names_loading_new:
  assumes "None \<notin> set (names_loading s)" "Some nm \<notin> set (names_loading s)"
  shows "nm \<notin> snd ` set (dependency_list s)"
  using assms by (force simp: names_loading_def image_iff split: if_splits prod.splits)

lemma start_name_new:
  assumes "start_load env f s = Inr (Some dm, s1)" "is_relocatable dm"
  shows "the (dm_name dm) \<notin> snd ` set (dependency_list s)"
proof -
  obtain renv t dm0 dm1 where seg: "dload_dynamic_segment renv (names_loading (s \<lparr> target_machine := t \<rparr>)) f dm0 = Inr (True, dm1)"
    and dm: "dm = dm1 \<lparr> c_args := 0x02204000, dm_name := Some (case dm_name dm1 of None \<Rightarrow> [] | Some nm \<Rightarrow> nm) \<rparr>"
    using assms(1) unfolding start_load_def by (auto simp: Let_def bindE_eq_Inr split: if_splits)
  have "is_relocatable dm1"
    using assms(2) dm by simp
  note n = segment_name [OF seg this]
  have "the (dm_name dm) = the (dm_name dm1)"
    using n(2) by (auto simp: dm)
  then show ?thesis
    using check_new [OF n(1)] names_loading_new [of "s \<lparr> target_machine := t \<rparr>" "the (dm_name dm1)"] by simp
qed

lemma place_segment_name: "dm_name (place_segment t i dm) = dm_name dm"
  by (simp add: place_segment_def Let_def move_entry_def split: prod.split)

lemma place_segments_name: "dm_name (snd (place_segments alloc is dm)) = dm_name dm"
  by (induction alloc "is" dm rule: place_segments.induct) (auto simp: place_segment_name split: option.splits)

lemma tag_name: "relocate_tag d dm = Some (v, dm') \<Longrightarrow> dm_name dm' = dm_name dm"
  by (auto simp: relocate_tag_def Let_def split: if_splits)

lemma tags_name: "relocate_tags front ds dm = Inr (ok, dm') \<Longrightarrow> dm_name dm' = dm_name dm"
  by (induction front ds dm rule: relocate_tags.induct) (auto split: if_splits option.splits dest!: tag_name)

lemma allocate_name:
  "allocate_dynamic_segments_and_relocate_symbols alloc dm = Inr (ok, dm') \<Longrightarrow> dm_name dm' = dm_name dm"
  using place_segments_name [of alloc "[0..<length (loaded_segments (loaded_module dm))]" dm]
  by (auto simp: allocate_dynamic_segments_and_relocate_symbols_def relocate_dynamic_tag_info_def
      split: prod.splits bool.splits dest!: tags_name)

lemma place_name:
  assumes "place_load env f dm s = Inr (Inr dm1, s')"
  shows "is_relocatable dm" "dm_name dm1 = dm_name dm"
proof -
  obtain dm2 s1 where i: "initialize_loaded_module env dm s = Inr (dm2, s1)"
    using assms(1) by (auto simp: place_load_def bindE_eq_Inr)
  have rel: "is_relocatable dm2"
    using assms i by (auto simp: place_load_def Let_def split: if_splits prod.splits)
  then obtain alloc where "allocate_dynamic_segments_and_relocate_symbols alloc dm2 = Inr (True, dm1)"
    using assms i by (auto simp: place_load_def bindE_eq_Inr Let_def split: if_splits)
  then show "is_relocatable dm" "dm_name dm1 = dm_name dm"
    using initialize_name [OF i] allocate_name rel by metis+
qed

lemma load_returns_from:
  assumes "finite N" and known: "\<forall>nm f. files env nm = Some f \<longrightarrow> known f"
    and names: "\<And>f s dm s'. known f \<Longrightarrow> start_load env f s = Inr (Some dm, s') \<Longrightarrow> the (dm_name dm) \<in> N"
  shows "card (N - snd ` set l) < n \<Longrightarrow> returns_from known l (DLOAD_load env n)"
proof (induction n arbitrary: l)
  case (Suc n)
  show ?case
    unfolding returns_from_def
  proof (intro allI impI)
    fix f and s :: loader
    assume f: "known f" and s: "dependency_list s = l"
    show "DLOAD_load env (Suc n) f s \<noteq> None \<and>
      (\<forall>h s'. DLOAD_load env (Suc n) f s = Some (Inr (h, s')) \<longrightarrow> h \<noteq> 0 \<longrightarrow> dependency_list s' = l)"
    proof (cases "start_load env f s")
      case (Inr p)
      show ?thesis
      proof (cases "fst p")
        case (Some dm)
        then obtain s1 where st: "start_load env f s = Inr (Some dm, s1)"
          using Inr by (cases p) auto
        have s1: "dependency_list s1 = l"
          using frame_start [OF st] s by (simp add: frame_def)
        show ?thesis
        proof (cases "place_load env f dm s1")
          case pl: (Inr q)
          show ?thesis
          proof (cases "fst q")
            case (Inl h)
            then have "place_load env f dm s1 = Inr (Inl h, snd q)"
              using pl by (cases q) auto
            note q = this
            have "h \<noteq> 0 \<Longrightarrow> dependency_list (snd q) = l"
              using place_frame(2) [OF q refl] s1 by (simp add: frame_def)
            then show ?thesis
              using st q by auto
          next
            case (Inr dm1)
            then have q: "place_load env f dm s1 = Inr (Inr dm1, snd q)"
              using pl by (cases q) auto
            let ?l = "l @ [(dm_handle dm1, the (dm_name dm))]"
            have s2: "dependency_list (snd q) = ?l"
              using place_frame(1) [OF q refl] s1 place_name(2) [OF q] by (simp add: frame_def)
            have nm: "the (dm_name dm) \<in> N" "the (dm_name dm) \<notin> snd ` set l"
              using names [OF f st] start_name_new [OF st place_name(1) [OF q]] s by simp_all
            have "N - snd ` set ?l \<subset> N - snd ` set l"
              using nm by auto
            then have "card (N - snd ` set ?l) < card (N - snd ` set l)"
              using assms(1) by (intro psubset_card_mono) auto
            then have "returns_from known ?l (DLOAD_load env n)"
              using Suc by simp
            note d = dependencies_return [OF this known s2, of dm1 "dyntab dm1"]
            then obtain r where r: "dload_and_allocate_dependencies (DLOAD_load env n) env dm1 (dyntab dm1) (snd q) = Some r"
              by blast
            show ?thesis
            proof (cases r)
              case e: (Inr p3)
              obtain ok s3 where p3: "p3 = (ok, s3)" by (cases p3)
              have "dependency_list s' = l" if "end_load env dm1 ok s3 = Inr (h, s')" "h \<noteq> 0" for h s'
              proof -
                have "ok"
                  using that by (auto simp: end_load_def bindE_eq_Inr split: if_splits)
                then show ?thesis
                  using that d r e p3 by (auto simp: end_load_def dest!: graph_list)
              qed
              then show ?thesis
                using st q r e p3 by simp
            qed (use st q r in simp)
          qed
        qed (use st in simp)
      qed (use Inr s in \<open>cases p, simp\<close>)
    qed simp
  qed
qed simp

end
