(* ===== verification/Dload_Samples.thy ===== *)
theory Dload_Samples
  imports Dload_Depth
begin

text \<open>
  Files on which the properties of the loader are evaluated: a static executable without segments, and two ARM libraries \<open>a\<close> and \<open>b\<close>
  without segments that name each other as dependents.
\<close>

definition words_mem :: "u32 list \<Rightarrow> mem" where
  "words_mem ws = (\<lambda>a. if unat a div 4 < length ws then ucast (drop_bit (8 * (unat a mod 4)) (ws ! (unat a div 4))) else 0)"

definition static_file :: elf_file where
  "static_file =
     \<lparr> content = words_mem [0x464C457F, 0x00010101, 0, 0, 0x00280002, 1, 0x8000, 52, 0, 0, 0x00200034, 0, 0], file_size = 52 \<rparr>"

text \<open>
  A file header, the program header of the dynamic table, and the dynamic table with the name, the dependent, the string table at 140,
  the hash table at 144 and the (empty) symbol table at 148.
\<close>

definition library_file :: "u32 \<Rightarrow> u32 \<Rightarrow> elf_file" where
  "library_file name needed =
     \<lparr> content = words_mem [0x464C457F, 0x00010101, 0, 0, 0x00280003, 1, 0, 52, 0, 0, 0x00200034, 1, 0,
         2, 84, 0, 0, 56, 56, 6, 4,
         14, name, 1, needed, 5, 140, 10, 4, 4, 144, 6, 148, 0, 0,
         0x00620061, 0, 0, 0, 0],
       file_size = 160 \<rparr>"

definition sample_reads :: read_env where
  "sample_reads = \<lparr> granted = (\<lambda>_. True), strtab_at = 0x8000 \<rparr>"

definition loader_env :: load_env where
  "loader_env =
     \<lparr> files = (\<lambda>nm. if nm = ''a'' then Some (library_file 0 2) else if nm = ''b'' then Some (library_file 2 0) else None),
       reads = (\<lambda>_. sample_reads), symbols_granted = (\<lambda>_. True), names_at = (\<lambda>_. 0x9000), place = (\<lambda>h i. Some 0x1000),
       mapped_at = (\<lambda>_ _. Some 0x2000), target_words = (\<lambda>_ n. replicate n 0), dsbt_registered = (\<lambda>_. True),
       relocs = \<lparr> lookup_malloc = (\<lambda>_. True), application_handle = 0, loaded_objects = [], stale_symval = 0, stale_addend = 0,
         static_base_name = 0, DLIF_get_dsbt_index = (\<lambda>_. 0) \<rparr>,
       reloc_malloc = (\<lambda>_. True) \<rparr>"

section \<open>Reading a library\<close>

definition library_header :: DLIMP_Dynamic_Module where
  "library_header = new_DLIMP_Dynamic_Module
     \<lparr> fhdr := \<lparr> e_ident = [0x7F, 0x45, 0x4C, 0x46, 1, 1, 1, 0, 0, 0, 0, 0, 0, 0, 0, 0], e_type = 3, e_machine = 40, e_version = 1,
         e_entry = 0, e_phoff = 52, e_shoff = 0, e_flags = 0, e_ehsize = 52, e_phentsize = 32, e_phnum = 1, e_shentsize = 0,
         e_shnum = 0, e_shstrndx = 0 \<rparr>,
       dm_phdr := [\<lparr> p_type = 2, p_offset = 84, p_vaddr = 0, p_paddr = 0, p_filesz = 56, p_memsz = 56, p_flags = 6, p_align = 4 \<rparr>],
       phnum := 1 \<rparr>"

definition library_tags :: "u32 \<Rightarrow> u32 \<Rightarrow> Elf32_Dyn list" where
  "library_tags name needed =
     [\<lparr> d_tag = 14, d_un = name \<rparr>, \<lparr> d_tag = 1, d_un = needed \<rparr>, \<lparr> d_tag = 5, d_un = 140 \<rparr>, \<lparr> d_tag = 10, d_un = 4 \<rparr>,
      \<lparr> d_tag = 4, d_un = 144 \<rparr>, \<lparr> d_tag = 6, d_un = 148 \<rparr>, \<lparr> d_tag = 0, d_un = 0 \<rparr>]"

definition library_module :: "u32 \<Rightarrow> u32 \<Rightarrow> string \<Rightarrow> DLIMP_Dynamic_Module" where
  "library_module name needed nm = library_header
     \<lparr> is_relocatable := True, dyntab := library_tags name needed, strsz := 4, strtab := 0x8000, strbuf := [0x61, 0, 0x62, 0],
       symnum := 0, symtab := [], dm_name := Some nm \<rparr>"

lemma headers_read:
  "dload_headers sample_reads 0 (library_file 0 2) new_DLIMP_Dynamic_Module = Inr (True, 40, library_header)"
  "dload_headers sample_reads 40 (library_file 2 0) new_DLIMP_Dynamic_Module = Inr (True, 40, library_header)"
  by code_simp+

lemma tables_read:
  "table_at dyn_at 8 (content (library_file 0 2)) 84 7 = library_tags 0 2"
  "table_at dyn_at 8 (content (library_file 2 0)) 84 7 = library_tags 2 0"
  "table_at read8 1 (content (library_file 0 2)) 140 4 = [0x61, 0, 0x62, 0]"
  "table_at read8 1 (content (library_file 2 0)) 140 4 = [0x61, 0, 0x62, 0]"
  "read32 (content (library_file 0 2)) 148 = 0" "read32 (content (library_file 2 0)) 148 = 0"
  by code_simp+

lemma names_read:
  "c_string [0x61, 0, 0x62, 0] 0 = Inr ''a''" "c_string [0x61, 0, 0x62, 0] 2 = Inr ''b''"
  by code_simp+


lemma tags_processed:
  "process_tags 0 (library_tags name needed)
     (\<lparr> soname_found = False, soname_offset = 0, strtab_offset = 0, hash_offset = 0, symtab_offset = 0 \<rparr>, dm) =
   Inr (\<lparr> soname_found = True, soname_offset = name, strtab_offset = 140, hash_offset = 144, symtab_offset = 148 \<rparr>,
     dm \<lparr> strsz := 4 \<rparr>)" if "e_machine (fhdr dm) = 40"
  using that by (simp add: library_tags_def tag_step_def Let_def process_target_dynamic_tag_def DLDYN_arm_process_dynamic_tag_def)

lemma table_processed:
  assumes "read32 (content f) 148 = 0" "table_at read8 1 (content f) 140 4 = [0x61, 0, 0x62, 0]" "c_string [0x61, 0, 0x62, 0] name = Inr nm"
  shows "process_dynamic_table sample_reads f (library_header \<lparr> is_relocatable := True, dyntab := library_tags name needed \<rparr>) =
    Inr (True, library_module name needed nm)"
proof -
  have "e_machine (fhdr (library_header \<lparr> is_relocatable := True, dyntab := library_tags name needed \<rparr>)) = 40"
    by (simp add: library_header_def)
  note tags = tags_processed [OF this, of name needed]
  have dt: "dyntab (library_header \<lparr> is_relocatable := True, dyntab := library_tags name needed \<rparr>) = library_tags name needed"
    by simp
  have hd: "wrong_endian library_header = False" "table_at sym_at 16 m a 0 = []" for m a
    by (simp_all add: library_header_def new_DLIMP_Dynamic_Module_def table_at_def)
  show ?thesis
    unfolding process_dynamic_table_def dt tags
    using assms by (simp add: read_strings_def read_symnum_def read_symbols_def read_soname_def sample_reads_def library_module_def hd)
qed

lemma segment_steps:
  assumes "table_at dyn_at 8 (content f) 84 7 = library_tags name needed"
    "read32 (content f) 148 = 0" "table_at read8 1 (content f) 140 4 = [0x61, 0, 0x62, 0]" "c_string [0x61, 0, 0x62, 0] name = Inr nm"
  shows "dload_dynamic_segment sample_reads loading f library_header =
    bindE (check_circular_dependency loading nm) (\<lambda>fresh. Inr (fresh, library_module name needed nm))"
proof -
  have find: "find_dynamic_segment library_header = Inr (Some 0, library_header \<lparr> is_relocatable := True \<rparr>)"
    by code_simp
  have abi: "process_eiosabi (library_header \<lparr> is_relocatable := True \<rparr>)"
    by code_simp
  have copy: "copy_dynamic_table sample_reads f (library_header \<lparr> is_relocatable := True \<rparr>) 0 =
      library_header \<lparr> is_relocatable := True, dyntab := library_tags name needed \<rparr>"
    using assms(1) by (simp add: copy_dynamic_table_def sample_reads_def library_header_def new_DLIMP_Dynamic_Module_def)
  have nm: "dm_name (library_module name needed nm) = Some nm"
    by (simp add: library_module_def)
  show ?thesis
    by (simp add: dload_dynamic_segment_def find abi dload_dynamic_information_def copy table_processed [OF assms(2-4)] nm)
qed

lemma segment_read:
  assumes "table_at dyn_at 8 (content f) 84 7 = library_tags name needed"
    "read32 (content f) 148 = 0" "table_at read8 1 (content f) 140 4 = [0x61, 0, 0x62, 0]" "c_string [0x61, 0, 0x62, 0] name = Inr nm"
    "check_circular_dependency loading nm = Inr True"
  shows "dload_dynamic_segment sample_reads loading f library_header = Inr (True, library_module name needed nm)"
  by (simp add: segment_steps [OF assms(1-4)] assms(5))

lemma library_valid: "is_valid_elf_object_file (library_file a b) (library_module name needed nm \<lparr> c_args := c \<rparr>) = Inr (nm \<noteq> [])"
  by (simp add: is_valid_elf_object_file_def library_file_def library_module_def library_header_def new_DLIMP_Dynamic_Module_def)

lemma library_started:
  assumes "dload_headers sample_reads (target_machine s) f new_DLIMP_Dynamic_Module = Inr (True, 40, library_header)"
    "table_at dyn_at 8 (content f) 84 7 = library_tags name needed"
    "read32 (content f) 148 = 0" "table_at read8 1 (content f) 140 4 = [0x61, 0, 0x62, 0]" "c_string [0x61, 0, 0x62, 0] name = Inr nm"
    "check_circular_dependency (names_loading s) nm = Inr True" "nm \<noteq> []" "f = library_file a b"
  shows "start_load loader_env f s = Inr (Some (library_module name needed nm \<lparr> c_args := 0x02204000 \<rparr>), s \<lparr> target_machine := 40 \<rparr>)"
proof -
  have env: "reads loader_env h = sample_reads" for h
    by (simp add: loader_env_def)
  have gr: "granted sample_reads b" for b
    by (simp add: sample_reads_def)
  have nl: "names_loading (s \<lparr> target_machine := 40 \<rparr>) = names_loading s"
    by (simp add: names_loading_def)
  have nm: "dm_name (library_module name needed nm) = Some nm"
    by (simp add: library_module_def)
  have same: "library_module name needed nm \<lparr> c_args := c, dm_name := Some nm \<rparr> = library_module name needed nm \<lparr> c_args := c \<rparr>" for c
    by (simp add: library_module_def)
  have valid: "is_valid_elf_object_file f (library_module name needed nm \<lparr> c_args := c \<rparr>) = Inr True" for c
    using assms(7) by (simp add: assms(8) library_valid)
  show ?thesis
    unfolding start_load_def Let_def env
    by (simp add: gr assms(1) nl segment_read [OF assms(2-6)] nm same valid)
qed


section \<open>Placing a library\<close>

definition library_object :: "u32 \<Rightarrow> string \<Rightarrow> DLIMP_Loaded_Module" where
  "library_object h nm = null_loaded_module
     \<lparr> lm_name := nm, file_handle := h, direct_dependent_only := True, use_count := 1, gstrtab := 0x9000, gstrsz := 4 \<rparr>"

definition placed_library :: "u32 \<Rightarrow> u32 \<Rightarrow> u32 \<Rightarrow> string \<Rightarrow> DLIMP_Dynamic_Module" where
  "placed_library h name needed nm = library_module name needed nm \<lparr> c_args := 0x02204000, loaded_module := library_object h nm \<rparr>"

lemma library_placed:
  assumes "next_handle s \<noteq> 0x7FFFFFFF" "\<forall>ob \<in> set (objects s). file_handle ob \<noteq> next_handle s"
  shows "\<exists>m. place_load loader_env f (library_module name needed nm \<lparr> c_args := 0x02204000 \<rparr>) s =
    Inr (Inr (placed_library (next_handle s) name needed nm),
      s \<lparr> next_handle := next_handle s + 1, host_memory := m, objects := objects s @ [library_object (next_handle s) nm],
          dependency_list := dependency_list s @ [(next_handle s, nm)],
          dependency_stack := (placed_library (next_handle s) name needed nm, f) # dependency_stack s \<rparr>)"
proof -
  let ?dm = "library_module name needed nm \<lparr> c_args := 0x02204000 \<rparr>" and ?h = "next_handle s"
  let ?lib = "placed_library ?h name needed nm"
  have hd: "gsymtab_offset ?dm = 0" "symnum ?dm = 0" "symtab ?dm = []" "strsz ?dm = 4" "is_relocatable ?dm" "dm_name ?dm = Some nm"
    "gstrtab_offset ?dm = 0" "dm_direct_dependent_only ?dm" "phnum ?dm = 1" "dsbt_size ?dm = 0" "e_type (fhdr ?dm) = 3"
    "map p_type (dm_phdr ?dm) = [2]" "dyntab ?dm = library_tags name needed"
    by (simp_all add: library_module_def library_header_def new_DLIMP_Dynamic_Module_def)
  have copy: "\<exists>m'. DLSYM_copy_globals True 0x9000 m (new_loaded_module ?h ?dm) =
      Inr (m', ?dm \<lparr> loaded_module := library_object ?h nm \<rparr>)" for m
    using hd by (simp add: DLSYM_copy_globals_def new_loaded_module_def library_object_def null_loaded_module_def)
  have seg: "add_segments ?lib = Inr ?lib"
    by (simp add: add_segments_def placed_library_def library_module_def library_header_def new_DLIMP_Dynamic_Module_def library_object_def
        null_loaded_module_def)
  obtain m where init: "initialize_loaded_module loader_env ?dm s = Inr (?lib, s \<lparr> next_handle := ?h + 1, host_memory := m \<rparr>)"
  proof -
    let ?m = "store_bytes (strtab (new_loaded_module ?h ?dm)) (strbuf (new_loaded_module ?h ?dm)) (host_memory s)"
    obtain m' where m': "DLSYM_copy_globals True 0x9000 ?m (new_loaded_module ?h ?dm) = Inr (m', ?lib)"
      using copy [of ?m] by (auto simp: placed_library_def)
    have "is_relocatable (new_loaded_module ?h ?dm)"
      using hd(5) by (simp add: new_loaded_module_def)
    then have "initialize_loaded_module loader_env ?dm s = Inr (?lib, s \<lparr> next_handle := ?h + 1, host_memory := m' \<rparr>)"
      using assms(1) m' seg by (simp add: initialize_loaded_module_def Let_def loader_env_def)
    then show thesis
      by (rule that)
  qed
  have lib: "dm_handle ?lib = ?h" "loaded_module ?lib = library_object ?h nm" "is_relocatable ?lib" "dm_name ?lib = Some nm"
    "dsbt_size ?lib = 0" "e_type (fhdr ?lib) = 3" "dyntab ?lib = library_tags name needed" "loaded_segments (library_object ?h nm) = []"
    by (simp_all add: placed_library_def dm_handle_def library_module_def library_header_def new_DLIMP_Dynamic_Module_def library_object_def
        null_loaded_module_def)
  have plain: "relocate_tag d dm = Some (d_un d, dm)" if "d_tag d \<in> set plain_tags" for d dm
    using that by (simp add: relocate_tag_def Let_def)
  have "relocate_tags [] (library_tags name needed) dm = Inr (True, dm \<lparr> dyntab := library_tags name needed \<rparr>)" for dm
    by (simp add: library_tags_def plain plain_tags_def)
  then have alloc: "allocate_dynamic_segments_and_relocate_symbols a ?lib = Inr (True, ?lib)" for a
    using lib by (simp add: allocate_dynamic_segments_and_relocate_symbols_def relocate_dynamic_tag_info_def placed_library_def
        library_module_def)
  have upd: "update_object ?h (\<lambda>_. library_object ?h nm) (s1 \<lparr> objects := objects s @ [library_object ?h nm] \<rparr>) =
      s1 \<lparr> objects := objects s @ [library_object ?h nm] \<rparr>" for s1
    using assms(2) by (simp add: update_object_def library_object_def map_idI)
  show ?thesis
    using lib upd by (intro exI [of _ m]) (simp add: place_load_def init Let_def alloc)
qed


section \<open>Relocating a library\<close>

lemma library_relocates: "dyntab dm = library_tags name needed \<Longrightarrow> DLREL_relocate renv ok f dm m = Some (Inr (m, []))"
  by (simp add: DLREL_relocate_def read_plt_table_def read_got_tables_def Let_def library_tags_def)

definition without_segments :: "loader \<Rightarrow> bool" where
  "without_segments s \<longleftrightarrow> (\<forall>ob \<in> set (objects s). loaded_segments ob = [])"

lemma library_popped:
  assumes "without_segments s" "h \<notin> set (freed s)"
  shows "\<exists>s'. relocate_popped loader_env root (placed_library h name needed nm, f) s = Inr s' \<and> without_segments s' \<and>
    freed s' = h # freed s"
proof -
  let ?lib = "placed_library h name needed nm"
  have lib: "dm_handle ?lib = h" "loaded_segments (loaded_module ?lib) = []" "dyntab ?lib = library_tags name needed"
    "e_machine (fhdr ?lib) = 40" "init_idx ?lib = 0xFFFFFFFF" "init_arraysz ?lib = 0"
    by (simp_all add: placed_library_def dm_handle_def library_module_def library_header_def new_DLIMP_Dynamic_Module_def library_object_def
        null_loaded_module_def)
  define lm where "lm = attached_module ?lib s"
  have lm: "loaded_segments lm = []" "file_handle lm = h"
    using assms(1) lib by (auto simp: lm_def attached_module_def without_segments_def dm_handle_def find_Some_iff split: option.splits)
  let ?dm = "?lib \<lparr> loaded_module := lm \<lparr> loaded_segments := [] \<rparr> \<rparr>"
  have dm: "dm_handle ?dm = h" "init_idx ?dm = 0xFFFFFFFF" "init_arraysz ?dm = 0" "e_machine (fhdr ?dm) = 40"
    "dyntab ?dm = library_tags name needed"
    using lib lm by (simp_all add: dm_handle_def)
  have run: "run_relocator loader_env f ?dm s1 m = Some (Inr (m, ?dm))" for s1 m
    using dm by (simp add: run_relocator_def Let_def library_relocates [of _ name needed])
  have proc: "process_dynamic_module_relocations loader_env f ?lib s =
      Inr (?dm, log [Relocated h] (update_object h (\<lambda>ob. ob \<lparr> loaded_segments := [] \<rparr>) s \<lparr> host_memory := host_memory s \<rparr>))"
    using lm(1) run by (simp add: process_dynamic_module_relocations_def Let_def lm_def [symmetric] lib(1))
  have init: "execute_module_initialization loader_env ?dm s1 = Inr s1" for s1
    using dm by (simp add: execute_module_initialization_def run_array_def)
  have free: "freed (update_object a g s1) = freed s1" "without_segments (log ev s1) = without_segments s1" "freed (log ev s1) = freed s1"
    "without_segments (s1 \<lparr> freed := fr \<rparr>) = without_segments s1" "without_segments (s1 \<lparr> host_memory := m \<rparr>) = without_segments s1" for a g s1 ev fr m
    by (simp_all add: update_object_def without_segments_def log_def)
  have keep: "without_segments (update_object a (\<lambda>ob. ob \<lparr> loaded_segments := [] \<rparr>) s)"
    "\<And>s1 e. without_segments s1 \<Longrightarrow> without_segments (update_object a (\<lambda>ob. ob \<lparr> entry_point := e \<rparr>) s1)" for a
    using assms(1) by (auto simp: without_segments_def update_object_def)
  show ?thesis
    using assms(2) keep by (simp add: relocate_popped_def Let_def lib(1) proc init delete_DLIMP_Dynamic_Module_def dm(1) free)
qed

section \<open>Two libraries that need each other\<close>

lemma library_fields:
  "dyntab (placed_library h name needed nm) = library_tags name needed" "strbuf (placed_library h name needed nm) = [0x61, 0, 0x62, 0]"
  "dm_handle (placed_library h name needed nm) = h"
  "file_handle (library_object h nm) = h" "lm_name (library_object h nm) = nm" "use_count (library_object h nm) = 1"
  "dependencies (library_object h nm) = []" "loaded_segments (library_object h nm) = []"
  by (simp_all add: placed_library_def library_module_def dm_handle_def library_object_def null_loaded_module_def)

lemma libraries_loaded:
  obtains s where "DLOAD_load loader_env 2 (library_file 0 2) DLOAD_create = Some (Inr (1, s))"
    "counts s = ([(1, 2, [2]), (2, 1, [1])], [], 3)" "relocated s = [2, 1]"
proof -
  let ?a = "library_file 0 2" and ?b = "library_file 2 0"
  let ?s0 = "DLOAD_create \<lparr> target_machine := 40 \<rparr>"
  have sa: "start_load loader_env ?a DLOAD_create = Inr (Some (library_module 0 2 ''a'' \<lparr> c_args := 0x02204000 \<rparr>), ?s0)"
    using headers_read(1) tables_read(1,3,5) names_read(1)
    by (intro library_started) (simp_all add: DLOAD_create_def names_loading_def)
  obtain m1 where pa: "place_load loader_env ?a (library_module 0 2 ''a'' \<lparr> c_args := 0x02204000 \<rparr>) ?s0 =
      Inr (Inr (placed_library 1 0 2 ''a''), ?s0 \<lparr> next_handle := 2, host_memory := m1, objects := [library_object 1 ''a''],
        dependency_list := [(1, ''a'')], dependency_stack := [(placed_library 1 0 2 ''a'', ?a)] \<rparr>)"
    using library_placed [of ?s0 ?a 0 2 "''a''"] by (auto simp: DLOAD_create_def)
  define s1 where "s1 = ?s0 \<lparr> next_handle := 2, host_memory := m1, objects := [library_object 1 ''a''],
        dependency_list := [(1, ''a'')], dependency_stack := [(placed_library 1 0 2 ''a'', ?a)] \<rparr>"
  have s1: "objects s1 = [library_object 1 ''a'']" "gone s1 = []" "freed s1 = []" "target_machine s1 = 40" "next_handle s1 = 2"
    "dependency_list s1 = [(1, ''a'')]" "dependency_stack s1 = [(placed_library 1 0 2 ''a'', ?a)]" "s1 \<lparr> target_machine := 40 \<rparr> = s1"
    by (simp_all add: s1_def DLOAD_create_def)
  have sb: "start_load loader_env ?b s1 = Inr (Some (library_module 2 0 ''b'' \<lparr> c_args := 0x02204000 \<rparr>), s1)"
    using headers_read(2) tables_read(2,4,6) names_read(2)
    by (subst library_started [where a = 2 and b = 0]) (simp_all add: s1 names_loading_def)
  obtain m2 where pb: "place_load loader_env ?b (library_module 2 0 ''b'' \<lparr> c_args := 0x02204000 \<rparr>) s1 =
      Inr (Inr (placed_library 2 2 0 ''b''), s1 \<lparr> next_handle := 3, host_memory := m2,
        objects := [library_object 1 ''a'', library_object 2 ''b''],
        dependency_list := [(1, ''a''), (2, ''b'')],
        dependency_stack := [(placed_library 2 2 0 ''b'', ?b), (placed_library 1 0 2 ''a'', ?a)] \<rparr>)"
    using library_placed [of s1 ?b 2 0 "''b''"] by (auto simp: s1 library_fields)
  define s2 where "s2 = s1 \<lparr> next_handle := 3, host_memory := m2,
        objects := [library_object 1 ''a'', library_object 2 ''b''],
        dependency_list := [(1, ''a''), (2, ''b'')],
        dependency_stack := [(placed_library 2 2 0 ''b'', ?b), (placed_library 1 0 2 ''a'', ?a)] \<rparr>"
  have s2: "objects s2 = [library_object 1 ''a'', library_object 2 ''b'']" "gone s2 = []" "freed s2 = []"
    by (simp_all add: s2_def s1)
  define s3 where "s3 = s2 \<lparr> objects := [library_object 1 ''a'' \<lparr> use_count := 2 \<rparr>, library_object 2 ''b'' \<lparr> dependencies := [1] \<rparr>] \<rparr>"
  have ub: "use_object 1 s2 = Inr (s2 \<lparr> objects := [library_object 1 ''a'' \<lparr> use_count := 2 \<rparr>, library_object 2 ''b''] \<rparr>)"
    by (simp add: use_object_def s2 update_object_def library_fields)
  have db: "dload_and_allocate_dependencies load loader_env (placed_library 2 2 0 ''b'') (library_tags 2 0) s2 = Some (Inr (True, s3))" for load
    by (simp add: library_tags_def library_fields names_read s2 ub add_dependency_def update_object_def s3_def)
  have eb: "end_load loader_env (placed_library 2 2 0 ''b'') True s3 = Inr (2, s3 \<lparr> dependency_list := [(1, ''a'')] \<rparr>)"
    by (simp add: end_load_def relocate_dependency_graph_modules_def Let_def library_fields s3_def s2_def)
  have lb: "DLOAD_load loader_env 1 ?b s1 = Some (Inr (2, s3 \<lparr> dependency_list := [(1, ''a'')] \<rparr>))"
    using sb pb db eb by (simp add: s2_def [symmetric] library_fields)
  define s4 where "s4 = s3 \<lparr> dependency_list := [],
      objects := [library_object 1 ''a'' \<lparr> use_count := 2, dependencies := [2] \<rparr>, library_object 2 ''b'' \<lparr> dependencies := [1] \<rparr>] \<rparr>"
  have fb: "files loader_env ''b'' = Some ?b"
    by (simp add: loader_env_def)
  have da: "dload_and_allocate_dependencies (DLOAD_load loader_env 1) loader_env (placed_library 1 0 2 ''a'') (library_tags 0 2) s1 =
      Some (Inr (True, s4 \<lparr> dependency_list := [(1, ''a'')] \<rparr>))"
    by (simp add: library_tags_def library_fields names_read s1 DLIF_load_dependent_def fb lb Let_def add_dependency_def update_object_def
        s4_def s3_def del: DLOAD_load.simps One_nat_def)
  have s4: "dependency_stack s4 = [(placed_library 2 2 0 ''b'', ?b), (placed_library 1 0 2 ''a'', ?a)]" "without_segments s4" "freed s4 = []"
    by (simp_all add: s4_def s3_def s2_def s1_def DLOAD_create_def without_segments_def library_fields)
  obtain s5 where s5: "relocate_popped loader_env 1 (placed_library 2 2 0 ''b'', ?b)
      (log [DsbtsAssigned] s4 \<lparr> dependency_stack := [(placed_library 1 0 2 ''a'', ?a)] \<rparr>) = Inr s5" "without_segments s5" "freed s5 = [2]"
    using library_popped [of "log [DsbtsAssigned] s4 \<lparr> dependency_stack := [(placed_library 1 0 2 ''a'', ?a)] \<rparr>" 2 1 2 0 "''b''" ?b] s4
    by (auto simp: log_def without_segments_def)
  obtain s6 where s6: "relocate_popped loader_env 1 (placed_library 1 0 2 ''a'', ?a) (s5 \<lparr> dependency_stack := [] \<rparr>) = Inr s6"
    using library_popped [of "s5 \<lparr> dependency_stack := [] \<rparr>" 1 1 0 2 "''a''" ?a] s5 by (auto simp: without_segments_def)
  have "end_load loader_env (placed_library 1 0 2 ''a'') True (s4 \<lparr> dependency_list := [(1, ''a'')] \<rparr>) =
      Inr (1, s6 \<lparr> dependency_stack := [] \<rparr>)"
  proof -
    have "s4 \<lparr> dependency_list := butlast [(1, ''a'')] \<rparr> = s4"
      by (simp add: s4_def)
    then show ?thesis
      using s4 s5 s6 by (simp add: end_load_def relocate_dependency_graph_modules_def Let_def library_fields)
  qed
  then have "DLOAD_load loader_env 2 ?a DLOAD_create = Some (Inr (1, s6 \<lparr> dependency_stack := [] \<rparr>))"
    using sa pa da by (simp add: numeral_2_eq_2 s1_def [symmetric] library_fields)
  moreover have "counts s6 = counts s4"
    using counts_popped [OF s5(1)] counts_popped [OF s6] by simp
  then have "counts (s6 \<lparr> dependency_stack := [] \<rparr>) = ([(1, 2, [2]), (2, 1, [1])], [], 3)"
    by (simp add: counts_def s4_def s3_def s2_def s1 count_data_def library_fields)
  moreover have "relocated (s6 \<lparr> dependency_stack := [] \<rparr>) = [2, 1]"
    using popped_frame [OF s5(1)] popped_frame [OF s6]
    by (simp add: frame_def library_fields relocated_def log_def s4_def s3_def s2_def s1_def DLOAD_create_def)
  ultimately show thesis
    by (rule that)
qed

section \<open>The names of the libraries\<close>

lemma headers_any:
  assumes "dload_headers sample_reads m f new_DLIMP_Dynamic_Module = Inr (True, t, dm)" "f = library_file 0 2 \<or> f = library_file 2 0"
  shows "dm = library_header"
proof -
  have eh: "ehdr_at (content f) 0 = fhdr library_header"
    using assms(2) by (elim disjE) (simp_all only:, code_simp+)
  have ph: "table_at phdr_at 32 (content f) 52 (Suc 0) = dm_phdr library_header"
    using assms(2) by (elim disjE) (simp_all only:, code_simp+)
  have magic: "file_header_magic_number_is_valid h" for h
    by (simp add: file_header_magic_number_is_valid_def c_not_def)
  have id: "e_ident (fhdr library_header) ! 5 = 1" "e_machine (fhdr library_header) = 40" "e_phnum (fhdr library_header) = 1"
    "e_phentsize (fhdr library_header) = 32" "e_phoff (fhdr library_header) = 52" "e_type (fhdr library_header) = 3"
    by code_simp+
  have "new_DLIMP_Dynamic_Module \<lparr> fhdr := fhdr library_header, wrong_endian := False, dm_phdr := dm_phdr library_header, phnum := 1 \<rparr> = library_header"
    by (simp add: library_header_def new_DLIMP_Dynamic_Module_def)
  then show ?thesis
    using assms(1)
    by (auto simp: dload_headers_def dload_file_header_def eh Let_def magic id file_header_machine_is_valid_def dload_program_header_table_def
        sample_reads_def ph bindE_eq_Inr split: if_splits)
qed

lemma segment_any:
  assumes "table_at dyn_at 8 (content f) 84 7 = library_tags name needed"
    "read32 (content f) 148 = 0" "table_at read8 1 (content f) 140 4 = [0x61, 0, 0x62, 0]" "c_string [0x61, 0, 0x62, 0] name = Inr nm"
    "dload_dynamic_segment sample_reads loading f library_header = Inr (True, dm)"
  shows "dm_name dm = Some nm"
  using assms(5) by (auto simp: segment_steps [OF assms(1-4)] bindE_eq_Inr library_module_def)

lemma library_names:
  assumes "g = library_file 0 2 \<or> g \<in> ran (files loader_env)" "start_load loader_env g s = Inr (Some dm, s')"
  shows "the (dm_name dm) \<in> {''a'', ''b''}"
proof -
  have g: "g = library_file 0 2 \<or> g = library_file 2 0"
    using assms(1) by (auto simp: loader_env_def ran_def split: if_splits)
  obtain m t dm0 dm1 loading where "dload_headers sample_reads m g new_DLIMP_Dynamic_Module = Inr (True, t, dm0)"
    and seg: "dload_dynamic_segment sample_reads loading g dm0 = Inr (True, dm1)"
    and dm: "dm_name dm = Some (case dm_name dm1 of None \<Rightarrow> [] | Some nm \<Rightarrow> nm)"
    using assms(2) unfolding start_load_def by (auto simp: Let_def bindE_eq_Inr loader_env_def split: if_splits)
  then have "dm0 = library_header"
    using headers_any g by blast
  then have "dm_name dm1 = Some ''a'' \<or> dm_name dm1 = Some ''b''"
    using g seg segment_any [OF tables_read(1,5,3) names_read(1)] segment_any [OF tables_read(2,6,4) names_read(2)] by blast
  then show ?thesis
    using dm by auto
qed

lemma library_relocatable:
  assumes "g = library_file 0 2 \<or> g \<in> ran (files loader_env)" "start_load loader_env g s = Inr (Some dm, s')"
  shows "is_relocatable dm"
proof -
  have g: "g = library_file 0 2 \<or> g = library_file 2 0"
    using assms(1) by (auto simp: loader_env_def ran_def split: if_splits)
  obtain m t dm0 dm1 loading where "dload_headers sample_reads m g new_DLIMP_Dynamic_Module = Inr (True, t, dm0)"
    and seg: "dload_dynamic_segment sample_reads loading g dm0 = Inr (True, dm1)"
    and dm: "is_relocatable dm = is_relocatable dm1"
    using assms(2) unfolding start_load_def by (auto simp: Let_def bindE_eq_Inr loader_env_def split: if_splits)
  then have "dm0 = library_header"
    using headers_any g by blast
  then have "is_relocatable dm1"
    using g seg segment_steps [OF tables_read(1,5,3) names_read(1)] segment_steps [OF tables_read(2,6,4) names_read(2)]
    by (auto simp: bindE_eq_Inr library_module_def)
  then show ?thesis
    using dm by simp
qed

end
