(* ===== verification/Dload_Place_Props.thy ===== *)
theory Dload_Place_Props
  imports Dload_Place
begin

text \<open>
  All addresses of a module move together: its entry point, its symbols, their copies among the global symbols and the values of
  its dynamic tags go by the same function of the addresses of its segments before and after.
\<close>

section \<open>Ranges\<close>

text \<open>A range that does not wrap around.\<close>

definition no_wrap :: "u32 \<Rightarrow> u32 \<Rightarrow> bool" where
  "no_wrap lo sz \<longleftrightarrow> unat lo + unat sz < 2 ^ 32"

lemma within_offset:
  assumes "no_wrap lo sz"
  shows "within lo sz a \<longleftrightarrow> unat (a - lo) < unat sz"
proof -
  have hi: "unat (lo + sz) = unat lo + unat sz"
    using assms by (intro unat_add_lem [THEN iffD1]) (simp add: no_wrap_def)
  show ?thesis
  proof (cases "lo \<le> a")
    case True
    then have "unat (a - lo) = unat a - unat lo"
      by (rule unat_sub)
    then show ?thesis
      using True hi by (auto simp: within_def word_less_nat_alt word_le_nat_alt)
  next
    case False
    have "unat (a - lo) = 2 ^ 32 - unat lo + unat a"
      using False unsigned_less [of lo, where 'a=nat] by (simp add: unat_sub_if_size word_size word_le_nat_alt)
    then show ?thesis
      using False assms by (auto simp: within_def no_wrap_def)
  qed
qed

lemma within_moved: "no_wrap lo sz \<Longrightarrow> no_wrap (lo + d) sz \<Longrightarrow> within (lo + d) sz (a + d) \<longleftrightarrow> within lo sz a"
  by (simp add: within_offset)

section \<open>Symbols\<close>

definition move_symbol :: "u32 \<Rightarrow> u32 \<Rightarrow> u32 \<Rightarrow> Elf32_Sym \<Rightarrow> Elf32_Sym" where
  "move_symbol off start sz s =
     (if within start sz (st_value s + off) \<and> st_shndx s \<noteq> INT16_MAX
      then s \<lparr> st_value := st_value s + off, st_shndx := INT16_MAX \<rparr> else s)"

lemma move_symbols_map: "fst (move_symbols off start sz gi j ss g) = map (move_symbol off start sz) ss"
  by (induction off start sz gi j ss g rule: move_symbols.induct) (auto simp: Let_def move_symbol_def split: prod.splits)

text \<open>The copies of the symbols from \<open>gi\<close> on, the first symbol of the list being number \<open>j\<close>.\<close>

definition copies_agree :: "nat \<Rightarrow> nat \<Rightarrow> Elf32_Sym list \<Rightarrow> Elf32_Sym list \<Rightarrow> bool" where
  "copies_agree gi j ss g \<longleftrightarrow>
     (\<forall>i < length ss. gi \<le> j + i \<longrightarrow> j + i - gi < length g \<and> st_value (g ! (j + i - gi)) = st_value (ss ! i))"

lemma copies_agree_Cons:
  "copies_agree gi j (s # ss) g \<longleftrightarrow>
     (gi \<le> j \<longrightarrow> j - gi < length g \<and> st_value (g ! (j - gi)) = st_value s) \<and> copies_agree gi (Suc j) ss g"
  by (auto simp: copies_agree_def less_Suc_eq_0_disj)

lemma copies_agree_update:
  "i < j - gi \<Longrightarrow> copies_agree gi j ss (g[i := x]) = copies_agree gi j ss g"
  by (auto simp: copies_agree_def)

lemma move_symbols_below:
  "length (snd (move_symbols off start sz gi j ss g)) = length g \<and>
   (\<forall>i. i + gi < j \<longrightarrow> snd (move_symbols off start sz gi j ss g) ! i = g ! i)"
  by (induction off start sz gi j ss g rule: move_symbols.induct) (auto simp: Let_def split: prod.splits)

lemma move_symbols_agree:
  "copies_agree gi j ss g \<Longrightarrow>
   copies_agree gi j (fst (move_symbols off start sz gi j ss g)) (snd (move_symbols off start sz gi j ss g))"
proof (induction off start sz gi j ss g rule: move_symbols.induct)
  case (2 off start sz gi j s ss g)
  let ?adj = "st_value s + off"
  let ?hit = "within start sz ?adj \<and> st_shndx s \<noteq> INT16_MAX"
  let ?g1 = "if gi \<le> j then g[j - gi := (g ! (j - gi)) \<lparr> st_value := ?adj \<rparr>] else g"
  define g0 where "g0 = (if ?hit then ?g1 else g)"
  have g: "gi \<le> j \<Longrightarrow> j - gi < length g \<and> st_value (g ! (j - gi)) = st_value s" "copies_agree gi (Suc j) ss g"
    using 2(3) by (auto simp: copies_agree_Cons)
  have g0: "copies_agree gi (Suc j) ss g0" "length g0 = length g"
    "gi \<le> j \<Longrightarrow> st_value (g0 ! (j - gi)) = (if ?hit then ?adj else st_value s)"
    using g by (auto simp: g0_def copies_agree_update)
  have ih: "copies_agree gi (Suc j) (fst (move_symbols off start sz gi (Suc j) ss g0)) (snd (move_symbols off start sz gi (Suc j) ss g0))"
    using 2(1,2) g0(1) by (cases ?hit) (auto simp: g0_def)
  have below: "length (snd (move_symbols off start sz gi (Suc j) ss g0)) = length g"
    "gi \<le> j \<Longrightarrow> snd (move_symbols off start sz gi (Suc j) ss g0) ! (j - gi) = g0 ! (j - gi)"
    using move_symbols_below [of off start sz gi "Suc j" ss g0] g0(2) by auto
  have res: "move_symbols off start sz gi j (s # ss) g =
      (move_symbol off start sz s # fst (move_symbols off start sz gi (Suc j) ss g0), snd (move_symbols off start sz gi (Suc j) ss g0))"
    by (cases ?hit) (auto simp: g0_def Let_def move_symbol_def split: prod.split)
  have "st_value (move_symbol off start sz s) = (if ?hit then ?adj else st_value s)"
    by (simp add: move_symbol_def)
  then show ?case
    unfolding res fst_conv snd_conv copies_agree_Cons using ih below g(1) g0(3) by simp
qed simp

section \<open>All segments\<close>

text \<open>An address after the move.\<close>

definition moved :: "DLIMP_Loaded_Segment list \<Rightarrow> u32 \<Rightarrow> u32" where
  "moved segs a = (case DLIMP_update_dyntag_section_address segs a of None \<Rightarrow> a | Some b \<Rightarrow> b)"

definition placed_at :: "u32 \<Rightarrow> DLIMP_Loaded_Segment \<Rightarrow> DLIMP_Loaded_Segment" where
  "placed_at target seg = seg \<lparr> input_vaddr := p_vaddr (phdr seg), phdr := (phdr seg) \<lparr> p_vaddr := target \<rparr> \<rparr>"

lemma address_append:
  "DLIMP_update_dyntag_section_address (xs @ ys) a =
     (case DLIMP_update_dyntag_section_address xs a of None \<Rightarrow> DLIMP_update_dyntag_section_address ys a | Some b \<Rightarrow> Some b)"
  by (induction xs) auto

definition move_known :: "DLIMP_Loaded_Segment list \<Rightarrow> Elf32_Sym \<Rightarrow> Elf32_Sym" where
  "move_known segs s =
     (case DLIMP_update_dyntag_section_address segs (st_value s) of
        None \<Rightarrow> s | Some b \<Rightarrow> s \<lparr> st_value := b, st_shndx := INT16_MAX \<rparr>)"

lemma move_symbol_step:
  assumes "no_wrap (p_vaddr (phdr seg)) (p_memsz (phdr seg))" "no_wrap target (p_memsz (phdr seg))" "st_shndx s \<noteq> INT16_MAX"
  shows "move_symbol (target - p_vaddr (phdr seg)) target (p_memsz (phdr seg)) (move_known segs s) =
    move_known (segs @ [placed_at target seg]) s"
proof -
  let ?va = "p_vaddr (phdr seg)" and ?sz = "p_memsz (phdr seg)"
  have "within target ?sz (a + (target - ?va)) \<longleftrightarrow> within ?va ?sz a" for a
    using within_moved [of ?va ?sz "target - ?va" a] assms(1,2) by simp
  then show ?thesis
    using assms(3) by (auto simp: move_symbol_def move_known_def address_append placed_at_def split: option.splits)
qed


text \<open>The state after the first \<open>k\<close> segments.\<close>

definition placed_prefix :: "(nat \<Rightarrow> u32 option) \<Rightarrow> nat \<Rightarrow> DLIMP_Loaded_Segment list \<Rightarrow> DLIMP_Loaded_Segment list" where
  "placed_prefix alloc k segs = map (\<lambda>i. placed_at (the (alloc i)) (segs ! i)) [0..<k]"

definition placing :: "(nat \<Rightarrow> u32 option) \<Rightarrow> nat \<Rightarrow> DLIMP_Dynamic_Module \<Rightarrow> DLIMP_Dynamic_Module \<Rightarrow> bool" where
  "placing alloc k dm0 dm \<longleftrightarrow>
     (let segs = loaded_segments (loaded_module dm0); front = placed_prefix alloc k segs in
      loaded_segments (loaded_module dm) = front @ drop k segs \<and>
      symtab dm = map (move_known front) (symtab dm0) \<and>
      global_index dm = global_index dm0 \<and>
      copies_agree (global_index dm0) 0 (symtab dm) (gsymtab (loaded_module dm)) \<and>
      e_entry (fhdr dm) = moved front (e_entry (fhdr dm0)) \<and>
      (relocate_entry_point dm \<longleftrightarrow> DLIMP_update_dyntag_section_address front (e_entry (fhdr dm0)) = None))"

lemma placing_step:
  assumes p: "placing alloc k dm0 dm" and k: "k < length (loaded_segments (loaded_module dm0))" and t: "alloc k = Some target"
    and seg: "seg = loaded_segments (loaded_module dm0) ! k"
    and fits: "no_wrap (p_vaddr (phdr seg)) (p_memsz (phdr seg))" "no_wrap target (p_memsz (phdr seg))"
    and syms: "\<forall>s \<in> set (symtab dm0). st_shndx s \<noteq> INT16_MAX"
  shows "placing alloc (Suc k) dm0 (place_segment target k dm)"
proof -
  let ?segs = "loaded_segments (loaded_module dm0)"
  let ?va = "p_vaddr (phdr seg)" and ?sz = "p_memsz (phdr seg)"
  let ?off = "target - ?va"
  define front where "front = placed_prefix alloc k ?segs"
  have len: "length front = k"
    by (simp add: front_def placed_prefix_def)
  have segs: "loaded_segments (loaded_module dm) = front @ drop k ?segs" and dk: "drop k ?segs = seg # drop (Suc k) ?segs"
    using p k seg by (simp_all add: placing_def front_def Let_def Cons_nth_drop_Suc)
  have cur: "loaded_segments (loaded_module dm) ! k = seg"
    by (simp add: segs dk nth_append len)
  have front': "placed_prefix alloc (Suc k) ?segs = front @ [placed_at target seg]"
    by (simp add: placed_prefix_def front_def t seg)
  define dm1 where "dm1 = move_entry ?off ?va ?sz dm"
  define moved_syms where "moved_syms = move_symbols ?off target ?sz (global_index dm) 0 (symtab dm) (gsymtab (loaded_module dm))"
  have dm1: "symtab dm1 = symtab dm" "loaded_module dm1 = loaded_module dm" "global_index dm1 = global_index dm"
    by (simp_all add: dm1_def move_entry_def global_index_def)
  have res: "symtab (place_segment target k dm) = fst moved_syms"
    "gsymtab (loaded_module (place_segment target k dm)) = snd moved_syms"
    "loaded_segments (loaded_module (place_segment target k dm)) = (front @ drop k ?segs)[k := placed_at target seg]"
    "global_index (place_segment target k dm) = global_index dm"
    "fhdr (place_segment target k dm) = fhdr dm1" "relocate_entry_point (place_segment target k dm) = relocate_entry_point dm1"
    using dm1 unfolding place_segment_def Let_def cur dm1_def [symmetric] global_index_def
    by (auto simp: moved_syms_def placed_at_def segs global_index_def split: prod.split)
  have "(front @ drop k ?segs)[k := placed_at target seg] = placed_prefix alloc (Suc k) ?segs @ drop (Suc k) ?segs"
    by (simp add: dk front' len list_update_append)
  moreover have "fst moved_syms = map (move_known (placed_prefix alloc (Suc k) ?segs)) (symtab dm0)"
    using p fits syms move_symbol_step
    by (simp add: moved_syms_def move_symbols_map placing_def Let_def front_def [symmetric] front')
  moreover have "copies_agree (global_index dm0) 0 (fst moved_syms) (snd moved_syms)"
  proof -
    have gi: "copies_agree (global_index dm) 0 (symtab dm) (gsymtab (loaded_module dm))" "global_index dm0 = global_index dm"
      using p unfolding placing_def Let_def by auto
    show ?thesis
      unfolding gi(2) moved_syms_def by (rule move_symbols_agree [OF gi(1)])
  qed
  moreover have "e_entry (fhdr dm1) = moved (placed_prefix alloc (Suc k) ?segs) (e_entry (fhdr dm0)) \<and>
      (relocate_entry_point dm1 \<longleftrightarrow> DLIMP_update_dyntag_section_address (placed_prefix alloc (Suc k) ?segs) (e_entry (fhdr dm0)) = None)"
    using p by (auto simp: dm1_def move_entry_def placing_def Let_def front_def [symmetric] front' moved_def address_append placed_at_def
        split: option.splits)
  ultimately show ?thesis
    using p by (simp add: placing_def Let_def res)
qed

lemma placing_all:
  assumes "place_segments alloc [k..<length (loaded_segments (loaded_module dm0))] dm = (True, dm')" "placing alloc k dm0 dm"
    "k \<le> length (loaded_segments (loaded_module dm0))"
    and fits: "\<forall>i < length (loaded_segments (loaded_module dm0)).
      let seg = loaded_segments (loaded_module dm0) ! i in
      no_wrap (p_vaddr (phdr seg)) (p_memsz (phdr seg)) \<and> no_wrap (the (alloc i)) (p_memsz (phdr seg))"
    and syms: "\<forall>s \<in> set (symtab dm0). st_shndx s \<noteq> INT16_MAX"
  shows "placing alloc (length (loaded_segments (loaded_module dm0))) dm0 dm'"
  using assms(1-3)
proof (induction "length (loaded_segments (loaded_module dm0)) - k" arbitrary: k dm)
  case (Suc m)
  then have k: "k < length (loaded_segments (loaded_module dm0))"
    by simp
  then have "[k..<length (loaded_segments (loaded_module dm0))] = k # [Suc k..<length (loaded_segments (loaded_module dm0))]"
    by (rule upt_conv_Cons)
  then obtain target where t: "alloc k = Some target"
    and rest: "place_segments alloc [Suc k..<length (loaded_segments (loaded_module dm0))] (place_segment target k dm) = (True, dm')"
    using Suc.prems(1) by (auto split: option.splits)
  have "placing alloc (Suc k) dm0 (place_segment target k dm)"
    using placing_step [OF Suc.prems(2) k t refl] fits k t syms by (auto simp: Let_def)
  then show ?case
    using Suc.hyps(1) [OF _ rest] Suc.hyps(2) k by simp
qed simp

lemma moved_known: "st_value (move_known segs s) = moved segs (st_value s)"
  by (simp add: move_known_def moved_def split: option.splits)

text \<open>The tags whose values are addresses.\<close>

definition address_tags :: "u32 set" where
  "address_tags = {DT_INIT, DT_FINI, DT_INIT_ARRAY, DT_FINI_ARRAY, DT_PREINIT_ARRAY}"

lemma relocate_tag_value:
  assumes "relocate_tag d dm = Some (v, dm')"
  shows "d_tag d \<in> address_tags \<Longrightarrow> DLIMP_update_dyntag_section_address (loaded_segments (loaded_module dm)) (d_un d) = Some v"
    "loaded_segments (loaded_module dm') = loaded_segments (loaded_module dm)" "symtab dm' = symtab dm"
    "gsymtab (loaded_module dm') = gsymtab (loaded_module dm)" "fhdr dm' = fhdr dm"
  using assms by (auto simp: relocate_tag_def Let_def address_tags_def plain_tags_def split: if_splits)

lemma relocate_tags_values:
  "relocate_tags front ds dm = Inr (True, dm') \<Longrightarrow>
   loaded_segments (loaded_module dm') = loaded_segments (loaded_module dm) \<and> symtab dm' = symtab dm \<and>
   gsymtab (loaded_module dm') = gsymtab (loaded_module dm) \<and> fhdr dm' = fhdr dm \<and>
   (\<exists>ds'. dyntab dm' = front @ ds' \<and> (\<forall>i < length (takeWhile (\<lambda>d. d_tag d \<noteq> DT_NULL) ds). d_tag (ds ! i) \<in> address_tags \<longrightarrow>
      DLIMP_update_dyntag_section_address (loaded_segments (loaded_module dm)) (d_un (ds ! i)) = Some (d_un (ds' ! i))))"
proof (induction front ds dm rule: relocate_tags.induct)
  case (2 front d ds dm)
  show ?case
  proof (cases "d_tag d = DT_NULL")
    case False
    then obtain v dm1 where t: "relocate_tag d dm = Some (v, dm1)"
      and r: "relocate_tags (front @ [d \<lparr> d_un := v \<rparr>]) ds dm1 = Inr (True, dm')"
      using "2.prems" by (auto split: option.splits)
    note ih = "2.IH" [OF False t refl r] and v = relocate_tag_value [OF t]
    obtain ds' where ds': "dyntab dm' = front @ d \<lparr> d_un := v \<rparr> # ds'"
      "\<forall>i < length (takeWhile (\<lambda>d. d_tag d \<noteq> DT_NULL) ds). d_tag (ds ! i) \<in> address_tags \<longrightarrow>
        DLIMP_update_dyntag_section_address (loaded_segments (loaded_module dm)) (d_un (ds ! i)) = Some (d_un (ds' ! i))"
      using ih v(2) by auto
    then show ?thesis
      using ih v False by (intro conjI exI [of _ "d \<lparr> d_un := v \<rparr> # ds'"]) (auto simp: less_Suc_eq_0_disj)
  qed (use "2.prems" in auto)
qed simp

lemma place_segment_dyntab: "dyntab (place_segment t i dm) = dyntab dm"
  by (simp add: place_segment_def Let_def move_entry_def split: prod.split)

lemma place_segments_dyntab: "dyntab (snd (place_segments alloc is dm)) = dyntab dm"
  by (induction alloc "is" dm rule: place_segments.induct) (auto simp: place_segment_dyntab split: option.splits)

text \<open>C2: When no segment wraps around, before or after, the entry point, all symbols, the copies of the global symbols and the
  address tags of a module move by one function of its segments.\<close>

theorem place_moves_all:
  assumes "allocate_dynamic_segments_and_relocate_symbols alloc dm = Inr (True, dm')"
    "\<forall>i < length (loaded_segments (loaded_module dm)).
      let seg = loaded_segments (loaded_module dm) ! i in
      no_wrap (p_vaddr (phdr seg)) (p_memsz (phdr seg)) \<and> no_wrap (the (alloc i)) (p_memsz (phdr seg))"
    "\<forall>s \<in> set (symtab dm). st_shndx s \<noteq> INT16_MAX" "relocate_entry_point dm"
    "copies_agree (global_index dm) 0 (symtab dm) (gsymtab (loaded_module dm))"
  shows "let segs = loaded_segments (loaded_module dm') in
    segs = placed_prefix alloc (length (loaded_segments (loaded_module dm))) (loaded_segments (loaded_module dm)) \<and>
    e_entry (fhdr dm') = moved segs (e_entry (fhdr dm)) \<and>
    map st_value (symtab dm') = map (moved segs \<circ> st_value) (symtab dm) \<and>
    copies_agree (global_index dm) 0 (symtab dm') (gsymtab (loaded_module dm')) \<and>
    (\<forall>i < length (takeWhile (\<lambda>d. d_tag d \<noteq> DT_NULL) (dyntab dm)). d_tag (dyntab dm ! i) \<in> address_tags \<longrightarrow>
      DLIMP_update_dyntag_section_address segs (d_un (dyntab dm ! i)) = Some (d_un (dyntab dm' ! i)))"
proof -
  let ?n = "length (loaded_segments (loaded_module dm))"
  obtain dm1 where place: "place_segments alloc [0..<?n] dm = (True, dm1)" and tags: "relocate_tags [] (dyntab dm1) dm1 = Inr (True, dm')"
    using assms(1) by (auto simp: allocate_dynamic_segments_and_relocate_symbols_def relocate_dynamic_tag_info_def
        split: prod.splits bool.splits)
  have "placing alloc 0 dm dm"
    using assms(4,5) by (simp add: placing_def placed_prefix_def moved_def move_known_def list.map_ident_strong)
  then have p: "placing alloc ?n dm dm1"
    using placing_all [OF place _ _ assms(2,3)] by simp
  have dyn: "dyntab dm1 = dyntab dm"
    using place_segments_dyntab [of alloc "[0..<?n]" dm] place by simp
  note vals = relocate_tags_values [OF tags, unfolded dyn]
  have "copies_agree (global_index dm) 0 (symtab dm1) (gsymtab (loaded_module dm1))"
    using p unfolding placing_def Let_def by auto
  then have "copies_agree (global_index dm) 0 (symtab dm') (gsymtab (loaded_module dm'))"
    using vals by simp
  then show ?thesis
    using p vals by (simp add: placing_def Let_def comp_def moved_known)
qed

end
