(* ===== verification/Dload_Props.thy ===== *)
theory Dload_Props
  imports Dload_Failures Dload_Samples Dload_Place_Props
begin

text \<open>
  The properties of the core loader: runs of a client and their use counts, the order and the depth of loads, the move of a module to its
  addresses, and what the checks of a file give; each with a witness on the files of \<open>Dload_Samples\<close>.
\<close>

section \<open>Runs of a client\<close>

lemma symbols_counted:
  assumes "DLOAD_load_symbols env f s = Inr (h, s')" "h \<noteq> 0" "counted {} E s"
  shows "counted {} (add_mset h E) s'"
proof -
  obtain ok t dm ok2 dm1 dm2 s2 where
    i: "initialize_loaded_module env dm1 (s \<lparr> target_machine := t \<rparr>) = Inr (dm2, s2)" and
    h: "h = dm_handle dm2" and s': "counts s' = counts (s2 \<lparr> objects := objects s2 @ [loaded_module dm2] \<rparr>)"
    using assms(1,2) by (auto simp: DLOAD_load_symbols_def Let_def bindE_eq_Inr split: if_splits)
  note c = initialize_counts [OF i]
  have h: "h = next_handle s" "count_data (loaded_module dm2) = (next_handle s, 1, [])"
    using h c(3) by (auto simp: dm_handle_def count_data_def)
  have "counts s' = counts_new s"
    unfolding s' using c h by (simp add: counts_append counts_new_def) (simp add: counts_def)
  then show ?thesis
    using counted_new(1) [OF assms(3)] c(2) h(1) by simp
qed

text \<open>
  A client in whose runs no load fails once its module has been placed (\<open>client_step\<close> in \<open>Dload_Failures\<close> is any
  call of a client). \<open>E\<close> are the handles it has got and not given back, each as often as it has got it. Every load it makes
  succeeds or ends before anything has been allocated for the file.
\<close>

inductive client_run :: "load_env \<Rightarrow> u32 multiset \<Rightarrow> loader \<Rightarrow> bool" for env where
  created: "client_run env {#} DLOAD_create"
| loaded: "client_run env E s \<Longrightarrow> DLOAD_load env n f s = Some (Inr (h, s')) \<Longrightarrow> h \<noteq> 0 \<Longrightarrow> client_run env (add_mset h E) s'"
| symbols: "client_run env E s \<Longrightarrow> DLOAD_load_symbols env f s = Inr (h, s') \<Longrightarrow> h \<noteq> 0 \<Longrightarrow> client_run env (add_mset h E) s'"
| rejected: "client_run env E s \<Longrightarrow> start_load env f s = Inr (None, s') \<Longrightarrow> client_run env E s'"
| unloaded: "client_run env E s \<Longrightarrow> h \<in># E \<Longrightarrow> DLOAD_unload env n h s = Some (Inr (b, s')) \<Longrightarrow> client_run env (E - {#h#}) s'"

text \<open>More calls under way than there is room for make no difference.\<close>

lemma unload_dependents_more:
  assumes "\<And>h s r. u h s = Some r \<Longrightarrow> u' h s = Some r"
  shows "unload_dependents u hs s = Some r \<Longrightarrow> unload_dependents u' hs s = Some r"
proof (induction hs arbitrary: s)
  case (Cons h hs)
  obtain r1 where r1: "u h s = Some r1"
    using Cons.prems by (cases "u h s") (auto simp: DLIF_unload_dependent_def)
  note r2 = assms [OF r1]
  show ?case
  proof (cases r1)
    case (Inr p)
    then show ?thesis
      using Cons.prems Cons.IH r1 r2 by (cases p) (auto simp: DLIF_unload_dependent_def)
  next
    case (Inl e)
    then show ?thesis
      using Cons.prems r1 r2 by (auto simp: DLIF_unload_dependent_def)
  qed
qed simp

lemma bind_result_more:
  assumes "bind_result r k = Some x" "\<And>r1. r = Some r1 \<Longrightarrow> r' = Some r1" "\<And>y x. k y = Some x \<Longrightarrow> k' y = Some x"
  shows "bind_result r' k' = Some x"
  using assms by (cases r) (auto simp: bind_result_def split: sum.splits)

lemma unload_more: "DLOAD_unload env n h s = Some r \<Longrightarrow> n \<le> m \<Longrightarrow> DLOAD_unload env m h s = Some r"
proof (induction n arbitrary: m h s r)
  case (Suc n)
  obtain m' where m: "m = Suc m'" "n \<le> m'"
    using Suc.prems(2) by (cases m) auto
  show ?case
    using Suc.prems(1) unfolding m(1) DLOAD_unload.simps
    apply (rule bind_result_more)
     apply simp
    apply (clarsimp split: option.splits simp: Let_def)
    apply (erule bind_result_more)
     apply (erule unload_dependents_more [rotated], erule Suc.IH, rule m(2))
    apply assumption
    done
qed simp

lemma unloadsE:
  assumes "unloads n unload" "counted D E s" "h \<in># E" "card (handles s - D) < n"
  obtains b s' where "unload h s = Some (Inr (b, s'))" "counted D (E - {#h#}) s'" "handles s' - D \<subseteq> handles s - D"
    "b \<longleftrightarrow> h \<notin> handles s'" "\<And>C. mutual D C s \<Longrightarrow> mutual D C s'"
  using assms unfolding unloads_def by blast

lemma unload_counted:
  assumes "counted {} E s" "h \<in># E" "DLOAD_unload env n h s = Some (Inr (b, s'))"
  shows "counted {} (E - {#h#}) s'" "b \<longleftrightarrow> h \<notin> handles s'" "handles s' \<subseteq> handles s" "mutual {} C s \<Longrightarrow> mutual {} C s'"
proof -
  let ?m = "max n (Suc (card (handles s)))"
  obtain b1 s1 where s1: "DLOAD_unload env ?m h s = Some (Inr (b1, s1))" "counted {} (E - {#h#}) s1"
      "b1 \<longleftrightarrow> h \<notin> handles s1" "handles s1 - {} \<subseteq> handles s - {}" "\<And>C. mutual {} C s \<Longrightarrow> mutual {} C s1"
    by (rule unloadsE [OF unload_returns_counted [of ?m env] assms(1,2)]) (simp add: less_max_iff_disj, blast)
  have "DLOAD_unload env ?m h s = Some (Inr (b, s'))"
    by (rule unload_more [OF assms(3)]) simp
  then show "counted {} (E - {#h#}) s'" "b \<longleftrightarrow> h \<notin> handles s'" "handles s' \<subseteq> handles s" "mutual {} C s \<Longrightarrow> mutual {} C s'"
    using s1 by auto
qed

lemma client_counted: "client_run env E s \<Longrightarrow> counted {} E s"
proof (induction rule: client_run.induct)
  case (unloaded E s h n b s')
  then show ?case by (blast intro: unload_counted)
next
  case (loaded E s n f h s')
  then show ?case
    using dload.load_counted by blast
next
  case (rejected E s f s')
  then show ?case
    using counts_transfer(1) [OF counts_start] by blast
qed (auto intro: counted_create symbols_counted)


section \<open>Exact use counts\<close>

text \<open>C1: Whatever a client does, with loads that fail at any point, the modules in the queue have different handles; the use count of each is not 0 and at least the number of times the client holds its handle plus the number of times modules name it as a dependent; and what the client holds is in the queue. If no load has failed after its module was placed, the use count is exactly that number, and whatever a module names is in the queue.\<close>

theorem use_counts_exact:
  assumes "(client_step env)\<^sup>*\<^sup>* ({#}, DLOAD_create) (E, s)"
  shows "distinct (map file_handle (objects s)) \<and>
    (\<forall>ob \<in> set (objects s). use_count ob \<noteq> 0 \<and> known_uses E s (file_handle ob) \<le> unat (use_count ob)) \<and>
    set_mset E \<subseteq> file_handle ` set (objects s) \<and>
    (client_run env E s \<longrightarrow>
       (\<forall>ob \<in> set (objects s). unat (use_count ob) = known_uses E s (file_handle ob)) \<and>
       (\<Union>x \<in> set (objects s). set (dependencies x)) \<subseteq> file_handle ` set (objects s))"
proof -
  note c = client_covered [OF assms]
  have "(\<forall>ob \<in> set (objects s). unat (use_count ob) = known_uses E s (file_handle ob)) \<and>
      (\<Union>x \<in> set (objects s). set (dependencies x)) \<subseteq> file_handle ` set (objects s)" if r: "client_run env E s"
  proof -
    have "set_mset (refs {} s) = (\<Union>x \<in> set (objects s). set (dependencies x))"
      by (simp add: refs_def)
    then show ?thesis
      using client_counted [OF r] unfolding counted_def handles_def known_uses_refs by auto
  qed
  moreover have "\<forall>ob \<in> set (objects s). use_count ob \<noteq> 0 \<and> known_uses E s (file_handle ob) \<le> unat (use_count ob)"
    using c(1) unfolding covered_def known_uses_refs by blast
  ultimately show ?thesis
    using c unfolding covered_def handles_def by blast
qed


lemma finite_acyclic_top:
  assumes "finite H" "H \<noteq> {}" "acyclic r"
  obtains h where "h \<in> H" "\<forall>x \<in> H. (x, h) \<notin> r"
proof -
  have "finite (r \<inter> H \<times> H)" "acyclic (r \<inter> H \<times> H)"
    using assms by (auto intro: acyclic_subset)
  then have "wf (r \<inter> H \<times> H)"
    by (rule finite_acyclic_wf)
  then show thesis
    using assms(2) that unfolding wf_eq_minimal by (metis (no_types, lifting) IntI all_not_in_conv mem_Sigma_iff)
qed

text \<open>C5: When the client has given back every handle and the dependents form no cycle, either no module is left, or a module is left whose use count is higher than what modules in the queue name, from a load that failed; if no load has failed after its module was placed, no module is left.\<close>

theorem all_released:
  assumes "(client_step env)\<^sup>*\<^sup>* ({#}, DLOAD_create) ({#}, s)"
    "acyclic {(file_handle ob, d) |ob d. ob \<in> set (objects s) \<and> d \<in> set (dependencies ob)}"
  shows "(objects s = [] \<or> (\<exists>ob \<in> set (objects s). known_uses {#} s (file_handle ob) < unat (use_count ob))) \<and>
    (client_run env {#} s \<longrightarrow> objects s = [])"
proof -
  have left: "\<exists>ob \<in> set (objects s). known_uses {#} s (file_handle ob) < unat (use_count ob)" if "objects s \<noteq> []"
  proof -
    have ne: "finite (handles s)" "handles s \<noteq> {}"
      using that by (simp_all add: handles_def)
    obtain h where h: "h \<in> handles s" "\<forall>x \<in> handles s. (x, h) \<notin> {(file_handle ob, d) |ob d. ob \<in> set (objects s) \<and> d \<in> set (dependencies ob)}"
      by (rule finite_acyclic_top [OF ne assms(2)])
    then obtain ob where ob: "ob \<in> set (objects s)" "file_handle ob = h"
      by (auto simp: handles_def)
    have "\<forall>x \<in> set (objects s). h \<notin> set (dependencies x)"
      using h(2) by (auto simp: handles_def)
    then have "known_uses {#} s h = 0"
      by (simp add: known_uses_refs refs_def not_in_iff [symmetric])
    moreover have "use_count ob \<noteq> 0"
      using client_covered(1) [OF assms(1)] ob by (auto simp: covered_def)
    ultimately have "known_uses {#} s (file_handle ob) < unat (use_count ob)"
      using ob(2) by (simp add: unat_gt_0)
    then show ?thesis
      using ob(1) by blast
  qed
  moreover have "\<not> known_uses {#} s (file_handle ob) < unat (use_count ob)" if "client_run env {#} s" "ob \<in> set (objects s)" for ob
    using client_counted [OF that(1)] that(2) by (simp add: counted_def known_uses_refs)
  ultimately show ?thesis
    by blast
qed

text \<open>C20: A use that neither the client nor a module in the queue can give back, as a failed load leaves it, is never given back: whatever the client does next, the module stays in the queue with such a use.\<close>

theorem leaked_uses_stay:
  assumes "(client_step env)\<^sup>*\<^sup>* ({#}, DLOAD_create) (E, s)" "(client_step env)\<^sup>*\<^sup>* (E, s) (E', s')"
    "ob \<in> set (objects s)" "known_uses E s (file_handle ob) < unat (use_count ob)"
  shows "\<exists>ob' \<in> set (objects s'). file_handle ob' = file_handle ob \<and> known_uses E' s' (file_handle ob) < unat (use_count ob')"
proof -
  note c = client_covered [OF assms(1)]
  let ?X = "{#file_handle ob#}"
  have "covered {} (E + ?X) s"
    by (rule covered_excess [OF c(1) assms(3)]) (use assms(4) in \<open>simp only: known_uses_refs\<close>)
  moreover have "set_mset (E + ?X) \<subseteq> handles s"
    using c(2) assms(3) by (auto simp: handles_def)
  ultimately have s': "covered {} (E' + ?X) s'" "set_mset (E' + ?X) \<subseteq> handles s'"
    using run_covered [OF assms(2)] by blast+
  then obtain ob' where ob': "ob' \<in> set (objects s')" "file_handle ob' = file_handle ob"
    by (auto simp: handles_def)
  have "Multiset.count (E' + ?X + refs {} s') (file_handle ob') \<le> unat (use_count ob')"
    using s'(1) ob'(1) unfolding covered_def by blast
  then show ?thesis
    using ob' by (intro bexI [of _ ob']) (simp_all add: known_uses_refs)
qed

text \<open>C21: Modules on a cycle of dependents are never unloaded: as long as every module of a set is named by one of the set, they all stay.\<close>

theorem cycles_stay:
  assumes "client_run env E s" "h \<in># E" "DLOAD_unload env n h s = Some (Inr (b, s'))"
    "C \<subseteq> file_handle ` set (objects s)" "\<forall>c \<in> C. \<exists>ob \<in> set (objects s). file_handle ob \<in> C \<and> c \<in> set (dependencies ob)"
  shows "C \<subseteq> file_handle ` set (objects s') \<and>
    (\<forall>c \<in> C. \<exists>ob \<in> set (objects s'). file_handle ob \<in> C \<and> c \<in> set (dependencies ob))"
proof -
  have "mutual {} C s"
    using assms(4,5) by (simp add: mutual_def handles_def)
  then have "mutual {} C s'"
    by (rule unload_counted(4) [OF client_counted [OF assms(1)] assms(2,3)])
  then show ?thesis
    by (simp add: mutual_def handles_def)
qed

section \<open>Order and depth of loads\<close>




text \<open>C7: Loads are nested no deeper than there are names of modules, so a load returns.\<close>

theorem load_returns:
  assumes "finite N" "\<And>g s dm s'. g = f \<or> g \<in> ran (files env) \<Longrightarrow> start_load env g s = Inr (Some dm, s') \<Longrightarrow> the (dm_name dm) \<in> N"
  shows "DLOAD_load env (Suc (card N)) f s \<noteq> None"
proof -
  have "card (N - snd ` set (dependency_list s)) < Suc (card N)"
    using card_mono [OF assms(1), of "N - snd ` set (dependency_list s)"] by auto
  moreover have "the (dm_name dm) \<in> N" if "g = f \<or> g \<in> ran (files env)" "start_load env g s0 = Inr (Some dm, s')" for g s0 dm s'
    using that by (rule assms(2))
  ultimately have "returns_from (\<lambda>g. g = f \<or> g \<in> ran (files env)) (dependency_list s) (DLOAD_load env (Suc (card N)))"
    by (intro load_returns_from [OF assms(1)]) (auto simp: ran_def)
  then show ?thesis
    unfolding returns_from_def by blast
qed

section \<open>Examples\<close>

lemma library_run:
  obtains s where "client_run loader_env {#1#} s" "counts s = ([(1, 2, [2]), (2, 1, [1])], [], 3)" "length (objects s) = 2"
    "file_handle ` set (objects s) = {1, 2}"
    "\<forall>c \<in> {1, 2}. \<exists>ob \<in> set (objects s). file_handle ob \<in> {1, 2} \<and> c \<in> set (dependencies ob)"
proof -
  obtain s where s: "DLOAD_load loader_env 2 (library_file 0 2) DLOAD_create = Some (Inr (1, s))"
      "counts s = ([(1, 2, [2]), (2, 1, [1])], [], 3)"
    using libraries_loaded by blast
  have run: "client_run loader_env {#1#} s"
    using client_run.loaded [OF client_run.created s(1)] by simp
  have objs: "map count_data (objects s) = [(1, 2, [2]), (2, 1, [1])]"
    using s(2) by (simp add: counts_def)
  then obtain x y where xy: "objects s = [x, y]" "count_data x = (1, 2, [2])" "count_data y = (2, 1, [1])"
    by auto
  then show thesis
    using run s(2) by (intro that [of s]) (auto simp: count_data_def)
qed

lemma library_steps:
  obtains s where "(client_step loader_env)\<^sup>*\<^sup>* ({#}, DLOAD_create) ({#1#}, s)" "client_run loader_env {#1#} s"
    "map count_data (objects s) = [(1, 2, [2]), (2, 1, [1])]"
proof -
  obtain s where s: "DLOAD_load loader_env 2 (library_file 0 2) DLOAD_create = Some (Inr (1, s))"
      "counts s = ([(1, 2, [2]), (2, 1, [1])], [], 3)"
    using libraries_loaded by blast
  have "(client_step loader_env)\<^sup>*\<^sup>* ({#}, DLOAD_create) ({#1#}, s)"
    using client_step.load [OF s(1), of "{#}"] by simp
  moreover have "client_run loader_env {#1#} s"
    using client_run.loaded [OF client_run.created s(1)] by simp
  moreover have "map count_data (objects s) = [(1, 2, [2]), (2, 1, [1])]"
    using s(2) by (simp add: counts_def)
  ultimately show thesis
    by (rule that)
qed

theorem use_counts_exact_witness:
  "\<exists>s. map count_data (objects s) = [(1, 2, [2]), (2, 1, [1])] \<and>
     (\<forall>ob \<in> set (objects s). unat (use_count ob) = known_uses {#1#} s (file_handle ob))"
proof -
  obtain s where s: "(client_step loader_env)\<^sup>*\<^sup>* ({#}, DLOAD_create) ({#1#}, s)" "client_run loader_env {#1#} s"
      "map count_data (objects s) = [(1, 2, [2]), (2, 1, [1])]"
    by (rule library_steps)
  have "\<forall>ob \<in> set (objects s). unat (use_count ob) = known_uses {#1#} s (file_handle ob)"
    using use_counts_exact [OF s(1)] s(2) by (elim conjE) simp
  then show ?thesis
    using s(3) by (intro exI [of _ s] conjI)
qed


theorem cycles_stay_witness:
  "\<exists>b s s'. client_run loader_env {#1#} s \<and> DLOAD_unload loader_env 3 1 s = Some (Inr (b, s')) \<and>
     {1, 2} \<subseteq> file_handle ` set (objects s')"
proof -
  obtain s where s: "client_run loader_env {#1#} s" "length (objects s) = 2" "file_handle ` set (objects s) = {1, 2}"
    "\<forall>c \<in> {1, 2}. \<exists>ob \<in> set (objects s). file_handle ob \<in> {1, 2} \<and> c \<in> set (dependencies ob)"
    by (rule library_run)
  have c: "counted {} {#1#} s"
    by (rule client_counted [OF s(1)])
  obtain b s' where u: "DLOAD_unload loader_env 3 1 s = Some (Inr (b, s'))"
  proof (rule unloadsE [OF unload_returns_counted [of 3 loader_env] c])
    show "card (handles s - {}) < 3"
      using s(3) by (simp add: handles_def)
  qed auto
  then have "{1, 2} \<subseteq> file_handle ` set (objects s')"
    using cycles_stay [OF s(1) _ u, of "{1, 2}"] s(3,4) by simp
  then show ?thesis
    using s(1) u by blast
qed


theorem load_returns_witness: "DLOAD_load loader_env 3 (library_file 0 2) DLOAD_create \<noteq> None"
proof -
  have "DLOAD_load loader_env (Suc (card {''a'', ''b''})) (library_file 0 2) DLOAD_create \<noteq> None"
    by (rule load_returns) (simp_all only: library_names finite.intros)
  then show ?thesis
    by (simp add: numeral_3_eq_3 del: DLOAD_load.simps)
qed

definition inr_or :: "'a \<Rightarrow> 'a result \<Rightarrow> 'a" where
  "inr_or d r = (case r of Some (Inr x) \<Rightarrow> x | _ \<Rightarrow> d)"

lemma static_steps:
  obtains s where "(client_step loader_env)\<^sup>*\<^sup>* ({#}, DLOAD_create) ({#}, s)" "client_run loader_env {#} s" "gone s = [1]" "objects s = []"
proof -
  define s where "s = snd (inr_or (0, DLOAD_create) (DLOAD_load loader_env 1 static_file DLOAD_create))"
  define s' where "s' = snd (inr_or (False, DLOAD_create) (DLOAD_unload loader_env 1 1 s))"
  have "fst (inr_or (0, DLOAD_create) (DLOAD_load loader_env 1 static_file DLOAD_create)) = 1"
    by code_simp
  then have l: "DLOAD_load loader_env 1 static_file DLOAD_create = Some (Inr (1, s))"
    unfolding s_def inr_or_def by (auto split: option.splits sum.splits simp del: DLOAD_load.simps)
  have "objects s' = []" "gone s' = [1]" "fst (inr_or (False, DLOAD_create) (DLOAD_unload loader_env 1 1 s))"
    unfolding s'_def s_def by code_simp+
  then have u: "DLOAD_unload loader_env 1 1 s = Some (Inr (True, s'))" "objects s' = []" "gone s' = [1]"
    unfolding s'_def inr_or_def by (auto split: option.splits sum.splits simp del: DLOAD_unload.simps)
  have "client_step loader_env ({#}, DLOAD_create) ({#1#}, s)" "client_step loader_env ({#1#}, s) ({#}, s')"
    using client_step.load [OF l, of "{#}"] client_step.unload [OF _ u(1), of "{#1#}"] by simp_all
  moreover have "client_run loader_env {#1#} s"
    using client_run.loaded [OF client_run.created l] by simp
  then have "client_run loader_env {#} s'"
    using client_run.unloaded [OF _ _ u(1)] by fastforce
  ultimately show thesis
    using u(2,3) by (intro that [of s']) auto
qed

theorem all_released_witness: "\<exists>s. client_run loader_env {#} s \<and> gone s = [1] \<and> objects s = []"
proof -
  obtain s where s: "(client_step loader_env)\<^sup>*\<^sup>* ({#}, DLOAD_create) ({#}, s)" "client_run loader_env {#} s" "gone s = [1]" "objects s = []"
    by (rule static_steps)
  have "objects s = []"
    using all_released [OF s(1)] s(2,4) by (simp add: acyclic_def)
  then show ?thesis
    using s(2,3) by blast
qed

text \<open>An executable with one segment, which no memory is granted for.\<close>

definition segment_file :: elf_file where
  "segment_file =
     \<lparr> content = words_mem [0x464C457F, 0x00010101, 0, 0, 0x00280002, 1, 0x8000, 52, 0, 0, 0x00200034, 1, 0,
         1, 52, 0x8000, 0x8000, 4, 4, 5, 4], file_size = 88 \<rparr>"

definition full_env :: load_env where
  "full_env = loader_env \<lparr> place := (\<lambda>_ _. None) \<rparr>"

theorem leaked_uses_stay_witness:
  "\<exists>s s' ob. client_step full_env ({#}, DLOAD_create) ({#}, s) \<and> client_step full_env ({#}, s) ({#2#}, s') \<and>
     ob \<in> set (objects s') \<and> file_handle ob = 1 \<and> known_uses {#2#} s' 1 < unat (use_count ob)"
proof -
  define s where "s = snd (inr_or (0, DLOAD_create) (DLOAD_load full_env 1 segment_file DLOAD_create))"
  define s' where "s' = snd (inr_or (0, DLOAD_create) (DLOAD_load full_env 1 static_file s))"
  have "fst (inr_or (1, DLOAD_create) (DLOAD_load full_env 1 segment_file DLOAD_create)) = 0"
    by code_simp
  then have l: "DLOAD_load full_env 1 segment_file DLOAD_create = Some (Inr (0, s))"
    unfolding s_def inr_or_def by (auto split: option.splits sum.splits simp del: DLOAD_load.simps)
  have "fst (inr_or (0, DLOAD_create) (DLOAD_load full_env 1 static_file s)) = 2"
    unfolding s_def by code_simp
  then have l': "DLOAD_load full_env 1 static_file s = Some (Inr (2, s'))"
    unfolding s'_def inr_or_def by (auto split: option.splits sum.splits simp del: DLOAD_load.simps)
  have steps: "client_step full_env ({#}, DLOAD_create) ({#}, s)" "client_step full_env ({#}, s) ({#2#}, s')"
    using client_step.load [OF l, of "{#}"] client_step.load [OF l', of "{#}"] by simp_all
  have "map count_data (objects s) = [(1, 1, [])]"
    unfolding s_def by code_simp
  then obtain ob where ob: "ob \<in> set (objects s)" "file_handle ob = 1" "use_count ob = 1" "known_uses {#} s 1 = 0"
    by (auto simp: count_data_def known_uses_def)
  have runs: "(client_step full_env)\<^sup>*\<^sup>* ({#}, DLOAD_create) ({#}, s)" "(client_step full_env)\<^sup>*\<^sup>* ({#}, s) ({#2#}, s')"
    using steps by blast+
  note stay = leaked_uses_stay [OF runs ob(1)]
  have "\<exists>ob' \<in> set (objects s'). file_handle ob' = file_handle ob \<and> known_uses {#2#} s' (file_handle ob) < unat (use_count ob')"
    by (rule stay) (simp add: ob)
  then show ?thesis
    using steps ob(2) by auto
qed

definition sample_dynamic :: DLIMP_Dynamic_Module where
  "sample_dynamic = new_DLIMP_Dynamic_Module
     \<lparr> fhdr := (fhdr library_header) \<lparr> e_entry := 0x104 \<rparr>,
       dm_phdr := [\<lparr> p_type = 1, p_offset = 0, p_vaddr = 0x100, p_paddr = 0, p_filesz = 0x10, p_memsz = 0x10, p_flags = 5, p_align = 4 \<rparr>],
       phnum := 1, symnum := 1,
       symtab := [\<lparr> st_name = 0, st_value = 0x108, st_size = 4, st_info = 0x12, st_other = 0, st_shndx = 1 \<rparr>],
       dyntab := [\<lparr> d_tag = 12, d_un = 0x10C \<rparr>, \<lparr> d_tag = 0, d_un = 0 \<rparr>],
       loaded_module := (library_object 1 ''a'')
         \<lparr> gsymtab := [\<lparr> st_name = 0, st_value = 0x108, st_size = 4, st_info = 0x12, st_other = 0, st_shndx = 1 \<rparr>], gsymnum := 1,
           loaded_segments := [load_segment \<lparr> p_type = 1, p_offset = 0, p_vaddr = 0x100, p_paddr = 0, p_filesz = 0x10, p_memsz = 0x10,
             p_flags = 5, p_align = 4 \<rparr>] \<rparr> \<rparr>"

theorem place_moves_all_witness:
  "\<exists>dm'. allocate_dynamic_segments_and_relocate_symbols (\<lambda>_. Some 0x80000000) sample_dynamic = Inr (True, dm') \<and>
     e_entry (fhdr dm') = 0x80000004 \<and> map st_value (symtab dm') = [0x80000008] \<and> d_un (dyntab dm' ! 0) = 0x8000000C"
proof -
  let ?r = "allocate_dynamic_segments_and_relocate_symbols (\<lambda>_. Some 0x80000000) sample_dynamic"
  have "case ?r of Inl _ \<Rightarrow> False | Inr (ok, dm) \<Rightarrow> ok"
    by code_simp
  then obtain dm' where r: "?r = Inr (True, dm')"
    by (auto split: sum.splits)
  have segs: "loaded_segments (loaded_module sample_dynamic) = [load_segment \<lparr> p_type = 1, p_offset = 0, p_vaddr = 0x100, p_paddr = 0,
      p_filesz = 0x10, p_memsz = 0x10, p_flags = 5, p_align = 4 \<rparr>]"
    by (simp add: sample_dynamic_def)
  have other: "e_entry (fhdr sample_dynamic) = 0x104" "map st_value (symtab sample_dynamic) = [0x108]"
    "dyntab sample_dynamic = [\<lparr> d_tag = 12, d_un = 0x10C \<rparr>, \<lparr> d_tag = 0, d_un = 0 \<rparr>]"
    by (simp_all add: sample_dynamic_def)
  have copies: "copies_agree (global_index sample_dynamic) 0 (symtab sample_dynamic) (gsymtab (loaded_module sample_dynamic))"
    by (simp add: sample_dynamic_def copies_agree_def global_index_def)
  have "\<forall>i < length (loaded_segments (loaded_module sample_dynamic)).
      let seg = loaded_segments (loaded_module sample_dynamic) ! i in
      no_wrap (p_vaddr (phdr seg)) (p_memsz (phdr seg)) \<and> no_wrap (the (Some 0x80000000)) (p_memsz (phdr seg))"
    by (simp add: segs load_segment_def no_wrap_def)
  note moved = place_moves_all [OF r this _ _ copies]
  let ?segs = "placed_prefix (\<lambda>_. Some 0x80000000) (length (loaded_segments (loaded_module sample_dynamic)))
    (loaded_segments (loaded_module sample_dynamic))"
  have "moved ?segs 0x104 = 0x80000004 \<and> moved ?segs 0x108 = 0x80000008 \<and>
      DLIMP_update_dyntag_section_address ?segs 0x10C = Some 0x8000000C"
    by (simp add: segs placed_prefix_def placed_at_def load_segment_def moved_def within_def)
  moreover have "\<forall>s \<in> set (symtab sample_dynamic). st_shndx s \<noteq> INT16_MAX" "relocate_entry_point sample_dynamic"
    by (simp_all add: sample_dynamic_def new_DLIMP_Dynamic_Module_def)
  moreover have "map (moved X \<circ> st_value) (symtab sample_dynamic) = [moved X 0x108]" for X
    by (simp add: sample_dynamic_def)
  ultimately have "e_entry (fhdr dm') = 0x80000004 \<and> map st_value (symtab dm') = [0x80000008] \<and> d_un (dyntab dm' ! 0) = 0x8000000C"
    using moved other by (auto simp: Let_def address_tags_def)
  with r have "?r = Inr (True, dm') \<and> e_entry (fhdr dm') = 0x80000004 \<and> map st_value (symtab dm') = [0x80000008] \<and>
      d_un (dyntab dm' ! 0) = 0x8000000C"
    by (rule conjI)
  then show ?thesis
    by (rule exI [of _ dm'])
qed

text \<open>The end of a segment in the file is computed modulo \<open>2 ^ 32\<close>, and the magic number is never looked at.\<close>

lemma wrapped_segment_accepted:
  "valid_phdrs 160 1 [\<lparr> p_type = 2, p_offset = 0xFFFFFFF0, p_vaddr = 0, p_paddr = 0, p_filesz = 0x20, p_memsz = 0x20, p_flags = 6,
     p_align = 4 \<rparr>] = Inr True"
  by simp

lemma magic_number_unchecked: "file_header_magic_number_is_valid h"
  by (simp add: file_header_magic_number_is_valid_def c_not_def)

end
