(* ===== verification/Dload_Queries.thy ===== *)
theory Dload_Queries
  imports Dload_Graph
begin

text \<open>
  The questions a client can ask about a loaded module (\<open>elfload/dload.c\<close>): its global symbols by name, their names, and what
  the management of DSBTs wants to know about a module that is on the dependency stack. The names are C strings in host memory.
  A result \<^const>\<open>None\<close> of the inner option is FALSE.
\<close>

section \<open>Loaded modules\<close>

text \<open>\<open>strlen\<close>, from a character that has been counted to.\<close>

partial_function (option) c_strlen :: "mem \<Rightarrow> u32 \<Rightarrow> nat \<Rightarrow> nat option" where [code]:
  "c_strlen m a n = (if read8 m a = 0 then Some n else c_strlen m (a + 1) (Suc n))"

fun query_symbols :: "mem \<Rightarrow> u32 \<Rightarrow> nat \<Rightarrow> Elf32_Sym list \<Rightarrow> u32 option result" where
  "query_symbols m nm 0 tab = Some (Inr None)"
| "query_symbols m nm (Suc n) [] = Some (Inl OutOfTable)"
| "query_symbols m nm (Suc n) (esym # tab) =
     (case strcmp_eq m nm (st_name esym) of
        None \<Rightarrow> None
      | Some same \<Rightarrow> if same then Some (Inr (Some (st_value esym))) else query_symbols m nm n tab)"

text \<open>A module with the handle that does not have the symbol does not end the search.\<close>

fun query_modules :: "mem \<Rightarrow> u32 list \<Rightarrow> u32 \<Rightarrow> u32 \<Rightarrow> DLIMP_Loaded_Module list \<Rightarrow> u32 option result" where
  "query_modules m dead h nm [] = Some (Inr None)"
| "query_modules m dead h nm (ob # obs) =
     (if file_handle ob \<in> set dead then Some (Inl Freed)
      else if file_handle ob = h then
        bind_result (query_symbols m nm (unat (gsymnum ob)) (gsymtab ob)) (\<lambda>r.
          case r of Some v \<Rightarrow> Some (Inr (Some v)) | None \<Rightarrow> query_modules m dead h nm obs)
      else query_modules m dead h nm obs)"

definition DLOAD_query_symbol :: "u32 \<Rightarrow> u32 \<Rightarrow> loader \<Rightarrow> u32 option result" where
  "DLOAD_query_symbol h nm s = query_modules (host_memory s) (gone s) h nm (objects s)"

fun longest_name :: "mem \<Rightarrow> nat \<Rightarrow> Elf32_Sym list \<Rightarrow> nat \<Rightarrow> nat result" where
  "longest_name m 0 tab longest = Some (Inr longest)"
| "longest_name m (Suc n) [] longest = Some (Inl OutOfTable)"
| "longest_name m (Suc n) (esym # tab) longest =
     (case c_strlen m (st_name esym) 0 of
        None \<Rightarrow> None
      | Some l \<Rightarrow> longest_name m n tab (if longest < l + 1 then l + 1 else longest))"

text \<open>The number of entry points and the room for the longest name.\<close>

definition DLOAD_get_entry_names_info :: "u32 \<Rightarrow> loader \<Rightarrow> (u32 \<times> nat) option result" where
  "DLOAD_get_entry_names_info h s =
     bind_result (Some (object_with (gone s) h (objects s))) (\<lambda>found.
       case found of
         None \<Rightarrow> Some (Inr None)
       | Some ob \<Rightarrow>
           bind_result (longest_name (host_memory s) (unat (gsymnum ob)) (gsymtab ob) 0) (\<lambda>l. Some (Inr (Some (gsymnum ob, l)))))"

text \<open>The bytes of a name, with the terminator.\<close>

fun copied_names :: "mem \<Rightarrow> nat \<Rightarrow> Elf32_Sym list \<Rightarrow> u8 list list result" where
  "copied_names m 0 tab = Some (Inr [])"
| "copied_names m (Suc n) [] = Some (Inl OutOfTable)"
| "copied_names m (Suc n) (esym # tab) =
     (case c_strlen m (st_name esym) 0 of
        None \<Rightarrow> None
      | Some l \<Rightarrow> bind_result (copied_names m n tab) (\<lambda>names. Some (Inr (table_at read8 1 m (st_name esym) (l + 1) # names))))"

definition DLOAD_get_entry_names :: "u32 \<Rightarrow> u32 \<Rightarrow> loader \<Rightarrow> u8 list list option result" where
  "DLOAD_get_entry_names h room s =
     bind_result (Some (object_with (gone s) h (objects s))) (\<lambda>found.
       case found of
         None \<Rightarrow> Some (Inr None)
       | Some ob \<Rightarrow>
           if sint room < sint (gsymnum ob) then Some (Inr None)
           else bind_result (copied_names (host_memory s) (unat (gsymnum ob)) (gsymtab ob)) (\<lambda>names. Some (Inr (Some names))))"

section \<open>Modules on the dependency stack\<close>

fun stacked_module :: "u32 list \<Rightarrow> u32 \<Rightarrow> (DLIMP_Dynamic_Module \<times> elf_file) list \<Rightarrow> load_fault + DLIMP_Dynamic_Module option" where
  "stacked_module dead h [] = Inr None"
| "stacked_module dead h ((dm, f) # st) =
     (if dm_handle dm \<in> set dead then Inl Freed else if dm_handle dm = h then Inr (Some dm) else stacked_module dead h st)"

definition DLOAD_get_dsbt_size :: "u32 \<Rightarrow> loader \<Rightarrow> load_fault + u32" where
  "DLOAD_get_dsbt_size h s =
     bindE (stacked_module (freed s) h (dependency_stack s)) (\<lambda>found. Inr (case found of None \<Rightarrow> 0 | Some dm \<Rightarrow> dsbt_size dm))"

text \<open>The name \<open>__TI_STATIC_BASE\<close> is at the address \<open>nm\<close>. The value that a failed look-up stores is not the caller's any more.\<close>

definition DLOAD_get_static_base :: "u32 \<Rightarrow> u32 \<Rightarrow> loader \<Rightarrow> (bool \<times> u32) option result" where
  "DLOAD_get_static_base nm h s =
     bind_result (Some (stacked_module (freed s) h (dependency_stack s))) (\<lambda>found.
       case found of
         None \<Rightarrow> Some (Inr None)
       | Some dm \<Rightarrow> bind_result (DLSYM_lookup_local_symtab (host_memory s) nm (symtab dm) (symnum dm)) (\<lambda>r. Some (Inr (Some r))))"

definition DLOAD_get_dsbt_base :: "u32 \<Rightarrow> loader \<Rightarrow> load_fault + u32 option" where
  "DLOAD_get_dsbt_base h s =
     bindE (stacked_module (freed s) h (dependency_stack s)) (\<lambda>found.
       case found of None \<Rightarrow> Inr None | Some dm \<Rightarrow> bindE (tag_value dm (dsbt_base_tagidx dm)) (\<lambda>v. Inr (Some v)))"

end
