(* ===== verification/Dsbt.thy ===== *)
theory Dsbt
  imports Dload_Queries
begin

text \<open>
  The client's table of data segments (\<open>elfload/dlw_dsbt.c\<close>): modules that use the DSBT model register a request for an index
  while they are loaded, the indices are assigned before the relocations, and an entry is released when the module is unloaded.

  A request is a value: it is either in the queue or in one slot of the master table. The array list grows
  (\<open>Array_Lists\<close> has what becomes of it without memory). Indices are the integers of an \<open>int32_t\<close>.
\<close>

record DSBT_Index_Request =
  request_name :: string
  request_handle :: u32
  request_size :: u32
  request_base :: u32
  request_static_base :: u32
  requested_index :: int
  assigned_index :: int

record dsbt_state =
  DSBT_master :: "DSBT_Index_Request option list"
  DSBT_index_request_queue :: "DSBT_Index_Request list"
  DSBT_first_avail_index :: nat

abbreviation (input) DSBT_INDEX_INVALID :: int where "DSBT_INDEX_INVALID \<equiv> -1"

definition no_dsbts :: dsbt_state where
  "no_dsbts = \<lparr> DSBT_master = [], DSBT_index_request_queue = [], DSBT_first_avail_index = 0 \<rparr>"

section \<open>Requests\<close>

text \<open>Is the index taken, or is there a request already that is in its way?\<close>

definition index_in_use :: "int \<Rightarrow> dsbt_state \<Rightarrow> load_fault + bool" where
  "index_in_use i st =
     (if int (length (DSBT_master st)) > i
      then (if i < 0 then Inl OutOfTable else Inr (DSBT_master st ! nat i \<noteq> None))
      else Inr False)"

definition request_conflicts :: "u32 \<Rightarrow> int \<Rightarrow> dsbt_state \<Rightarrow> bool" where
  "request_conflicts h i st \<longleftrightarrow> (\<exists>r \<in> set (DSBT_index_request_queue st). request_handle r = h \<or> requested_index r = i)"

text \<open>\<open>memory\<close>: the two calls of \<open>DLIF_malloc\<close> succeed; the name \<open>__TI_STATIC_BASE\<close> is at \<open>base_name\<close>.\<close>

definition DLIF_register_dsbt_index_request :: "bool \<Rightarrow> u32 \<Rightarrow> loader \<Rightarrow> string \<Rightarrow> u32 \<Rightarrow> int \<Rightarrow> dsbt_state \<Rightarrow>
    (bool \<times> dsbt_state) result" where
  "DLIF_register_dsbt_index_request memory base_name s name h requested st =
     bind_result (Some (if requested \<noteq> DSBT_INDEX_INVALID
                        then bindE (index_in_use requested st) (\<lambda>used. Inr (used \<or> request_conflicts h requested st))
                        else Inr False)) (\<lambda>refused.
       if refused \<or> \<not> memory then Some (Inr (False, st))
       else bind_result (Some (DLOAD_get_dsbt_size h s)) (\<lambda>size.
         bind_result (Some (DLOAD_get_dsbt_base h s)) (\<lambda>base.
           case base of
             None \<Rightarrow> Some (Inr (False, st))
           | Some b \<Rightarrow>
               bind_result (DLOAD_get_static_base base_name h s) (\<lambda>static.
                 if static = None \<or> \<not> fst (the static) then Some (Inr (False, st))
                 else Some (Inr (True, st \<lparr> DSBT_index_request_queue := DSBT_index_request_queue st @
                   [\<lparr> request_name = name, request_handle = h, request_size = size, request_base = b,
                      request_static_base = snd (the static), requested_index = requested,
                      assigned_index = DSBT_INDEX_INVALID \<rparr>] \<rparr>))))))"

section \<open>Assignment\<close>

definition add_dsbt_entries :: "int \<Rightarrow> DSBT_Index_Request option list \<Rightarrow> DSBT_Index_Request option list" where
  "add_dsbt_entries i master = master @ replicate (nat (i + 1 - int (length master))) None"

text \<open>
  A request for a particular index gets its slot; its \<open>assigned_index\<close> is assigned to itself. Any other request gets the first free
  slot from the first that may be free on.
\<close>

definition assign_dsbt_entry :: "DSBT_Index_Request \<Rightarrow> dsbt_state \<Rightarrow> load_fault + dsbt_state" where
  "assign_dsbt_entry r st =
     (if requested_index r \<noteq> DSBT_INDEX_INVALID then
        (if requested_index r < 0 then Inl OutOfTable
         else Inr (st \<lparr> DSBT_master := (add_dsbt_entries (requested_index r) (DSBT_master st))
                [nat (requested_index r) := Some (r \<lparr> assigned_index := assigned_index r \<rparr>)] \<rparr>))
      else
        (let i = DSBT_first_avail_index st +
               length (takeWhile (\<lambda>e. e \<noteq> None) (drop (DSBT_first_avail_index st) (DSBT_master st)));
             entry = Some (r \<lparr> assigned_index := int i \<rparr>);
             master = DSBT_master st
         in Inr (st \<lparr> DSBT_first_avail_index := i,
                      DSBT_master := (if i < length master then master[i := entry]
                                      else if i = length master then master @ [entry] else master) \<rparr>)))"

fun assign_all :: "DSBT_Index_Request list \<Rightarrow> dsbt_state \<Rightarrow> load_fault + dsbt_state" where
  "assign_all [] st = Inr st"
| "assign_all (r # rs) st = bindE (assign_dsbt_entry r st) (assign_all rs)"

text \<open>First the requests for particular indices, then the others, each time in the order of the queue.\<close>

definition DLIF_assign_dsbt_indices :: "dsbt_state \<Rightarrow> load_fault + dsbt_state" where
  "DLIF_assign_dsbt_indices st =
     bindE (assign_all (filter (\<lambda>r. requested_index r \<noteq> DSBT_INDEX_INVALID) (DSBT_index_request_queue st)) st) (\<lambda>st1.
       bindE (assign_all (filter (\<lambda>r. requested_index r = DSBT_INDEX_INVALID) (DSBT_index_request_queue st)) st1) (\<lambda>st2.
         Inr (st2 \<lparr> DSBT_index_request_queue := [] \<rparr>)))"

section \<open>Use and release\<close>

fun index_of :: "u32 \<Rightarrow> DSBT_Index_Request option list \<Rightarrow> int" where
  "index_of h [] = DSBT_INDEX_INVALID"
| "index_of h (None # master) = index_of h master"
| "index_of h (Some r # master) = (if request_handle r = h then assigned_index r else index_of h master)"

definition DLIF_get_dsbt_index_of :: "u32 \<Rightarrow> dsbt_state \<Rightarrow> int" where
  "DLIF_get_dsbt_index_of h st = index_of h (DSBT_master st)"

text \<open>The static bases in the slots, at the base of one module's table; a free slot is not written.\<close>

fun write_table :: "u32 \<Rightarrow> DSBT_Index_Request option list \<Rightarrow> mem \<Rightarrow> mem" where
  "write_table a [] m = m"
| "write_table a (None # master) m = write_table (a + 4) master m"
| "write_table a (Some r # master) m = write_table (a + 4) master (write32 a (request_static_base r) m)"

definition DLIF_update_all_dsbts :: "dsbt_state \<Rightarrow> mem \<Rightarrow> bool \<times> mem" where
  "DLIF_update_all_dsbts st m =
     (let master = DSBT_master st in
      if \<exists>r. Some r \<in> set master \<and> unat (request_size r) < length master then (False, m)
      else (True, fold (\<lambda>e m. case e of None \<Rightarrow> m | Some r \<Rightarrow> write_table (request_base r) master m) master m))"

fun release_from :: "nat \<Rightarrow> u32 \<Rightarrow> DSBT_Index_Request option list \<Rightarrow> nat \<Rightarrow> DSBT_Index_Request option list \<times> nat" where
  "release_from i h [] avail = ([], avail)"
| "release_from i h (None # master) avail =
     (let (master1, avail1) = release_from (Suc i) h master avail in (None # master1, avail1))"
| "release_from i h (Some r # master) avail =
     (if request_handle r = h
      then (let (master1, avail1) = release_from (Suc i) h master (if i < avail then i else avail) in (None # master1, avail1))
      else (let (master1, avail1) = release_from (Suc i) h master avail in (Some r # master1, avail1)))"

definition DSBT_release_entry :: "u32 \<Rightarrow> dsbt_state \<Rightarrow> dsbt_state" where
  "DSBT_release_entry h st =
     (let (master, avail) = release_from 0 h (DSBT_master st) (DSBT_first_avail_index st)
      in st \<lparr> DSBT_master := master, DSBT_first_avail_index := avail \<rparr>)"

end
