(* ===== verification/Dsbt_Props.thy ===== *)
theory Dsbt_Props
  imports Dsbt Dload_Samples
begin

text \<open>
  Every request gets a slot of its own and keeps it until it is released; but a module that asked for a particular index is never told
  that it has it.
\<close>

section \<open>Runs\<close>

inductive dsbt_run :: "dsbt_state \<Rightarrow> bool" where
  created: "dsbt_run no_dsbts"
| registered: "dsbt_run st \<Longrightarrow> DLIF_register_dsbt_index_request memory base_name s name h requested st = Some (Inr (b, st')) \<Longrightarrow> dsbt_run st'"
| assigned: "dsbt_run st \<Longrightarrow> DLIF_assign_dsbt_indices st = Inr st' \<Longrightarrow> dsbt_run st'"
| released: "dsbt_run st \<Longrightarrow> dsbt_run (DSBT_release_entry h st)"

text \<open>What a slot holds.\<close>

definition slot_ok :: "nat \<Rightarrow> DSBT_Index_Request \<Rightarrow> bool" where
  "slot_ok i r \<longleftrightarrow> (requested_index r = DSBT_INDEX_INVALID \<and> assigned_index r = int i) \<or>
     (requested_index r = int i \<and> assigned_index r = DSBT_INDEX_INVALID)"

definition slots_ok :: "DSBT_Index_Request option list \<Rightarrow> bool" where
  "slots_ok master \<longleftrightarrow> (\<forall>i < length master. \<forall>r. master ! i = Some r \<longrightarrow> slot_ok i r)"

definition slot_free :: "DSBT_Index_Request option list \<Rightarrow> nat \<Rightarrow> bool" where
  "slot_free master i \<longleftrightarrow> (i < length master \<longrightarrow> master ! i = None)"

definition queue_ok :: "DSBT_Index_Request option list \<Rightarrow> DSBT_Index_Request list \<Rightarrow> bool" where
  "queue_ok master rs \<longleftrightarrow>
     (\<forall>r \<in> set rs. assigned_index r = DSBT_INDEX_INVALID \<and>
        (requested_index r \<noteq> DSBT_INDEX_INVALID \<longrightarrow> 0 \<le> requested_index r \<and> slot_free master (nat (requested_index r)))) \<and>
     distinct (filter (\<lambda>i. i \<noteq> DSBT_INDEX_INVALID) (map requested_index rs))"

definition dsbt_ok :: "dsbt_state \<Rightarrow> bool" where
  "dsbt_ok st \<longleftrightarrow> slots_ok (DSBT_master st) \<and> DSBT_first_avail_index st \<le> length (DSBT_master st) \<and>
     queue_ok (DSBT_master st) (DSBT_index_request_queue st)"

text \<open>\<open>kept m m'\<close>: what is in a slot stays there.\<close>

definition kept :: "DSBT_Index_Request option list \<Rightarrow> DSBT_Index_Request option list \<Rightarrow> bool" where
  "kept m m' \<longleftrightarrow> length m \<le> length m' \<and> (\<forall>i < length m. m ! i \<noteq> None \<longrightarrow> m' ! i = m ! i)"

lemma kept_refl: "kept m m"
  by (simp add: kept_def)

lemma kept_trans: "kept m m1 \<Longrightarrow> kept m1 m2 \<Longrightarrow> kept m m2"
  by (auto simp: kept_def)

section \<open>One request\<close>

lemma assign_specific:
  assumes "slots_ok (DSBT_master st)" "requested_index r = int i" "assigned_index r = DSBT_INDEX_INVALID" "slot_free (DSBT_master st) i"
  shows "\<exists>st'. assign_dsbt_entry r st = Inr st' \<and> slots_ok (DSBT_master st') \<and> kept (DSBT_master st) (DSBT_master st') \<and>
    DSBT_first_avail_index st' = DSBT_first_avail_index st \<and> i < length (DSBT_master st') \<and> DSBT_master st' ! i = Some r \<and>
    (\<forall>j. j \<noteq> i \<longrightarrow> slot_free (DSBT_master st) j \<longrightarrow> slot_free (DSBT_master st') j)"
proof -
  let ?m = "DSBT_master st"
  let ?m1 = "add_dsbt_entries (int i) ?m"
  have len: "i < length ?m1" "length ?m \<le> length ?m1"
    by (auto simp: add_dsbt_entries_def)
  have nth: "?m1 ! j = (if j < length ?m then ?m ! j else None)" if "j < length ?m1" for j
    using that by (auto simp: add_dsbt_entries_def nth_append)
  have same: "r \<lparr> assigned_index := assigned_index r \<rparr> = r"
    by simp
  have "assign_dsbt_entry r st = Inr (st \<lparr> DSBT_master := ?m1[i := Some r] \<rparr>)"
    using assms(2) by (simp add: assign_dsbt_entry_def)
  moreover have "slots_ok (?m1[i := Some r])"
    using assms(1-3) len nth by (auto simp: slots_ok_def slot_ok_def nth_list_update)
  moreover have "kept ?m (?m1[i := Some r])"
    using assms(4) len nth by (auto simp: kept_def slot_free_def nth_list_update)
  moreover have "slot_free (?m1[i := Some r]) j" if "j \<noteq> i" "slot_free ?m j" for j
    using that nth by (auto simp: slot_free_def nth_list_update)
  ultimately show ?thesis
    using len by simp
qed

lemma assign_general:
  assumes "slots_ok (DSBT_master st)" "requested_index r = DSBT_INDEX_INVALID" "DSBT_first_avail_index st \<le> length (DSBT_master st)"
  shows "\<exists>st' i. assign_dsbt_entry r st = Inr st' \<and> slots_ok (DSBT_master st') \<and> kept (DSBT_master st) (DSBT_master st') \<and>
    DSBT_first_avail_index st' \<le> length (DSBT_master st') \<and> i < length (DSBT_master st') \<and>
    DSBT_master st' ! i = Some (r \<lparr> assigned_index := int i \<rparr>)"
proof -
  let ?m = "DSBT_master st" and ?a = "DSBT_first_avail_index st"
  define i where "i = ?a + length (takeWhile (\<lambda>e. e \<noteq> None) (drop ?a ?m))"
  have le: "i \<le> length ?m"
    using assms(3) length_takeWhile_le [of "\<lambda>e. e \<noteq> None" "drop ?a ?m"] by (simp add: i_def)
  have free: "i < length ?m \<Longrightarrow> ?m ! i = None"
  proof -
    assume "i < length ?m"
    then have "length (takeWhile (\<lambda>e. e \<noteq> None) (drop ?a ?m)) < length (drop ?a ?m)"
      by (simp add: i_def)
    from nth_length_takeWhile [OF this] show "?m ! i = None"
      using assms(3) by (simp add: i_def)
  qed
  let ?e = "Some (r \<lparr> assigned_index := int i \<rparr>)"
  let ?m' = "if i < length ?m then ?m[i := ?e] else ?m @ [?e]"
  have "assign_dsbt_entry r st = Inr (st \<lparr> DSBT_first_avail_index := i, DSBT_master := ?m' \<rparr>)"
    using assms(2) le unfolding assign_dsbt_entry_def Let_def i_def [symmetric] by auto
  moreover have "slots_ok ?m'"
    using assms(1,2) le by (auto simp: slots_ok_def slot_ok_def nth_list_update nth_append)
  moreover have "kept ?m ?m'"
    using free by (auto simp: kept_def nth_list_update nth_append)
  moreover have "i \<le> length ?m'" "i < length ?m'" "?m' ! i = ?e"
    using le by (auto simp: nth_append)
  ultimately show ?thesis
    by (intro exI [of _ "st \<lparr> DSBT_first_avail_index := i, DSBT_master := ?m' \<rparr>"] exI [of _ i]) simp
qed


section \<open>All requests\<close>

lemma kept_slot: "kept m m' \<Longrightarrow> i < length m \<Longrightarrow> m ! i = Some r \<Longrightarrow> i < length m' \<and> m' ! i = Some r"
  by (auto simp: kept_def)

lemma assign_specifics:
  assumes "slots_ok (DSBT_master st)"
    "\<forall>r \<in> set rs. assigned_index r = DSBT_INDEX_INVALID \<and> 0 \<le> requested_index r \<and> slot_free (DSBT_master st) (nat (requested_index r))"
    "distinct (map requested_index rs)"
  shows "\<exists>st'. assign_all rs st = Inr st' \<and> slots_ok (DSBT_master st') \<and> kept (DSBT_master st) (DSBT_master st') \<and>
    DSBT_first_avail_index st' = DSBT_first_avail_index st \<and>
    (\<forall>r \<in> set rs. \<exists>i < length (DSBT_master st'). requested_index r = int i \<and> DSBT_master st' ! i = Some r)"
  using assms
proof (induction rs arbitrary: st)
  case Nil
  then show ?case by (simp add: kept_refl)
next
  case (Cons r rs)
  define i where "i = nat (requested_index r)"
  have ri: "requested_index r = int i" "assigned_index r = DSBT_INDEX_INVALID" "slot_free (DSBT_master st) i"
    using Cons.prems(2) by (simp_all add: i_def)
  obtain st1 where st1: "assign_dsbt_entry r st = Inr st1" "slots_ok (DSBT_master st1)" "kept (DSBT_master st) (DSBT_master st1)"
      "DSBT_first_avail_index st1 = DSBT_first_avail_index st" "i < length (DSBT_master st1)" "DSBT_master st1 ! i = Some r"
      "\<forall>j. j \<noteq> i \<longrightarrow> slot_free (DSBT_master st) j \<longrightarrow> slot_free (DSBT_master st1) j"
    using assign_specific [OF Cons.prems(1) ri] by blast
  have "slot_free (DSBT_master st1) (nat (requested_index q))" if "q \<in> set rs" for q
  proof -
    have "requested_index q \<noteq> int i" "0 \<le> requested_index q" "slot_free (DSBT_master st) (nat (requested_index q))"
      using Cons.prems(2,3) that ri(1) by (auto simp: image_iff)
    then show ?thesis
      using st1(7) by auto
  qed
  then obtain st2 where st2: "assign_all rs st1 = Inr st2" "slots_ok (DSBT_master st2)" "kept (DSBT_master st1) (DSBT_master st2)"
      "DSBT_first_avail_index st2 = DSBT_first_avail_index st1"
      "\<forall>r \<in> set rs. \<exists>i < length (DSBT_master st2). requested_index r = int i \<and> DSBT_master st2 ! i = Some r"
    using Cons.IH [OF st1(2)] Cons.prems(2,3) by auto
  have "i < length (DSBT_master st2) \<and> DSBT_master st2 ! i = Some r"
    by (rule kept_slot [OF st2(3) st1(5,6)])
  then show ?case
    using st1(1,4) st2 ri(1) kept_trans [OF st1(3) st2(3)] by auto
qed

lemma assign_generals:
  assumes "slots_ok (DSBT_master st)" "\<forall>r \<in> set rs. requested_index r = DSBT_INDEX_INVALID"
    "DSBT_first_avail_index st \<le> length (DSBT_master st)"
  shows "\<exists>st'. assign_all rs st = Inr st' \<and> slots_ok (DSBT_master st') \<and> kept (DSBT_master st) (DSBT_master st') \<and>
    DSBT_first_avail_index st' \<le> length (DSBT_master st') \<and>
    (\<forall>r \<in> set rs. \<exists>i < length (DSBT_master st'). DSBT_master st' ! i = Some (r \<lparr> assigned_index := int i \<rparr>))"
  using assms
proof (induction rs arbitrary: st)
  case Nil
  then show ?case by (simp add: kept_refl)
next
  case (Cons r rs)
  obtain st1 i where st1: "assign_dsbt_entry r st = Inr st1" "slots_ok (DSBT_master st1)" "kept (DSBT_master st) (DSBT_master st1)"
      "DSBT_first_avail_index st1 \<le> length (DSBT_master st1)" "i < length (DSBT_master st1)"
      "DSBT_master st1 ! i = Some (r \<lparr> assigned_index := int i \<rparr>)"
    using assign_general [OF Cons.prems(1) _ Cons.prems(3), of r] Cons.prems(2) by auto
  obtain st2 where st2: "assign_all rs st1 = Inr st2" "slots_ok (DSBT_master st2)" "kept (DSBT_master st1) (DSBT_master st2)"
      "DSBT_first_avail_index st2 \<le> length (DSBT_master st2)"
      "\<forall>r \<in> set rs. \<exists>i < length (DSBT_master st2). DSBT_master st2 ! i = Some (r \<lparr> assigned_index := int i \<rparr>)"
    using Cons.IH [OF st1(2) _ st1(4)] Cons.prems(2) by auto
  have "i < length (DSBT_master st2) \<and> DSBT_master st2 ! i = Some (r \<lparr> assigned_index := int i \<rparr>)"
    by (rule kept_slot [OF st2(3) st1(5,6)])
  then show ?case
    using st1(1) st2 kept_trans [OF st1(3) st2(3)] by auto
qed

text \<open>A request after the assignment: what it holds and where.\<close>

definition placed_request :: "DSBT_Index_Request option list \<Rightarrow> DSBT_Index_Request \<Rightarrow> bool" where
  "placed_request master r \<longleftrightarrow>
     (\<exists>i < length master. (requested_index r = int i \<and> master ! i = Some r) \<or>
        (requested_index r = DSBT_INDEX_INVALID \<and> master ! i = Some (r \<lparr> assigned_index := int i \<rparr>)))"

lemma assign_placed:
  assumes "dsbt_ok st"
  shows "\<exists>st'. DLIF_assign_dsbt_indices st = Inr st' \<and> dsbt_ok st' \<and> DSBT_index_request_queue st' = [] \<and>
    kept (DSBT_master st) (DSBT_master st') \<and> (\<forall>r \<in> set (DSBT_index_request_queue st). placed_request (DSBT_master st') r)"
proof -
  let ?sp = "filter (\<lambda>r. requested_index r \<noteq> DSBT_INDEX_INVALID) (DSBT_index_request_queue st)"
  let ?gn = "filter (\<lambda>r. requested_index r = DSBT_INDEX_INVALID) (DSBT_index_request_queue st)"
  have "distinct (map requested_index ?sp)"
    using assms by (simp add: dsbt_ok_def queue_ok_def filter_map comp_def)
  then obtain st1 where st1: "assign_all ?sp st = Inr st1" "slots_ok (DSBT_master st1)" "kept (DSBT_master st) (DSBT_master st1)"
      "DSBT_first_avail_index st1 = DSBT_first_avail_index st"
      "\<forall>r \<in> set ?sp. \<exists>i < length (DSBT_master st1). requested_index r = int i \<and> DSBT_master st1 ! i = Some r"
    using assign_specifics [of st ?sp] assms by (auto simp: dsbt_ok_def queue_ok_def)
  have "DSBT_first_avail_index st1 \<le> length (DSBT_master st1)"
    using assms st1(3,4) by (auto simp: dsbt_ok_def kept_def)
  then obtain st2 where st2: "assign_all ?gn st1 = Inr st2" "slots_ok (DSBT_master st2)" "kept (DSBT_master st1) (DSBT_master st2)"
      "DSBT_first_avail_index st2 \<le> length (DSBT_master st2)"
      "\<forall>r \<in> set ?gn. \<exists>i < length (DSBT_master st2). DSBT_master st2 ! i = Some (r \<lparr> assigned_index := int i \<rparr>)"
    using assign_generals [OF st1(2), of ?gn] by auto
  have "placed_request (DSBT_master st2) r" if r: "r \<in> set (DSBT_index_request_queue st)" for r
  proof (cases "requested_index r = DSBT_INDEX_INVALID")
    case True
    then show ?thesis
      using st2(5) r by (auto simp: placed_request_def)
  next
    case False
    then obtain i where "i < length (DSBT_master st1)" "requested_index r = int i" "DSBT_master st1 ! i = Some r"
      using st1(5) r by auto
    then show ?thesis
      using kept_slot [OF st2(3)] unfolding placed_request_def by blast
  qed
  moreover have "DLIF_assign_dsbt_indices st = Inr (st2 \<lparr> DSBT_index_request_queue := [] \<rparr>)"
    using st1(1) st2(1) by (simp add: DLIF_assign_dsbt_indices_def)
  moreover have "dsbt_ok (st2 \<lparr> DSBT_index_request_queue := [] \<rparr>)"
    using st2(2,4) by (simp add: dsbt_ok_def queue_ok_def)
  ultimately show ?thesis
    using kept_trans [OF st1(3) st2(3)] by simp
qed


section \<open>Reachable states\<close>

lemma register_ok:
  assumes "dsbt_ok st" "DLIF_register_dsbt_index_request memory base_name s name h requested st = Some (Inr (b, st'))"
  shows "dsbt_ok st'"
proof (cases "st' = st")
  case False
  obtain refused where ref: "(if requested \<noteq> DSBT_INDEX_INVALID
      then bindE (index_in_use requested st) (\<lambda>used. Inr (used \<or> request_conflicts h requested st)) else Inr False) = Inr refused"
    using assms(2) unfolding DLIF_register_dsbt_index_request_def by (auto simp: bind_result_eq_Inr)
  have nref: "\<not> refused"
    using assms(2) False ref by (auto simp: DLIF_register_dsbt_index_request_def)
  obtain r where r: "st' = st \<lparr> DSBT_index_request_queue := DSBT_index_request_queue st @ [r] \<rparr>" "requested_index r = requested"
      "assigned_index r = DSBT_INDEX_INVALID"
    using assms(2) False ref nref unfolding DLIF_register_dsbt_index_request_def
    by (auto simp: bind_result_eq_Inr split: if_splits option.splits bool.splits prod.splits)
  have "0 \<le> requested \<and> slot_free (DSBT_master st) (nat requested) \<and> requested \<notin> requested_index ` set (DSBT_index_request_queue st)"
    if "requested \<noteq> DSBT_INDEX_INVALID"
    using that ref nref
    by (auto simp: bindE_eq_Inr index_in_use_def request_conflicts_def slot_free_def split: if_splits)
  then show ?thesis
    using assms(1) r by (auto simp: dsbt_ok_def queue_ok_def)
qed (use assms in simp)

definition without_handle :: "u32 \<Rightarrow> DSBT_Index_Request option \<Rightarrow> DSBT_Index_Request option" where
  "without_handle h e = (case e of None \<Rightarrow> None | Some r \<Rightarrow> if request_handle r = h then None else Some r)"

lemma release_from_map:
  "fst (release_from i h master avail) = map (without_handle h) master \<and> snd (release_from i h master avail) \<le> avail"
proof (induction i h master avail rule: release_from.induct)
  case (3 i h r master avail)
  then show ?case
    by (cases "request_handle r = h") (auto simp: Let_def without_handle_def split: prod.splits if_splits)
qed (auto simp: Let_def without_handle_def split: prod.splits)

lemma release_ok:
  assumes "dsbt_ok st"
  shows "dsbt_ok (DSBT_release_entry h st)"
proof -
  obtain master avail where m: "release_from 0 h (DSBT_master st) (DSBT_first_avail_index st) = (master, avail)"
    by fastforce
  have m': "master = map (without_handle h) (DSBT_master st)" "avail \<le> DSBT_first_avail_index st"
    using release_from_map [of 0 h "DSBT_master st" "DSBT_first_avail_index st"] by (simp_all add: m)
  have nth: "master ! i = Some r \<Longrightarrow> DSBT_master st ! i = Some r" if "i < length (DSBT_master st)" for i r
    using that by (simp add: m'(1) without_handle_def split: option.splits if_splits)
  have "slots_ok master"
    using assms nth m'(1) by (simp add: dsbt_ok_def slots_ok_def)
  moreover have "slot_free (DSBT_master st) i \<Longrightarrow> slot_free master i" for i
    by (auto simp: slot_free_def m'(1) without_handle_def)
  then have "queue_ok (DSBT_master st) rs \<Longrightarrow> queue_ok master rs" for rs
    by (auto simp: queue_ok_def)
  ultimately show ?thesis
    using assms m' by (auto simp: dsbt_ok_def DSBT_release_entry_def m)
qed

lemma run_ok: "dsbt_run st \<Longrightarrow> dsbt_ok st"
proof (induction rule: dsbt_run.induct)
  case created
  show ?case by (simp add: no_dsbts_def dsbt_ok_def slots_ok_def queue_ok_def)
next
  case (registered st memory base_name s name h requested b st')
  show ?case by (rule register_ok [OF registered.IH registered.hyps(2)])
next
  case (assigned st st')
  then show ?case using assign_placed [OF assigned.IH] by auto
next
  case (released st h)
  show ?case by (rule release_ok [OF released.IH])
qed

section \<open>Properties\<close>

text \<open>C19: In every reachable state the requests in the queue are all given a slot by the assignment, one that asked for an index that one,
  and whatever a slot held before stays there.\<close>

theorem dsbt_requests_placed:
  assumes "dsbt_run st"
  shows "\<exists>st'. DLIF_assign_dsbt_indices st = Inr st' \<and> DSBT_index_request_queue st' = [] \<and>
    kept (DSBT_master st) (DSBT_master st') \<and> (\<forall>r \<in> set (DSBT_index_request_queue st). placed_request (DSBT_master st') r)"
  using assign_placed [OF run_ok [OF assms]] by blast

lemma index_of_slot:
  assumes "i < length master" "master ! i = Some r"
    "\<forall>j < length master. \<forall>q. master ! j = Some q \<longrightarrow> request_handle q = request_handle r \<longrightarrow> j = i"
  shows "index_of (request_handle r) master = assigned_index r"
  using assms
proof (induction master arbitrary: i)
  case (Cons e master)
  show ?case
  proof (cases i)
    case 0
    then show ?thesis using Cons.prems(2) by simp
  next
    case (Suc k)
    have "index_of (request_handle r) master = assigned_index r"
      using Cons.prems Suc by (intro Cons.IH [of k]) fastforce+
    moreover have "e = Some q \<Longrightarrow> request_handle q \<noteq> request_handle r" for q
      using Cons.prems(3) Suc by fastforce
    ultimately show ?thesis
      by (cases e) auto
  qed
qed simp

text \<open>C22: A module whose request is in a slot is told its index only if it asked for none in particular; one that asked for that index is told
  -1, since its assigned index is assigned to itself.\<close>

theorem requested_index_lost:
  assumes "dsbt_run st" "i < length (DSBT_master st)" "DSBT_master st ! i = Some r"
    "\<forall>j < length (DSBT_master st). \<forall>q. DSBT_master st ! j = Some q \<longrightarrow> request_handle q = request_handle r \<longrightarrow> j = i"
  shows "DLIF_get_dsbt_index_of (request_handle r) st = (if requested_index r = DSBT_INDEX_INVALID then int i else -1) \<and>
    (requested_index r \<noteq> DSBT_INDEX_INVALID \<longrightarrow> requested_index r = int i)"
proof -
  have "slot_ok i r"
    using run_ok [OF assms(1)] assms(2,3) by (auto simp: dsbt_ok_def slots_ok_def)
  moreover have "DLIF_get_dsbt_index_of (request_handle r) st = assigned_index r"
    unfolding DLIF_get_dsbt_index_of_def using assms(2-4) by (rule index_of_slot)
  ultimately show ?thesis
    by (auto simp: slot_ok_def)
qed


section \<open>An example\<close>

text \<open>Two modules on the dependency stack; the name \<open>__TI_STATIC_BASE\<close> is at address 0 of host memory.\<close>

definition dsbt_library :: "u32 \<Rightarrow> DLIMP_Dynamic_Module \<times> elf_file" where
  "dsbt_library h = (new_DLIMP_Dynamic_Module
     \<lparr> dsbt_size := 4, dsbt_base_tagidx := 0, dyntab := [\<lparr> d_tag = 0x70000000, d_un = 0x5000 \<rparr>, \<lparr> d_tag = 0, d_un = 0 \<rparr>],
       symnum := 1, symtab := [\<lparr> st_name = 0, st_value = 0x6000, st_size = 0, st_info = 0, st_other = 0, st_shndx = 1 \<rparr>],
       loaded_module := null_loaded_module \<lparr> file_handle := h \<rparr> \<rparr>, static_file)"

definition dsbt_loader :: loader where
  "dsbt_loader = DLOAD_create
     \<lparr> dependency_stack := [dsbt_library 2, dsbt_library 1], host_memory := words_mem [0x49545F5F, 0x4154535F, 0x5F434954, 0x45534142, 0] \<rparr>"

definition sample_request :: "u32 \<Rightarrow> int \<Rightarrow> int \<Rightarrow> DSBT_Index_Request" where
  "sample_request h requested assigned =
     \<lparr> request_name = ''m'', request_handle = h, request_size = 4, request_base = 0x5000, request_static_base = 0x6000,
       requested_index = requested, assigned_index = assigned \<rparr>"

lemma sample_bases:
  "DLOAD_get_dsbt_size 1 dsbt_loader = Inr 4" "DLOAD_get_dsbt_size 2 dsbt_loader = Inr 4"
  "DLOAD_get_dsbt_base 1 dsbt_loader = Inr (Some 0x5000)" "DLOAD_get_dsbt_base 2 dsbt_loader = Inr (Some 0x5000)"
  "DLOAD_get_static_base 0 1 dsbt_loader = Some (Inr (Some (True, 0x6000)))"
  "DLOAD_get_static_base 0 2 dsbt_loader = Some (Inr (Some (True, 0x6000)))"
  by code_simp+

lemma sample_registered: "dsbt_run (no_dsbts \<lparr> DSBT_index_request_queue := [sample_request 1 (-1) (-1), sample_request 2 1 (-1)] \<rparr>)"
proof -
  have "dsbt_run (no_dsbts \<lparr> DSBT_index_request_queue := [sample_request 1 (-1) (-1)] \<rparr>)"
    by (rule dsbt_run.registered [OF dsbt_run.created, of True 0 dsbt_loader "''m''" 1 "-1" True])
      (simp add: DLIF_register_dsbt_index_request_def sample_bases no_dsbts_def sample_request_def)
  then show ?thesis
    by (rule dsbt_run.registered [of _ True 0 dsbt_loader "''m''" 2 1 True])
      (simp add: DLIF_register_dsbt_index_request_def sample_bases no_dsbts_def sample_request_def index_in_use_def request_conflicts_def)
qed

lemma sample_assigned:
  "DLIF_assign_dsbt_indices (no_dsbts \<lparr> DSBT_index_request_queue := [sample_request 1 (-1) (-1), sample_request 2 1 (-1)] \<rparr>) =
   Inr (no_dsbts \<lparr> DSBT_master := [Some (sample_request 1 (-1) 0), Some (sample_request 2 1 (-1))] \<rparr>)"
  by code_simp

theorem dsbt_requests_placed_witness:
  "placed_request [Some (sample_request 1 (-1) 0), Some (sample_request 2 1 (-1))] (sample_request 2 1 (-1))"
  using dsbt_requests_placed [OF sample_registered] by (auto simp: sample_assigned)

theorem requested_index_lost_witness:
  "DLIF_get_dsbt_index_of 2 (no_dsbts \<lparr> DSBT_master := [Some (sample_request 1 (-1) 0), Some (sample_request 2 1 (-1))] \<rparr>) = -1"
proof -
  let ?st = "no_dsbts \<lparr> DSBT_master := [Some (sample_request 1 (-1) 0), Some (sample_request 2 1 (-1))] \<rparr>"
  have run: "dsbt_run ?st"
    by (rule dsbt_run.assigned [OF sample_registered sample_assigned])
  have "\<forall>j < length (DSBT_master ?st). \<forall>q. DSBT_master ?st ! j = Some q \<longrightarrow>
      request_handle q = request_handle (sample_request 2 1 (-1)) \<longrightarrow> j = 1"
    by (auto simp: less_Suc_eq sample_request_def)
  then show ?thesis
    using requested_index_lost [OF run, of 1 "sample_request 2 1 (-1)"] by (simp add: sample_request_def)
qed

end
