(* ===== verification/Array_Lists.thy ===== *)
theory Array_Lists
  imports Prelude
begin

text \<open>
  The resizable array of the loader (\<open>elfload/ArrayList.c\<close>, \<open>include/ArrayList.h\<close>). An
  \<open>Array_List\<close> owns a buffer of bytes that holds \<open>size\<close> elements of \<open>type_size\<close> bytes each, and
  has room for \<open>buffer_size\<close> of them.

  \<open>DLIF_malloc\<close> is the client's allocator: a parameter that gives the contents of a fresh block of
  the requested length, or \<open>None\<close> when it returns NULL. Writing through a NULL \<open>buf\<close> and past the
  end of a block are the failures \<open>NullBuffer\<close> and \<open>OutOfBuffer\<close>. The \<open>int32_t\<close> fields count bytes
  and elements of blocks that fit in the host's memory, and are natural numbers here.
\<close>

datatype al_fault = NullBuffer | OutOfBuffer

record Array_List =
  buf :: "u8 list option"
  type_size :: nat
  al_size :: nat
  buffer_size :: nat

section \<open>Operations\<close>

definition AL_initialize :: "(nat \<Rightarrow> u8 list option) \<Rightarrow> nat \<Rightarrow> nat \<Rightarrow> Array_List" where
  "AL_initialize malloc ty_size num_elem =
     (let n = (if num_elem = 0 then 1 else num_elem)
      in \<lparr> buf = malloc (ty_size * n), type_size = ty_size, al_size = 0, buffer_size = n \<rparr>)"

text \<open>\<open>memcpy (buf + off, src, n)\<close>, on the block \<open>b\<close>.\<close>

definition memcpy_at :: "u8 list \<Rightarrow> nat \<Rightarrow> u8 list \<Rightarrow> al_fault + u8 list" where
  "memcpy_at b off src =
     (if off + length src \<le> length b
      then Inr (take off b @ src @ drop (off + length src) b) else Inl OutOfBuffer)"

text \<open>
  When the buffer is full, its capacity is doubled first, and a new block is asked for. If that
  fails, \<open>buf\<close> becomes NULL, nothing is appended, and the old block is freed all the same.
\<close>

definition AL_append :: "(nat \<Rightarrow> u8 list option) \<Rightarrow> Array_List \<Rightarrow> u8 list \<Rightarrow> al_fault + Array_List" where
  "AL_append malloc obj to_append =
     (if al_size obj < buffer_size obj then
        (case buf obj of
           None \<Rightarrow> Inl NullBuffer
         | Some b \<Rightarrow>
             bindE (memcpy_at b (type_size obj * al_size obj) (take (type_size obj) to_append))
               (\<lambda>b'. Inr (obj \<lparr> buf := Some b', al_size := al_size obj + 1 \<rparr>)))
      else
        (let old_buffer = buf obj;
             obj1 = obj \<lparr> buffer_size := buffer_size obj * 2 \<rparr>;
             obj2 = obj1 \<lparr> buf := malloc (buffer_size obj1 * type_size obj1) \<rparr>
         in case buf obj2 of
              None \<Rightarrow> Inr obj2
            | Some b \<Rightarrow>
                (case old_buffer of
                   None \<Rightarrow> Inl NullBuffer
                 | Some old \<Rightarrow>
                     bindE (memcpy_at b 0 (take (al_size obj * type_size obj) old)) (\<lambda>b1.
                     bindE (memcpy_at b1 (type_size obj * al_size obj) (take (type_size obj) to_append))
                       (\<lambda>b2. Inr (obj2 \<lparr> buf := Some b2, al_size := al_size obj + 1 \<rparr>))))))"

definition AL_size :: "Array_List \<Rightarrow> nat" where
  "AL_size obj = al_size obj"

definition AL_destroy :: "Array_List \<Rightarrow> Array_List" where
  "AL_destroy obj = obj \<lparr> buf := None \<rparr>"

section \<open>Abstraction\<close>

text \<open>The elements an array holds, and the invariant of an array whose buffer is allocated.\<close>

fun chunks :: "nat \<Rightarrow> nat \<Rightarrow> u8 list \<Rightarrow> u8 list list" where
  "chunks k 0 bs = []"
| "chunks k (Suc n) bs = take k bs # chunks k n (drop k bs)"

definition al_elems :: "Array_List \<Rightarrow> u8 list list" where
  "al_elems obj = (case buf obj of None \<Rightarrow> [] | Some b \<Rightarrow> chunks (type_size obj) (al_size obj) b)"

definition al_ok :: "Array_List \<Rightarrow> bool" where
  "al_ok obj \<longleftrightarrow>
     0 < buffer_size obj \<and> al_size obj \<le> buffer_size obj \<and>
     (case buf obj of None \<Rightarrow> False | Some b \<Rightarrow> length b = buffer_size obj * type_size obj)"

text \<open>Documented behaviour of the allocator: a block it returns has the requested length.\<close>

definition malloc_sized :: "(nat \<Rightarrow> u8 list option) \<Rightarrow> bool" where
  "malloc_sized malloc \<longleftrightarrow> (\<forall>n b. malloc n = Some b \<longrightarrow> length b = n)"

lemma malloc_sizedD: "malloc_sized malloc \<Longrightarrow> malloc n = Some b \<Longrightarrow> length b = n"
  by (simp add: malloc_sized_def)

lemma chunks_append:
  "length bs = k * n \<Longrightarrow> chunks k (n + m) (bs @ cs) = chunks k n bs @ chunks k m cs"
proof (induction n arbitrary: bs)
  case (Suc n)
  then show ?case by (simp add: Suc.IH [symmetric])
qed simp

lemma chunks_take: "k * n \<le> j \<Longrightarrow> chunks k n (take j bs) = chunks k n bs"
proof (induction n arbitrary: bs j)
  case (Suc n)
  have "chunks k n (drop k (take j bs)) = chunks k n (take (j - k) (drop k bs))"
    by (simp add: drop_take)
  also have "\<dots> = chunks k n (drop k bs)"
    using Suc.prems by (intro Suc.IH) simp
  finally show ?case using Suc.prems by (simp add: min_def)
qed simp

lemma length_chunks [simp]: "length (chunks k n bs) = n"
  by (induction n arbitrary: bs) auto

declare chunks.simps(2) [simp del]

text \<open>Writing one more element behind \<open>n\<close> elements that are in place.\<close>

lemma chunks_snoc:
  assumes "k * n + k \<le> length b" "length x = k"
  shows "chunks k (Suc n) (take (k * n) b @ x @ rest) = chunks k n b @ [x]"
proof -
  have "chunks k (n + 1) (take (k * n) b @ x @ rest) = chunks k n (take (k * n) b) @ chunks k 1 (x @ rest)"
    using assms by (intro chunks_append) simp
  with assms show ?thesis by (simp add: chunks_take chunks.simps(2))
qed

lemma chunks_snoc_whole:
  assumes "length b = k * n" "length x = k"
  shows "chunks k (Suc n) (b @ x @ rest) = chunks k n b @ [x]"
proof -
  have "chunks k (n + 1) (b @ x @ rest) = chunks k n b @ chunks k 1 (x @ rest)"
    using assms by (intro chunks_append) simp
  with assms show ?thesis by (simp add: chunks.simps(2))
qed

section \<open>Correctness of the operations\<close>

lemma AL_initialize_ok:
  assumes "malloc_sized malloc" "malloc (k * (if n = 0 then 1 else n)) \<noteq> None"
  shows "al_ok (AL_initialize malloc k n)" and "al_elems (AL_initialize malloc k n) = []"
  using assms by (cases "n = 0"; auto simp: AL_initialize_def al_ok_def al_elems_def malloc_sizedD)+

text \<open>
  An append either stores the element behind those already there, whether or not the buffer had to
  grow, or fails to get a bigger block.
\<close>

lemma AL_append_ok:
  assumes m: "malloc_sized malloc" and ok: "al_ok obj" and x: "length x = type_size obj"
    and room: "al_size obj < buffer_size obj \<or> malloc (buffer_size obj * 2 * type_size obj) \<noteq> None"
  shows "\<exists>obj'. AL_append malloc obj x = Inr obj' \<and> al_ok obj' \<and> type_size obj' = type_size obj \<and>
           al_elems obj' = al_elems obj @ [x]"
proof -
  obtain b where b: "buf obj = Some b" and lb: "length b = buffer_size obj * type_size obj"
    using ok by (auto simp: al_ok_def split: option.splits)
  let ?k = "type_size obj" and ?n = "al_size obj" and ?c = "buffer_size obj"
  show ?thesis
  proof (cases "?n < ?c")
    case True
    then have fits: "?k * ?n + ?k \<le> length b"
      using mult_le_mono2 [of "Suc ?n" ?c ?k] by (simp add: lb mult.commute)
    with True x b ok show ?thesis
      by (auto simp: AL_append_def memcpy_at_def al_ok_def al_elems_def lb chunks_snoc)
  next
    case False
    with ok have n: "?n = ?c" by (simp add: al_ok_def)
    with room obtain nb where nb: "malloc (?c * 2 * ?k) = Some nb" by auto
    have lnb: "length nb = ?c * 2 * ?k" using malloc_sizedD [OF m nb] .
    have len: "?k * ?c + ?k \<le> length nb"
      using ok by (cases ?c) (auto simp: lnb al_ok_def algebra_simps)
    have "chunks ?k (Suc ?c) (b @ x @ drop (?k * ?c + ?k) nb) = chunks ?k ?c b @ [x]"
      using x by (simp add: lb mult.commute chunks_snoc_whole)
    moreover have pos: "0 < ?c" using ok by (simp add: al_ok_def)
    moreover have "AL_append malloc obj x = Inr (obj \<lparr> buf := Some (b @ x @ drop (?k * ?c + ?k) nb),
        al_size := ?c + 1, buffer_size := ?c * 2 \<rparr>)"
      using len lb n b nb lnb x pos
      by (cases obj) (simp add: AL_append_def memcpy_at_def Let_def mult.commute add.commute)
    ultimately show ?thesis
      using lb lnb len x b n by (simp add: al_ok_def al_elems_def)
  qed
qed

text \<open>A run of appends, as the loader makes them while it reads a file.\<close>

fun AL_append_all :: "(nat \<Rightarrow> u8 list option) \<Rightarrow> Array_List \<Rightarrow> u8 list list \<Rightarrow> al_fault + Array_List" where
  "AL_append_all malloc obj [] = Inr obj"
| "AL_append_all malloc obj (x # xs) =
     bindE (AL_append malloc obj x) (\<lambda>obj'. AL_append_all malloc obj' xs)"

lemma AL_append_all_ok:
  assumes "malloc_sized malloc" "\<And>n. malloc n \<noteq> None" "al_ok obj"
    and "\<forall>x \<in> set xs. length x = type_size obj"
  shows "\<exists>obj'. AL_append_all malloc obj xs = Inr obj' \<and> al_ok obj' \<and> al_elems obj' = al_elems obj @ xs"
  using assms(3,4)
proof (induction xs arbitrary: obj)
  case (Cons x xs)
  obtain obj1 where "AL_append malloc obj x = Inr obj1" "al_ok obj1" "type_size obj1 = type_size obj"
    "al_elems obj1 = al_elems obj @ [x]"
    using AL_append_ok [OF assms(1) Cons.prems(1), of x] assms(2) Cons.prems(2) by auto
  with Cons.IH [of obj1] Cons.prems(2) show ?case by auto
qed simp

lemma al_elems_length: "al_ok obj \<Longrightarrow> length (al_elems obj) = AL_size obj"
  by (auto simp: al_ok_def al_elems_def AL_size_def split: option.splits)

text \<open>An array list holds the elements appended to it, in their order, however often its buffer had to
  grow, and counts them.\<close>

theorem array_list_holds_appended:
  assumes "malloc_sized malloc" "\<forall>n. malloc n \<noteq> None" "\<forall>x \<in> set xs. length x = k"
  shows "\<exists>obj. AL_append_all malloc (AL_initialize malloc k n) xs = Inr obj \<and> al_elems obj = xs \<and>
               AL_size obj = length xs"
proof -
  have init: "al_ok (AL_initialize malloc k n)" "al_elems (AL_initialize malloc k n) = []"
    using AL_initialize_ok [OF assms(1)] assms(2) by blast+
  have "type_size (AL_initialize malloc k n) = k" by (simp add: AL_initialize_def)
  then have "\<exists>obj. AL_append_all malloc (AL_initialize malloc k n) xs = Inr obj \<and> al_ok obj \<and>
      al_elems obj = al_elems (AL_initialize malloc k n) @ xs"
    using assms by (intro AL_append_all_ok init) auto
  then show ?thesis using init(2) al_elems_length by fastforce
qed

theorem array_list_holds_appended_witness:
  "\<exists>obj. AL_append_all (\<lambda>n. Some (replicate n 0)) (AL_initialize (\<lambda>n. Some (replicate n 0)) 2 1) [[1, 2], [3, 4], [5, 6]] = Inr obj \<and>
     al_elems obj = [[1, 2], [3, 4], [5, 6]] \<and> AL_size obj = length [[1, 2], [3, 4], [5, 6 :: u8]]"
  by (rule array_list_holds_appended) (auto simp: malloc_sized_def)

end
