(* ===== verification/Trg_Mem.thy ===== *)
theory Trg_Mem
  imports Prelude
begin

text \<open>
  The target memory allocator of the loader's client (\<open>elfload/dlw_trgmem.c\<close>): a doubly linked list
  of packets on the host heap describes which parts of the target pool are used and which are free.

  The host heap is a map from references to packets; NULL is \<^const>\<open>None\<close>. The outcome of the calls
  of \<open>DLIF_malloc\<close> and the contents of fresh memory are not the allocator's to decide: they are the
  fields of the record \<open>host\<close>. References are never reused, so that a use of a freed packet is
  visible as the failure \<open>BadPacket\<close>. \<open>exit (1)\<close> is the failure \<open>ExitProcess\<close>. The loops over the list
  are \<^theory_text>\<open>partial_function (option)\<close>: \<^const>\<open>None\<close> is a loop that never ends (a cyclic list).
\<close>

section \<open>Packets and the host heap\<close>

record trg_packet =
  packet_addr :: u32
  packet_size :: u32
  prev_packet :: "nat option"
  next_packet :: "nat option"
  used_packet :: bool

record trg_state =
  heap :: "nat \<rightharpoonup> trg_packet"
  next_ref :: nat
  trg_mem_head :: "nat option"
  trg_minit_done :: bool

record host =
  malloc_ok :: "nat \<Rightarrow> bool"
  junk :: "nat \<Rightarrow> trg_packet"

datatype trg_fault = BadPacket | ExitProcess

definition DLIF_malloc :: "host \<Rightarrow> trg_state \<Rightarrow> nat option \<times> trg_state" where
  "DLIF_malloc H s =
     (let r = next_ref s; s1 = s \<lparr> next_ref := Suc r \<rparr>
      in if malloc_ok H r then (Some r, s1 \<lparr> heap := (heap s1)(r \<mapsto> junk H r) \<rparr>) else (None, s1))"

definition DLIF_free :: "nat \<Rightarrow> trg_state \<Rightarrow> trg_state" where
  "DLIF_free r s = s \<lparr> heap := (heap s)(r := None) \<rparr>"

definition get_pkt :: "trg_state \<Rightarrow> nat \<Rightarrow> trg_fault + trg_packet" where
  "get_pkt s r = (case heap s r of None \<Rightarrow> Inl BadPacket | Some k \<Rightarrow> Inr k)"

definition upd_pkt :: "nat \<Rightarrow> (trg_packet \<Rightarrow> trg_packet) \<Rightarrow> trg_state \<Rightarrow> trg_fault + trg_state" where
  "upd_pkt r f s =
     (case heap s r of None \<Rightarrow> Inl BadPacket | Some k \<Rightarrow> Inr (s \<lparr> heap := (heap s)(r \<mapsto> f k) \<rparr>))"

section \<open>Initialization\<close>

definition trg_minit :: "host \<Rightarrow> trg_state \<Rightarrow> u32 \<Rightarrow> u32 \<Rightarrow> trg_state" where
  "trg_minit H s dyn_seg sz =
     (let (p, s1) = DLIF_malloc H s; s2 = s1 \<lparr> trg_mem_head := p \<rparr>
      in case p of
           None \<Rightarrow> s2
         | Some r \<Rightarrow> s2 \<lparr> heap := (heap s2)(r \<mapsto>
             \<lparr> packet_addr = dyn_seg, packet_size = sz, prev_packet = None, next_packet = None,
               used_packet = False \<rparr>) \<rparr>)"

text \<open>De-initialization frees the head packet only.\<close>

definition trg_mdeinit :: "trg_state \<Rightarrow> trg_state" where
  "trg_mdeinit s = (case trg_mem_head s of None \<Rightarrow> s | Some r \<Rightarrow> DLIF_free r s)"

definition DLTMM_init :: "host \<Rightarrow> trg_state \<Rightarrow> u32 \<Rightarrow> u32 \<Rightarrow> bool \<times> trg_state" where
  "DLTMM_init H s dynMemAddr sz =
     (if dynMemAddr = 0 then (False, s)
      else (True, if trg_minit_done s then s else (trg_minit H s dynMemAddr sz) \<lparr> trg_minit_done := True \<rparr>))"

definition DLTMM_deinit :: "trg_state \<Rightarrow> bool \<times> trg_state" where
  "DLTMM_deinit s =
     (True, if trg_minit_done s then (trg_mdeinit s) \<lparr> trg_minit_done := False \<rparr> else s)"

section \<open>Alignment\<close>

definition trg_align :: "u32 \<Rightarrow> u32 \<Rightarrow> u32" where
  "trg_align orig_addr alignment =
     (if sint alignment \<le> 1 then orig_addr
      else (orig_addr + (alignment - 1)) AND NOT (alignment - 1))"

section \<open>Freeing a packet\<close>

definition absorb_prev :: "nat \<Rightarrow> nat \<Rightarrow> trg_state \<Rightarrow> trg_fault + trg_state" where
  "absorb_prev ptr prev_pkt s =
     bindE (get_pkt s prev_pkt) (\<lambda>pp.
       if used_packet pp then Inr s
       else
         bindE (upd_pkt ptr (\<lambda>k. k \<lparr> packet_addr := packet_addr pp,
                                     packet_size := packet_size k + packet_size pp,
                                     prev_packet := prev_packet pp \<rparr>) s) (\<lambda>s1.
         bindE (case prev_packet pp of
                  None \<Rightarrow> Inr s1
                | Some q \<Rightarrow> upd_pkt q (next_packet_update (\<lambda>_. Some ptr)) s1) (\<lambda>s2.
         Inr (DLIF_free prev_pkt s2))))"

definition absorb_next :: "nat \<Rightarrow> nat \<Rightarrow> trg_state \<Rightarrow> trg_fault + trg_state" where
  "absorb_next ptr next_pkt s =
     bindE (get_pkt s next_pkt) (\<lambda>np.
       if used_packet np then Inr s
       else
         bindE (upd_pkt ptr (\<lambda>k. k \<lparr> packet_size := packet_size k + packet_size np,
                                     next_packet := next_packet np \<rparr>) s) (\<lambda>s1.
         bindE (case next_packet np of
                  None \<Rightarrow> Inr s1
                | Some q \<Rightarrow> upd_pkt q (prev_packet_update (\<lambda>_. Some ptr)) s1) (\<lambda>s2.
         Inr (DLIF_free next_pkt s2))))"

definition trg_free_pkt :: "nat option \<Rightarrow> trg_state \<Rightarrow> trg_fault + trg_state" where
  "trg_free_pkt p s =
     (case p of
        None \<Rightarrow> Inr s
      | Some ptr \<Rightarrow>
          bindE (get_pkt s ptr) (\<lambda>k.
          bindE (case prev_packet k of None \<Rightarrow> Inr s | Some pr \<Rightarrow> absorb_prev ptr pr s) (\<lambda>s1.
          bindE (case next_packet k of None \<Rightarrow> Inr s1 | Some nx \<Rightarrow> absorb_next ptr nx s1) (\<lambda>s2.
          bindE (get_pkt s2 ptr) (\<lambda>k2.
            upd_pkt ptr (used_packet_update (\<lambda>_. False))
              (if prev_packet k2 = None then s2 \<lparr> trg_mem_head := Some ptr \<rparr> else s2))))))"

section \<open>Allocating from a packet\<close>

text \<open>
  The three steps of \<open>trg_alloc_pkt\<close>. Each may end early because no host memory is left: the flag is
  false, and the function returns address 0 with the list as it is at that point.

  First step: a requested address inside the packet. A free packet is put in front; the pointers that
  other packets hold, and the size of the packet itself, are not adjusted.
\<close>

definition alloc_split_front ::
    "host \<Rightarrow> nat \<Rightarrow> u32 \<Rightarrow> trg_state \<Rightarrow> trg_fault + (bool \<times> nat option \<times> trg_state)" where
  "alloc_split_front H used_pkt req_addr s =
     bindE (get_pkt s used_pkt) (\<lambda>u.
       if packet_addr u < req_addr then
         (case DLIF_malloc H s of
            (None, s1) \<Rightarrow> Inr (False, None, s1)
          | (Some f, s1) \<Rightarrow>
              bindE (upd_pkt f (\<lambda>_. \<lparr> packet_addr = packet_addr u, packet_size = req_addr - packet_addr u,
                  prev_packet = prev_packet u, next_packet = Some used_pkt, used_packet = False \<rparr>) s1) (\<lambda>s2.
              bindE (upd_pkt used_pkt (\<lambda>k. k \<lparr> prev_packet := Some f, packet_addr := req_addr \<rparr>) s2) (\<lambda>s3.
              Inr (True, Some f, s3))))
       else Inr (True, None, s))"

text \<open>
  Second step: alignment padding goes to the free packet of the first step, or to a new one, whose
  \<open>used_packet\<close> field keeps whatever the fresh memory holds.
\<close>

definition alloc_pad ::
    "host \<Rightarrow> nat \<Rightarrow> u32 \<Rightarrow> nat option \<Rightarrow> trg_state \<Rightarrow> trg_fault + (bool \<times> trg_state)" where
  "alloc_pad H used_pkt alignment free_pkt s =
     bindE (get_pkt s used_pkt) (\<lambda>u.
       let align_addr = trg_align (packet_addr u) alignment;
           align_pad = align_addr - packet_addr u
       in if align_pad = 0 then Inr (True, s)
          else
            bindE (case free_pkt of
                Some f \<Rightarrow> Inr (Some f, s)
              | None \<Rightarrow>
                  (case DLIF_malloc H s of
                     (None, s1) \<Rightarrow> Inr (None, s1)
                   | (Some f, s1) \<Rightarrow>
                       bindE (upd_pkt f (\<lambda>k. k \<lparr> next_packet := Some used_pkt, prev_packet := prev_packet u,
                           packet_addr := packet_addr u, packet_size := 0 \<rparr>) s1) (\<lambda>s2.
                       bindE (upd_pkt used_pkt (prev_packet_update (\<lambda>_. Some f)) s2) (\<lambda>s3.
                       Inr (Some f, s3))))) (\<lambda>(fo, s4).
              case fo of
                None \<Rightarrow> Inr (False, s4)
              | Some f \<Rightarrow>
                  bindE (upd_pkt f (\<lambda>k. k \<lparr> packet_size := packet_size k + align_pad \<rparr>) s4) (\<lambda>s5.
                  bindE (upd_pkt used_pkt (\<lambda>k. k \<lparr> packet_size := packet_size k - align_pad,
                                                   packet_addr := align_addr \<rparr>) s5) (\<lambda>s6.
                  Inr (True, s6)))))"

text \<open>Third step: the packet becomes used, and what is left of it a free packet behind it.\<close>

definition alloc_split_back :: "host \<Rightarrow> nat \<Rightarrow> u32 \<Rightarrow> trg_state \<Rightarrow> trg_fault + (u32 \<times> trg_state)" where
  "alloc_split_back H used_pkt sz s =
     bindE (get_pkt s used_pkt) (\<lambda>u.
     bindE (upd_pkt used_pkt (\<lambda>k. k \<lparr> packet_size := sz, used_packet := True \<rparr>) s) (\<lambda>s1.
       if sz < packet_size u then
         (case DLIF_malloc H s1 of
            (None, s2) \<Rightarrow> Inr (0, s2)
          | (Some f, s2) \<Rightarrow>
              bindE (upd_pkt f (\<lambda>_. \<lparr> packet_addr = packet_addr u + sz, packet_size = packet_size u - sz,
                  prev_packet = Some used_pkt, next_packet = next_packet u, used_packet = False \<rparr>) s2) (\<lambda>s3.
              bindE (upd_pkt used_pkt (next_packet_update (\<lambda>_. Some f)) s3) (\<lambda>s4.
              Inr (packet_addr u, s4))))
       else Inr (packet_addr u, s1)))"

definition trg_alloc_pkt ::
    "host \<Rightarrow> nat \<Rightarrow> u32 \<Rightarrow> u32 \<Rightarrow> u32 \<Rightarrow> trg_state \<Rightarrow> trg_fault + (u32 \<times> trg_state)" where
  "trg_alloc_pkt H ptr sz alignment req_addr s =
     bindE (alloc_split_front H ptr req_addr s) (\<lambda>(ok1, free_pkt, s1).
       if \<not> ok1 then Inr (0, s1)
       else bindE (alloc_pad H ptr alignment free_pkt s1) (\<lambda>(ok2, s2).
         if \<not> ok2 then Inr (0, s2)
         else alloc_split_back H ptr sz s2))"

section \<open>The allocator\<close>

definition fits :: "u32 \<Rightarrow> u32 \<Rightarrow> trg_packet \<Rightarrow> bool" where
  "fits sz alignment k \<longleftrightarrow>
     (let align_pad = trg_align (packet_addr k) alignment - packet_addr k
      in align_pad < packet_size k \<and> sz \<le> packet_size k - align_pad)"

text \<open>The loop that looks for the smallest free packet that fits.\<close>

partial_function (option) best_fit_loop ::
    "trg_state \<Rightarrow> u32 \<Rightarrow> u32 \<Rightarrow> nat option \<Rightarrow> (nat \<times> trg_packet) option \<Rightarrow>
     (trg_fault + (nat \<times> trg_packet) option) option" where [code]:
  "best_fit_loop s sz alignment current best_fit =
     (case current of
        None \<Rightarrow> Some (Inr best_fit)
      | Some c \<Rightarrow>
          (case heap s c of
             None \<Rightarrow> Some (Inl BadPacket)
           | Some k \<Rightarrow>
               best_fit_loop s sz alignment (next_packet k)
                 (if used_packet k then best_fit
                  else if fits sz alignment k then
                    (case best_fit of
                       Some (b, bk) \<Rightarrow> if packet_size bk \<le> packet_size k then best_fit else Some (c, k)
                     | None \<Rightarrow> Some (c, k))
                  else best_fit)))"

text \<open>
  The loop for a requested address: the first packet, used or free, whose range contains the address.
  The result says whether the request is served.
\<close>

partial_function (option) fixed_addr_loop ::
    "host \<Rightarrow> trg_state \<Rightarrow> u32 \<Rightarrow> u32 \<Rightarrow> u32 \<Rightarrow> nat option \<Rightarrow>
     (trg_fault + (bool \<times> trg_state)) option" where [code]:
  "fixed_addr_loop H s req_addr sz alignment current =
     (case current of
        None \<Rightarrow> Some (Inr (False, s))
      | Some c \<Rightarrow>
          (case heap s c of
             None \<Rightarrow> Some (Inl BadPacket)
           | Some k \<Rightarrow>
               if trg_align req_addr alignment \<noteq> req_addr then Some (Inr (False, s))
               else if req_addr < packet_addr k \<or> packet_addr k + packet_size k \<le> req_addr then
                 fixed_addr_loop H s req_addr sz alignment (next_packet k)
               else if sz \<le> packet_size k then
                 Some (bindE (trg_alloc_pkt H c sz alignment req_addr s) (\<lambda>(alloc_addr, s1).
                   if alloc_addr \<noteq> req_addr then Inl ExitProcess else Inr (True, s1)))
               else Some (Inr (False, s))))"

definition trg_malloc ::
    "host \<Rightarrow> u32 \<Rightarrow> u32 \<Rightarrow> u32 \<Rightarrow> trg_state \<Rightarrow> (trg_fault + (bool \<times> u32 \<times> trg_state)) option" where
  "trg_malloc H req_addr sz alignment s =
     (if sz = 0 then Some (Inr (False, req_addr, s))
      else if req_addr = - 1 then
        (case best_fit_loop s sz alignment (trg_mem_head s) None of
           None \<Rightarrow> None
         | Some (Inl e) \<Rightarrow> Some (Inl e)
         | Some (Inr None) \<Rightarrow> Some (Inr (False, req_addr, s))
         | Some (Inr (Some (b, bk))) \<Rightarrow>
             Some (bindE (trg_alloc_pkt H b sz alignment (packet_addr bk) s)
               (\<lambda>(a, s1). Inr (True, a, s1))))
      else
        map_option (\<lambda>r. bindE r (\<lambda>(ok, s1). Inr (ok, req_addr, s1)))
          (fixed_addr_loop H s req_addr sz alignment (trg_mem_head s)))"

text \<open>
  A request of the loader: the requested alignment, whether the segment is relocatable
  (\<open>DLOAD_SF_relocatable\<close>), the address the object file asks for, and the size. The result is the
  address that the segment is given, or \<^const>\<open>None\<close> for FALSE.
\<close>

record mem_request =
  req_align :: u32
  relocatable :: bool
  target_address :: u32
  memsz_in_bytes :: u32

definition DLTMM_malloc ::
    "host \<Rightarrow> mem_request \<Rightarrow> trg_state \<Rightarrow> (trg_fault + (u32 option \<times> trg_state)) option" where
  "DLTMM_malloc H targ_req s =
     (let alignment = (if req_align targ_req \<noteq> 0 then req_align targ_req else 1);
          req_addr = (if relocatable targ_req then - 1 else target_address targ_req)
      in map_option (\<lambda>r. bindE r (\<lambda>(ok, a, s1). Inr (if ok then Some a else None, s1)))
           (trg_malloc H req_addr (memsz_in_bytes targ_req) alignment s))"

partial_function (option) find_used_loop ::
    "trg_state \<Rightarrow> u32 \<Rightarrow> nat option \<Rightarrow> nat option \<Rightarrow> (trg_fault + nat option) option" where [code]:
  "find_used_loop s pkt_addr current prev =
     (case current of
        None \<Rightarrow> Some (Inr prev)
      | Some c \<Rightarrow>
          (case heap s c of
             None \<Rightarrow> Some (Inl BadPacket)
           | Some k \<Rightarrow>
               if \<not> used_packet k then find_used_loop s pkt_addr (next_packet k) prev
               else if packet_addr k \<le> pkt_addr then find_used_loop s pkt_addr (next_packet k) (Some c)
               else Some (Inr prev)))"

definition DLTMM_free :: "u32 \<Rightarrow> trg_state \<Rightarrow> (trg_fault + trg_state) option" where
  "DLTMM_free ptr s =
     map_option (\<lambda>r. bindE r (\<lambda>prev.
        case prev of None \<Rightarrow> Inl ExitProcess | Some c \<Rightarrow> trg_free_pkt (Some c) s))
       (find_used_loop s ptr (trg_mem_head s) None)"

end
