(* ===== verification/Trg_Pool.thy ===== *)
theory Trg_Pool
  imports Trg_Mem
begin

text \<open>
  The packets that the allocator reaches from the head of its list, and what a relocatable allocation
  does to them. The forward list is a sequence of ranges in ascending order inside the pool
  (\<open>pool_ok\<close>); every allocation keeps it so, whatever the host's memory does.
\<close>

section \<open>Alignment\<close>

lemma sint_exp_u32:
  assumes "k < 31" shows "sint (2 ^ k :: u32) = 2 ^ k"
proof -
  have "k \<in> set [0..<31]" using assms by simp
  then show ?thesis by (simp add: upt_conv_Cons del: set_upt) (elim disjE; simp)
qed

lemma and_not_mask_push: "(w :: u32) AND NOT (mask k) = push_bit k (drop_bit k w)"
  by (rule bit_word_eqI) (auto simp: bit_simps)

lemma unat_push_drop: "unat (push_bit k (drop_bit k (w :: u32))) = unat w div 2 ^ k * 2 ^ k"
proof -
  have u: "unat w < 2 ^ 32" using unsigned_less [of w] by simp
  then have t: "take_bit 32 (unat w) = unat w" by (simp add: take_bit_nat_eq_self_iff)
  have "unat w div 2 ^ k * 2 ^ k \<le> unat w" by simp
  then have "unat w div 2 ^ k * 2 ^ k < 2 ^ 32" using u by linarith
  moreover have "unat (push_bit k (drop_bit k w)) = take_bit 32 (push_bit k (drop_bit k (unat w)))"
    by (simp add: unsigned_push_bit_eq unsigned_drop_bit_eq t)
  ultimately show ?thesis
    by (simp add: push_bit_eq_mult drop_bit_eq_div take_bit_eq_mod)
qed

lemma trg_align_multiple:
  assumes "k < 31" shows "2 ^ k dvd unat (trg_align x (2 ^ k))"
proof (cases "k = 0")
  case True then show ?thesis by simp
next
  case False
  have "sint (2 ^ k :: u32) = 2 ^ k"
    using assms by (rule sint_exp_u32)
  moreover have "(2::int) \<le> 2 ^ k" using False by (simp add: self_le_power)
  ultimately have "trg_align x (2 ^ k) = (x + (2 ^ k - 1)) AND NOT (mask k)"
    by (simp add: trg_align_def mask_eq_exp_minus_1)
  then show ?thesis by (simp add: and_not_mask_push unat_push_drop)
qed

lemma fits_nat:
  assumes "fits sz al k" and "unat (packet_addr k) + unat (packet_size k) \<le> 2 ^ 32"
  defines "a \<equiv> trg_align (packet_addr k) al"
  shows "unat (packet_addr k) \<le> unat a"
    and "unat (packet_size k - (a - packet_addr k)) = unat (packet_addr k) + unat (packet_size k) - unat a"
    and "unat a + unat sz \<le> unat (packet_addr k) + unat (packet_size k)"
proof -
  define p where "p = a - packet_addr k"
  have lt: "unat p < unat (packet_size k)" and le: "unat sz \<le> unat (packet_size k - p)"
    using assms(1) by (simp_all add: fits_def Let_def a_def p_def word_less_nat_alt word_le_nat_alt)
  have d: "unat (packet_size k - p) = unat (packet_size k) - unat p"
    using lt by (simp add: unat_sub word_le_nat_alt)
  have "a = packet_addr k + p" by (simp add: p_def)
  then have ua: "unat a = unat (packet_addr k) + unat p"
    using lt assms(2) by (simp add: unat_word_ariths)
  show "unat (packet_addr k) \<le> unat a" by (simp add: ua)
  show "unat (packet_size k - (a - packet_addr k)) = unat (packet_addr k) + unat (packet_size k) - unat a"
    using d ua by (simp add: p_def)
  show "unat a + unat sz \<le> unat (packet_addr k) + unat (packet_size k)"
    using le d ua lt by linarith
qed

section \<open>The packets reached from the head\<close>

fun chain :: "(nat \<rightharpoonup> trg_packet) \<Rightarrow> nat option \<Rightarrow> nat list \<Rightarrow> bool" where
  "chain h p [] \<longleftrightarrow> p = None"
| "chain h p (r # rs) \<longleftrightarrow>
     p = Some r \<and> (case h r of None \<Rightarrow> False | Some k \<Rightarrow> chain h (next_packet k) rs)"

definition pkts :: "(nat \<rightharpoonup> trg_packet) \<Rightarrow> nat list \<Rightarrow> trg_packet list" where
  "pkts h rs = map (\<lambda>r. the (h r)) rs"

fun laid :: "nat \<Rightarrow> nat \<Rightarrow> trg_packet list \<Rightarrow> bool" where
  "laid lo lim [] \<longleftrightarrow> lo \<le> lim"
| "laid lo lim (k # ks) \<longleftrightarrow>
     lo \<le> unat (packet_addr k) \<and> laid (unat (packet_addr k) + unat (packet_size k)) lim ks"

definition fresh_refs :: "trg_state \<Rightarrow> bool" where
  "fresh_refs s \<longleftrightarrow> (\<forall>r. next_ref s \<le> r \<longrightarrow> heap s r = None)"

definition pool_ok :: "nat \<Rightarrow> nat \<Rightarrow> nat list \<Rightarrow> trg_state \<Rightarrow> bool" where
  "pool_ok lo lim rs s \<longleftrightarrow>
     lim \<le> 2 ^ 32 \<and> chain (heap s) (trg_mem_head s) rs \<and> distinct rs \<and>
     laid lo lim (pkts (heap s) rs) \<and> fresh_refs s"

definition used_ranges :: "trg_packet list \<Rightarrow> (nat \<times> nat) list" where
  "used_ranges ks = map (\<lambda>k. (unat (packet_addr k), unat (packet_size k))) (filter used_packet ks)"

lemma pkts_simps [simp]:
  "pkts h [] = []" "pkts h (r # rs) = the (h r) # pkts h rs" "pkts h (xs @ ys) = pkts h xs @ pkts h ys"
  by (simp_all add: pkts_def)

lemma used_ranges_simps [simp]:
  "used_ranges [] = []"
  "used_ranges (k # ks) =
     (if used_packet k then (unat (packet_addr k), unat (packet_size k)) # used_ranges ks else used_ranges ks)"
  "used_ranges (ks @ ls) = used_ranges ks @ used_ranges ls"
  by (simp_all add: used_ranges_def)

text \<open>The list up to a packet, whatever the packet's own contents.\<close>

fun chain_to :: "(nat \<rightharpoonup> trg_packet) \<Rightarrow> nat option \<Rightarrow> nat list \<Rightarrow> nat option \<Rightarrow> bool" where
  "chain_to h p [] q \<longleftrightarrow> p = q"
| "chain_to h p (r # rs) q \<longleftrightarrow>
     p = Some r \<and> (case h r of None \<Rightarrow> False | Some k \<Rightarrow> chain_to h (next_packet k) rs q)"

lemma chain_chain_to: "chain h p rs \<longleftrightarrow> chain_to h p rs None"
  by (induction rs arbitrary: p) (auto split: option.splits)

lemma chain_to_append:
  "chain_to h p (xs @ ys) q \<longleftrightarrow> (\<exists>m. chain_to h p xs m \<and> chain_to h m ys q)"
  by (induction xs arbitrary: p) (auto split: option.splits)

lemma chain_to_cong:
  "\<forall>r \<in> set rs. h' r = h r \<Longrightarrow> chain_to h' p rs q = chain_to h p rs q"
  by (induction rs arbitrary: p) (auto split: option.splits)

lemma chain_to_dom: "chain_to h p rs q \<Longrightarrow> r \<in> set rs \<Longrightarrow> \<exists>k. h r = Some k"
  by (induction rs arbitrary: p) (auto split: option.splits)

lemma pkts_cong: "\<forall>r \<in> set rs. h' r = h r \<Longrightarrow> pkts h' rs = pkts h rs"
  by (simp add: pkts_def)

lemma laid_mono: "laid lo lim ks \<Longrightarrow> lo' \<le> lo \<Longrightarrow> laid lo' lim ks"
  by (cases ks) auto

lemma laid_le: "laid lo lim ks \<Longrightarrow> lo \<le> lim"
proof (induction ks arbitrary: lo)
  case (Cons k ks)
  then have "unat (packet_addr k) + unat (packet_size k) \<le> lim" by auto
  then show ?case using Cons.prems by auto
qed simp

lemma laid_append:
  "laid lo lim (ks @ ls) \<longleftrightarrow> (\<exists>m. laid lo m ks \<and> laid m lim ls)"
proof (induction ks arbitrary: lo)
  case Nil then show ?case by (auto intro: laid_mono)
qed auto

lemma laid_mem:
  assumes "laid lo lim ks" "k \<in> set ks"
  shows "lo \<le> unat (packet_addr k)" "unat (packet_addr k) + unat (packet_size k) \<le> lim"
  using assms
proof (induction ks arbitrary: lo)
  case (Cons k' ks)
  { case 1 then show ?case using Cons.IH(1) [of "unat (packet_addr k') + unat (packet_size k')"] by auto }
  { case 2 then show ?case using Cons.IH(2) laid_le by (auto dest: laid_le) }
qed auto

section \<open>The smallest free packet that fits\<close>

definition better_fit ::
    "u32 \<Rightarrow> u32 \<Rightarrow> (nat \<times> trg_packet) option \<Rightarrow> nat \<times> trg_packet \<Rightarrow> (nat \<times> trg_packet) option" where
  "better_fit sz al best rk =
     (if used_packet (snd rk) \<or> \<not> fits sz al (snd rk) then best
      else case best of
             None \<Rightarrow> Some rk
           | Some bk \<Rightarrow> if packet_size (snd bk) \<le> packet_size (snd rk) then best else Some rk)"

definition best_fit_in :: "u32 \<Rightarrow> u32 \<Rightarrow> (nat \<times> trg_packet) list \<Rightarrow> (nat \<times> trg_packet) option" where
  "best_fit_in sz al rks = fold (\<lambda>rk best. better_fit sz al best rk) rks None"

lemma best_fit_loop_fold:
  "chain (heap s) p rs \<Longrightarrow>
   best_fit_loop s sz al p best =
     Some (Inr (fold (\<lambda>rk best. better_fit sz al best rk) (zip rs (pkts (heap s) rs)) best))"
proof (induction rs arbitrary: p best)
  case Nil then show ?case by (simp add: best_fit_loop.simps)
next
  case (Cons r rs)
  then obtain k where k: "heap s r = Some k" "chain (heap s) (next_packet k) rs" "p = Some r"
    by (auto split: option.splits)
  have "best_fit_loop s sz al p best = best_fit_loop s sz al (next_packet k) (better_fit sz al best (r, k))"
    using k(1,3) by (subst best_fit_loop.simps) (simp add: better_fit_def split: option.splits)
  then show ?case using Cons.IH [OF k(2)] k(1) by simp
qed

lemma better_fit_le:
  assumes "better_fit sz al b0 rk = Some (r1, k1)"
  shows "b0 = Some (r0, k0) \<Longrightarrow> packet_size k1 \<le> packet_size k0"
    and "\<not> used_packet (snd rk) \<Longrightarrow> fits sz al (snd rk) \<Longrightarrow> packet_size k1 \<le> packet_size (snd rk)"
  using assms by (auto simp: better_fit_def split: option.splits if_splits)

lemma better_fit_Some:
  assumes "b0 \<noteq> None \<or> (\<not> used_packet (snd rk) \<and> fits sz al (snd rk))"
  shows "\<exists>r1 k1. better_fit sz al b0 rk = Some (r1, k1)"
  using assms by (auto simp: better_fit_def split: option.splits)

lemma best_fold_None:
  "fold (\<lambda>rk best. better_fit sz al best rk) rks b0 = None \<longleftrightarrow>
     b0 = None \<and> (\<forall>rk \<in> set rks. used_packet (snd rk) \<or> \<not> fits sz al (snd rk))"
  by (induction rks arbitrary: b0) (auto simp: better_fit_def split: option.splits if_splits)

lemma best_fold_Some:
  "fold (\<lambda>rk best. better_fit sz al best rk) rks b0 = Some rk \<Longrightarrow>
     b0 = Some rk \<or> rk \<in> set rks \<and> \<not> used_packet (snd rk) \<and> fits sz al (snd rk)"
proof (induction rks arbitrary: b0)
  case (Cons rk1 rks)
  then have "better_fit sz al b0 rk1 = Some rk \<or> rk \<in> set rks \<and> \<not> used_packet (snd rk) \<and> fits sz al (snd rk)"
    by simp
  then show ?case by (auto simp: better_fit_def split: option.splits if_splits)
qed simp

lemma best_fold_min:
  "fold (\<lambda>rk best. better_fit sz al best rk) rks b0 = Some rk \<Longrightarrow>
     (\<forall>rk0. b0 = Some rk0 \<longrightarrow> packet_size (snd rk) \<le> packet_size (snd rk0)) \<and>
     (\<forall>rk' \<in> set rks. \<not> used_packet (snd rk') \<longrightarrow> fits sz al (snd rk') \<longrightarrow>
        packet_size (snd rk) \<le> packet_size (snd rk'))"
proof (induction rks arbitrary: b0)
  case (Cons rk1 rks)
  let ?b1 = "better_fit sz al b0 rk1"
  have f: "fold (\<lambda>rk best. better_fit sz al best rk) rks ?b1 = Some rk" using Cons.prems by simp
  note IH = Cons.IH [OF f]
  have step: "packet_size (snd rk) \<le> n"
    if "b0 \<noteq> None \<or> (\<not> used_packet (snd rk1) \<and> fits sz al (snd rk1))"
      and "\<And>r1 k1. ?b1 = Some (r1, k1) \<Longrightarrow> packet_size k1 \<le> n" for n
    using better_fit_Some [OF that(1)] that(2) IH by (metis order_trans snd_conv)
  have "packet_size (snd rk) \<le> packet_size (snd rk0)" if "b0 = Some rk0" for rk0
    using that by (intro step) (auto intro: better_fit_le(1) [of sz al b0 rk1 _ _ "fst rk0"])
  moreover have "packet_size (snd rk) \<le> packet_size (snd rk1)"
    if "\<not> used_packet (snd rk1)" "fits sz al (snd rk1)"
    using that by (intro step) (auto intro: better_fit_le(2))
  ultimately show ?case using IH by auto
qed simp

section \<open>The effect of an allocation on the list\<close>

definition same_below :: "nat \<Rightarrow> trg_state \<Rightarrow> trg_state \<Rightarrow> bool" where
  "same_below b s s' \<longleftrightarrow>
     trg_mem_head s' = trg_mem_head s \<and> next_ref s \<le> next_ref s' \<and>
     (\<forall>r. r \<noteq> b \<longrightarrow> r < next_ref s \<longrightarrow> heap s' r = heap s r)"

lemma same_below_refl [simp]: "same_below b s s"
  by (simp add: same_below_def)

lemma same_below_trans: "same_below b s s' \<Longrightarrow> same_below b s' s'' \<Longrightarrow> same_below b s s''"
  by (simp add: same_below_def)

text \<open>The host has refused memory for a packet between two states.\<close>

definition refused :: "host \<Rightarrow> trg_state \<Rightarrow> trg_state \<Rightarrow> bool" where
  "refused H s s' \<longleftrightarrow> (\<exists>r. next_ref s \<le> r \<and> r < next_ref s' \<and> \<not> malloc_ok H r)"

lemma refused_wider:
  "refused H s s' \<Longrightarrow> next_ref s' \<le> next_ref s'' \<Longrightarrow> refused H s s''"
  "refused H s' s'' \<Longrightarrow> next_ref s \<le> next_ref s' \<Longrightarrow> refused H s s''"
  by (auto simp: refused_def intro: order_less_le_trans order_trans)

lemma fresh_refs_less: "fresh_refs s \<Longrightarrow> heap s r = Some k \<Longrightarrow> r < next_ref s"
  by (metis fresh_refs_def not_le option.distinct(1))

lemma alloc_pad_effect:
  assumes "fresh_refs s" "heap s b = Some k"
  shows "\<exists>ok s' k'. alloc_pad H b al None s = Inr (ok, s') \<and> same_below b s s' \<and> fresh_refs s' \<and>
           heap s' b = Some k' \<and> next_packet k' = next_packet k \<and> used_packet k' = used_packet k \<and>
           packet_addr k' = (if ok then trg_align (packet_addr k) al else packet_addr k) \<and>
           packet_size k' = packet_size k - (packet_addr k' - packet_addr k) \<and> (\<not> ok \<longrightarrow> refused H s s')"
proof -
  have lt: "b < next_ref s" using assms by (rule fresh_refs_less)
  have f: "\<And>r. next_ref s \<le> r \<Longrightarrow> heap s r = None" using assms(1) by (simp add: fresh_refs_def)
  show ?thesis
  proof (cases "trg_align (packet_addr k) al - packet_addr k = 0")
    case True
    then show ?thesis using assms by (auto simp: alloc_pad_def get_pkt_def)
  next
    case False
    show ?thesis
    proof (cases "malloc_ok H (next_ref s)")
      case True
      then show ?thesis using False assms(2) lt f
        by (simp add: alloc_pad_def get_pkt_def upd_pkt_def DLIF_malloc_def Let_def same_below_def fresh_refs_def) auto
    next
      case no: False
      then show ?thesis using False assms(2) lt f
        by (simp add: alloc_pad_def get_pkt_def DLIF_malloc_def Let_def same_below_def fresh_refs_def refused_def) auto
    qed
  qed
qed

lemma alloc_split_back_effect:
  assumes "fresh_refs s" "heap s b = Some k"
  shows "\<exists>a s' k'. alloc_split_back H b sz s = Inr (a, s') \<and> same_below b s s' \<and> fresh_refs s' \<and>
           heap s' b = Some k' \<and> used_packet k' \<and> packet_addr k' = packet_addr k \<and> packet_size k' = sz \<and>
           (a = 0 \<and> refused H s s' \<or> a = packet_addr k) \<and>
           (next_packet k' = next_packet k \<or>
            sz < packet_size k \<and> next_packet k' = Some (next_ref s) \<and>
            (\<exists>f. heap s' (next_ref s) = Some f \<and> \<not> used_packet f \<and> next_packet f = next_packet k \<and>
               packet_addr f = packet_addr k + sz \<and> packet_size f = packet_size k - sz))"
proof -
  have lt: "b < next_ref s" using assms by (rule fresh_refs_less)
  have f: "\<And>r. next_ref s \<le> r \<Longrightarrow> heap s r = None" using assms(1) by (simp add: fresh_refs_def)
  show ?thesis
  proof (cases "sz < packet_size k \<and> malloc_ok H (next_ref s)")
    case True
    then show ?thesis using assms(2) lt f
      by (simp add: alloc_split_back_def get_pkt_def upd_pkt_def DLIF_malloc_def Let_def same_below_def fresh_refs_def)
  next
    case False
    then show ?thesis using assms(2) lt f
      by (auto simp: alloc_split_back_def get_pkt_def upd_pkt_def DLIF_malloc_def Let_def same_below_def fresh_refs_def refused_def)
  qed
qed

lemma trg_alloc_pkt_effect:
  fixes al :: u32
  assumes "fresh_refs s" "heap s b = Some k"
  defines "al_addr \<equiv> trg_align (packet_addr k) al"
  shows "\<exists>a s' k'. trg_alloc_pkt H b sz al (packet_addr k) s = Inr (a, s') \<and>
           same_below b s s' \<and> fresh_refs s' \<and> heap s' b = Some k' \<and>
           (a = 0 \<and> refused H s s' \<and> next_packet k' = next_packet k \<and> used_packet k' = used_packet k \<and>
              packet_addr k' = packet_addr k \<and> packet_size k' = packet_size k \<or>
            (a = 0 \<and> refused H s s' \<or> a = al_addr) \<and> used_packet k' \<and> packet_addr k' = al_addr \<and> packet_size k' = sz \<and>
              (next_packet k' = next_packet k \<or>
               sz < packet_size k - (al_addr - packet_addr k) \<and>
               (\<exists>n f. next_ref s \<le> n \<and> next_packet k' = Some n \<and>
                  heap s' n = Some f \<and> \<not> used_packet f \<and> next_packet f = next_packet k \<and>
                  packet_addr f = al_addr + sz \<and>
                  packet_size f = packet_size k - (al_addr - packet_addr k) - sz)))"
proof -
  have front: "alloc_split_front H b (packet_addr k) s = Inr (True, None, s)"
    using assms(2) by (simp add: alloc_split_front_def get_pkt_def)
  obtain ok s1 k1 where pad: "alloc_pad H b al None s = Inr (ok, s1)" "same_below b s s1" "fresh_refs s1"
      "heap s1 b = Some k1" "next_packet k1 = next_packet k" "used_packet k1 = used_packet k"
      "packet_addr k1 = (if ok then al_addr else packet_addr k)"
      "packet_size k1 = packet_size k - (packet_addr k1 - packet_addr k)" "\<not> ok \<longrightarrow> refused H s s1"
    using alloc_pad_effect [OF assms(1,2), of H al] unfolding al_addr_def by blast
  show ?thesis
  proof (cases ok)
    case False
    then show ?thesis using pad by (simp add: trg_alloc_pkt_def front)
  next
    case True
    obtain a s2 k2 where bk: "alloc_split_back H b sz s1 = Inr (a, s2)" "same_below b s1 s2"
        "fresh_refs s2" "heap s2 b = Some k2" "used_packet k2" "packet_addr k2 = packet_addr k1"
        "packet_size k2 = sz" "a = 0 \<and> refused H s1 s2 \<or> a = packet_addr k1"
        "next_packet k2 = next_packet k1 \<or>
         sz < packet_size k1 \<and> next_packet k2 = Some (next_ref s1) \<and>
         (\<exists>f. heap s2 (next_ref s1) = Some f \<and> \<not> used_packet f \<and> next_packet f = next_packet k1 \<and>
            packet_addr f = packet_addr k1 + sz \<and> packet_size f = packet_size k1 - sz)"
      using alloc_split_back_effect [OF pad(3,4), of H sz] by blast
    have run: "trg_alloc_pkt H b sz al (packet_addr k) s = Inr (a, s2)"
      using True pad(1) bk(1) by (simp add: trg_alloc_pkt_def front)
    have le: "next_ref s \<le> next_ref s1" using pad(2) by (simp add: same_below_def)
    have "packet_addr k1 = al_addr" "packet_size k1 = packet_size k - (al_addr - packet_addr k)"
      using True pad(7,8) by simp_all
    moreover have "a = 0 \<and> refused H s s2 \<or> a = packet_addr k1"
      using bk(8) refused_wider(2) [OF _ le] by blast
    ultimately show ?thesis
      using run bk(2-7,9) le pad(5) same_below_trans [OF pad(2) bk(2)] by (intro exI conjI) auto
  qed
qed

lemma pool_ok_split:
  assumes "pool_ok lo lim (xs @ b # ys) s"
  obtains k m where "heap s b = Some k" "chain_to (heap s) (trg_mem_head s) xs (Some b)"
    "chain_to (heap s) (next_packet k) ys None" "b \<notin> set xs" "b \<notin> set ys" "distinct xs" "distinct ys"
    "set xs \<inter> set ys = {}" "laid lo m (pkts (heap s) xs)" "m \<le> unat (packet_addr k)"
    "laid (unat (packet_addr k) + unat (packet_size k)) lim (pkts (heap s) ys)"
    "\<forall>r \<in> set xs \<union> set ys. r < next_ref s" "lim \<le> 2 ^ 32" "fresh_refs s"
proof -
  have f: "fresh_refs s" and lim: "lim \<le> 2 ^ 32"
    and d: "distinct (xs @ b # ys)" and l: "laid lo lim (pkts (heap s) (xs @ b # ys))"
    and c: "chain_to (heap s) (trg_mem_head s) (xs @ b # ys) None"
    using assms by (simp_all add: pool_ok_def chain_chain_to)
  then obtain k where k: "heap s b = Some k" "chain_to (heap s) (trg_mem_head s) xs (Some b)"
      "chain_to (heap s) (next_packet k) ys None"
    by (auto simp: chain_to_append split: option.splits)
  have "\<forall>r \<in> set xs \<union> set ys. r < next_ref s"
    using c chain_to_dom fresh_refs_less [OF f] by (metis UnCI in_set_conv_decomp set_append chain_to_append
      UnE k(2,3))
  moreover obtain m where "laid lo m (pkts (heap s) xs)" "m \<le> unat (packet_addr k)"
      "laid (unat (packet_addr k) + unat (packet_size k)) lim (pkts (heap s) ys)"
    using l k(1) by (auto simp: laid_append)
  ultimately show ?thesis using that k d f lim by simp
qed

text \<open>
  The list after the packet \<open>b\<close> has been replaced by \<open>k'\<close>, and perhaps a packet inserted behind it.
\<close>

lemma pool_ok_replace:
  assumes p: "pool_ok lo lim (xs @ b # ys) s" and k: "heap s b = Some k"
    and s': "same_below b s s'" "fresh_refs s'" "heap s' b = Some k'" "next_packet k' = next_packet k"
    and a: "unat (packet_addr k) \<le> unat (packet_addr k')"
      "unat (packet_addr k') + unat (packet_size k') \<le> unat (packet_addr k) + unat (packet_size k)"
  shows "pool_ok lo lim (xs @ b # ys) s'"
    and "pkts (heap s') (xs @ b # ys) = pkts (heap s) xs @ k' # pkts (heap s) ys"
proof -
  obtain m where o: "chain_to (heap s) (trg_mem_head s) xs (Some b)"
    "chain_to (heap s) (next_packet k) ys None" "b \<notin> set xs" "b \<notin> set ys" "distinct xs" "distinct ys"
    "set xs \<inter> set ys = {}" "laid lo m (pkts (heap s) xs)" "m \<le> unat (packet_addr k)"
    "laid (unat (packet_addr k) + unat (packet_size k)) lim (pkts (heap s) ys)"
    "\<forall>r \<in> set xs \<union> set ys. r < next_ref s" "lim \<le> 2 ^ 32"
    by (rule pool_ok_split [OF p]) (use k in simp)
  have hx: "\<forall>r \<in> set xs. heap s' r = heap s r" and hy: "\<forall>r \<in> set ys. heap s' r = heap s r"
    using o(3,4,11) s'(1) by (auto simp: same_below_def)
  have c: "chain_to (heap s') (trg_mem_head s') xs (Some b)" "chain_to (heap s') (next_packet k) ys None"
    using o(1,2) chain_to_cong [OF hx] chain_to_cong [OF hy] s'(1) by (simp_all add: same_below_def)
  show pk: "pkts (heap s') (xs @ b # ys) = pkts (heap s) xs @ k' # pkts (heap s) ys"
    using pkts_cong [OF hx] pkts_cong [OF hy] s'(3) by simp
  have "laid (unat (packet_addr k') + unat (packet_size k')) lim (pkts (heap s) ys)"
    using o(10) a(2) by (rule laid_mono)
  then have "laid lo lim (pkts (heap s) xs @ k' # pkts (heap s) ys)"
    using o(8,9) a(1) by (auto simp: laid_append intro!: exI [of _ m])
  then show "pool_ok lo lim (xs @ b # ys) s'"
    using c o s'(2,3,4) unfolding pool_ok_def pk by (auto simp: chain_chain_to chain_to_append)
qed

lemma pool_ok_insert:
  assumes p: "pool_ok lo lim (xs @ b # ys) s" and k: "heap s b = Some k"
    and s': "same_below b s s'" "fresh_refs s'" "heap s' b = Some k'" "next_packet k' = Some n"
      "next_ref s \<le> n" "heap s' n = Some f" "next_packet f = next_packet k"
    and a: "unat (packet_addr k) \<le> unat (packet_addr k')"
      "unat (packet_addr k') + unat (packet_size k') \<le> unat (packet_addr f)"
      "unat (packet_addr f) + unat (packet_size f) \<le> unat (packet_addr k) + unat (packet_size k)"
  shows "pool_ok lo lim (xs @ b # n # ys) s'"
    and "pkts (heap s') (xs @ b # n # ys) = pkts (heap s) xs @ k' # f # pkts (heap s) ys"
proof -
  obtain m where o: "chain_to (heap s) (trg_mem_head s) xs (Some b)"
    "chain_to (heap s) (next_packet k) ys None" "b \<notin> set xs" "b \<notin> set ys" "distinct xs" "distinct ys"
    "set xs \<inter> set ys = {}" "laid lo m (pkts (heap s) xs)" "m \<le> unat (packet_addr k)"
    "laid (unat (packet_addr k) + unat (packet_size k)) lim (pkts (heap s) ys)"
    "\<forall>r \<in> set xs \<union> set ys. r < next_ref s" "lim \<le> 2 ^ 32" "fresh_refs s"
    by (rule pool_ok_split [OF p]) (use k in simp)
  have hx: "\<forall>r \<in> set xs. heap s' r = heap s r" and hy: "\<forall>r \<in> set ys. heap s' r = heap s r"
    using o(3,4,11) s'(1) by (auto simp: same_below_def)
  have c: "chain_to (heap s') (trg_mem_head s') xs (Some b)" "chain_to (heap s') (next_packet k) ys None"
    using o(1,2) chain_to_cong [OF hx] chain_to_cong [OF hy] s'(1) by (simp_all add: same_below_def)
  show pk: "pkts (heap s') (xs @ b # n # ys) = pkts (heap s) xs @ k' # f # pkts (heap s) ys"
    using pkts_cong [OF hx] pkts_cong [OF hy] s'(3,6) by simp
  have "laid (unat (packet_addr f) + unat (packet_size f)) lim (pkts (heap s) ys)"
    using o(10) a(3) by (rule laid_mono)
  then have "laid lo lim (pkts (heap s) xs @ k' # f # pkts (heap s) ys)"
    using o(8,9) a(1,2) by (auto simp: laid_append intro!: exI [of _ m])
  moreover have "n \<notin> set xs" "n \<notin> set ys" "n \<noteq> b"
    using o(11) s'(5) fresh_refs_less [OF o(13) k] by (meson UnI1 UnI2 leD)+
  ultimately show "pool_ok lo lim (xs @ b # n # ys) s'"
    using c o s'(2,3,4,6,7) unfolding pool_ok_def pk by (auto simp: chain_chain_to chain_to_append)
qed

section \<open>One relocatable allocation\<close>

lemma in_zip_pkts:
  assumes "(b, k) \<in> set (zip rs (pkts h rs))"
  shows "k = the (h b)" and "\<exists>xs ys. rs = xs @ b # ys"
proof -
  show "k = the (h b)" using assms by (auto simp: pkts_def zip_map2 zip_same_conv_map)
  have "b \<in> set rs" using assms by (rule set_zip_leftD)
  then show "\<exists>xs ys. rs = xs @ b # ys" by (rule split_list)
qed

lemma set_zip_pkts: "set (zip rs (pkts h rs)) = (\<lambda>r. (r, the (h r))) ` set rs"
  by (auto simp: pkts_def zip_map2 zip_same_conv_map)

lemma best_fit_found:
  assumes p: "pool_ok lo lim rs s"
    and best: "best_fit_in sz al (zip rs (pkts (heap s) rs)) = Some (b, k)"
  shows "\<exists>xs ys. rs = xs @ b # ys" and "heap s b = Some k" and "\<not> used_packet k" and "fits sz al k"
    and "unat (packet_addr k) + unat (packet_size k) \<le> 2 ^ 32"
proof -
  have m: "(b, k) \<in> set (zip rs (pkts (heap s) rs))" "\<not> used_packet k" "fits sz al k"
    using best_fold_Some [OF best [unfolded best_fit_in_def]] by auto
  show "\<exists>xs ys. rs = xs @ b # ys" using in_zip_pkts [OF m(1)] by simp
  then obtain xs ys where rs: "rs = xs @ b # ys" by blast
  then obtain k2 where "heap s b = Some k2"
    using pool_ok_split [of lo lim xs b ys s] p by blast
  then show "heap s b = Some k" using in_zip_pkts [OF m(1)] by simp
  show "\<not> used_packet k" "fits sz al k" using m by simp_all
  have "k \<in> set (pkts (heap s) rs)" using m(1) by (rule set_zip_rightD)
  then show "unat (packet_addr k) + unat (packet_size k) \<le> 2 ^ 32"
    using p by (auto simp: pool_ok_def dest: laid_mem)
qed

lemma used_ranges_insert:
  "\<not> used_packet k \<Longrightarrow> used_packet k' \<Longrightarrow> \<not> used_packet f \<Longrightarrow>
     used_ranges (as @ k' # f # bs) =
       used_ranges as @ (unat (packet_addr k'), unat (packet_size k')) # used_ranges bs"
  by simp

definition disjoint_range :: "nat \<times> nat \<Rightarrow> nat \<times> nat \<Rightarrow> bool" where
  "disjoint_range x y \<longleftrightarrow> fst x + snd x \<le> fst y \<or> fst y + snd y \<le> fst x"

lemma laid_used_disjoint:
  assumes "laid lo lim (as @ k # bs)" "used_packet k'" "k' \<in> set as \<or> k' \<in> set bs"
    and "unat (packet_addr k) \<le> a" "a + n \<le> unat (packet_addr k) + unat (packet_size k)"
  shows "disjoint_range (a, n) (unat (packet_addr k'), unat (packet_size k'))"
proof -
  obtain m where m: "laid lo m as" "m \<le> unat (packet_addr k)"
      "laid (unat (packet_addr k) + unat (packet_size k)) lim bs"
    using assms(1) by (auto simp: laid_append)
  show ?thesis
    using assms(3)
  proof
    assume "k' \<in> set as"
    then have "unat (packet_addr k') + unat (packet_size k') \<le> m" using m(1) laid_mem(2) by blast
    then show ?thesis using m(2) assms(4) by (simp add: disjoint_range_def)
  next
    assume "k' \<in> set bs"
    then have "unat (packet_addr k) + unat (packet_size k) \<le> unat (packet_addr k')"
      using m(3) laid_mem(1) by blast
    then show ?thesis using assms(5) by (simp add: disjoint_range_def)
  qed
qed

definition alloc_sound ::
    "nat \<Rightarrow> nat \<Rightarrow> u32 \<Rightarrow> u32 \<Rightarrow> u32 \<Rightarrow> trg_packet list \<Rightarrow> trg_packet list \<Rightarrow> bool" where
  "alloc_sound lo lim a sz al ks ks' \<longleftrightarrow>
     (unat a, unat sz) \<in> set (used_ranges ks') \<and> lo \<le> unat a \<and> unat a + unat sz \<le> lim \<and>
     (\<exists>x. a = trg_align x al) \<and> (\<forall>y \<in> set (used_ranges ks). disjoint_range (unat a, unat sz) y)"

lemma alloc_soundI:
  assumes p: "pool_ok lo lim (xs @ b # ys) s" and k: "heap s b = Some k" "\<not> used_packet k" "fits sz al k"
    and u: "used_ranges ks' = used_ranges (pkts (heap s) xs) @
              (unat (trg_align (packet_addr k) al), unat sz) # used_ranges (pkts (heap s) ys)"
  shows "alloc_sound lo lim (trg_align (packet_addr k) al) sz al (pkts (heap s) (xs @ b # ys)) ks'"
proof -
  let ?a = "trg_align (packet_addr k) al"
  have l: "laid lo lim (pkts (heap s) xs @ k # pkts (heap s) ys)" and lim: "lim \<le> 2 ^ 32"
    using p k(1) by (simp_all add: pool_ok_def)
  have r: "lo \<le> unat (packet_addr k)" "unat (packet_addr k) + unat (packet_size k) \<le> lim"
    using laid_mem [OF l] by simp_all
  note fn = fits_nat [OF k(3) order_trans [OF r(2) lim]]
  have "disjoint_range (unat ?a, unat sz) y"
    if "y \<in> set (used_ranges (pkts (heap s) (xs @ b # ys)))" for y
  proof -
    obtain k2 where k2: "used_packet k2" "y = (unat (packet_addr k2), unat (packet_size k2))"
        "k2 \<in> set (pkts (heap s) xs) \<or> k2 \<in> set (pkts (heap s) ys)"
      using \<open>y \<in> _\<close> k by (auto simp: used_ranges_def)
    show ?thesis unfolding k2(2) using laid_used_disjoint [OF l k2(1,3) fn(1,3)] .
  qed
  moreover have "lo \<le> unat ?a" "unat ?a + unat sz \<le> lim" using r fn by linarith+
  ultimately show ?thesis unfolding alloc_sound_def u by auto
qed

lemma best_fit_in_None:
  "best_fit_in sz al (zip rs (pkts h rs)) = None \<longleftrightarrow> (\<forall>k \<in> set (pkts h rs). used_packet k \<or> \<not> fits sz al k)"
proof -
  have "set (pkts h rs) = snd ` set (zip rs (pkts h rs))" by (simp add: set_zip_pkts image_image) (simp add: pkts_def)
  then show ?thesis by (simp add: best_fit_in_def best_fold_None)
qed

lemma relocatable_malloc_run:
  assumes p: "pool_ok lo lim rs s" and sz: "sz \<noteq> 0"
  shows "trg_malloc H (- 1) sz al s =
           (case best_fit_in sz al (zip rs (pkts (heap s) rs)) of
              None \<Rightarrow> Some (Inr (False, - 1, s))
            | Some (b, k) \<Rightarrow> Some (bindE (trg_alloc_pkt H b sz al (packet_addr k) s) (\<lambda>(a, s1). Inr (True, a, s1))))"
proof -
  have "chain (heap s) (trg_mem_head s) rs" using p by (simp add: pool_ok_def)
  from best_fit_loop_fold [OF this, of sz al None] sz show ?thesis
    by (simp add: trg_malloc_def best_fit_in_def split: option.splits)
qed

lemma alloc_in_pool:
  assumes p: "pool_ok lo lim (xs @ b # ys) s" and k: "heap s b = Some k" "\<not> used_packet k" "fits sz al k"
  shows "\<exists>a s' rs'. trg_alloc_pkt H b sz al (packet_addr k) s = Inr (a, s') \<and> pool_ok lo lim rs' s' \<and>
           set (used_ranges (pkts (heap s) (xs @ b # ys))) \<subseteq> set (used_ranges (pkts (heap s') rs')) \<and>
           next_ref s \<le> next_ref s' \<and>
           (a = 0 \<and> refused H s s' \<or> alloc_sound lo lim a sz al (pkts (heap s) (xs @ b # ys)) (pkts (heap s') rs'))"
proof -
  let ?a = "trg_align (packet_addr k) al" and ?xs = "pkts (heap s) xs" and ?ys = "pkts (heap s) ys"
  have f: "fresh_refs s" and l: "laid lo lim (?xs @ k # ?ys)" and lim: "lim \<le> 2 ^ 32"
    using p k(1) by (simp_all add: pool_ok_def)
  have r: "unat (packet_addr k) + unat (packet_size k) \<le> 2 ^ 32"
    using laid_mem(2) [OF l, of k] lim by simp
  note fn = fits_nat [OF k(3) r] and sound = alloc_soundI [OF p k]
  note replace = pool_ok_replace [OF p k(1)] and insrt = pool_ok_insert [OF p k(1)]
  have used: "used_ranges (pkts (heap s) (xs @ b # ys)) = used_ranges ?xs @ used_ranges ?ys"
    using k(1,2) by simp
  obtain a s' k' where e: "trg_alloc_pkt H b sz al (packet_addr k) s = Inr (a, s')"
      "same_below b s s'" "fresh_refs s'" "heap s' b = Some k'"
    and cs: "a = 0 \<and> refused H s s' \<and> next_packet k' = next_packet k \<and> used_packet k' = used_packet k \<and>
              packet_addr k' = packet_addr k \<and> packet_size k' = packet_size k \<or>
            (a = 0 \<and> refused H s s' \<or> a = ?a) \<and> used_packet k' \<and> packet_addr k' = ?a \<and> packet_size k' = sz \<and>
              (next_packet k' = next_packet k \<or>
               sz < packet_size k - (?a - packet_addr k) \<and>
               (\<exists>n f. next_ref s \<le> n \<and> next_packet k' = Some n \<and>
                  heap s' n = Some f \<and> \<not> used_packet f \<and> next_packet f = next_packet k \<and>
                  packet_addr f = ?a + sz \<and>
                  packet_size f = packet_size k - (?a - packet_addr k) - sz))"
    using trg_alloc_pkt_effect [OF f k(1), of H sz al] by blast
  have le: "next_ref s \<le> next_ref s'"
    using e(2) by (simp add: same_below_def)
  consider (failed) "a = 0 \<and> refused H s s'" "next_packet k' = next_packet k" "used_packet k' = used_packet k"
      "packet_addr k' = packet_addr k" "packet_size k' = packet_size k"
    | (whole) "a = 0 \<and> refused H s s' \<or> a = ?a" "used_packet k'" "packet_addr k' = ?a" "packet_size k' = sz"
      "next_packet k' = next_packet k"
    | (split) n f where "a = 0 \<and> refused H s s' \<or> a = ?a" "used_packet k'" "packet_addr k' = ?a" "packet_size k' = sz"
      "sz < packet_size k - (?a - packet_addr k)" "next_ref s \<le> n" "next_packet k' = Some n"
      "heap s' n = Some f" "\<not> used_packet f" "next_packet f = next_packet k"
      "packet_addr f = ?a + sz" "packet_size f = packet_size k - (?a - packet_addr k) - sz"
    using cs by blast
  then show ?thesis
  proof cases
    case failed
    have "pool_ok lo lim (xs @ b # ys) s'" "pkts (heap s') (xs @ b # ys) = ?xs @ k' # ?ys"
      using replace [OF e(2,3,4) failed(2)] failed(4,5) by simp_all
    then show ?thesis using e(1) failed(1,3) k(2) used le by (intro exI [of _ a] exI [of _ s'] exI conjI) auto
  next
    case whole
    have "pool_ok lo lim (xs @ b # ys) s'" and pk: "pkts (heap s') (xs @ b # ys) = ?xs @ k' # ?ys"
      using replace [OF e(2,3,4) whole(5)] whole(3,4) fn(1,3) by simp_all
    moreover have "used_ranges (?xs @ k' # ?ys) = used_ranges ?xs @ (unat ?a, unat sz) # used_ranges ?ys"
      using whole by simp
    ultimately show ?thesis using e(1) whole(1) used le sound [of "?xs @ k' # ?ys"]
      by (intro exI [of _ a] exI [of _ s'] exI [of _ "xs @ b # ys"]) auto
  next
    case (split n f)
    have "unat sz < unat (packet_addr k) + unat (packet_size k) - unat ?a"
      using split(5) fn(2) by (simp add: word_less_nat_alt)
    moreover have "unat (packet_size f) = unat (packet_addr k) + unat (packet_size k) - unat ?a - unat sz"
      using split(5,12) fn(2) by (simp add: unat_sub word_le_nat_alt word_less_nat_alt)
    moreover have "unat (packet_addr f) = unat ?a + unat sz"
      using calculation(1) r split(11) by (simp add: unat_word_ariths)
    ultimately have "pool_ok lo lim (xs @ b # n # ys) s'"
        and pk: "pkts (heap s') (xs @ b # n # ys) = ?xs @ k' # f # ?ys"
      using insrt [OF e(2,3,4) split(7,6,8,10)] split(3,4) fn(1) by simp_all
    moreover have "used_ranges (?xs @ k' # f # ?ys) = used_ranges ?xs @ (unat ?a, unat sz) # used_ranges ?ys"
      using split by simp
    ultimately show ?thesis using e(1) split(1) used le sound [of "?xs @ k' # f # ?ys"]
      by (intro exI [of _ a] exI [of _ s'] exI [of _ "xs @ b # n # ys"]) auto
  qed
qed

lemma relocatable_malloc_step:
  assumes p: "pool_ok lo lim rs s" and sz: "sz \<noteq> 0"
  shows "\<exists>ok a s' rs'. trg_malloc H (- 1) sz al s = Some (Inr (ok, a, s')) \<and> pool_ok lo lim rs' s' \<and>
           set (used_ranges (pkts (heap s) rs)) \<subseteq> set (used_ranges (pkts (heap s') rs')) \<and>
           (ok \<longleftrightarrow> (\<exists>k \<in> set (pkts (heap s) rs). \<not> used_packet k \<and> fits sz al k)) \<and>
           (\<not> ok \<longrightarrow> s' = s) \<and>
           next_ref s \<le> next_ref s' \<and>
           (ok \<longrightarrow> a = 0 \<and> refused H s s' \<or> alloc_sound lo lim a sz al (pkts (heap s) rs) (pkts (heap s') rs'))"
proof (cases "best_fit_in sz al (zip rs (pkts (heap s) rs))")
  case None
  then have "\<forall>k \<in> set (pkts (heap s) rs). used_packet k \<or> \<not> fits sz al k"
    by (simp add: best_fit_in_None)
  moreover have "trg_malloc H (- 1) sz al s = Some (Inr (False, - 1, s))"
    using relocatable_malloc_run [OF p sz] None by simp
  ultimately show ?thesis using p by blast
next
  case (Some bk)
  obtain b k where bk: "bk = (b, k)" by (cases bk)
  note best = best_fit_found [OF p Some [unfolded bk]]
  obtain xs ys where rs: "rs = xs @ b # ys" using best(1) by blast
  obtain a s' rs' where r: "trg_alloc_pkt H b sz al (packet_addr k) s = Inr (a, s')" "pool_ok lo lim rs' s'"
      "set (used_ranges (pkts (heap s) rs)) \<subseteq> set (used_ranges (pkts (heap s') rs'))"
      "next_ref s \<le> next_ref s'"
      "a = 0 \<and> refused H s s' \<or> alloc_sound lo lim a sz al (pkts (heap s) rs) (pkts (heap s') rs')"
    using alloc_in_pool [OF p [unfolded rs] best(2,3,4), of H] unfolding rs by blast
  have "trg_malloc H (- 1) sz al s = Some (Inr (True, a, s'))"
    using relocatable_malloc_run [OF p sz, of H al] Some r(1) by (simp add: bk)
  moreover have "\<exists>k \<in> set (pkts (heap s) rs). \<not> used_packet k \<and> fits sz al k"
    using Some best_fit_in_None [of sz al rs "heap s"] by auto
  ultimately show ?thesis using r by blast
qed

end
