(* ===== verification/Trg_Free.thy ===== *)
theory Trg_Free
  imports Trg_Pool
begin

text \<open>
  Freeing a block. A list whose two directions agree and whose packets cover the pool represents a list
  of blocks (\<open>dll_ok\<close>); \<open>DLTMM_free\<close> refines the operation \<open>release\<close> on the list of blocks, which
  merges the block with its free neighbours.
\<close>

section \<open>Blocks\<close>

type_synonym block = "nat \<times> nat \<times> bool"

definition block_of :: "trg_packet \<Rightarrow> block" where
  "block_of k = (unat (packet_addr k), unat (packet_size k), used_packet k)"

fun tiles :: "nat \<Rightarrow> nat \<Rightarrow> block list \<Rightarrow> bool" where
  "tiles lo lim [] \<longleftrightarrow> lo = lim"
| "tiles lo lim ((a, n, u) # bs) \<longleftrightarrow> a = lo \<and> 0 < n \<and> tiles (lo + n) lim bs"

definition live :: "block list \<Rightarrow> (nat \<times> nat) list" where
  "live bs = map (\<lambda>(a, n, u). (a, n)) (filter (\<lambda>(a, n, u). u) bs)"

fun coalesced :: "block list \<Rightarrow> bool" where
  "coalesced ((a, n, u) # (b, m, v) # bs) \<longleftrightarrow> (u \<or> v) \<and> coalesced ((b, m, v) # bs)"
| "coalesced bs \<longleftrightarrow> True"

definition merge_prev :: "block list \<Rightarrow> nat \<Rightarrow> nat \<Rightarrow> block list \<times> nat \<times> nat" where
  "merge_prev us a n =
     (if us \<noteq> [] \<and> \<not> snd (snd (last us)) then (butlast us, fst (last us), n + fst (snd (last us))) else (us, a, n))"

definition merge_next :: "block list \<Rightarrow> nat \<Rightarrow> block list \<times> nat" where
  "merge_next vs n =
     (if vs \<noteq> [] \<and> \<not> snd (snd (hd vs)) then (tl vs, n + fst (snd (hd vs))) else (vs, n))"

definition release :: "block list \<Rightarrow> nat \<Rightarrow> nat \<Rightarrow> block list \<Rightarrow> block list" where
  "release us a n vs =
     (case merge_prev us a n of (us', a', n') \<Rightarrow>
      case merge_next vs n' of (vs', n'') \<Rightarrow> us' @ (a', n'', False) # vs')"

lemma live_simps [simp]:
  "live [] = []" "live ((a, n, u) # bs) = (if u then (a, n) # live bs else live bs)"
  "live (bs @ cs) = live bs @ live cs"
  by (simp_all add: live_def)

lemma tiles_append: "tiles lo lim (bs @ cs) \<longleftrightarrow> (\<exists>m. tiles lo m bs \<and> tiles m lim cs)"
  by (induction bs arbitrary: lo) auto

lemma tiles_le: "tiles lo lim bs \<Longrightarrow> lo \<le> lim"
  by (induction lo lim bs rule: tiles.induct) auto

lemma tiles_bounds: "tiles lo lim bs \<Longrightarrow> (a, n, u) \<in> set bs \<Longrightarrow> lo \<le> a \<and> 0 < n \<and> a + n \<le> lim"
  by (induction lo lim bs rule: tiles.induct) (auto dest: tiles_le)

lemma coalesced_append:
  "coalesced (bs @ c # cs) \<longleftrightarrow>
     coalesced (c # cs) \<and> coalesced bs \<and> (bs = [] \<or> snd (snd (last bs)) \<or> snd (snd c))"
  by (induction bs rule: coalesced.induct) (cases c; auto)+

lemma coalesced_Cons:
  "coalesced ((a, n, u) # bs) \<longleftrightarrow> (bs = [] \<or> u \<or> snd (snd (hd bs))) \<and> coalesced bs"
  by (cases bs) auto

lemma block_list_cases:
  obtains "us = []" | us' a n u where "us = us' @ [(a, n, u)]"
  by (cases us rule: rev_cases) (simp, metis prod_cases3)

lemma release_tiles:
  assumes "tiles lo lim (us @ (a, n, True) # vs)" shows "tiles lo lim (release us a n vs)"
  using assms
  by (cases us rule: block_list_cases; cases vs)
     (auto simp: release_def merge_prev_def merge_next_def tiles_append add.assoc add.left_commute split: prod.splits)

lemma merge_prev_tiles:
  assumes "tiles lo lim (us @ (a, n, u) # vs)" "merge_prev us a n = (us', a', n')"
  shows "tiles lo lim (us' @ (a', n', u) # vs)"
  using assms
  by (cases us rule: block_list_cases)
     (auto simp: merge_prev_def tiles_append ac_simps split: if_splits)

lemma tiles_neighbours:
  assumes "tiles lo lim (us @ (a, n, u) # vs)"
  shows "x \<in> set us \<Longrightarrow> 0 < lo \<Longrightarrow> lim \<le> m \<Longrightarrow> n + fst (snd x) < m"
    and "y \<in> set vs \<Longrightarrow> 0 < lo \<Longrightarrow> lim \<le> m \<Longrightarrow> n + fst (snd y) < m"
proof -
  have t: "tiles lo a us" "tiles (a + n) lim vs"
    using assms by (auto simp: tiles_append)
  have le: "lo \<le> a" "a + n \<le> lim" using t by (auto dest: tiles_le)
  { assume "x \<in> set us" "0 < lo" "lim \<le> m"
    then show "n + fst (snd x) < m"
      using tiles_bounds [OF t(1), of "fst x" "fst (snd x)" "snd (snd x)"] le by simp }
  { assume "y \<in> set vs" "0 < lo" "lim \<le> m"
    then show "n + fst (snd y) < m"
      using tiles_bounds [OF t(2), of "fst y" "fst (snd y)" "snd (snd y)"] le by simp }
qed

lemma release_live: "live (release us a n vs) = live us @ live vs"
  by (cases us rule: block_list_cases; cases vs)
     (auto simp: release_def merge_prev_def merge_next_def split: prod.splits)

lemma release_coalesced:
  assumes "coalesced (us @ (a, n, True) # vs)" shows "coalesced (release us a n vs)"
  using assms
  by (cases us rule: block_list_cases; cases vs)
     (auto simp: release_def merge_prev_def merge_next_def coalesced_append coalesced_Cons)

section \<open>The doubly linked list\<close>

fun dseg :: "(nat \<rightharpoonup> trg_packet) \<Rightarrow> nat option \<Rightarrow> nat option \<Rightarrow> nat list \<Rightarrow> nat option \<Rightarrow> nat option \<Rightarrow> bool" where
  "dseg h q p [] q' p' \<longleftrightarrow> p = p' \<and> q = q'"
| "dseg h q p (r # rs) q' p' \<longleftrightarrow>
     p = Some r \<and>
     (case h r of None \<Rightarrow> False | Some k \<Rightarrow> prev_packet k = q \<and> dseg h (Some r) (next_packet k) rs q' p')"

lemma dseg_append:
  "dseg h q p (xs @ ys) q' p' \<longleftrightarrow> (\<exists>m n. dseg h q p xs m n \<and> dseg h m n ys q' p')"
  by (induction xs arbitrary: q p) (auto split: option.splits)

lemma dseg_cong: "\<forall>r \<in> set rs. h' r = h r \<Longrightarrow> dseg h' q p rs q' p' = dseg h q p rs q' p'"
  by (induction rs arbitrary: q p) (auto split: option.splits)

lemma dseg_upd [simp]: "z \<notin> set rs \<Longrightarrow> dseg (h(z := v)) q p rs q' p' = dseg h q p rs q' p'"
  by (rule dseg_cong) auto

lemma dseg_last: "dseg h q p xs q' p' \<Longrightarrow> q' = (if xs = [] then q else Some (last xs))"
  by (induction xs arbitrary: q p) (auto split: option.splits)

lemma pkts_upd [simp]: "z \<notin> set rs \<Longrightarrow> pkts (h(z := v)) rs = pkts h rs"
  by (rule pkts_cong) auto

lemma dseg_chain: "dseg h q p rs q' None \<Longrightarrow> chain h p rs"
  by (induction rs arbitrary: q p) (auto split: option.splits)

definition blocks_at :: "(nat \<rightharpoonup> trg_packet) \<Rightarrow> nat list \<Rightarrow> block list" where
  "blocks_at h rs = map block_of (pkts h rs)"

lemma blocks_at_simps [simp]:
  "blocks_at h [] = []" "blocks_at h (r # rs) = block_of (the (h r)) # blocks_at h rs"
  "blocks_at h (xs @ ys) = blocks_at h xs @ blocks_at h ys"
  by (simp_all add: blocks_at_def)

lemma blocks_at_upd [simp]: "z \<notin> set rs \<Longrightarrow> blocks_at (h(z := v)) rs = blocks_at h rs"
  by (simp add: blocks_at_def)

text \<open>The front part of a list without its last packet, when its neighbour is linked to another one.\<close>

lemma dseg_relink_last:
  assumes "dseg h q p (xs @ [z]) q' p'" "z \<notin> set xs" "h z = Some kz"
  shows "dseg (h(z \<mapsto> kz \<lparr> next_packet := p2 \<rparr>)) q p (xs @ [z]) (Some z) p2"
  using assms by (auto simp: dseg_append)

lemma dseg_relink_first:
  assumes "dseg h q p (z # ys) q' p'" "z \<notin> set ys" "h z = Some kz"
  shows "dseg (h(z \<mapsto> kz \<lparr> prev_packet := q2 \<rparr>)) q2 (Some z) (z # ys) q' p'"
  using assms by auto

lemma block_of_links [simp]:
  "block_of (k \<lparr> next_packet := p \<rparr>) = block_of k" "block_of (k \<lparr> prev_packet := p \<rparr>) = block_of k"
  by (simp_all add: block_of_def)

definition head_or :: "nat list \<Rightarrow> nat \<Rightarrow> nat" where
  "head_or xs b = (case xs of [] \<Rightarrow> b | x # _ \<Rightarrow> x)"

primrec first_ref :: "nat list \<Rightarrow> nat option" where
  "first_ref [] = None"
| "first_ref (x # xs) = Some x"

lemma head_or_simps [simp]: "head_or [] b = b" "head_or (x # xs) b = x" "head_or (xs @ [z]) b = head_or xs z"
  by (simp_all add: head_or_def split: list.split)

lemma first_ref_append [simp]: "first_ref (xs @ b # ys) = Some (head_or xs b)"
  by (cases xs) simp_all

definition links :: "trg_state \<Rightarrow> nat list \<Rightarrow> bool" where
  "links s rs \<longleftrightarrow> (\<exists>q. dseg (heap s) None (first_ref rs) rs q None) \<and>
                 distinct rs \<and> fresh_refs s"

lemma fresh_refs_heap: "fresh_refs s \<Longrightarrow> dom h \<subseteq> dom (heap s) \<Longrightarrow> fresh_refs (s \<lparr> heap := h \<rparr>)"
  by (auto simp: fresh_refs_def)

lemma absorb_prev_links:
  assumes l: "links s (xs @ pr # b # ys)" and k: "heap s pr = Some pp" "heap s b = Some k" "\<not> used_packet pp"
  defines "k1 \<equiv> k \<lparr> packet_addr := packet_addr pp, packet_size := packet_size k + packet_size pp,
                     prev_packet := prev_packet pp \<rparr>"
  shows "\<exists>s1. absorb_prev b pr s = Inr s1 \<and> links s1 (xs @ b # ys) \<and> heap s1 b = Some k1 \<and>
           blocks_at (heap s1) xs = blocks_at (heap s) xs \<and> blocks_at (heap s1) ys = blocks_at (heap s) ys \<and>
           trg_mem_head s1 = trg_mem_head s"
proof (cases xs rule: rev_cases)
  case Nil
  let ?h = "(heap s)(b \<mapsto> k1, pr := None)"
  have "absorb_prev b pr s = Inr (s \<lparr> heap := ?h \<rparr>)"
    using l k by (simp add: Nil links_def absorb_prev_def get_pkt_def upd_pkt_def DLIF_free_def k1_def)
  moreover have "fresh_refs (s \<lparr> heap := ?h \<rparr>)"
    by (rule fresh_refs_heap) (use l k in \<open>auto simp: links_def\<close>)
  then have "links (s \<lparr> heap := ?h \<rparr>) (b # ys)"
    using l k by (auto simp: Nil links_def k1_def)
  moreover have "pr \<noteq> b" "pr \<notin> set ys" "b \<notin> set ys" using l by (simp_all add: Nil links_def)
  ultimately show ?thesis by (simp add: Nil)
next
  case (snoc xs0 z)
  let ?hd = "Some (head_or xs0 z)"
  obtain q where d: "dseg (heap s) None ?hd (xs0 @ [z]) (Some z) (Some pr)" "prev_packet pp = Some z"
      "dseg (heap s) (Some b) (next_packet k) ys q None"
      "distinct (xs0 @ z # pr # b # ys)" "fresh_refs s"
    using l k by (auto simp: snoc links_def dseg_append dest: dseg_last split: option.splits)
  obtain kz where kz: "heap s z = Some kz" using d(1) by (auto simp: dseg_append split: option.splits)
  let ?h = "(heap s)(b \<mapsto> k1, z \<mapsto> kz \<lparr> next_packet := Some b \<rparr>, pr := None)"
  have "absorb_prev b pr s = Inr (s \<lparr> heap := ?h \<rparr>)"
    using d k kz by (simp add: absorb_prev_def get_pkt_def upd_pkt_def DLIF_free_def k1_def)
  moreover have seg: "dseg ?h None ?hd (xs0 @ [z]) (Some z) (Some b)"
    using dseg_relink_last [OF d(1) _ kz] d(4) by (simp add: dseg_append)
  have "fresh_refs (s \<lparr> heap := ?h \<rparr>)"
    by (rule fresh_refs_heap) (use d k kz in auto)
  then have "links (s \<lparr> heap := ?h \<rparr>) (xs @ b # ys)"
    unfolding links_def snoc using d k kz seg
    by (auto simp: dseg_append k1_def)
  moreover have "blocks_at ?h xs = blocks_at (heap s) xs" "blocks_at ?h ys = blocks_at (heap s) ys"
    using d(4) kz by (simp_all add: snoc)
  ultimately show ?thesis using d(4) by simp
qed

lemma absorb_next_links:
  assumes l: "links s (xs @ b # nx # ys)" and k: "heap s nx = Some np" "heap s b = Some k" "\<not> used_packet np"
  defines "k1 \<equiv> k \<lparr> packet_size := packet_size k + packet_size np, next_packet := next_packet np \<rparr>"
  shows "\<exists>s1. absorb_next b nx s = Inr s1 \<and> links s1 (xs @ b # ys) \<and> heap s1 b = Some k1 \<and>
           blocks_at (heap s1) xs = blocks_at (heap s) xs \<and> blocks_at (heap s1) ys = blocks_at (heap s) ys \<and>
           trg_mem_head s1 = trg_mem_head s"
proof -
  obtain q where d: "dseg (heap s) None (Some (head_or xs b)) xs q (Some b)" "prev_packet k = q"
      "next_packet k = Some nx" "prev_packet np = Some b"
      "\<exists>q'. dseg (heap s) (Some nx) (next_packet np) ys q' None"
      "distinct (xs @ b # nx # ys)" "fresh_refs s"
    using l k by (auto simp: links_def dseg_append)
  show ?thesis
  proof (cases ys)
    case Nil
    let ?h = "(heap s)(b \<mapsto> k1, nx := None)"
    have "absorb_next b nx s = Inr (s \<lparr> heap := ?h \<rparr>)"
      using d k by (simp add: Nil absorb_next_def get_pkt_def upd_pkt_def DLIF_free_def k1_def)
    moreover have "fresh_refs (s \<lparr> heap := ?h \<rparr>)"
      by (rule fresh_refs_heap) (use d k in auto)
    then have "links (s \<lparr> heap := ?h \<rparr>) (xs @ b # ys)"
      using d k by (auto simp: Nil links_def dseg_append k1_def)
    ultimately show ?thesis using d(6) by (simp add: Nil)
  next
    case (Cons z ys0)
    obtain kz where kz: "heap s z = Some kz" using d(5) by (auto simp: Cons split: option.splits)
    let ?h = "(heap s)(b \<mapsto> k1, z \<mapsto> kz \<lparr> prev_packet := Some b \<rparr>, nx := None)"
    have nz: "next_packet np = Some z" using d(5) by (auto simp: Cons)
    have "absorb_next b nx s = Inr (s \<lparr> heap := ?h \<rparr>)"
      using d k kz nz by (simp add: Cons absorb_next_def get_pkt_def upd_pkt_def DLIF_free_def k1_def)
    moreover have "fresh_refs (s \<lparr> heap := ?h \<rparr>)"
      by (rule fresh_refs_heap) (use d k kz in auto)
    then have "links (s \<lparr> heap := ?h \<rparr>) (xs @ b # ys)"
      using d k kz nz by (auto simp: Cons links_def dseg_append k1_def)
    moreover have "blocks_at ?h xs = blocks_at (heap s) xs" "blocks_at ?h ys = blocks_at (heap s) ys"
      using d(6) kz by (simp_all add: Cons)
    ultimately show ?thesis using d(6) Cons by auto
  qed
qed

definition dll_ok :: "nat \<Rightarrow> nat \<Rightarrow> nat list \<Rightarrow> block list \<Rightarrow> trg_state \<Rightarrow> bool" where
  "dll_ok lo lim rs bs s \<longleftrightarrow>
     0 < lo \<and> lim \<le> 2 ^ 32 \<and> links s rs \<and> trg_mem_head s = first_ref rs \<and>
     blocks_at (heap s) rs = bs \<and> tiles lo lim bs"

lemma links_at:
  assumes "links s (xs @ b # ys)"
  shows "\<exists>k. heap s b = Some k \<and> prev_packet k = (if xs = [] then None else Some (last xs)) \<and>
           next_packet k = first_ref ys"
proof -
  obtain q m where d: "dseg (heap s) None (Some (head_or xs b)) xs m (Some b)"
      "dseg (heap s) m (Some b) (b # ys) q None"
    using assms by (auto simp: links_def dseg_append)
  from d(2) obtain k where k: "heap s b = Some k" "prev_packet k = m"
      "dseg (heap s) (Some b) (next_packet k) ys q None"
    by (auto split: option.splits)
  have "next_packet k = first_ref ys" using k(3) by (cases ys) auto
  then show ?thesis using k dseg_last [OF d(1)] by auto
qed

lemma unat_plus_small: "unat (a :: u32) + unat b < 2 ^ 32 \<Longrightarrow> unat (a + b) = unat a + unat b"
  by (simp add: unat_word_ariths)

definition after_prev :: "nat \<Rightarrow> trg_packet \<Rightarrow> trg_state \<Rightarrow> trg_fault + trg_state" where
  "after_prev b k s = (case prev_packet k of None \<Rightarrow> Inr s | Some pr \<Rightarrow> absorb_prev b pr s)"

definition after_next :: "nat \<Rightarrow> trg_packet \<Rightarrow> trg_state \<Rightarrow> trg_fault + trg_state" where
  "after_next b k s = (case next_packet k of None \<Rightarrow> Inr s | Some nx \<Rightarrow> absorb_next b nx s)"

lemma after_prev_step:
  assumes l: "links s (xs @ b # ys)" and k: "heap s b = Some k"
    and small: "xs \<noteq> [] \<Longrightarrow> unat (packet_size k) + fst (snd (block_of (the (heap s (last xs))))) < 2 ^ 32"
  shows "\<exists>s1 xs' k1. after_prev b k s = Inr s1 \<and> links s1 (xs' @ b # ys) \<and> heap s1 b = Some k1 \<and>
           next_packet k1 = next_packet k \<and> used_packet k1 = used_packet k \<and>
           merge_prev (blocks_at (heap s) xs) (unat (packet_addr k)) (unat (packet_size k)) =
             (blocks_at (heap s1) xs', unat (packet_addr k1), unat (packet_size k1)) \<and>
           blocks_at (heap s1) ys = blocks_at (heap s) ys \<and> trg_mem_head s1 = trg_mem_head s \<and>
           (xs' = xs \<or> xs' = butlast xs)"
proof (cases xs rule: rev_cases)
  case Nil
  then show ?thesis using l links_at [of s "[]" b ys] k
    by (intro exI [of _ s] exI [of _ "[]"] exI [of _ k]) (auto simp: after_prev_def merge_prev_def)
next
  case (snoc xs0 pr)
  obtain pp where pp: "heap s pr = Some pp" using links_at [of s xs0 pr "b # ys"] l by (auto simp: snoc)
  have prev: "prev_packet k = Some pr" using links_at [OF l] k by (simp add: snoc)
  show ?thesis
  proof (cases "used_packet pp")
    case True
    then have "after_prev b k s = Inr s" using prev pp by (simp add: after_prev_def absorb_prev_def get_pkt_def)
    then show ?thesis using l k pp True
      by (intro exI [of _ s] exI [of _ xs] exI [of _ k]) (simp add: snoc merge_prev_def block_of_def)
  next
    case False
    have l2: "links s (xs0 @ pr # b # ys)" using l by (simp add: snoc)
    have "unat (packet_size k + packet_size pp) = unat (packet_size k) + unat (packet_size pp)"
      using small pp by (intro unat_plus_small) (simp add: snoc block_of_def)
    then show ?thesis
      using absorb_prev_links [OF l2 pp k False] prev pp False
      by (fastforce simp: snoc after_prev_def merge_prev_def block_of_def)
  qed
qed

lemma after_next_step:
  assumes l: "links s (xs @ b # ys)" and k: "heap s b = Some k"
    and small: "ys \<noteq> [] \<Longrightarrow> unat (packet_size k) + fst (snd (block_of (the (heap s (hd ys))))) < 2 ^ 32"
  shows "\<exists>s1 ys' k1. after_next b k s = Inr s1 \<and> links s1 (xs @ b # ys') \<and> heap s1 b = Some k1 \<and>
           prev_packet k1 = prev_packet k \<and> used_packet k1 = used_packet k \<and>
           packet_addr k1 = packet_addr k \<and>
           merge_next (blocks_at (heap s) ys) (unat (packet_size k)) =
             (blocks_at (heap s1) ys', unat (packet_size k1)) \<and>
           blocks_at (heap s1) xs = blocks_at (heap s) xs \<and> trg_mem_head s1 = trg_mem_head s"
proof (cases ys)
  case Nil
  then show ?thesis using l links_at [of s xs b "[]"] k
    by (intro exI [of _ s] exI [of _ "[]"] exI [of _ k]) (auto simp: after_next_def merge_next_def)
next
  case (Cons nx ys0)
  obtain np where np: "heap s nx = Some np" using links_at [of s "xs @ [b]" nx ys0] l by (auto simp: Cons)
  have next_k: "next_packet k = Some nx" using links_at [OF l] k by (simp add: Cons)
  show ?thesis
  proof (cases "used_packet np")
    case True
    then have "after_next b k s = Inr s" using next_k np by (simp add: after_next_def absorb_next_def get_pkt_def)
    then show ?thesis using l k np True
      by (intro exI [of _ s] exI [of _ ys] exI [of _ k]) (simp add: Cons merge_next_def block_of_def)
  next
    case False
    have l2: "links s (xs @ b # nx # ys0)" using l by (simp add: Cons)
    have "unat (packet_size k + packet_size np) = unat (packet_size k) + unat (packet_size np)"
      using small np by (intro unat_plus_small) (simp add: Cons block_of_def)
    then show ?thesis
      using absorb_next_links [OF l2 np k False] next_k np False
      by (fastforce simp: Cons after_next_def merge_next_def block_of_def)
  qed
qed

lemma links_used:
  assumes "links s rs" "heap s b = Some k"
  shows "links (s \<lparr> heap := (heap s)(b \<mapsto> k \<lparr> used_packet := u \<rparr>) \<rparr>) rs"
proof -
  have "dseg ((heap s)(b \<mapsto> k \<lparr> used_packet := u \<rparr>)) q p xs q' p' = dseg (heap s) q p xs q' p'" for q p xs q' p'
    using assms(2) by (induction xs arbitrary: q p) (auto split: option.splits)
  then show ?thesis using assms by (auto simp: links_def intro!: fresh_refs_heap split: if_splits)
qed

lemma links_head [simp]: "links (s \<lparr> trg_mem_head := p \<rparr>) rs = links s rs"
  by (simp add: links_def fresh_refs_def)

lemma trg_free_pkt_refines:
  assumes ok: "dll_ok lo lim (xs @ b # ys) bs s" and k: "heap s b = Some k" "used_packet k"
  shows "\<exists>s' rs'. trg_free_pkt (Some b) s = Inr s' \<and>
           dll_ok lo lim rs' (release (blocks_at (heap s) xs) (unat (packet_addr k)) (unat (packet_size k))
                                      (blocks_at (heap s) ys)) s'"
proof -
  let ?us = "blocks_at (heap s) xs" and ?vs = "blocks_at (heap s) ys"
  let ?a = "unat (packet_addr k)" and ?n = "unat (packet_size k)"
  have l: "links s (xs @ b # ys)" and lo: "0 < lo" "lim \<le> 2 ^ 32"
    and hd: "trg_mem_head s = Some (head_or xs b)" and t: "tiles lo lim (?us @ (?a, ?n, True) # ?vs)"
    using ok k by (auto simp: dll_ok_def block_of_def)
  have small1: "xs \<noteq> [] \<Longrightarrow> ?n + fst (snd (block_of (the (heap s (last xs))))) < 2 ^ 32"
    using tiles_neighbours(1) [OF t, of "block_of (the (heap s (last xs)))"] lo
    by (simp add: blocks_at_def pkts_def)
  obtain s1 xs' k1 where p: "after_prev b k s = Inr s1" "links s1 (xs' @ b # ys)" "heap s1 b = Some k1"
      "next_packet k1 = next_packet k" "used_packet k1 = used_packet k"
      "merge_prev ?us ?a ?n = (blocks_at (heap s1) xs', unat (packet_addr k1), unat (packet_size k1))"
      "blocks_at (heap s1) ys = ?vs" "trg_mem_head s1 = trg_mem_head s" "xs' = xs \<or> xs' = butlast xs"
    using after_prev_step [OF l k(1) small1] by blast
  have t1: "tiles lo lim (blocks_at (heap s1) xs' @ (unat (packet_addr k1), unat (packet_size k1), True) # ?vs)"
    using merge_prev_tiles [OF t] p(6) by simp
  have "ys \<noteq> [] \<Longrightarrow> block_of (the (heap s1 (hd ys))) \<in> set ?vs"
    using p(7) by (metis blocks_at_def pkts_def list.map_comp list.set_map hd_in_set imageI comp_apply)
  then have small2: "ys \<noteq> [] \<Longrightarrow>
      unat (packet_size k1) + fst (snd (block_of (the (heap s1 (hd ys))))) < 2 ^ 32"
    using tiles_neighbours(2) [OF t1] lo by blast
  obtain s2 ys' k2 where q: "after_next b k1 s1 = Inr s2" "links s2 (xs' @ b # ys')" "heap s2 b = Some k2"
      "prev_packet k2 = prev_packet k1" "used_packet k2 = used_packet k1" "packet_addr k2 = packet_addr k1"
      "merge_next ?vs (unat (packet_size k1)) = (blocks_at (heap s2) ys', unat (packet_size k2))"
      "blocks_at (heap s2) xs' = blocks_at (heap s1) xs'" "trg_mem_head s2 = trg_mem_head s1"
    using after_next_step [OF p(2,3) small2] p(7) by metis
  let ?s = "(if prev_packet k2 = None then s2 \<lparr> trg_mem_head := Some b \<rparr> else s2)"
  let ?h = "(heap s2)(b \<mapsto> k2 \<lparr> used_packet := False \<rparr>)"
  have "after_next b k s1 = Inr s2" using q(1) p(4) by (simp add: after_next_def)
  then have run: "trg_free_pkt (Some b) s = Inr (?s \<lparr> heap := ?h \<rparr>)"
    using k p(1) q(3) by (simp add: trg_free_pkt_def get_pkt_def upd_pkt_def
      after_prev_def [symmetric] after_next_def [symmetric])
  have nm: "b \<notin> set xs'" "b \<notin> set ys'" using q(2) by (simp_all add: links_def)
  have r: "release ?us ?a ?n ?vs = blocks_at ?h (xs' @ b # ys')"
    using p(6) q(6,7,8) nm by (simp add: release_def block_of_def)
  have "prev_packet k2 = (if xs' = [] then None else Some (last xs'))" using links_at [OF q(2)] q(3) by simp
  moreover have "head_or xs' b = head_or xs b" if "xs' \<noteq> []"
    using that p(9) by (cases xs; cases "tl xs") (auto simp: head_or_def)
  ultimately have "trg_mem_head ?s = first_ref (xs' @ b # ys')"
    using p(8) q(9) hd by (simp add: head_or_def split: list.splits)
  moreover have "links (?s \<lparr> heap := ?h \<rparr>) (xs' @ b # ys')"
  proof -
    have "heap ?s = heap s2" by simp
    moreover have "links (?s \<lparr> heap := (heap ?s)(b \<mapsto> k2 \<lparr> used_packet := False \<rparr>) \<rparr>) (xs' @ b # ys')"
      by (rule links_used) (use q(2,3) in simp_all)
    ultimately show ?thesis by (simp only:)
  qed
  ultimately have "dll_ok lo lim (xs' @ b # ys') (release ?us ?a ?n ?vs) (?s \<lparr> heap := ?h \<rparr>)"
    using lo release_tiles [OF t] r by (simp add: dll_ok_def)
  with run show ?thesis by blast
qed

section \<open>Finding the packet of an address\<close>

lemma find_used_skip:
  assumes "chain_to (heap s) p xs q" "\<forall>k \<in> set (pkts (heap s) xs). used_packet k \<longrightarrow> packet_addr k \<le> ptr"
  shows "\<exists>prev'. find_used_loop s ptr p prev = find_used_loop s ptr q prev'"
  using assms
proof (induction xs arbitrary: p prev)
  case (Cons r rs)
  then obtain k where k: "heap s r = Some k" "chain_to (heap s) (next_packet k) rs q" "p = Some r"
    by (auto split: option.splits)
  have "find_used_loop s ptr p prev = find_used_loop s ptr (next_packet k) (if used_packet k then Some r else prev)"
    using k Cons.prems(2) by (subst find_used_loop.simps) simp
  then show ?case using Cons.IH [OF k(2)] Cons.prems(2) by simp
qed auto

lemma find_used_stop:
  assumes "chain_to (heap s) p ys None" "\<forall>k \<in> set (pkts (heap s) ys). used_packet k \<longrightarrow> ptr < packet_addr k"
  shows "find_used_loop s ptr p prev = Some (Inr prev)"
  using assms
proof (induction ys arbitrary: p)
  case Nil then show ?case by (simp add: find_used_loop.simps)
next
  case (Cons r rs)
  then obtain k where k: "heap s r = Some k" "chain_to (heap s) (next_packet k) rs None" "p = Some r"
    by (auto split: option.splits)
  have "find_used_loop s ptr p prev =
          (if used_packet k then Some (Inr prev) else find_used_loop s ptr (next_packet k) prev)"
    using k Cons.prems(2) by (subst find_used_loop.simps) auto
  then show ?case using Cons.IH [OF k(2)] Cons.prems(2) by simp
qed

lemma find_used_at:
  assumes c: "chain (heap s) (trg_mem_head s) (xs @ b # ys)" and k: "heap s b = Some k" "used_packet k"
    and le: "\<forall>k' \<in> set (pkts (heap s) xs). used_packet k' \<longrightarrow> packet_addr k' \<le> ptr" "packet_addr k \<le> ptr"
    and gt: "\<forall>k' \<in> set (pkts (heap s) ys). used_packet k' \<longrightarrow> ptr < packet_addr k'"
  shows "find_used_loop s ptr (trg_mem_head s) None = Some (Inr (Some b))"
proof -
  have c2: "chain_to (heap s) (trg_mem_head s) xs (Some b)" "chain_to (heap s) (next_packet k) ys None"
    using c k by (auto simp: chain_chain_to chain_to_append)
  obtain prev where "find_used_loop s ptr (trg_mem_head s) None = find_used_loop s ptr (Some b) prev"
    using find_used_skip [OF c2(1) le(1)] by blast
  also have "\<dots> = find_used_loop s ptr (next_packet k) (Some b)"
    using k le(2) by (subst find_used_loop.simps) simp
  also have "\<dots> = Some (Inr (Some b))" using c2(2) gt by (rule find_used_stop)
  finally show ?thesis .
qed

lemma blocks_at_split:
  assumes "blocks_at h rs = us @ x # vs"
  obtains xs b ys where "rs = xs @ b # ys" "blocks_at h xs = us" "block_of (the (h b)) = x" "blocks_at h ys = vs"
  using assms by (auto simp: blocks_at_def pkts_def map_eq_append_conv map_eq_Cons_conv)

lemma dll_ok_chain: "dll_ok lo lim rs bs s \<Longrightarrow> chain (heap s) (trg_mem_head s) rs"
  by (auto simp: dll_ok_def links_def dest: dseg_chain)

lemma DLTMM_free_refines:
  assumes ok: "dll_ok lo lim rs (us @ (a, n, True) # vs) s" and ptr: "a \<le> unat ptr" "unat ptr < a + n"
  shows "\<exists>s' rs'. DLTMM_free ptr s = Some (Inr s') \<and> dll_ok lo lim rs' (release us a n vs) s'"
proof -
  obtain xs b ys where rs: "rs = xs @ b # ys" and bl: "blocks_at (heap s) xs = us"
      "block_of (the (heap s b)) = (a, n, True)" "blocks_at (heap s) ys = vs"
    using ok by (auto simp: dll_ok_def elim: blocks_at_split)
  obtain k where k0: "heap s b = Some k"
    using ok links_at by (fastforce simp: dll_ok_def rs)
  then have k: "unat (packet_addr k) = a" "unat (packet_size k) = n" "used_packet k"
    using bl(2) by (simp_all add: block_of_def)
  have t: "tiles lo a us" "tiles (a + n) lim vs"
    using ok by (auto simp: dll_ok_def tiles_append)
  have "packet_addr k' \<le> ptr" if "k' \<in> set (pkts (heap s) xs)" for k'
  proof -
    have "block_of k' \<in> set us" using that bl(1) by (auto simp: blocks_at_def)
    then show ?thesis using tiles_bounds [OF t(1)] ptr(1) by (fastforce simp: block_of_def word_le_nat_alt)
  qed
  moreover have "ptr < packet_addr k'" if "k' \<in> set (pkts (heap s) ys)" for k'
  proof -
    have "block_of k' \<in> set vs" using that bl(3) by (auto simp: blocks_at_def)
    then show ?thesis using tiles_bounds [OF t(2)] ptr(2) by (fastforce simp: block_of_def word_less_nat_alt)
  qed
  ultimately have "find_used_loop s ptr (trg_mem_head s) None = Some (Inr (Some b))"
    using find_used_at [OF dll_ok_chain [OF ok, unfolded rs] k0 k(3)] ptr(1) k(1) by (simp add: word_le_nat_alt)
  moreover obtain s' rs' where "trg_free_pkt (Some b) s = Inr s'" "dll_ok lo lim rs' (release us a n vs) s'"
    using trg_free_pkt_refines [OF ok [unfolded rs] k0 k(3)] k bl by auto
  ultimately show ?thesis by (auto simp: DLTMM_free_def)
qed

lemma DLTMM_free_below:
  assumes "chain (heap s) (trg_mem_head s) rs" "\<forall>k \<in> set (pkts (heap s) rs). used_packet k \<longrightarrow> ptr < packet_addr k"
  shows "DLTMM_free ptr s = Some (Inl ExitProcess)"
  using find_used_stop [OF assms(1) [unfolded chain_chain_to] assms(2)] by (simp add: DLTMM_free_def)

section \<open>Allocating from the last block\<close>

lemma links_fields:
  assumes "links s rs" "heap s b = Some k" "next_packet k' = next_packet k" "prev_packet k' = prev_packet k"
  shows "links (s \<lparr> heap := (heap s)(b \<mapsto> k') \<rparr>) rs"
proof -
  have "dseg ((heap s)(b \<mapsto> k')) q p xs q' p' = dseg (heap s) q p xs q' p'" for q p xs q' p'
    using assms(2-) by (induction xs arbitrary: q p) (auto split: option.splits)
  then show ?thesis using assms by (auto simp: links_def intro!: fresh_refs_heap split: if_splits)
qed

lemma alloc_last_run:
  assumes k: "heap s b = Some k" and al: "trg_align (packet_addr k) al = packet_addr k"
    and H: "malloc_ok H (next_ref s)" and b: "b < next_ref s"
  shows "trg_alloc_pkt H b sz al (packet_addr k) s =
    Inr (packet_addr k,
      if sz < packet_size k then
        s \<lparr> next_ref := Suc (next_ref s),
            heap := (heap s)(next_ref s \<mapsto>
                \<lparr> packet_addr = packet_addr k + sz, packet_size = packet_size k - sz, prev_packet = Some b,
                  next_packet = next_packet k, used_packet = False \<rparr>,
              b \<mapsto> k \<lparr> packet_size := sz, used_packet := True, next_packet := Some (next_ref s) \<rparr>) \<rparr>
      else s \<lparr> heap := (heap s)(b \<mapsto> k \<lparr> packet_size := sz, used_packet := True \<rparr>) \<rparr>)"
  using k al H b
  by (auto simp: trg_alloc_pkt_def alloc_split_front_def alloc_pad_def alloc_split_back_def get_pkt_def
      upd_pkt_def DLIF_malloc_def Let_def fun_upd_twist)

lemma tiles_laid: "tiles lo lim (map block_of ks) \<Longrightarrow> laid lo lim ks"
  by (induction ks arbitrary: lo) (auto simp: block_of_def)

lemma dll_pool_ok: "dll_ok lo lim rs bs s \<Longrightarrow> pool_ok lo lim rs s"
  by (auto simp: pool_ok_def dll_ok_def links_def blocks_at_def dest: dseg_chain tiles_laid)

lemma live_used_ranges: "live (map block_of ks) = used_ranges ks"
  by (induction ks) (simp_all add: block_of_def)

lemma malloc_last_refines:
  assumes ok: "dll_ok lo lim rs (us @ [(a, n, False)]) s" and used: "\<forall>(x, m, u) \<in> set us. u"
    and H: "malloc_ok H (next_ref s)" and al: "trg_align (word_of_nat a) al = word_of_nat a"
    and sz: "sz \<noteq> 0" "unat sz \<le> n"
  shows "\<exists>s' rs'. trg_malloc H (- 1) sz al s = Some (Inr (True, word_of_nat a, s')) \<and>
           dll_ok lo lim rs' (us @ (a, unat sz, True) #
             (if unat sz < n then [(a + unat sz, n - unat sz, False)] else [])) s'"
proof -
  obtain xs b where rs: "rs = xs @ [b]" and bl: "blocks_at (heap s) xs = us"
      "block_of (the (heap s b)) = (a, n, False)"
    using ok by (auto simp: dll_ok_def elim!: blocks_at_split) (metis blocks_at_def list.map_disc_iff pkts_def)
  have l: "links s (xs @ [b])" and lo: "0 < lo" "lim \<le> 2 ^ 32" and hd: "trg_mem_head s = Some (head_or xs b)"
    and t: "tiles lo a us" "a + n = lim" "0 < n" "tiles lo lim (us @ [(a, n, False)])"
    using ok by (auto simp: dll_ok_def rs tiles_append)
  obtain k where k: "heap s b = Some k" "next_packet k = None"
    using links_at [of s xs b "[]"] l by auto
  then have kf: "unat (packet_addr k) = a" "unat (packet_size k) = n" "\<not> used_packet k"
    using bl(2) by (simp_all add: block_of_def)
  have pa: "packet_addr k = word_of_nat a" unfolding kf(1) [symmetric] by simp
  have fit: "fits sz al k" using kf sz t(3) al by (simp add: fits_def pa word_less_nat_alt word_le_nat_alt)
  note p = dll_pool_ok [OF ok]
  have "best_fit_in sz al (zip rs (pkts (heap s) rs)) \<noteq> None"
    unfolding best_fit_in_None using fit kf(3) k(1) by (auto simp: rs)
  then obtain b' k' where best: "best_fit_in sz al (zip rs (pkts (heap s) rs)) = Some (b', k')" by auto
  have "b' \<notin> set xs"
  proof
    assume "b' \<in> set xs"
    then have "block_of k' \<in> set us"
      using best_fit_found(2) [OF p best] bl(1) by (force simp: blocks_at_def pkts_def)
    then show False using used best_fit_found(3) [OF p best] by (auto simp: block_of_def)
  qed
  moreover have "b' \<in> set (xs @ [b])" using best_fit_found(1) [OF p best] by (auto simp: rs [symmetric])
  ultimately have b'b: "b' = b" by simp
  then have b': "b' = b" "k' = k" using best_fit_found(2) [OF p best] k(1) by simp_all
  have f: "fresh_refs s" and dis: "b \<notin> set xs" "distinct xs" using l by (simp_all add: links_def)
  have lt: "b < next_ref s" using f k(1) by (rule fresh_refs_less)
  have nx: "next_ref s \<notin> set xs"
    using p by (auto simp: rs elim!: pool_ok_split)
  have szw: "sz < packet_size k \<longleftrightarrow> unat sz < n" using kf by (simp add: word_less_nat_alt)
  show ?thesis
  proof (cases "unat sz < n")
    case False
    let ?s = "s \<lparr> heap := (heap s)(b \<mapsto> k \<lparr> packet_size := sz, used_packet := True \<rparr>) \<rparr>"
    have "trg_malloc H (- 1) sz al s = Some (Inr (True, word_of_nat a, ?s))"
      using relocatable_malloc_run [OF p sz(1), of H al] best b' False szw
        alloc_last_run [OF k(1) _ H lt, of al sz] al by (simp add: pa)
    moreover have "links ?s (xs @ [b])" using l k(1) by (rule links_fields) simp_all
    then have "dll_ok lo lim rs (us @ [(a, unat sz, True)]) ?s"
      using lo hd bl(1) dis kf False sz t by (auto simp: dll_ok_def rs block_of_def tiles_append)
    ultimately show ?thesis using False by auto
  next
    case True
    let ?f = "\<lparr> packet_addr = packet_addr k + sz, packet_size = packet_size k - sz, prev_packet = Some b,
                next_packet = None, used_packet = False \<rparr>"
    let ?h = "(heap s)(next_ref s \<mapsto> ?f,
                b \<mapsto> k \<lparr> packet_size := sz, used_packet := True, next_packet := Some (next_ref s) \<rparr>)"
    let ?s = "s \<lparr> next_ref := Suc (next_ref s), heap := ?h \<rparr>"
    have "trg_malloc H (- 1) sz al s = Some (Inr (True, word_of_nat a, ?s))"
      using relocatable_malloc_run [OF p sz(1), of H al] best b' True szw
        alloc_last_run [OF k(1) _ H lt, of al sz] al k(2) by (simp add: pa)
    moreover have "fresh_refs ?s" using f lt by (auto simp: fresh_refs_def)
    then have "links ?s (xs @ [b, next_ref s])"
      using l k dis nx lt by (auto simp: links_def dseg_append)
    moreover have "unat (packet_addr k + sz) = a + unat sz" "unat (packet_size k - sz) = n - unat sz"
      using kf True t(2) lo by (simp_all add: unat_plus_small unat_sub word_le_nat_alt)
    ultimately show ?thesis
      using lo hd bl(1) dis nx lt kf True sz t
      by (intro exI [of _ ?s] exI [of _ "xs @ [b, next_ref s]"])
         (auto simp: dll_ok_def rs block_of_def tiles_append word_gt_0 unat_gt_0)
  qed
qed

end
