(* ===== verification/Trg_Ops.thy ===== *)
theory Trg_Ops
  imports Trg_Free "HOL-Library.Multiset"
begin

text \<open>
  What a client of the target memory allocator sees: runs of \<open>DLTMM_malloc\<close> and \<open>DLTMM_free\<close>, and the
  properties of the allocator.
\<close>

section \<open>Runs of operations\<close>

text \<open>The results of a list of calls; the result of a call of \<open>DLTMM_free\<close> is \<^const>\<open>None\<close>.\<close>

datatype trg_op = Malloc mem_request | Free u32

fun trg_run :: "host \<Rightarrow> trg_op list \<Rightarrow> trg_state \<Rightarrow> (trg_fault + (u32 option list \<times> trg_state)) option" where
  "trg_run H [] s = Some (Inr ([], s))"
| "trg_run H (Malloc r # ops) s =
     (case DLTMM_malloc H r s of
        None \<Rightarrow> None
      | Some (Inl e) \<Rightarrow> Some (Inl e)
      | Some (Inr (a, s1)) \<Rightarrow> map_option (map_sum id (apfst (Cons a))) (trg_run H ops s1))"
| "trg_run H (Free p # ops) s =
     (case DLTMM_free p s of
        None \<Rightarrow> None
      | Some (Inl e) \<Rightarrow> Some (Inl e)
      | Some (Inr s1) \<Rightarrow> map_option (map_sum id (apfst (Cons None))) (trg_run H ops s1))"

definition free_all :: "(u32 \<Rightarrow> 's \<Rightarrow> ('e + 's) option) \<Rightarrow> u32 list \<Rightarrow> 's \<Rightarrow> ('e + 's) option" where
  "free_all free ps s =
     foldl (\<lambda>r p. case r of Some (Inr s1) \<Rightarrow> free p s1 | _ \<Rightarrow> r) (Some (Inr s)) ps"

lemma free_all_simps [simp]:
  "free_all free [] s = Some (Inr s)"
  "free p s = Some (Inr s1) \<Longrightarrow> free_all free (p # ps) s = free_all free ps s1"
  by (simp_all add: free_all_def)

section \<open>Allocations from a fresh pool\<close>

text \<open>
  What the caller takes to be its blocks: every request that was answered with TRUE, address 0 included, which the
  allocator gives when the host refuses memory for a packet.
\<close>

fun granted :: "mem_request list \<Rightarrow> u32 option list \<Rightarrow> (nat \<times> nat) list" where
  "granted (r # rs) (Some a # as) = (unat a, unat (memsz_in_bytes r)) # granted rs as"
| "granted (r # rs) (None # as) = granted rs as"
| "granted _ _ = []"

definition aligned_to :: "mem_request \<Rightarrow> u32 option \<Rightarrow> bool" where
  "aligned_to r x = (\<forall>a k. x = Some a \<longrightarrow> k < 31 \<longrightarrow> req_align r = 2 ^ k \<longrightarrow> 2 ^ k dvd unat a)"

lemma DLTMM_malloc_step:
  assumes p: "pool_ok lo lim rs s" and r: "relocatable r" "memsz_in_bytes r \<noteq> 0"
  shows "\<exists>x s' rs'. DLTMM_malloc H r s = Some (Inr (x, s')) \<and> pool_ok lo lim rs' s' \<and> aligned_to r x \<and>
           set (used_ranges (pkts (heap s) rs)) \<subseteq> set (used_ranges (pkts (heap s') rs')) \<and> next_ref s \<le> next_ref s' \<and>
           (\<forall>a. x = Some a \<longrightarrow> a = 0 \<and> refused H s s' \<or>
              (unat a, unat (memsz_in_bytes r)) \<in> set (used_ranges (pkts (heap s') rs')) \<and>
              lo \<le> unat a \<and> unat a + unat (memsz_in_bytes r) \<le> lim \<and>
              (\<forall>y \<in> set (used_ranges (pkts (heap s) rs)).
                 disjoint_range (unat a, unat (memsz_in_bytes r)) y))"
proof -
  let ?al = "if req_align r \<noteq> 0 then req_align r else 1"
  obtain ok a s' rs' where m: "trg_malloc H (- 1) (memsz_in_bytes r) ?al s = Some (Inr (ok, a, s'))"
      "pool_ok lo lim rs' s'" "set (used_ranges (pkts (heap s) rs)) \<subseteq> set (used_ranges (pkts (heap s') rs'))"
      "ok \<longrightarrow> a = 0 \<and> refused H s s' \<or> alloc_sound lo lim a (memsz_in_bytes r) ?al (pkts (heap s) rs) (pkts (heap s') rs')"
      "next_ref s \<le> next_ref s'"
    using relocatable_malloc_step [OF p r(2), of H ?al] by blast
  have run: "DLTMM_malloc H r s = Some (Inr (if ok then Some a else None, s'))"
    using m(1) r(1) by (simp add: DLTMM_malloc_def)
  have "aligned_to r (if ok then Some a else None)"
  proof -
    have "2 ^ k dvd unat a" if "ok" "k < 31" "req_align r = 2 ^ k" for k
      using m(4) that trg_align_multiple [OF that(2)] sint_exp_u32 [OF that(2)]
      by (cases "a = 0"; cases "req_align r = 0") (auto simp: alloc_sound_def)
    then show ?thesis by (simp add: aligned_to_def)
  qed
  then show ?thesis using run m(2-5) by (cases ok; intro exI conjI) (auto simp: alloc_sound_def)
qed

text \<open>Blocks with an address, that is, not the ones of a request that was answered TRUE with address 0.\<close>

definition with_address :: "(nat \<times> nat) list \<Rightarrow> (nat \<times> nat) list" where
  "with_address bs = filter (\<lambda>(a, n). a \<noteq> 0) bs"

lemma trg_run_sound:
  assumes "pool_ok lo lim rs s" "0 < lo" "\<forall>r \<in> set reqs. relocatable r \<and> memsz_in_bytes r \<noteq> 0"
  shows "\<exists>as s'. trg_run H (map Malloc reqs) s = Some (Inr (as, s')) \<and> list_all2 aligned_to reqs as \<and>
           next_ref s \<le> next_ref s' \<and> sorted_wrt disjoint_range (with_address (granted reqs as)) \<and>
           (\<forall>(a, n) \<in> set (granted reqs as). a = 0 \<and> refused H s s' \<or> lo \<le> a \<and> a + n \<le> lim \<and>
              (\<forall>y \<in> set (used_ranges (pkts (heap s) rs)). disjoint_range (a, n) y))"
  using assms(1,3)
proof (induction reqs arbitrary: s rs)
  case Nil then show ?case by (simp add: with_address_def)
next
  case (Cons r reqs)
  obtain x s1 rs1 where m: "DLTMM_malloc H r s = Some (Inr (x, s1))" "pool_ok lo lim rs1 s1" "aligned_to r x"
      "set (used_ranges (pkts (heap s) rs)) \<subseteq> set (used_ranges (pkts (heap s1) rs1))" "next_ref s \<le> next_ref s1"
      "\<forall>a. x = Some a \<longrightarrow> a = 0 \<and> refused H s s1 \<or>
              (unat a, unat (memsz_in_bytes r)) \<in> set (used_ranges (pkts (heap s1) rs1)) \<and>
              lo \<le> unat a \<and> unat a + unat (memsz_in_bytes r) \<le> lim \<and>
              (\<forall>y \<in> set (used_ranges (pkts (heap s) rs)).
                 disjoint_range (unat a, unat (memsz_in_bytes r)) y)"
    using DLTMM_malloc_step [OF Cons.prems(1), of r H] Cons.prems(2) by auto
  obtain as s' where i: "trg_run H (map Malloc reqs) s1 = Some (Inr (as, s'))" "list_all2 aligned_to reqs as"
      "next_ref s1 \<le> next_ref s'" "sorted_wrt disjoint_range (with_address (granted reqs as))"
      "\<forall>(a, n) \<in> set (granted reqs as). a = 0 \<and> refused H s1 s' \<or> lo \<le> a \<and> a + n \<le> lim \<and>
              (\<forall>y \<in> set (used_ranges (pkts (heap s1) rs1)). disjoint_range (a, n) y)"
    using Cons.IH [OF m(2)] Cons.prems(2) by auto
  have sym: "disjoint_range y z \<Longrightarrow> disjoint_range z y" for y z by (auto simp: disjoint_range_def)
  have old: "\<forall>(a, n) \<in> set (granted reqs as). a = 0 \<and> refused H s s' \<or> lo \<le> a \<and> a + n \<le> lim \<and>
              (\<forall>y \<in> set (used_ranges (pkts (heap s) rs)). disjoint_range (a, n) y)"
    using i(5) m(4) refused_wider(2) [OF _ m(5)] by fast
  have "trg_run H (map Malloc (r # reqs)) s = Some (Inr (x # as, s'))" using m(1) i(1) by simp
  moreover have "list_all2 aligned_to (r # reqs) (x # as)" using m(3) i(2) by simp
  moreover have "sorted_wrt disjoint_range (with_address (granted (r # reqs) (x # as)))"
  proof (cases "x = None \<or> x = Some 0")
    case True then show ?thesis using i(4) by (auto simp: with_address_def)
  next
    case False
    then obtain a where a: "x = Some a" "a \<noteq> 0" by auto
    then have h: "(unat a, unat (memsz_in_bytes r)) \<in> set (used_ranges (pkts (heap s1) rs1))"
      using m(6) by blast
    have "disjoint_range z (unat a, unat (memsz_in_bytes r))" if "z \<in> set (with_address (granted reqs as))" for z
      using bspec [OF i(5), of z] that h by (auto simp: with_address_def split: prod.splits)
    then have "\<forall>z \<in> set (with_address (granted reqs as)). disjoint_range (unat a, unat (memsz_in_bytes r)) z"
      by (simp add: sym)
    then show ?thesis using a i(4) by (simp add: with_address_def unat_eq_0)
  qed
  moreover have "\<forall>(a, n) \<in> set (granted (r # reqs) (x # as)). a = 0 \<and> refused H s s' \<or> lo \<le> a \<and> a + n \<le> lim \<and>
              (\<forall>y \<in> set (used_ranges (pkts (heap s) rs)). disjoint_range (a, n) y)"
    using old m(6) refused_wider(1) [OF _ i(3)] by (cases x) auto
  ultimately show ?case using m(5) i(3) by (blast intro: order_trans)
qed

lemma init_pool_ok:
  assumes "fresh_refs s0" "unat base + unat sz \<le> 2 ^ 32"
  shows "\<exists>rs. pool_ok (unat base) (unat base + unat sz) rs (trg_minit H s0 base sz) \<and>
              used_ranges (pkts (heap (trg_minit H s0 base sz)) rs) = []"
proof (cases "malloc_ok H (next_ref s0)")
  case True
  then show ?thesis using assms
    by (intro exI [of _ "[next_ref s0]"])
       (auto simp: trg_minit_def DLIF_malloc_def Let_def pool_ok_def fresh_refs_def)
next
  case False
  then show ?thesis using assms
    by (intro exI [of _ "[]"]) (auto simp: trg_minit_def DLIF_malloc_def Let_def pool_ok_def fresh_refs_def)
qed

section \<open>Freeing all the blocks\<close>

text \<open>
  The contract of a pool from which blocks are freed one at a time, and its client: whoever frees every
  live block, in whatever order, is left with one free block that covers the pool.
\<close>

locale block_pool =
  fixes lo lim :: nat
    and rep :: "block list \<Rightarrow> 's \<Rightarrow> bool"
    and free :: "u32 \<Rightarrow> 's \<Rightarrow> ('e + 's) option"
  assumes rep_tiles: "rep bs s \<Longrightarrow> tiles lo lim bs"
    and free_releases: "rep (us @ (a, n, True) # vs) s \<Longrightarrow> a \<le> unat p \<Longrightarrow> unat p < a + n \<Longrightarrow>
          \<exists>s'. free p s = Some (Inr s') \<and> rep (release us a n vs) s'"
begin

lemma all_free_block:
  assumes "tiles lo' lim bs" "coalesced bs" "live bs = []"
  shows "bs = (if lo' < lim then [(lo', lim - lo', False)] else [])"
proof (cases bs)
  case Nil then show ?thesis using assms(1) by simp
next
  case (Cons x cs)
  obtain a n u where x: "x = (a, n, u)" by (cases x)
  then have "\<not> u" using assms(3) by (auto simp: Cons split: if_splits)
  moreover have "cs = []"
    using assms(2,3) \<open>\<not> u\<close> by (cases cs) (auto simp: Cons x split: if_splits)
  ultimately show ?thesis using assms(1) by (auto simp: Cons x)
qed

lemma live_split:
  assumes "a \<in> fst ` set (live bs)"
  shows "\<exists>us n vs. bs = us @ (a, n, True) # vs"
proof -
  obtain n where "(a, n, True) \<in> set bs" using assms by (auto simp: live_def)
  then show ?thesis using split_list by fastforce
qed

lemma free_everything:
  assumes "rep bs s" "coalesced bs" "mset (map unat ps) = mset (map fst (live bs))"
  shows "\<exists>s'. free_all free ps s = Some (Inr s') \<and>
              rep (if lo < lim then [(lo, lim - lo, False)] else []) s'"
  using assms
proof (induction ps arbitrary: bs s)
  case Nil
  then have "live bs = []" using Nil.prems(3) [symmetric] by simp
  then show ?case using all_free_block [OF rep_tiles [OF Nil.prems(1)] Nil.prems(2)] Nil.prems(1) by auto
next
  case (Cons p ps)
  have "set (map fst (live bs)) = set (map unat (p # ps))" using mset_eq_setD [OF Cons.prems(3)] by simp
  then have "unat p \<in> fst ` set (live bs)" by simp
  then obtain us n vs where bs: "bs = us @ (unat p, n, True) # vs" using live_split by blast
  have "0 < n" using rep_tiles [OF Cons.prems(1)] by (auto simp: bs tiles_append)
  then obtain s1 where s1: "free p s = Some (Inr s1)" "rep (release us (unat p) n vs) s1"
    using free_releases [of us "unat p" n vs s p] Cons.prems(1) by (auto simp: bs)
  have "coalesced (release us (unat p) n vs)"
    using Cons.prems(2) by (simp add: bs release_coalesced)
  moreover have "mset (map unat ps) = mset (map fst (live (release us (unat p) n vs)))"
    using Cons.prems(3) by (simp add: bs release_live)
  ultimately show ?case using Cons.IH [OF s1(2)] s1(1) by simp
qed

end

interpretation target_pool: block_pool lo lim "\<lambda>bs s. \<exists>rs. dll_ok lo lim rs bs s" DLTMM_free for lo lim
proof unfold_locales
  show "\<exists>rs. dll_ok lo lim rs bs s \<Longrightarrow> tiles lo lim bs" for bs s
    by (auto simp: dll_ok_def)
  show "\<exists>rs. dll_ok lo lim rs (us @ (a, n, True) # vs) s \<Longrightarrow> a \<le> unat p \<Longrightarrow> unat p < a + n \<Longrightarrow>
      \<exists>s'. DLTMM_free p s = Some (Inr s') \<and> (\<exists>rs. dll_ok lo lim rs (release us a n vs) s')"
    for us a n vs s p
    using DLTMM_free_refines by blast
qed

section \<open>The properties of the allocator\<close>

text \<open>
  A small pool on a host whose memory calls succeed: the inputs of the examples below.
\<close>

definition empty_client :: trg_state where
  "empty_client = \<lparr> heap = (\<lambda>_. None), next_ref = 0, trg_mem_head = None, trg_minit_done = False \<rparr>"

definition plain_host :: host where
  "plain_host = \<lparr> malloc_ok = (\<lambda>_. True),
     junk = (\<lambda>_. \<lparr> packet_addr = 0, packet_size = 0, prev_packet = None, next_packet = None, used_packet = False \<rparr>) \<rparr>"

definition ask :: "u32 \<Rightarrow> u32 \<Rightarrow> mem_request" where
  "ask al n = \<lparr> req_align = al, relocatable = True, target_address = 0, memsz_in_bytes = n \<rparr>"

definition ask_at :: "u32 \<Rightarrow> u32 \<Rightarrow> mem_request" where
  "ask_at a n = \<lparr> req_align = 1, relocatable = False, target_address = a, memsz_in_bytes = n \<rparr>"

definition small_pool :: trg_state where
  "small_pool = snd (DLTMM_init plain_host empty_client 0x100 64)"

text \<open>C23: However many relocatable requests are made of a newly initialized pool, and whatever the host's memory does, every call
  returns and every address is aligned as requested; the blocks with an address other than 0 are inside the pool and pairwise
  disjoint; a block with address 0 is granted only if the host has refused memory for a packet during the run, so with a
  host that refuses nothing all blocks granted are inside the pool and pairwise disjoint.\<close>

theorem relocatable_blocks_disjoint:
  assumes "fresh_refs s0" "\<not> trg_minit_done s0" "base \<noteq> 0" "unat base + unat sz \<le> 2 ^ 32"
    and "\<forall>r \<in> set reqs. relocatable r \<and> memsz_in_bytes r \<noteq> 0"
  shows "\<exists>as s. trg_run H (map Malloc reqs) (snd (DLTMM_init H s0 base sz)) = Some (Inr (as, s)) \<and>
           list_all2 aligned_to reqs as \<and>
           sorted_wrt disjoint_range (filter (\<lambda>(a, n). a \<noteq> 0) (granted reqs as)) \<and>
           (\<forall>(a, n) \<in> set (granted reqs as). unat base \<le> a \<and> a + n \<le> unat base + unat sz \<or>
              a = 0 \<and> (\<exists>r. next_ref s0 \<le> r \<and> r < next_ref s \<and> \<not> malloc_ok H r)) \<and>
           ((\<forall>r. malloc_ok H r) \<longrightarrow> sorted_wrt disjoint_range (granted reqs as))"
proof -
  let ?s = "(trg_minit H s0 base sz) \<lparr> trg_minit_done := True \<rparr>"
  obtain rs where "pool_ok (unat base) (unat base + unat sz) rs (trg_minit H s0 base sz)"
    using init_pool_ok [OF assms(1,4)] by blast
  then have pool: "pool_ok (unat base) (unat base + unat sz) rs ?s"
    by (simp add: pool_ok_def fresh_refs_def)
  have pos: "0 < unat base"
    using assms(3) by (simp add: unat_gt_0)
  have init: "snd (DLTMM_init H s0 base sz) = ?s"
    using assms(2,3) by (simp add: DLTMM_init_def)
  obtain as s where r: "trg_run H (map Malloc reqs) ?s = Some (Inr (as, s))" "list_all2 aligned_to reqs as"
      "next_ref ?s \<le> next_ref s" "sorted_wrt disjoint_range (with_address (granted reqs as))"
      "\<forall>(a, n) \<in> set (granted reqs as). a = 0 \<and> refused H ?s s \<or> unat base \<le> a \<and> a + n \<le> unat base + unat sz \<and>
              (\<forall>y \<in> set (used_ranges (pkts (heap ?s) rs)). disjoint_range (a, n) y)"
    using trg_run_sound [OF pool pos assms(5), of H] by blast
  have next_le: "next_ref s0 \<le> next_ref ?s"
    by (simp add: trg_minit_def DLIF_malloc_def Let_def)
  have each: "\<forall>(a, n) \<in> set (granted reqs as). unat base \<le> a \<and> a + n \<le> unat base + unat sz \<or>
      a = 0 \<and> (\<exists>r. next_ref s0 \<le> r \<and> r < next_ref s \<and> \<not> malloc_ok H r)"
    using r(5) next_le by (fastforce simp: refused_def)
  have "sorted_wrt disjoint_range (granted reqs as)" if "\<forall>r. malloc_ok H r"
  proof -
    have "with_address (granted reqs as) = granted reqs as"
      using each that pos unfolding with_address_def by (intro filter_True) fastforce
    then show ?thesis
      using r(4) by simp
  qed
  then show ?thesis
    using r(1,2,4) each unfolding init with_address_def by blast
qed

theorem relocatable_blocks_disjoint_witness:
  "\<exists>as s. trg_run plain_host (map Malloc [ask 1 10, ask 8 5]) (snd (DLTMM_init plain_host empty_client 0x100 64)) =
            Some (Inr (as, s)) \<and>
     list_all2 aligned_to [ask 1 10, ask 8 5] as \<and> sorted_wrt disjoint_range (granted [ask 1 10, ask 8 5] as)"
proof -
  have h: "fresh_refs empty_client" "\<not> trg_minit_done empty_client" "(0x100 :: u32) \<noteq> 0" "unat (0x100 :: u32) + unat (64 :: u32) \<le> 2 ^ 32"
      "\<forall>r \<in> set [ask 1 10, ask 8 5]. relocatable r \<and> memsz_in_bytes r \<noteq> 0" "\<forall>r. malloc_ok plain_host r"
    by (simp_all add: empty_client_def fresh_refs_def ask_def plain_host_def)
  show ?thesis
    using relocatable_blocks_disjoint [OF h(1-5), of plain_host] h(6) by blast
qed

text \<open>The best-fit loop returns on every list that ends, and finds the smallest free packet that
  fits; it finds none exactly if no free packet fits.\<close>

theorem best_fit_smallest:
  assumes "chain (heap s) (trg_mem_head s) rs"
  shows "\<exists>best. best_fit_loop s sz al (trg_mem_head s) None = Some (Inr best) \<and>
           (case best of
              None \<Rightarrow> \<forall>r \<in> set rs. used_packet (the (heap s r)) \<or> \<not> fits sz al (the (heap s r))
            | Some (c, k) \<Rightarrow> c \<in> set rs \<and> heap s c = Some k \<and> \<not> used_packet k \<and> fits sz al k \<and>
                (\<forall>r \<in> set rs. \<not> used_packet (the (heap s r)) \<longrightarrow> fits sz al (the (heap s r)) \<longrightarrow>
                   packet_size k \<le> packet_size (the (heap s r))))"
proof -
  let ?best = "best_fit_in sz al (zip rs (pkts (heap s) rs))"
  have loop: "best_fit_loop s sz al (trg_mem_head s) None = Some (Inr ?best)"
    using best_fit_loop_fold [OF assms] by (simp add: best_fit_in_def)
  show ?thesis
  proof (cases ?best)
    case None
    then show ?thesis using loop best_fit_in_None [of sz al rs "heap s"] by (simp add: pkts_def)
  next
    case (Some ck)
    obtain c k where ck: "ck = (c, k)" by (cases ck)
    have f: "fold (\<lambda>rk best. better_fit sz al best rk) (zip rs (pkts (heap s) rs)) None = Some (c, k)"
      using Some by (simp add: best_fit_in_def ck)
    have "(c, k) \<in> (\<lambda>r. (r, the (heap s r))) ` set rs" "\<not> used_packet k" "fits sz al k"
      using best_fold_Some [OF f] by (simp_all add: set_zip_pkts)
    moreover from this have "heap s c = Some k"
      using chain_to_dom [OF assms [unfolded chain_chain_to]] by force
    moreover have "\<forall>r \<in> set rs. \<not> used_packet (the (heap s r)) \<longrightarrow> fits sz al (the (heap s r)) \<longrightarrow>
        packet_size k \<le> packet_size (the (heap s r))"
      using best_fold_min [OF f] by (simp add: set_zip_pkts)
    ultimately show ?thesis using loop Some by (auto simp: ck)
  qed
qed

theorem best_fit_smallest_witness:
  "\<exists>best. best_fit_loop small_pool 10 4 (trg_mem_head small_pool) None = Some (Inr best)"
proof -
  have "chain (heap small_pool) (trg_mem_head small_pool) [0]" by code_simp
  from best_fit_smallest [OF this, of 10 4] show ?thesis by blast
qed

text \<open>For an alignment that is a power of two, \<open>trg_align\<close> gives the least multiple of the alignment
  that is not below the address, if there is one.\<close>

theorem trg_align_least:
  assumes "k < 31" "unat x + 2 ^ k \<le> 2 ^ 32"
  shows "2 ^ k dvd unat (trg_align x (2 ^ k)) \<and> unat x \<le> unat (trg_align x (2 ^ k)) \<and>
         (\<forall>m. 2 ^ k dvd m \<longrightarrow> unat x \<le> m \<longrightarrow> unat (trg_align x (2 ^ k)) \<le> m)"
proof (cases "k = 0")
  case True then show ?thesis by (simp add: trg_align_def)
next
  case False
  let ?P = "2 ^ k :: nat"
  have le: "(1 :: u32) \<le> 2 ^ k" using assms(1) by (simp add: word_le_nat_alt unat_exp_u32)
  have p: "unat (2 ^ k - 1 :: u32) = ?P - 1"
    using assms(1) unat_sub [OF le] by (simp add: unat_exp_u32)
  have "unat (x + (2 ^ k - 1)) = unat x + (?P - 1)"
    using assms p by (simp add: unat_word_ariths)
  moreover have "(2::int) \<le> 2 ^ k" using False by (simp add: self_le_power)
  ultimately have a: "unat (trg_align x (2 ^ k)) = (unat x + (?P - 1)) div ?P * ?P"
    using sint_exp_u32 [OF assms(1)]
    by (simp add: trg_align_def mask_eq_exp_minus_1 [symmetric] and_not_mask_push unat_push_drop)
  let ?y = "unat x + (?P - 1)"
  have "?y = ?y div ?P * ?P + ?y mod ?P" by (simp only: div_mult_mod_eq)
  moreover have "?y mod ?P < ?P" by simp
  ultimately have "unat x \<le> ?y div ?P * ?P" by linarith
  moreover have "?y div ?P * ?P \<le> m" if d: "?P dvd m" and le: "unat x \<le> m" for m
  proof -
    obtain q where q: "m = ?P * q" using d by (rule dvdE)
    have "?y div ?P \<le> (?P * q + (?P - 1)) div ?P" using le by (intro div_le_mono) (simp add: q)
    also have "\<dots> = q" by (subst div_mult_self4) simp_all
    finally show ?thesis by (simp add: q mult.commute)
  qed
  ultimately show ?thesis unfolding a by simp
qed

theorem trg_align_least_witness:
  "2 ^ 3 dvd unat (trg_align 0x101 (2 ^ 3)) \<and> unat (0x101 :: u32) \<le> unat (trg_align 0x101 (2 ^ 3))"
  using trg_align_least [of 3 "0x101"] by simp

lemma small_pool_dll: "dll_ok 256 320 [0] [(256, 64, False)] small_pool"
  by (simp add: dll_ok_def links_def small_pool_def DLTMM_init_def trg_minit_def DLIF_malloc_def
      empty_client_def plain_host_def fresh_refs_def block_of_def)

lemma small_pool_live: "\<exists>s rs. dll_ok 256 320 rs [(256, 10, True), (266, 54, False)] s"
proof -
  have "dll_ok 256 320 [0] ([] @ [(256, 64, False)]) small_pool" using small_pool_dll by simp
  moreover have "trg_align (word_of_nat 256) 4 = word_of_nat 256" by (simp add: trg_align_def)
  ultimately show ?thesis
    using malloc_last_refines [of 256 320 "[0]" "[]" 256 64 small_pool plain_host 4 10]
    by (auto simp: plain_host_def)
qed

text \<open>Requests without alignment on a new pool split its last packet only, so the list stays of that kind.\<close>

lemma unaligned_malloc:
  assumes H: "\<forall>r. malloc_ok H r" and r: "relocatable r" "memsz_in_bytes r \<noteq> 0" "req_align r \<le> 1"
    and d: "dll_ok lo lim rs (us @ bs) s" "\<forall>(x, m, u) \<in> set us. u" "bs = [] \<or> (\<exists>a n. bs = [(a, n, False)])"
  obtains x s' rs' us' bs' where "DLTMM_malloc H r s = Some (Inr (x, s'))" "dll_ok lo lim rs' (us' @ bs') s'"
    "\<forall>(x, m, u) \<in> set us'. u" "bs' = [] \<or> (\<exists>a n. bs' = [(a, n, False)])"
    "live us' = live us @ (case x of None \<Rightarrow> [] | Some a \<Rightarrow> [(unat a, unat (memsz_in_bytes r))])"
proof (cases "\<exists>a n. bs = [(a, n, False)] \<and> unat (memsz_in_bytes r) \<le> n")
  have al: "(if req_align r \<noteq> 0 then req_align r else 1) = 1"
    using r(3) by (cases "req_align r = 0") (simp_all add: word_le_nat_alt word_unat_eq_iff le_Suc_eq)
  case True
  then obtain a n where bs: "bs = [(a, n, False)]" and le: "unat (memsz_in_bytes r) \<le> n"
    by blast
  have "trg_align x 1 = x" for x
    by (simp add: trg_align_def)
  then obtain s' rs' where m: "trg_malloc H (- 1) (memsz_in_bytes r) 1 s = Some (Inr (True, word_of_nat a, s'))"
      "dll_ok lo lim rs' (us @ (a, unat (memsz_in_bytes r), True) #
         (if unat (memsz_in_bytes r) < n then [(a + unat (memsz_in_bytes r), n - unat (memsz_in_bytes r), False)] else [])) s'"
    using malloc_last_refines [OF d(1) [unfolded bs] d(2) _ _ r(2) le, of H 1] H by auto
  have "a < 2 ^ 32"
    using d(1) by (auto simp: dll_ok_def bs tiles_append)
  then have a: "unat (word_of_nat a :: u32) = a"
    by (simp add: unat_of_nat)
  show thesis
    using m r(1) d(2) al a
    by (intro that [of "Some (word_of_nat a)" s' rs' "us @ [(a, unat (memsz_in_bytes r), True)]"])
      (auto simp: DLTMM_malloc_def)
next
  have al: "(if req_align r \<noteq> 0 then req_align r else 1) = 1"
    using r(3) by (cases "req_align r = 0") (simp_all add: word_le_nat_alt word_unat_eq_iff le_Suc_eq)
  case False
  have "used_packet k \<or> \<not> fits (memsz_in_bytes r) 1 k" if "k \<in> set (pkts (heap s) rs)" for k
  proof -
    have "map block_of (pkts (heap s) rs) = us @ bs"
      using d(1) by (simp add: dll_ok_def blocks_at_def)
    then have "block_of k \<in> set (us @ bs)"
      using that by (metis image_eqI list.set_map)
    then have "used_packet k \<or> (\<exists>a n. bs = [(a, n, False)] \<and> unat (packet_size k) = n)"
      using d(2,3) by (auto simp: block_of_def)
    then show ?thesis
      using False by (auto simp: fits_def trg_align_def word_le_nat_alt)
  qed
  then obtain a where "trg_malloc H (- 1) (memsz_in_bytes r) 1 s = Some (Inr (False, a, s))"
    using relocatable_malloc_step [OF dll_pool_ok [OF d(1)] r(2), of H 1] by auto
  then show thesis
    using r(1) d al by (intro that [of None s rs us bs]) (simp_all add: DLTMM_malloc_def)
qed

lemma unaligned_requests_dll:
  assumes H: "\<forall>r. malloc_ok H r" and reqs: "\<forall>r \<in> set reqs. relocatable r \<and> memsz_in_bytes r \<noteq> 0 \<and> req_align r \<le> 1"
  shows "dll_ok lo lim rs (us @ bs) s \<Longrightarrow> \<forall>(x, m, u) \<in> set us. u \<Longrightarrow> bs = [] \<or> (\<exists>a n. bs = [(a, n, False)]) \<Longrightarrow>
    \<exists>as s' rs' us' bs'. trg_run H (map Malloc reqs) s = Some (Inr (as, s')) \<and> dll_ok lo lim rs' (us' @ bs') s' \<and>
      coalesced (us' @ bs') \<and> live (us' @ bs') = live us @ granted reqs as"
  using reqs
proof (induction reqs arbitrary: rs us bs s)
  case Nil
  have "coalesced (us @ bs)"
    using Nil.prems(2,3)
  proof (induction us)
    case (Cons b us)
    then show ?case
      by (cases b) (auto simp: coalesced_Cons)
  qed auto
  then show ?case
    using Nil.prems by (intro exI [of _ "[]"] exI [of _ s] exI [of _ rs] exI [of _ us] exI [of _ bs]) auto
next
  case (Cons r reqs)
  have r: "relocatable r" "memsz_in_bytes r \<noteq> 0" "req_align r \<le> 1"
    using Cons.prems(4) by simp_all
  obtain x s1 rs1 us1 bs1 where m: "DLTMM_malloc H r s = Some (Inr (x, s1))" "dll_ok lo lim rs1 (us1 @ bs1) s1"
    "\<forall>(x, m, u) \<in> set us1. u" "bs1 = [] \<or> (\<exists>a n. bs1 = [(a, n, False)])"
    "live us1 = live us @ (case x of None \<Rightarrow> [] | Some a \<Rightarrow> [(unat a, unat (memsz_in_bytes r))])"
    by (rule unaligned_malloc [OF H r Cons.prems(1-3)])
  obtain as s' rs' us' bs' where "trg_run H (map Malloc reqs) s1 = Some (Inr (as, s'))" "dll_ok lo lim rs' (us' @ bs') s'"
      "coalesced (us' @ bs')" "live (us' @ bs') = live us1 @ granted reqs as"
    using Cons.IH [OF m(2-4)] Cons.prems(4) by auto
  then show ?case
    using m(1,5) by (intro exI [of _ "x # as"] exI [of _ s'] exI [of _ rs'] exI [of _ us'] exI [of _ bs'])
      (auto split: option.splits)
qed

text \<open>C29: On a packet list whose links agree in both directions and that covers the pool, which holds for a run of requests
  without alignment on a new pool (\<open>unaligned_requests_dll\<close>) and is kept by every free, \<open>DLTMM_free\<close> of an address inside a live block returns; it frees exactly that block and merges it with its
  free neighbours: the links agree and the list covers the pool again, the other live blocks are unchanged, and no two free blocks are
  adjacent if none were.\<close>

theorem DLTMM_free_block:
  assumes "dll_ok lo lim rs (us @ (a, n, True) # vs) s" "a \<le> unat ptr" "unat ptr < a + n"
  shows "\<exists>s' rs' bs'. DLTMM_free ptr s = Some (Inr s') \<and> dll_ok lo lim rs' bs' s' \<and>
           bs' = release us a n vs \<and> live bs' = live us @ live vs \<and> (coalesced (us @ (a, n, True) # vs) \<longrightarrow> coalesced bs')"
  using DLTMM_free_refines [OF assms] release_live release_coalesced by blast

text \<open>An allocation from the last block of a pool whose other blocks are in use gives the block's
  address; freeing the address restores the list of blocks.\<close>

theorem malloc_free_roundtrip:
  assumes "dll_ok lo lim rs (us @ [(a, n, False)]) s" "\<forall>(x, m, u) \<in> set us. u"
    and "malloc_ok H (next_ref s)" "trg_align (word_of_nat a) al = word_of_nat a" "sz \<noteq> 0" "unat sz \<le> n"
  shows "\<exists>s1 s2 rs2. trg_malloc H (- 1) sz al s = Some (Inr (True, word_of_nat a, s1)) \<and>
           DLTMM_free (word_of_nat a) s1 = Some (Inr s2) \<and> dll_ok lo lim rs2 (us @ [(a, n, False)]) s2"
proof -
  let ?vs = "if unat sz < n then [(a + unat sz, n - unat sz, False)] else []"
  obtain s1 rs1 where m: "trg_malloc H (- 1) sz al s = Some (Inr (True, word_of_nat a, s1))"
      "dll_ok lo lim rs1 (us @ (a, unat sz, True) # ?vs) s1"
    using malloc_last_refines [OF assms] by blast
  have "a < 2 ^ 32" using assms(1) by (auto simp: dll_ok_def tiles_append)
  then have a: "unat (word_of_nat a :: u32) = a" by (simp add: unat_of_nat)
  have "a \<le> unat (word_of_nat a :: u32)" "unat (word_of_nat a :: u32) < a + unat sz"
    using assms(5) a by (simp_all add: unat_gt_0)
  then obtain s2 rs2 where "DLTMM_free (word_of_nat a) s1 = Some (Inr s2)"
      "dll_ok lo lim rs2 (release us a (unat sz) ?vs) s2"
    using DLTMM_free_refines [OF m(2)] by blast
  moreover have "release us a (unat sz) ?vs = us @ [(a, n, False)]"
    using assms(2,6) by (cases us rule: block_list_cases) (auto simp: release_def merge_prev_def merge_next_def)
  ultimately show ?thesis using m(1) by auto
qed

theorem malloc_free_roundtrip_witness:
  "\<exists>s1 s2 rs2. trg_malloc plain_host (- 1) 10 4 small_pool = Some (Inr (True, word_of_nat 256, s1)) \<and>
     DLTMM_free (word_of_nat 256) s1 = Some (Inr s2) \<and> dll_ok 256 320 rs2 ([] @ [(256, 64, False)]) s2"
  by (rule malloc_free_roundtrip [where rs = "[0]"])
     (use small_pool_dll in \<open>simp_all add: plain_host_def trg_align_def\<close>)

theorem DLTMM_free_block_witness:
  "\<exists>s s' rs' bs'. DLTMM_free 0x102 s = Some (Inr s') \<and> dll_ok 256 320 rs' bs' s' \<and>
     bs' = release [] 256 10 [(266, 54, False)] \<and> live bs' = live [] @ live [(266, 54, False)] \<and> coalesced bs'"
proof -
  obtain s rs where "dll_ok 256 320 rs ([] @ (256, 10, True) # [(266, 54, False)]) s"
    using small_pool_live by auto
  from DLTMM_free_block [OF this, of "0x102"] show ?thesis by auto
qed

text \<open>Once every live block has been freed, each once and in any order, the pool is one free block.\<close>

theorem all_freed_one_block:
  assumes "dll_ok lo lim rs bs s" "coalesced bs" "mset (map unat ps) = mset (map fst (live bs))" "lo < lim"
  shows "\<exists>s' rs'. free_all DLTMM_free ps s = Some (Inr s') \<and> dll_ok lo lim rs' [(lo, lim - lo, False)] s'"
  using target_pool.free_everything [of lo lim bs s ps] assms by auto

theorem all_freed_one_block_witness:
  "\<exists>s s' rs'. free_all DLTMM_free [0x100] s = Some (Inr s') \<and> dll_ok 256 320 rs' [(256, 320 - 256, False)] s'"
proof -
  obtain s rs where "dll_ok 256 320 rs [(256, 10, True), (266, 54, False)] s"
    using small_pool_live by blast
  from all_freed_one_block [OF this, of "[0x100]"] show ?thesis by auto
qed

text \<open>The splits do not relink the neighbour of the split packet. After the seven calls below the block of 5
  bytes at 0x105 is still live, and the next request is given the 12 bytes at 0x100, which contain it.\<close>

theorem stale_link_overlap:
  "map_option (map_sum id fst) (trg_run plain_host
     [Malloc (ask 1 10), Malloc (ask 1 10), Free 0x100, Malloc (ask 1 5), Malloc (ask 1 5), Free 0x100,
      Free 0x10A, Malloc (ask 1 12)] small_pool) =
   Some (Inr [Some 0x100, Some 0x10A, None, Some 0x100, Some 0x105, None, None, Some 0x100])"
  by code_simp

text \<open>A request for a fixed address is served from the first packet whose range contains the address, used
  or not: an aligned address inside a live block that is large enough for the request, and with no need of new packets, is granted.\<close>

theorem fixed_address_granted_twice:
  assumes c: "heap s h = Some k" "trg_mem_head s = Some h" and u: "used_packet k"
    and r: "req = packet_addr k" "sz = packet_size k" "sz \<noteq> 0" "req \<noteq> - 1" "req < req + sz"
    and al: "trg_align req al = req"
  shows "\<exists>s'. trg_malloc H req sz al s = Some (Inr (True, req, s'))"
proof -
  let ?s = "s \<lparr> heap := (heap s)(h \<mapsto> k \<lparr> packet_size := sz, used_packet := True \<rparr>) \<rparr>"
  have "trg_alloc_pkt H h sz al req s = Inr (req, ?s)"
    using c r al by (simp add: trg_alloc_pkt_def alloc_split_front_def alloc_pad_def alloc_split_back_def
      get_pkt_def upd_pkt_def)
  then have "fixed_addr_loop H s req sz al (trg_mem_head s) = Some (Inr (True, ?s))"
    using c r al by (subst fixed_addr_loop.simps) (auto dest: leD)
  then show ?thesis using r by (simp add: trg_malloc_def)
qed

theorem fixed_address_granted_twice_witness:
  "\<exists>s k. heap s 0 = Some k \<and> used_packet k \<and> (\<exists>s'. trg_malloc plain_host 0x100 10 1 s = Some (Inr (True, 0x100, s')))"
proof -
  let ?k = "\<lparr> packet_addr = 0x100, packet_size = 10, prev_packet = None, next_packet = None, used_packet = True \<rparr>"
  let ?s = "empty_client \<lparr> heap := [0 \<mapsto> ?k], trg_mem_head := Some 0 \<rparr>"
  have "\<exists>s'. trg_malloc plain_host 0x100 10 1 ?s = Some (Inr (True, 0x100, s'))"
    by (rule fixed_address_granted_twice [where h = 0 and k = ?k]) (simp_all add: trg_align_def)
  then show ?thesis by (intro exI [of _ ?s] exI [of _ ?k]) simp
qed

text \<open>When the host has no memory for the packet that a best-fit allocation needs, the call reports
  success, with address 0.\<close>

theorem host_out_of_memory_succeeds:
  assumes p: "pool_ok lo lim rs s" and sz: "sz \<noteq> 0"
    and fit: "r \<in> set rs" "\<not> used_packet (the (heap s r))" "fits sz al (the (heap s r))"
    and none: "\<forall>n. \<not> malloc_ok H n"
    and big: "\<forall>r \<in> set rs. trg_align (packet_addr (the (heap s r))) al = packet_addr (the (heap s r)) \<longrightarrow>
                 sz \<noteq> packet_size (the (heap s r))"
  shows "\<exists>s'. trg_malloc H (- 1) sz al s = Some (Inr (True, 0, s'))"
proof -
  have "best_fit_in sz al (zip rs (pkts (heap s) rs)) \<noteq> None"
    unfolding best_fit_in_None using fit by (auto simp: pkts_def)
  then obtain b k where best: "best_fit_in sz al (zip rs (pkts (heap s) rs)) = Some (b, k)" by auto
  note bf = best_fit_found [OF p best]
  have "b \<in> set rs" using bf(1) by auto
  then have ne: "trg_align (packet_addr k) al = packet_addr k \<Longrightarrow> sz \<noteq> packet_size k" using big bf(2) by force
  have le: "trg_align (packet_addr k) al = packet_addr k \<Longrightarrow> sz < packet_size k"
    using bf(4) ne by (simp add: fits_def order_less_le)
  have "\<exists>s'. trg_alloc_pkt H b sz al (packet_addr k) s = Inr (0, s')"
  proof (cases "trg_align (packet_addr k) al = packet_addr k")
    case True
    then show ?thesis using bf(2) le none
      by (simp add: trg_alloc_pkt_def alloc_split_front_def alloc_pad_def alloc_split_back_def get_pkt_def
          upd_pkt_def DLIF_malloc_def Let_def)
  next
    case False
    then show ?thesis using bf(2) none
      by (simp add: trg_alloc_pkt_def alloc_split_front_def alloc_pad_def get_pkt_def DLIF_malloc_def Let_def)
  qed
  then show ?thesis using relocatable_malloc_run [OF p sz, of H al] best by auto
qed

theorem host_out_of_memory_succeeds_witness:
  "\<exists>s'. trg_malloc (plain_host \<lparr> malloc_ok := \<lambda>_. False \<rparr>) (- 1) 10 1 small_pool = Some (Inr (True, 0, s'))"
  by (rule host_out_of_memory_succeeds [OF dll_pool_ok [OF small_pool_dll], where r = 0])
     (simp_all add: small_pool_def DLTMM_init_def trg_minit_def DLIF_malloc_def empty_client_def
        plain_host_def fits_def trg_align_def)

end
