(* ===== verification/Arm_Groups.thy ===== *)
theory Arm_Groups
  imports Arm_Types
begin

text \<open>
  The group relocations of \<open>elfload/arm_reloc.c\<close>: how \<open>rel_mask_for_group\<close> cuts a value into pieces for a sequence of
  instructions.
\<close>

section \<open>The highest bit and the mask\<close>

lemma tests_bit:
  assumes "k < 32" shows "r AND shl 1 k \<noteq> 0 \<longleftrightarrow> bit r k"
proof
  assume "r AND shl 1 k \<noteq> 0"
  then show "bit r k" unfolding shl_def and_push_bit_1 by (simp split: if_splits)
next
  assume "bit r k"
  then have "bit (r AND shl 1 k) k" using assms by (simp add: bit_and_iff bit_shl)
  then show "r AND shl 1 k \<noteq> 0" by auto
qed

lemma highest_bit_from_ge: "7 \<le> k \<Longrightarrow> 7 \<le> highest_bit_from k r"
  by (induction k r rule: highest_bit_from.induct) (subst highest_bit_from.simps, auto)

lemma highest_bit_from_le: "highest_bit_from k r \<le> k"
proof (induction k r rule: highest_bit_from.induct)
  case (1 k r)
  then show ?case by (subst highest_bit_from.simps) (auto intro: le_trans)
qed

lemma above_highest_bit:
  "k \<le> 31 \<Longrightarrow> highest_bit_from k r < n \<Longrightarrow> n \<le> k \<Longrightarrow> \<not> bit r n"
proof (induction k r rule: highest_bit_from.induct)
  case (1 k r)
  show ?case
  proof (cases "k \<le> 7 \<or> r AND shl 1 k \<noteq> 0")
    case True
    then have "highest_bit_from k r = k"
      by (subst highest_bit_from.simps) auto
    with "1.prems" show ?thesis by simp
  next
    case False
    then have step: "highest_bit_from k r = highest_bit_from (k - 1) r"
      by (subst highest_bit_from.simps) simp
    show ?thesis
    proof (cases "n = k")
      case True
      with False "1.prems" tests_bit [of k r] show ?thesis by auto
    next
      case False
      with "1.IH" "1.prems" step \<open>\<not> (k \<le> 7 \<or> r AND shl 1 k \<noteq> 0)\<close> show ?thesis by auto
    qed
  qed
qed

lemma highest_bit_set: "7 \<le> k \<Longrightarrow> k \<le> 31 \<Longrightarrow> highest_bit_from k r = 7 \<or> bit r (highest_bit_from k r)"
proof (induction k r rule: highest_bit_from.induct)
  case (1 k r)
  show ?case
  proof (cases "k \<le> 7 \<or> r AND shl 1 k \<noteq> 0")
    case True
    then have "highest_bit_from k r = k"
      by (subst highest_bit_from.simps) auto
    with "1.prems" True tests_bit [of k r] show ?thesis by auto
  next
    case False
    then have "highest_bit_from k r = highest_bit_from (k - 1) r"
      by (subst highest_bit_from.simps) simp
    with False "1.IH" "1.prems" show ?thesis by auto
  qed
qed

text \<open>The offset of the mask, as a table of the highest bit.\<close>

lemma mask_offset_table:
  assumes "7 \<le> h" "h \<le> (31 :: nat)"
  defines "k \<equiv> if (h - 7) AND 2 \<noteq> 0 then (h - 7) + (2 - (h - 7) mod 2) else h - 7"
  shows "h - 7 \<le> k \<and> k \<le> h \<and> k \<le> 24 \<and> (h \<le> 23 \<longrightarrow> k \<le> 16)"
proof -
  have "list_all (\<lambda>h::nat. let k = (if (h - 7) AND 2 \<noteq> 0 then (h - 7) + (2 - (h - 7) mod 2) else h - 7)
      in h - 7 \<le> k \<and> k \<le> h \<and> k \<le> 24 \<and> (h \<le> 23 \<longrightarrow> k \<le> 16)) [7..<32]"
    by code_simp
  moreover have "h \<in> set [7..<32]"
    unfolding set_upt atLeastLessThan_iff using assms(1,2) by linarith
  ultimately show ?thesis
    unfolding k_def list_all_iff Let_def by (rule bspec)
qed

lemma mask_offset_bounds:
  defines "h r \<equiv> highest_bit_from 31 r"
  shows "h r - 7 \<le> rel_alu_mask_offset r 2" "rel_alu_mask_offset r 2 \<le> h r"
    "rel_alu_mask_offset r 2 \<le> 24" "h r \<le> 23 \<Longrightarrow> rel_alu_mask_offset r 2 \<le> 16"
proof -
  have "7 \<le> h r" "h r \<le> 31"
    unfolding h_def by (simp_all add: highest_bit_from_ge highest_bit_from_le)
  note table = mask_offset_table [OF this]
  have "rel_alu_mask_offset r 2 = (if (h r - 7) AND 2 \<noteq> 0 then (h r - 7) + (2 - (h r - 7) mod 2) else h r - 7)"
    unfolding rel_alu_mask_offset_def Let_def h_def by simp
  note table [folded this]
  then show "h r - 7 \<le> rel_alu_mask_offset r 2" "rel_alu_mask_offset r 2 \<le> h r"
    "rel_alu_mask_offset r 2 \<le> 24" "h r \<le> 23 \<Longrightarrow> rel_alu_mask_offset r 2 \<le> 16"
    by simp_all
qed

lemma bit_low_byte: "bit (0xFF :: u32) n \<longleftrightarrow> n < 8"
proof -
  have "(0xFF :: u32) = mask 8" by (simp add: mask_eq_exp_minus_1)
  then show ?thesis by (simp only: bit_mask_iff) auto
qed

text \<open>The mask takes the highest bits away: the residual lies below it.\<close>

lemma residual_below:
  assumes "rel_alu_mask_offset r 2 \<le> n" "n < 32"
  shows "\<not> bit (r AND NOT (shl 0xFF (rel_alu_mask_offset r 2))) n"
proof (cases "n < rel_alu_mask_offset r 2 + 8")
  case True
  have "bit (0xFF :: u32) (n - rel_alu_mask_offset r 2)"
    using True assms unfolding bit_low_byte by linarith
  then show ?thesis using assms by (simp add: bit_and_iff bit_not_iff bit_shl)
next
  case False
  then have "highest_bit_from 31 r < n" using mask_offset_bounds(1) [of r] by linarith
  then have "\<not> bit r n" using assms by (intro above_highest_bit [of 31]) linarith+
  then show ?thesis by (simp add: bit_and_iff)
qed


lemma offset_of_low:
  assumes "\<And>n. 24 \<le> n \<Longrightarrow> n < 32 \<Longrightarrow> \<not> bit r n"
  shows "rel_alu_mask_offset r 2 \<le> 16"
proof (rule mask_offset_bounds(4), rule ccontr)
  assume "\<not> highest_bit_from 31 r \<le> 23"
  then show False
    using highest_bit_set [of 31 r] highest_bit_from_le [of 31 r] assms [of "highest_bit_from 31 r"] by auto
qed

lemma unat_below:
  fixes r :: u32
  assumes "\<And>n. k \<le> n \<Longrightarrow> n < 32 \<Longrightarrow> \<not> bit r n"
  shows "unat r < 2 ^ k"
proof -
  have "take_bit k r = r"
  proof (rule bit_word_eqI)
    fix n assume "n < LENGTH(32)"
    then show "bit (take_bit k r) n = bit r n"
      using assms [of n] by (cases "n < k") (auto simp: bit_take_bit_iff)
  qed
  then have "unat r = take_bit k (unat r)" by (metis unsigned_take_bit_eq)
  then show ?thesis by (metis take_bit_nat_less_exp)
qed

lemma rel_mask_simps:
  "rel_mask_for_group R_ARM_ALU_PC_G0_NC v = v AND shl 0xFF (rel_alu_mask_offset v 2)"
  "rel_mask_for_group R_ARM_ALU_PC_G1_NC v =
     (let r = v AND NOT (shl 0xFF (rel_alu_mask_offset v 2)) in r AND shl 0xFF (rel_alu_mask_offset r 2))"
  "rel_mask_for_group R_ARM_LDR_PC_G0 v = v"
  "rel_mask_for_group R_ARM_LDR_PC_G1 v = v AND NOT (shl 0xFF (rel_alu_mask_offset v 2))"
  "rel_mask_for_group R_ARM_LDR_PC_G2 v =
     (let r = v AND NOT (shl 0xFF (rel_alu_mask_offset v 2)) in r AND NOT (shl 0xFF (rel_alu_mask_offset r 2)))"
  by (simp_all add: rel_mask_for_group_def rel_group_num_def rel_concludes_group_def numeral_2_eq_2 Let_def)

section \<open>The pieces\<close>

text \<open>A value that is spread over a sequence of instructions by group relocations is cut into disjoint pieces that
  together give it back: the pieces of the groups 0 and 1 and what remains for a load of group 2. After one
  piece the rest is below $2^{24}$, after two below $2^{16}$.\<close>

theorem group_masks_partition:
  "rel_mask_for_group R_ARM_ALU_PC_G0_NC v OR rel_mask_for_group R_ARM_ALU_PC_G1_NC v OR rel_mask_for_group R_ARM_LDR_PC_G2 v = v \<and>
   rel_mask_for_group R_ARM_ALU_PC_G0_NC v AND rel_mask_for_group R_ARM_ALU_PC_G1_NC v = 0 \<and>
   rel_mask_for_group R_ARM_ALU_PC_G0_NC v AND rel_mask_for_group R_ARM_LDR_PC_G2 v = 0 \<and>
   rel_mask_for_group R_ARM_ALU_PC_G1_NC v AND rel_mask_for_group R_ARM_LDR_PC_G2 v = 0 \<and>
   rel_mask_for_group R_ARM_ALU_PC_G1_NC v OR rel_mask_for_group R_ARM_LDR_PC_G2 v = rel_mask_for_group R_ARM_LDR_PC_G1 v \<and>
   unat (rel_mask_for_group R_ARM_LDR_PC_G1 v) < 2 ^ 24 \<and> unat (rel_mask_for_group R_ARM_LDR_PC_G2 v) < 2 ^ 16"
proof -
  define M where "M = shl 0xFF (rel_alu_mask_offset v 2)"
  define r where "r = v AND NOT M"
  define N where "N = shl 0xFF (rel_alu_mask_offset r 2)"
  have split: "x AND K OR x AND NOT K = x" "(x AND K) AND (x AND NOT K) = 0" for x K :: u32
    by (rule bit_word_eqI, auto simp: bit_simps)+
  have parts: "(v AND M) AND (r AND N) = 0" "(v AND M) AND (r AND NOT N) = 0"
    unfolding r_def by (rule bit_word_eqI, auto simp: bit_simps)+
  have r_top: "\<not> bit r n" if "24 \<le> n" "n < 32" for n
    using that residual_below [of v n] mask_offset_bounds(3) [of v] by (simp add: r_def M_def)
  then have "rel_alu_mask_offset r 2 \<le> 16" by (rule offset_of_low)
  then have "unat (r AND NOT N) < 2 ^ 16"
    using residual_below [of r] unfolding N_def by (intro unat_below) (meson le_trans)
  moreover have "unat r < 2 ^ 24"
    using r_top by (rule unat_below)
  ultimately show ?thesis
    using split [of r N] split [of v M] parts
    unfolding rel_mask_simps Let_def M_def [symmetric] r_def [symmetric] N_def [symmetric] by simp
qed

end
