(* ===== verification/Footprint.thy ===== *)
theory Footprint
  imports Relocate
begin

text \<open>
  Where the relocators write: an operation on the memory stays within a set of addresses if it changes no other
  byte and what it stores there depends on no other byte. Such operations compose, and two that stay
  within disjoint sets commute. A relocation field, as the tables of relocations rely on it, is stated as a locale.
\<close>

section \<open>Operations with a footprint\<close>

definition acts_within :: "u32 set \<Rightarrow> (mem \<Rightarrow> mem) \<Rightarrow> bool" where
  "acts_within C f \<longleftrightarrow> (\<forall>m b. b \<notin> C \<longrightarrow> f m b = m b) \<and>
     (\<forall>m m'. (\<forall>b\<in>C. m b = m' b) \<longrightarrow> (\<forall>b\<in>C. f m b = f m' b))"

named_theorems within_intros

lemma acts_within_frame: "acts_within C f \<Longrightarrow> b \<notin> C \<Longrightarrow> f m b = m b"
  by (simp add: acts_within_def)

lemma acts_within_local: "acts_within C f \<Longrightarrow> \<forall>b\<in>C. m b = m' b \<Longrightarrow> b \<in> C \<Longrightarrow> f m b = f m' b"
  by (simp add: acts_within_def)

lemma acts_within_id [within_intros]: "acts_within C (\<lambda>m. m)"
  by (simp add: acts_within_def)

lemma acts_within_comp:
  assumes "acts_within C f" "acts_within C g"
  shows "acts_within C (\<lambda>m. f (g m))"
  using assms by (simp add: acts_within_def)

lemma acts_within_if [within_intros]:
  "acts_within C f \<Longrightarrow> acts_within C g \<Longrightarrow> acts_within C (\<lambda>m. if c then f m else g m)"
  by (cases c) simp_all

lemma acts_within_mono:
  assumes f: "acts_within C f" and "C \<subseteq> D"
  shows "acts_within D f"
  unfolding acts_within_def
proof (intro conjI allI impI ballI)
  show "f m b = m b" if "b \<notin> D" for m b
    using that assms by (auto intro: acts_within_frame)
  show "f m b = f m' b" if agree: "\<forall>b\<in>D. m b = m' b" and "b \<in> D" for m m' b
  proof (cases "b \<in> C")
    case True
    with agree \<open>C \<subseteq> D\<close> show ?thesis by (intro acts_within_local [OF f]) auto
  next
    case False
    then show ?thesis using agree \<open>b \<in> D\<close> by (simp add: acts_within_frame [OF f])
  qed
qed

lemma acts_within_commute:
  assumes f: "acts_within C f" and g: "acts_within D g" and disj: "C \<inter> D = {}"
  shows "f (g m) = g (f m)"
proof
  fix b
  consider "b \<in> C" | "b \<in> D" | "b \<notin> C" "b \<notin> D" by blast
  then show "f (g m) b = g (f m) b"
  proof cases
    case 1
    have "f (g m) b = f m b"
      using 1 disj by (intro acts_within_local [OF f]) (auto intro: acts_within_frame [OF g])
    moreover have "g (f m) b = f m b"
      using 1 disj by (intro acts_within_frame [OF g]) auto
    ultimately show ?thesis by simp
  next
    case 2
    have "g (f m) b = g m b"
      using 2 disj by (intro acts_within_local [OF g]) (auto intro: acts_within_frame [OF f])
    moreover have "f (g m) b = g m b"
      using 2 disj by (intro acts_within_frame [OF f]) auto
    ultimately show ?thesis by simp
  next
    case 3
    then show ?thesis by (simp add: acts_within_frame [OF f] acts_within_frame [OF g])
  qed
qed

section \<open>Cells\<close>

lemma read8_local: "\<forall>b\<in>cells a 1. m b = m' b \<Longrightarrow> read8 m a = read8 m' a"
  by (simp add: read8_def cells_def)

lemma read16_local: "\<forall>b\<in>cells a 2. m b = m' b \<Longrightarrow> read16 m a = read16 m' a"
  by (simp add: read16_def cells_2)

lemma read32_local: "\<forall>b\<in>cells a 4. m b = m' b \<Longrightarrow> read32 m a = read32 m' a"
  by (simp add: read32_def read16_def cells_4 add.assoc)

lemma cells_high_half: "cells (a + 2) 2 \<subseteq> cells a 4"
  by (auto simp: cells_2 cells_4 add.assoc)

lemma cells_low_half: "cells a 2 \<subseteq> cells a 4"
  by (auto simp: cells_2 cells_4)

lemma write8_within [within_intros]: "acts_within (cells a 1) (write8 a v)"
  by (auto simp: acts_within_def write8_def cells_def)

lemma upd16_within [within_intros]: "acts_within (cells a 2) (upd16 a f)"
  unfolding acts_within_def
proof (intro conjI allI impI ballI)
  show "upd16 a f m b = m b" if "b \<notin> cells a 2" for m b
    using that by (simp add: upd16_def write16_frame)
  show "upd16 a f m b = upd16 a f m' b" if "\<forall>b\<in>cells a 2. m b = m' b" "b \<in> cells a 2" for m m' b
  proof -
    have "read16 m a = read16 m' a" using that by (simp add: read16_local)
    with that show ?thesis
      by (auto simp: upd16_def cells_2 write16_def)
  qed
qed

lemma upd32_within [within_intros]: "acts_within (cells a 4) (upd32 a f)"
  unfolding acts_within_def
proof (intro conjI allI impI ballI)
  show "upd32 a f m b = m b" if "b \<notin> cells a 4" for m b
    using that by (simp add: upd32_def write32_frame)
  show "upd32 a f m b = upd32 a f m' b" if "\<forall>b\<in>cells a 4. m b = m' b" "b \<in> cells a 4" for m m' b
  proof -
    have "read32 m a = read32 m' a" using that by (simp add: read32_local)
    with that show ?thesis
      by (auto simp: upd32_def cells_4 write32_def write16_def)
  qed
qed

lemma write16_as_upd: "write16 a v = upd16 a (\<lambda>_. v)"
  by (simp add: upd16_def fun_eq_iff)

lemma write32_as_upd: "write32 a v = upd32 a (\<lambda>_. v)"
  by (simp add: upd32_def fun_eq_iff)

lemma change_endian16_as_upd: "change_endian16_at a = upd16 a DLIMP_change_endian16"
  by (simp add: upd16_def change_endian16_at_def fun_eq_iff)

lemma change_endian32_as_upd: "change_endian32_at a = upd32 a DLIMP_change_endian32"
  by (simp add: upd32_def change_endian32_at_def fun_eq_iff)

lemmas cell_updates = write16_as_upd write32_as_upd change_endian16_as_upd change_endian32_as_upd

lemma upd16_within_4 [within_intros]:
  "acts_within (cells a 4) (upd16 a f)" "acts_within (cells a 4) (upd16 (a + 2) f)"
  by (rule acts_within_mono [OF upd16_within]; simp add: cells_low_half cells_high_half)+

text \<open>A sequence of updates of cells; general composition as an introduction rule would apply to everything.\<close>

lemma upd_seq_within [within_intros]:
  "acts_within (cells a 2) f \<Longrightarrow> acts_within (cells a 2) (\<lambda>m. upd16 a h (f m))"
  "acts_within (cells a 4) f \<Longrightarrow> acts_within (cells a 4) (\<lambda>m. upd16 a h (f m))"
  "acts_within (cells a 4) f \<Longrightarrow> acts_within (cells a 4) (\<lambda>m. upd16 (a + 2) h (f m))"
  "acts_within (cells a 4) f \<Longrightarrow> acts_within (cells a 4) (\<lambda>m. upd32 a k (f m))"
  by (rule acts_within_comp, rule within_intros, assumption)+

section \<open>Relocation fields\<close>

text \<open>
  What a relocated field promises: \<open>wr a v\<close> puts the value \<open>v\<close> in the field at address \<open>a\<close>, \<open>rd a\<close> reads it,
  \<open>fits\<close> are the values that the field can hold, and the field lies in \<open>width\<close> bytes. Writing stays within these bytes
  and reading depends on nothing else. \<open>site\<close> says that the bytes there are an instruction of the expected kind.
\<close>

locale relocation_field =
  fixes wr :: "u32 \<Rightarrow> u32 \<Rightarrow> mem \<Rightarrow> mem"
    and rd :: "u32 \<Rightarrow> mem \<Rightarrow> u32"
    and fits :: "u32 \<Rightarrow> bool"
    and site :: "u32 \<Rightarrow> mem \<Rightarrow> bool"
    and width :: nat
  assumes rd_wr: "fits v \<Longrightarrow> site a m \<Longrightarrow> rd a (wr a v m) = v"
    and site_wr: "site a m \<Longrightarrow> site a (wr a v m)"
    and wr_within: "acts_within (cells a width) (wr a v)"
    and rd_local: "\<forall>b\<in>cells a width. m b = m' b \<Longrightarrow> rd a m = rd a m'"
    and site_local: "\<forall>b\<in>cells a width. m b = m' b \<Longrightarrow> site a m \<Longrightarrow> site a m'"
begin

lemma unchanged_elsewhere:
  assumes "acts_within C f" "cells a width \<inter> C = {}"
  shows "\<forall>b\<in>cells a width. f m b = m b"
proof
  fix b assume "b \<in> cells a width"
  with assms(2) have "b \<notin> C" by blast
  with assms(1) show "f m b = m b" by (rule acts_within_frame)
qed

lemma rd_elsewhere:
  assumes "acts_within C f" "cells a width \<inter> C = {}"
  shows "rd a (f m) = rd a m"
  by (rule rd_local) (rule unchanged_elsewhere [OF assms])

lemma site_elsewhere:
  assumes "acts_within C f" "cells a width \<inter> C = {}" "site a m"
  shows "site a (f m)"
proof (rule site_local [OF _ assms(3)])
  show "\<forall>b\<in>cells a width. m b = f m b"
    using unchanged_elsewhere [OF assms(1,2), of m] by simp
qed

text \<open>A relocated field keeps its value whatever is done elsewhere, before and after.\<close>

lemma rd_between:
  assumes "fits v" "site a m" and f: "acts_within C f" "cells a width \<inter> C = {}"
    and g: "acts_within D g" "cells a width \<inter> D = {}"
  shows "rd a (f (wr a v (g m))) = v"
  by (simp only: rd_elsewhere [OF f] rd_wr [OF assms(1) site_elsewhere [OF g assms(2)]])

text \<open>A value that is moved again: the addend read from the field is what the first relocation put there.\<close>

lemma rd_move:
  assumes "fits v" "fits (v + d)" "site a m"
  shows "rd a (wr a (rd a (wr a v m) + d) (wr a v m)) = v + d"
  using assms by (simp add: rd_wr site_wr)

lemma wr_inj:
  assumes "fits u" "fits v" "site a m" "wr a u m = wr a v m"
  shows "u = v"
  using assms rd_wr by metis

lemma wr_commute:
  assumes "acts_within C f" "cells a width \<inter> C = {}"
  shows "f (wr a v m) = wr a v (f m)"
  using acts_within_commute [OF wr_within assms] by simp

end

end
