(* ===== verification/Arm_Codec.thy ===== *)
theory Arm_Codec
  imports Arm_Reloc Footprint
begin

text \<open>
  The bits of the ARM and Thumb relocation fields: what the macros of \<open>elfload/arm_reloc.c\<close> select, and that a value
  that \<open>write_reloc_r\<close> has put into a field is the one that \<open>rel_unpack_addend\<close> takes out of it, one lemma for each
  format.
\<close>

section \<open>Bits of the macros\<close>

lemma SIGN_EXTEND_eq: "SIGN_EXTEND x k = x OR (if bit x (k - 1) then NOT (mask (k - 1)) else 0)"
  unfolding SIGN_EXTEND_def shl_def and_push_bit_1 if_distrib [of uminus] uminus_push_bit_1 minus_zero ..

lemma bit_SIGN_EXTEND:
  "n < 32 \<Longrightarrow> bit (SIGN_EXTEND x k) n \<longleftrightarrow> bit x n \<or> (bit x (k - 1) \<and> k - 1 \<le> n)"
  by (simp add: SIGN_EXTEND_eq bit_or_iff bit_not_iff bit_mask_iff not_less)

lemma bit_EXTRACT: "bit (EXTRACT x k l) n \<longleftrightarrow> bit x (k + n) \<and> n < l"
proof -
  have "shl 1 l - 1 = (mask l :: u32)"
    by (simp add: shl_def mask_eq_exp_minus_1 push_bit_eq_mult)
  then show ?thesis
    by (auto simp: EXTRACT_def bit_tools bit_mask_iff dest: bit_imp_le_length)
qed

lemma bit_c_bool: "bit (c_bool b) n \<longleftrightarrow> b \<and> n = 0"
  by (simp add: c_bool_def bit_1_iff)

lemma one_bit: "EXTRACT x k 1 = c_bool (bit x k)" "x AND 1 = c_bool (bit x 0)" for x :: u32
  by (rule bit_word_eqI, auto simp: bit_EXTRACT bit_c_bool bit_and_iff bit_1_iff)+

lemma c_bool_eqs [simp]:
  "c_bool b = 0 \<longleftrightarrow> \<not> b" "c_bool b = 1 \<longleftrightarrow> b" "c_bool b XOR c_bool c = c_bool (b \<noteq> c)"
  by (simp_all add: c_bool_def)

lemma c_neg_bit: "c_neg v \<longleftrightarrow> bit v 31"
  using bit_last_iff [of v] by (simp add: c_neg_def)

lemmas flag_bits = one_bit one_bit [unfolded One_nat_def] c_neg_bit

lemmas codec_bits = bit_EXTRACT bit_SIGN_EXTEND bit_c_bool flag_bits as_u8_def as_u16_def bit_tools

section \<open>Ranges\<close>

definition in_range :: "nat \<Rightarrow> u32 \<Rightarrow> bool" where
  "in_range k v \<longleftrightarrow> - (2 ^ k) \<le> sint v \<and> sint v < 2 ^ k"

lemma SIGN_EXTEND_range:
  assumes "in_range (k - 1) v" "0 < k" "k \<le> 32"
  shows "SIGN_EXTEND (v AND mask k) k = v"
proof (rule bit_word_eqI)
  fix n assume "n < LENGTH(32)"
  then have n: "n < 32" by simp
  have s: "bit v i = bit v 31" if "k - 1 \<le> i" "i < 32" for i
    using assms that by (intro sar_sign_fill_bit [of v "k - 1"]) (simp_all add: sar_sign_fill in_range_def)
  show "bit (SIGN_EXTEND (v AND mask k) k) n \<longleftrightarrow> bit v n"
    using assms n s [of n] s [of "k - 1"]
    by (cases "n < k") (auto simp: bit_SIGN_EXTEND bit_and_iff bit_mask_iff)
qed

lemma and_mask_small:
  fixes v :: u32
  assumes "0 \<le> sint v" "sint v < 2 ^ k"
  shows "v AND mask k = v"
proof (rule bit_word_eqI)
  fix n assume "n < LENGTH(32)"
  then have n: "n < 32" by simp
  have hi: "\<not> bit v n" if "k \<le> n"
  proof -
    have "bit v n = bit v 31"
      using assms that n by (intro sar_sign_fill_bit [of v k]) (simp_all add: sar_sign_fill)
    with assms show ?thesis by (simp flip: c_neg_bit add: c_neg_def)
  qed
  with n show "bit (v AND mask k) n \<longleftrightarrow> bit v n"
    by (cases "n < k") (simp_all add: bit_and_iff bit_mask_iff)
qed

lemma aligned_bits:
  fixes v :: u32
  shows "v AND 1 = 0 \<Longrightarrow> \<not> bit v 0" "v AND 3 = 0 \<Longrightarrow> \<not> bit v 0" "v AND 3 = 0 \<Longrightarrow> \<not> bit v 1"
    "v AND 3 = 0 \<Longrightarrow> \<not> bit v (Suc 0)"
  using and_mask_bits [of v 1 0] and_mask_bits [of v 2 0] and_mask_bits [of v 2 1]
  by (simp_all add: mask_eq_exp_minus_1)

section \<open>What is written and read back\<close>

lemma unpack_movw_written:
  "unpack_movw ((w AND 0xFFF0F000 OR (v AND 0xFFFF) AND 0xFFF) OR shl (as_u8 (sar (v AND 0xFFFF) 12)) 16)
     = SIGN_EXTEND (v AND mask 16) 16"
  unfolding unpack_movw_def Let_def
  by (rule arg_cong [of _ _ "\<lambda>x. SIGN_EXTEND x 16"], rule word32_bits; simp add: codec_bits)

lemma unpack_imm12_written:
  assumes "sint (c_abs v) \<le> 0xFFF" "0 \<le> sint (c_abs v)"
  shows "unpack_imm12 ((w AND 0xFF7FF000 OR c_abs v AND 0xFFF) OR shl (c_bool (sar v 31 AND 1 = 0)) 23) = v"
    (is "unpack_imm12 ?f = _")
proof -
  have small: "c_abs v AND 0xFFF = c_abs v"
    using assms and_mask_small [of "c_abs v" 12] by (simp add: mask_eq_exp_minus_1)
  have "EXTRACT ?f 0 12 = c_abs v AND 0xFFF"
    by (rule word32_bits; simp add: codec_bits)
  moreover have "EXTRACT ?f 23 1 = 1 \<longleftrightarrow> \<not> c_neg v"
    by (simp add: codec_bits)
  ultimately show ?thesis
    by (simp add: unpack_imm12_def Let_def small) (simp add: c_abs_def)
qed

lemma IS_BLX_bits:
  "IS_BLX x \<longleftrightarrow> bit x 31 \<and> bit x 30 \<and> bit x 29 \<and> bit x 28 \<and> bit x 27 \<and> \<not> bit x 26 \<and> bit x 25"
proof -
  have eq: "IS_BLX x \<Longrightarrow> bit (EXTRACT x 24 8 AND NOT 0x1) k = bit (0xFA :: u32) k" for k
    by (simp only: IS_BLX_def)
  from eq [of 1] eq [of 2] eq [of 3] eq [of 4] eq [of 5] eq [of 6] eq [of 7]
  have "IS_BLX x \<Longrightarrow> bit x 31 \<and> bit x 30 \<and> bit x 29 \<and> bit x 28 \<and> bit x 27 \<and> \<not> bit x 26 \<and> bit x 25"
    by (simp add: codec_bits)
  moreover have "IS_BLX x" if "bit x 31 \<and> bit x 30 \<and> bit x 29 \<and> bit x 28 \<and> bit x 27 \<and> \<not> bit x 26 \<and> bit x 25"
    unfolding IS_BLX_def by (rule word32_bits; simp add: codec_bits that)
  ultimately show ?thesis by blast
qed

lemma unpack_arm_branch_bits:
  "unpack_arm_branch a m =
     (let w = read32 m a
      in SIGN_EXTEND (shl (w AND 0xFFFFFF) 2 OR (if IS_BLX w then shl (shr w 24 AND 1) 1 else 0)) 26)"
proof -
  let ?w = "read32 m a"
  let ?h = "if IS_BLX ?w then EXTRACT ?w 24 1 else 0"
  have "shl (EXTRACT ?w 0 24) 1 + ?h = shl (EXTRACT ?w 0 24) 1 OR ?h"
    by (rule plus_or_disjoint) (auto simp: bit_shl bit_EXTRACT)
  moreover have "shl (shl (EXTRACT ?w 0 24) 1 OR ?h) 1 =
      shl (?w AND 0xFFFFFF) 2 OR (if IS_BLX ?w then shl (shr ?w 24 AND 1) 1 else 0)"
    by (rule word32_bits; simp add: codec_bits)
  ultimately show ?thesis
    by (simp add: unpack_arm_branch_def Let_def)
qed

lemma unpack_arm_branch_written:
  fixes m :: mem
  assumes v: "v AND 3 = 0"
  shows "unpack_arm_branch a (write_arm_branch a (sar v 1 AND 0x01FFFFFF) symval m) = SIGN_EXTEND (v AND mask 26) 26"
proof -
  define w where "w = (if OPND_T symval \<noteq> 0 then read32 m a OR 0xF0000000 else read32 m a) AND NOT 0xFFFFFF"
  define x where "x = (if IS_BLX w then w AND NOT 0x01000000 else w) OR sar (sar v 1 AND 0x01FFFFFF) 1"
  have z: "shl ((sar v 1 AND 0x01FFFFFF) AND 0x1) 24 = 0"
    using aligned_bits(3) [OF v] by (intro word32_bits; simp add: codec_bits)
  have "read32 (write_arm_branch a (sar v 1 AND 0x01FFFFFF) symval m) a = x"
    unfolding write_arm_branch_def Let_def z w_def x_def by simp
  moreover have "shl (x AND 0xFFFFFF) 2 = v AND mask 26"
    using aligned_bits(2-4) [OF v] by (intro word32_bits; simp add: codec_bits x_def w_def)
  moreover have "shr x 24 AND 1 = 0" if "IS_BLX x"
    using that by (simp add: x_def IS_BLX_bits codec_bits split: if_splits)
  ultimately show ?thesis
    by (simp add: unpack_arm_branch_bits Let_def shl_def)
qed

lemma unpack_jump24_written:
  assumes v: "v AND 3 = 0" and w: "\<not> IS_BLX (read32 m a)"
  shows "unpack_arm_branch a (upd32 a (\<lambda>w. (w AND NOT 0xFFFFFF) OR (sar v 2 AND 0xFFFFFF)) m)
    = SIGN_EXTEND (v AND mask 26) 26"
proof -
  let ?x = "read32 m a AND NOT 0xFFFFFF OR (sar v 2 AND 0xFFFFFF)"
  have "shl (?x AND 0xFFFFFF) 2 = v AND mask 26"
    using aligned_bits(2-4) [OF v] by (intro word32_bits; simp add: codec_bits)
  moreover have "\<not> IS_BLX ?x"
    using w by (simp add: IS_BLX_bits codec_bits)
  ultimately show ?thesis
    by (simp add: unpack_arm_branch_bits upd32_def Let_def)
qed

lemma iff_cancel: "((P = Q) = Q) = P" by auto

lemma unpack_thm_branch_written:
  fixes m :: mem
  assumes v: "v AND 1 = 0" and b: "OPND_T symval = 0 \<and> r_type = R_ARM_THM_CALL \<Longrightarrow> v AND 3 = 0"
  shows "unpack_thm_branch a (write_thm_branch r_type a (sar v 1 AND 0x01FFFFFF) symval m)
    = SIGN_EXTEND (v AND mask 25) 25"
proof -
  define w where "w = (if OPND_T symval = 0 \<and> r_type = R_ARM_THM_CALL then read16 m (a + 2) AND 0xEFFF else read16 m (a + 2))"
  define rv where "rv = sar v 1 AND 0x01FFFFFF"
  define S where "S = sar rv 23 AND 0x1"
  define W0 where "W0 = (read16 m a AND 0xF800) OR ucast (shl S 10) OR ucast (sar rv 11 AND 0x3FF)"
  define W1 where "W1 = (w AND 0xD000) OR ucast (shl ((sar rv 22 XOR c_bool (S = 0)) AND 0x1) 13)
    OR ucast (shl ((sar rv 21 XOR c_bool (S = 0)) AND 0x1) 11) OR ucast (rv AND 0x7FF)"
  have z: "\<not> ((OPND_T symval = 0 \<and> r_type = R_ARM_THM_CALL) \<and> rv AND 0x1 \<noteq> 0)"
    using b aligned_bits(3) [of v] by (auto simp: codec_bits rv_def)
  have written: "write_thm_branch r_type a rv symval m = write16 (a + 2) W1 (write16 a W0 m)"
    unfolding write_thm_branch_def Let_def if_not_P [OF z] upd16_def w_def W0_def W1_def S_def by (simp add: write16_swap)
  have "read16 (write_thm_branch r_type a rv symval m) a = W0"
    "read16 (write_thm_branch r_type a rv symval m) (a + 2) = W1"
    by (simp_all add: written)
  moreover have "shl (shl (EXTRACT (ucast W0) 10 1) 23 OR shl (c_bool (EXTRACT (ucast W1) 13 1 XOR EXTRACT (ucast W0) 10 1 = 0)) 22 OR
     shl (c_bool (EXTRACT (ucast W1) 11 1 XOR EXTRACT (ucast W0) 10 1 = 0)) 21 OR
     shl (EXTRACT (ucast W0) 0 10) 11 OR EXTRACT (ucast W1) 0 11) 1 = v AND mask 25"
    unfolding W0_def W1_def S_def rv_def
    by (rule word32_bits; simp add: codec_bits aligned_bits(1) [OF v] iff_cancel)
  ultimately show ?thesis
    unfolding unpack_thm_branch_def Let_def rv_def by simp
qed


lemma unpack_thm_movw_written:
  fixes m :: mem
  shows "unpack_thm_movw a (write_thm_movw a (v AND 0xFFFF) m) = SIGN_EXTEND (v AND mask 16) 16"
proof -
  define x where "x = v AND 0xFFFF"
  define W0 where "W0 = (read16 m a AND 0xFBF0) OR ucast (shl (sar x 11 AND 0x1) 10) OR ucast (as_u8 (sar x 12))"
  define W1 where "W1 = (read16 m (a + 2) AND 0x8F00) OR ucast (shl (sar x 8 AND 0x7) 12) OR ucast (x AND 0xFF)"
  have "write_thm_movw a x m = write16 (a + 2) W1 (write16 a W0 m)"
    unfolding write_thm_movw_def Let_def upd16_def W0_def W1_def by simp
  then have "read16 (write_thm_movw a x m) a = W0" "read16 (write_thm_movw a x m) (a + 2) = W1"
    by simp_all
  moreover have "shl (EXTRACT (ucast W0) 0 4) 12 OR shl (EXTRACT (ucast W0) 10 1) 11 OR
      shl (EXTRACT (ucast W1) 12 3) 8 OR EXTRACT (ucast W1) 0 8 = v AND mask 16"
    unfolding W0_def W1_def x_def by (rule word32_bits; simp add: codec_bits)
  ultimately show ?thesis
    unfolding unpack_thm_movw_def Let_def x_def by simp
qed

lemma unpack_thm_pc12_written:
  fixes m :: mem
  assumes "sint (c_abs v) \<le> 0xFFF" "0 \<le> sint (c_abs v)"
  shows "unpack_thm_pc12 a (write_thm_pc12 a v m) = v"
proof -
  define W0 where "W0 = (read16 m a AND 0xFF7F) OR ucast (shl (if c_neg v then 0 else 1) 7 :: u32)"
  define W1 where "W1 = (read16 m (a + 2) AND 0xF000) OR ucast (c_abs v AND 0xFFF)"
  have "write_thm_pc12 a v m = write16 (a + 2) W1 (write16 a W0 m)"
    unfolding write_thm_pc12_def Let_def upd16_def W0_def W1_def by simp
  then have "read16 (write_thm_pc12 a v m) a = W0" "read16 (write_thm_pc12 a v m) (a + 2) = W1"
    by simp_all
  moreover have "EXTRACT (ucast W1) 0 12 = c_abs v AND 0xFFF"
    unfolding W1_def by (rule word32_bits; simp add: codec_bits)
  moreover have "c_abs v AND 0xFFF = c_abs v"
    using assms and_mask_small [of "c_abs v" 12] by (simp add: mask_eq_exp_minus_1)
  moreover have "EXTRACT (ucast W0) 7 1 = 1 \<longleftrightarrow> \<not> c_neg v"
    unfolding W0_def by (simp add: codec_bits)
  ultimately show ?thesis
    by (simp add: unpack_thm_pc12_def Let_def) (simp add: c_abs_def)
qed

lemma unpack_thm16_jump:
  assumes "v AND 1 = 0"
  shows "unpack_thm16 R_ARM_THM_JUMP11 ((w AND NOT 0x7FF) OR ucast (sar v 1 AND 0x7FF)) = SIGN_EXTEND (v AND mask 12) 12"
    "unpack_thm16 R_ARM_THM_JUMP8 ((w AND NOT 0xFF) OR ucast (sar v 1 AND 0xFF)) = SIGN_EXTEND (v AND mask 9) 9"
proof -
  note a = aligned_bits(1) [OF assms]
  have "shl (EXTRACT (ucast ((w AND NOT 0x7FF) OR ucast (sar v 1 AND 0x7FF))) 0 11) 1 = v AND mask 12"
    by (rule word32_bits; simp add: codec_bits a)
  then show "unpack_thm16 R_ARM_THM_JUMP11 ((w AND NOT 0x7FF) OR ucast (sar v 1 AND 0x7FF)) = SIGN_EXTEND (v AND mask 12) 12"
    unfolding unpack_thm16_def by simp
  have "shl (EXTRACT (ucast ((w AND NOT 0xFF) OR ucast (sar v 1 AND 0xFF))) 0 8) 1 = v AND mask 9"
    by (rule word32_bits; simp add: codec_bits a)
  then show "unpack_thm16 R_ARM_THM_JUMP8 ((w AND NOT 0xFF) OR ucast (sar v 1 AND 0xFF)) = SIGN_EXTEND (v AND mask 9) 9"
    unfolding unpack_thm16_def by simp
qed

lemma take_bit_plus:
  fixes v w :: u32
  assumes "k \<le> 32"
  shows "take_bit k (take_bit k v + w) = take_bit k (v + w)"
proof -
  have int: "take_bit k (take_bit k i + j) = take_bit k (i + j)" for i j :: int
    using take_bit_add [of k "take_bit k i" j] take_bit_add [of k i j] by simp
  have u: "take_bit k (take_bit 32 i) = take_bit k i" for i :: int
    using assms by (simp add: min_def)
  have "uint (take_bit k (take_bit k v + w)) = uint (take_bit k (v + w))"
    using assms by (simp add: unsigned_take_bit_eq uint_word_arith_bintrs u int min_def)
  then show ?thesis by (rule word_uint_eqI)
qed

lemma wrap_offset:
  fixes v :: u32
  assumes "- 4 \<le> sint v" "sint v < 2 ^ k - 4" "k < 31"
  shows "(((v AND mask k) + 4) AND mask k) - 4 = v"
proof -
  have "sint (v + 4) = sint v + 4"
  proof -
    have "(2::int) ^ k < 2 ^ 31" using power_strict_increasing [OF assms(3), of "2::int"] by simp
    then show ?thesis using assms by (simp add: sint_word_ariths signed_take_bit_int_eq_self)
  qed
  then have "(v + 4) AND mask k = v + 4"
    using assms by (intro and_mask_small) simp_all
  moreover have "((v AND mask k) + 4) AND mask k = (v + 4) AND mask k"
    using assms(3) take_bit_plus [of k v 4]
    unfolding take_bit_eq_mask [symmetric] by simp
  ultimately show ?thesis by simp
qed


lemma unpack_thm16_offset:
  assumes "v AND 1 = 0" "- 4 \<le> sint v" "sint v < 124"
  shows "unpack_thm16 R_ARM_THM_JUMP6
     (((w AND 0xFD07) OR ucast (shl (sar (sar v 1 AND 0x3F) 5 AND 0x1) 9)) OR ucast (shl ((sar v 1 AND 0x3F) AND 0x1F) 3)) = v"
    (is "unpack_thm16 _ ?x = _")
proof -
  have "shl (shl (EXTRACT (ucast ?x) 9 1) 5 OR EXTRACT (ucast ?x) 3 5) 1 = v AND mask 7"
    by (rule word32_bits; simp add: codec_bits aligned_bits(1) [OF assms(1)])
  moreover have "(0x7F :: u32) = mask 7" by (simp add: mask_eq_exp_minus_1)
  ultimately show ?thesis
    unfolding unpack_thm16_def using wrap_offset [of v 7] assms by simp
qed

lemma unpack_thm16_words:
  assumes v: "v AND 3 = 0"
  shows "- 4 \<le> sint v \<and> sint v < 1020 \<Longrightarrow>
      unpack_thm16 R_ARM_THM_PC8 ((w AND 0xFF00) OR ucast (sar v 2 AND 0xFF)) = v"
    "0 \<le> sint v \<and> sint v < 128 \<Longrightarrow>
      unpack_thm16 R_ARM_THM_ABS5 ((w AND 0xF83F) OR ucast (shl (sar v 2 AND 0x1F) 6)) = v"
proof -
  note a = aligned_bits(2-4) [OF v]
  let ?x = "(w AND 0xFF00) OR ucast (sar v 2 AND 0xFF)"
  have "shl (EXTRACT (ucast ?x) 0 8) 2 = v AND mask 10"
    by (rule word32_bits; simp add: codec_bits a)
  moreover have "(0x3FF :: u32) = mask 10" by (simp add: mask_eq_exp_minus_1)
  ultimately show "unpack_thm16 R_ARM_THM_PC8 ?x = v" if "- 4 \<le> sint v \<and> sint v < 1020"
    unfolding unpack_thm16_def using wrap_offset [of v 10] that by simp
  let ?y = "(w AND 0xF83F) OR ucast (shl (sar v 2 AND 0x1F) 6)"
  have "shl (EXTRACT (ucast ?y) 6 5) 2 = v AND mask 7"
    by (rule word32_bits; simp add: codec_bits a)
  then show "unpack_thm16 R_ARM_THM_ABS5 ?y = v" if "0 \<le> sint v \<and> sint v < 128"
    unfolding unpack_thm16_def using and_mask_small [of v 7] that by simp
qed


text \<open>The same for values in range, in the form in which the simplifier meets them.\<close>

lemmas written_back =
  trans [OF unpack_movw_written SIGN_EXTEND_range, simplified]
  trans [OF unpack_arm_branch_written SIGN_EXTEND_range, simplified]
  trans [OF unpack_jump24_written SIGN_EXTEND_range, simplified]
  trans [OF unpack_thm_branch_written SIGN_EXTEND_range, simplified]
  trans [OF unpack_thm_movw_written SIGN_EXTEND_range, simplified]
  trans [OF unpack_thm16_jump(1) SIGN_EXTEND_range, simplified]
  trans [OF unpack_thm16_jump(2) SIGN_EXTEND_range, simplified]

end
