(* ===== verification/Arm_Roundtrip.thy ===== *)
theory Arm_Roundtrip
  imports Arm_Codec
begin

text \<open>
  A relocation field of ARM and Thumb code as the linker sees it: \<open>relocate_field\<close> packs, masks and writes a value,
  \<open>field_value\<close> reads the addend of a REL entry back. The values that each field can hold are \<open>fits_field\<close>; for them
  the two are inverse, no message is printed, and nothing outside the container of the relocation is read or changed. The
  contract is the locale \<open>relocation_field\<close>, interpreted for every type of relocation.
\<close>

section \<open>All the fields\<close>

definition container_size :: "ARM_RELOC_TYPE \<Rightarrow> nat" where
  "container_size r_type =
     (case get_reloc_size r_type of ARM_RELOC \<Rightarrow> 4 | THUMB32_RELOC \<Rightarrow> 4 | THUMB16_RELOC \<Rightarrow> 2 | ARM8_RELOC \<Rightarrow> 1)"

definition relocate_field :: "ARM_RELOC_TYPE \<Rightarrow> u32 \<Rightarrow> u32 \<Rightarrow> u32 \<Rightarrow> mem \<Rightarrow> mem" where
  "relocate_field r_type symval a v m =
     fst (write_reloc_r a r_type (fst (mask_result (fst (pack_result v r_type)) r_type)) symval m)"

definition field_value :: "ARM_RELOC_TYPE \<Rightarrow> u32 \<Rightarrow> mem \<Rightarrow> u32" where
  "field_value r_type a m = fst (rel_unpack_addend r_type a 0 m)"

definition fits_field :: "ARM_RELOC_TYPE \<Rightarrow> u32 \<Rightarrow> bool" where
  "fits_field r_type v =
     (if r_type \<in> {R_ARM_ABS32, R_ARM_REL32, R_ARM_ABS32_NOI, R_ARM_REL32_NOI} then True
      else if r_type = R_ARM_ABS16 then in_range 15 v
      else if r_type = R_ARM_ABS8 then in_range 7 v
      else if r_type \<in> {R_ARM_CALL, R_ARM_PC24, R_ARM_JUMP24} then in_range 25 v \<and> v AND 3 = 0
      else if r_type = R_ARM_THM_CALL then in_range 24 v \<and> v AND 3 = 0
      else if r_type = R_ARM_THM_JUMP24 then in_range 24 v \<and> v AND 1 = 0
      else if r_type = R_ARM_THM_JUMP11 then in_range 11 v \<and> v AND 1 = 0
      else if r_type = R_ARM_THM_JUMP8 then in_range 8 v \<and> v AND 1 = 0
      else if r_type = R_ARM_THM_JUMP6 then - 4 \<le> sint v \<and> sint v < 124 \<and> v AND 1 = 0
      else if r_type = R_ARM_THM_ABS5 then 0 \<le> sint v \<and> sint v < 128 \<and> v AND 3 = 0
      else if r_type = R_ARM_THM_PC8 then - 4 \<le> sint v \<and> sint v < 1020 \<and> v AND 3 = 0
      else if r_type \<in> {R_ARM_MOVW_ABS_NC, R_ARM_MOVW_PREL_NC, R_ARM_THM_MOVW_ABS_NC, R_ARM_THM_MOVW_PREL_NC}
        then in_range 15 v
      else if r_type \<in> {R_ARM_ABS12, R_ARM_THM_PC12} then - 0xFFF \<le> sint v \<and> sint v \<le> 0xFFF
      else False)"

lemma c_abs_range:
  assumes "- k \<le> sint v" "sint v \<le> k" "k < 2 ^ 31"
  shows "sint (c_abs v) \<le> k \<and> 0 \<le> sint (c_abs v)"
  using assms by (auto simp: c_abs_def c_neg_def sint_word_ariths signed_take_bit_int_eq_self)

text \<open>A branch to be relocated by \<open>R_ARM_JUMP24\<close> is not a BLX.\<close>

definition site_ok :: "ARM_RELOC_TYPE \<Rightarrow> u32 \<Rightarrow> mem \<Rightarrow> bool" where
  "site_ok r_type a m \<longleftrightarrow> r_type = R_ARM_JUMP24 \<longrightarrow> \<not> IS_BLX (read32 m a)"

lemmas relocate_simps = relocate_field_def field_value_def write_reloc_r_def mask_result_def pack_result_def
  rel_unpack_addend_def

lemma upd_twice [simp]:
  "upd16 a f (upd16 a g m) = upd16 a (\<lambda>w. f (g w)) m"
  "upd32 a h (upd32 a k m) = upd32 a (\<lambda>w. h (k w)) m"
  by (simp_all add: upd16_def upd32_def write32_twice)

lemma read_upd [simp]:
  "read16 (upd16 a f m) a = f (read16 m a)"
  "read32 (upd32 a g m) a = g (read32 m a)"
  by (simp_all add: upd16_def upd32_def)

lemma arm_branch_codec:
  "fits_field r_type v \<Longrightarrow> r_type \<in> {R_ARM_CALL, R_ARM_PC24} \<Longrightarrow>
     field_value r_type a (relocate_field r_type symval a v m) = v"
  by (auto simp: relocate_simps fits_field_def written_back)

lemma jump24_codec:
  assumes "fits_field R_ARM_JUMP24 v" "site_ok R_ARM_JUMP24 a m"
  shows "field_value R_ARM_JUMP24 a (relocate_field R_ARM_JUMP24 symval a v m) = v"
  using assms by (simp add: relocate_simps fits_field_def site_ok_def written_back)

lemma thm_branch_codec:
  assumes "fits_field r_type v" "r_type \<in> {R_ARM_THM_CALL, R_ARM_THM_JUMP24}"
  shows "field_value r_type a (relocate_field r_type symval a v m) = v"
proof -
  have "v AND 1 = 0" "in_range 24 v"
    using assms aligned_bits(2) [of v] by (auto simp: fits_field_def one_bit)
  moreover have "v AND 3 = 0" if "OPND_T symval = 0 \<and> r_type = R_ARM_THM_CALL"
    using that assms by (simp add: fits_field_def)
  ultimately have "unpack_thm_branch a (write_thm_branch r_type a (sar v 1 AND 0x01FFFFFF) symval m) = v"
    by (intro written_back [unfolded One_nat_def [symmetric]]) auto
  then show ?thesis
    using assms(2) by (auto simp: relocate_simps)
qed

lemma thm16_codec:
  assumes "fits_field r_type v"
    "r_type \<in> {R_ARM_THM_JUMP11, R_ARM_THM_JUMP8, R_ARM_THM_JUMP6, R_ARM_THM_ABS5, R_ARM_THM_PC8}"
  shows "field_value r_type a (relocate_field r_type symval a v m) = v"
proof -
  have "field_value r_type a (relocate_field r_type symval a v m) =
      unpack_thm16 r_type (read16 (write_thm16 r_type a (fst (mask_result (fst (pack_result v r_type)) r_type)) m) a)"
    using assms(2) by (elim insertE) (simp_all add: relocate_simps)
  also have "\<dots> = v"
    using assms by (elim insertE)
      (simp_all add: fits_field_def write_thm16_def Let_def mask_result_def pack_result_def written_back
        unpack_thm16_offset [simplified] unpack_thm16_words)
  finally show ?thesis .
qed

lemma imm_codec:
  assumes "fits_field r_type v" "r_type \<in> {R_ARM_ABS12, R_ARM_THM_PC12}"
  shows "field_value r_type a (relocate_field r_type symval a v m) = v"
proof -
  have "sint (c_abs v) \<le> 0xFFF" "0 \<le> sint (c_abs v)"
    using assms c_abs_range [of "0xFFF" v] by (auto simp: fits_field_def)
  then show ?thesis
    using assms(2) unpack_imm12_written [of v] unpack_thm_pc12_written [of v]
    by (elim insertE) (simp_all add: relocate_simps write_abs12_def Let_def)
qed

lemma movw_codec:
  assumes "fits_field r_type v"
    "r_type \<in> {R_ARM_MOVW_ABS_NC, R_ARM_MOVW_PREL_NC, R_ARM_THM_MOVW_ABS_NC, R_ARM_THM_MOVW_PREL_NC}"
  shows "field_value r_type a (relocate_field r_type symval a v m) = v"
  using assms by (elim insertE) (simp_all add: relocate_simps fits_field_def write_movw_def Let_def written_back)

lemma data_field_codec:
  assumes "fits_field r_type v"
    "r_type \<in> {R_ARM_ABS32, R_ARM_REL32, R_ARM_ABS32_NOI, R_ARM_REL32_NOI, R_ARM_ABS16, R_ARM_ABS8}"
  shows "field_value r_type a (relocate_field r_type symval a v m) = v"
proof -
  have "ucast (ucast (v AND mask 16) :: u16) = v AND mask 16" "ucast (ucast (v AND mask 8) :: u8) = v AND mask 8"
    by (rule bit_word_eqI, auto simp: bit_simps bit_mask_iff)+
  then show ?thesis
    using assms SIGN_EXTEND_range [of 16 v] SIGN_EXTEND_range [of 8 v]
    by (elim insertE) (simp_all add: relocate_simps fits_field_def write8_def read8_def mask_eq_exp_minus_1)
qed

lemma field_value_relocated:
  assumes fits: "fits_field r_type v" and site: "site_ok r_type a m"
  shows "field_value r_type a (relocate_field r_type symval a v m) = v"
proof -
  consider "r_type \<in> {R_ARM_ABS32, R_ARM_REL32, R_ARM_ABS32_NOI, R_ARM_REL32_NOI, R_ARM_ABS16, R_ARM_ABS8}"
    | "r_type \<in> {R_ARM_CALL, R_ARM_PC24}" | "r_type = R_ARM_JUMP24"
    | "r_type \<in> {R_ARM_THM_CALL, R_ARM_THM_JUMP24}"
    | "r_type \<in> {R_ARM_THM_JUMP11, R_ARM_THM_JUMP8, R_ARM_THM_JUMP6, R_ARM_THM_ABS5, R_ARM_THM_PC8}"
    | "r_type \<in> {R_ARM_MOVW_ABS_NC, R_ARM_MOVW_PREL_NC, R_ARM_THM_MOVW_ABS_NC, R_ARM_THM_MOVW_PREL_NC}"
    | "r_type \<in> {R_ARM_ABS12, R_ARM_THM_PC12}"
    using fits unfolding fits_field_def by (auto split: if_splits)
  then show ?thesis
    using fits site data_field_codec arm_branch_codec jump24_codec thm_branch_codec thm16_codec movw_codec imm_codec
    by cases blast+
qed


section \<open>The writers stay in the field\<close>

lemma write_arm_branch_upd:
  "write_arm_branch a reloc_val symval m =
     upd32 a (\<lambda>w. let w = (if OPND_T symval \<noteq> 0 then w OR 0xF0000000 else w) AND NOT 0xFFFFFF
                  in (if IS_BLX w then (w AND NOT 0x01000000) OR shl (reloc_val AND 0x1) 24 else w) OR sar reloc_val 1) m"
  unfolding write_arm_branch_def upd32_def Let_def ..

lemma write_thm_branch_within: "acts_within (cells a 4) (write_thm_branch r_type a reloc_val symval)"
  unfolding write_thm_branch_def [abs_def] Let_def by (intro within_intros)

lemma write_thm_alu_prel_within: "acts_within (cells a 4) (\<lambda>m. fst (write_thm_alu_prel a reloc_val m))"
  unfolding write_thm_alu_prel_def Let_def case_prod_beta fst_conv by (intro within_intros)

lemmas writer_defs = write_arm_branch_upd write_thm_jump19_def write_thm16_def write_movw_def write_thm_movw_def
  write_abs12_def write_thm_pc12_def write_alu_pc_def write_ldr_pc_def write_ldrs_pc_def write_ldc_pc_def

lemma write_reloc_r_within:
  "acts_within (cells a (container_size r_type)) (\<lambda>m. fst (write_reloc_r a r_type reloc_val symval m))"
  by (cases r_type)
    (simp_all add: write_reloc_r_def container_size_def get_reloc_size_def writer_defs cell_updates Let_def
      case_prod_beta within_intros write8_within [unfolded One_nat_def] write_thm_branch_within
      write_thm_alu_prel_within)

lemma reloc_do_within:
  "acts_within (cells a (container_size r_type)) (\<lambda>m. fst (reloc_do r_type a addend symval pc m))"
  unfolding reloc_do_def Let_def case_prod_beta fst_conv by (rule write_reloc_r_within)

lemma relocate_field_within: "acts_within (cells a (container_size r_type)) (relocate_field r_type symval a v)"
  unfolding relocate_field_def [abs_def] by (rule write_reloc_r_within)

lemma rel_change_endian_within: "acts_within (cells a (container_size r_type)) (rel_change_endian r_type a)"
  unfolding rel_change_endian_def [abs_def] container_size_def cell_updates
  by (cases "get_reloc_size r_type") (simp_all add: within_intros)

lemma rel_unpack_addend_local:
  assumes "\<forall>b\<in>cells a (container_size r_type). m b = m' b"
  shows "rel_unpack_addend r_type a addend m = rel_unpack_addend r_type a addend m'"
proof -
  have 4: "read32 m a = read32 m' a \<and> read16 m a = read16 m' a \<and> read16 m (a + 2) = read16 m' (a + 2)"
    if "container_size r_type = 4"
    using assms that cells_low_half [of a] cells_high_half [of a]
    by (intro conjI read32_local read16_local) auto
  have 2: "read16 m a = read16 m' a" if "container_size r_type = 2"
    using assms that by (intro read16_local) auto
  have 1: "read8 m a = read8 m' a" if "container_size r_type = 1"
    using assms that by (intro read8_local) auto
  show ?thesis
    using 4 2 1
    by (cases r_type)
      (simp_all add: rel_unpack_addend_def container_size_def get_reloc_size_def unpack_arm_branch_def
        unpack_thm_branch_def unpack_thm_jump19_def unpack_thm_pc12_def unpack_thm_movw_def unpack_thm_alu_prel_def)
qed

lemma site_ok_relocated:
  assumes "site_ok r_type a m"
  shows "site_ok r_type a (relocate_field r_type symval a v m)"
proof (cases "r_type = R_ARM_JUMP24")
  case True
  with assms show ?thesis
    by (simp add: site_ok_def relocate_simps IS_BLX_bits codec_bits)
qed (simp add: site_ok_def)

lemma site_ok_local:
  assumes "\<forall>b\<in>cells a (container_size r_type). m b = m' b" "site_ok r_type a m"
  shows "site_ok r_type a m'"
proof (cases "r_type = R_ARM_JUMP24")
  case True
  then have "read32 m a = read32 m' a"
    using assms(1) by (intro read32_local) (simp add: container_size_def get_reloc_size_def)
  with assms(2) show ?thesis by (simp add: site_ok_def)
qed (simp add: site_ok_def)

lemma field_value_local:
  assumes "\<forall>b\<in>cells a (container_size r_type). m b = m' b"
  shows "field_value r_type a m = field_value r_type a m'"
  by (simp only: field_value_def rel_unpack_addend_local [OF assms])

interpretation arm_field: relocation_field "relocate_field r_type symval" "field_value r_type" "fits_field r_type"
    "site_ok r_type" "container_size r_type" for r_type symval
  by unfold_locales
    (rule field_value_relocated site_ok_relocated relocate_field_within field_value_local site_ok_local; assumption)+

section \<open>Range checks and messages\<close>

lemma rel_overflow_branch:
  "sar v k \<noteq> 0 \<and> sar v k \<noteq> - 1 \<longleftrightarrow> \<not> in_range k v"
  using sar_sign_fill [of v k] by (auto simp: in_range_def)

lemma sint_uminus: 
  fixes v :: u32
  assumes "v \<noteq> 0x80000000" shows "sint (- v) = - sint v"
proof -
  have lo: "- (2 ^ 31) \<le> sint v" and hi: "sint v < 2 ^ 31"
    using sint_ge [of v] sint_lt [of v] by simp_all
  have "sint v \<noteq> - (2 ^ 31)"
  proof
    assume "sint v = - (2 ^ 31)"
    then have "sint v = sint (0x80000000 :: u32)" by simp
    with assms show False using signed_word_eqI by blast
  qed
  with lo hi show ?thesis
    by (simp add: sint_word_ariths signed_take_bit_int_eq_self)
qed

lemma c_abs_bound: "0x1000 \<le> sint (c_abs v) \<longleftrightarrow> v \<noteq> 0x80000000 \<and> \<not> (- 0xFFF \<le> sint v \<and> sint v \<le> 0xFFF)"
  using sint_uminus [of v] by (cases "v = 0x80000000") (auto simp: c_abs_def c_neg_def)

lemma in_range_mono:
  assumes "in_range k v" "k \<le> l" shows "in_range l v"
proof -
  have "(2 :: int) ^ k \<le> 2 ^ l" using assms(2) by simp
  with assms(1) show ?thesis unfolding in_range_def by linarith
qed


lemma fits_field_types:
  assumes "fits_field r_type v"
  shows "r_type \<in> {R_ARM_ABS32, R_ARM_REL32, R_ARM_ABS32_NOI, R_ARM_REL32_NOI, R_ARM_ABS16, R_ARM_ABS8, R_ARM_CALL,
    R_ARM_PC24, R_ARM_JUMP24, R_ARM_THM_CALL, R_ARM_THM_JUMP24, R_ARM_THM_JUMP11, R_ARM_THM_JUMP8, R_ARM_THM_JUMP6,
    R_ARM_THM_ABS5, R_ARM_THM_PC8, R_ARM_MOVW_ABS_NC, R_ARM_MOVW_PREL_NC, R_ARM_THM_MOVW_ABS_NC,
    R_ARM_THM_MOVW_PREL_NC, R_ARM_ABS12, R_ARM_THM_PC12}"
  using assms unfolding fits_field_def by (auto split: if_splits)

lemma rel_overflow_ranges:
  "rel_overflow R_ARM_JUMP24 v \<longleftrightarrow> \<not> in_range 25 v" "rel_overflow R_ARM_CALL v \<longleftrightarrow> \<not> in_range 25 v"
  "rel_overflow R_ARM_PC24 v \<longleftrightarrow> \<not> in_range 25 v" "rel_overflow R_ARM_THM_CALL v \<longleftrightarrow> \<not> in_range 24 v"
  "rel_overflow R_ARM_THM_JUMP24 v \<longleftrightarrow> \<not> in_range 24 v" "rel_overflow R_ARM_THM_JUMP19 v \<longleftrightarrow> \<not> in_range 20 v"
  "rel_overflow R_ARM_PREL31 v \<longleftrightarrow> \<not> in_range 30 v"
  "rel_overflow R_ARM_ABS16 v \<longleftrightarrow> \<not> (- 0x8000 \<le> sint v \<and> sint v \<le> 0xFFFF)"
  "rel_overflow R_ARM_ABS8 v \<longleftrightarrow> \<not> (- 0x80 \<le> sint v \<and> sint v \<le> 0xFF)"
  "rel_overflow R_ARM_ABS12 v \<longleftrightarrow> v \<noteq> 0x80000000 \<and> \<not> (- 0xFFF \<le> sint v \<and> sint v \<le> 0xFFF)"
  "rel_overflow R_ARM_THM_PC12 v \<longleftrightarrow> v \<noteq> 0x80000000 \<and> \<not> (- 0xFFF \<le> sint v \<and> sint v \<le> 0xFFF)"
  using rel_overflow_branch [of v] c_abs_bound [of v] unfolding rel_overflow_def Let_def by auto

lemma rel_overflow_unchecked:
  assumes "r_type \<in> {R_ARM_ABS32, R_ARM_REL32, R_ARM_ABS32_NOI, R_ARM_REL32_NOI, R_ARM_THM_JUMP11, R_ARM_THM_JUMP8,
    R_ARM_THM_JUMP6, R_ARM_THM_ABS5, R_ARM_THM_PC8, R_ARM_MOVW_ABS_NC, R_ARM_MOVW_PREL_NC, R_ARM_THM_MOVW_ABS_NC,
    R_ARM_THM_MOVW_PREL_NC}"
  shows "\<not> rel_overflow r_type v"
  using assms by (elim insertE) (simp_all add: rel_overflow_def)

lemma fits_field_no_overflow:
  assumes "fits_field r_type v" shows "\<not> rel_overflow r_type v"
  using fits_field_types [OF assms] assms
  by (elim insertE emptyE; hypsubst)
    (simp_all add: rel_overflow_ranges rel_overflow_unchecked fits_field_def in_range_def)

lemma fits_field_messages:
  assumes "fits_field r_type v"
  shows "snd (arm_reloc_value r_type addend symval pc) = []" "snd (pack_result v r_type) = []"
    "snd (mask_result u r_type) = []" "snd (write_reloc_r a r_type u symval m) = []"
    "rel_unpack_addend r_type a x m = (field_value r_type a m, [])"
  using fits_field_types [OF assms]
  by (elim insertE; simp add: arm_reloc_value_def pack_result_def mask_result_def write_reloc_r_def
    rel_unpack_addend_def field_value_def)+

lemma reloc_do_fits:
  assumes "fits_field r_type (fst (arm_reloc_value r_type addend symval pc))"
  shows "reloc_do r_type a addend symval pc m =
    (relocate_field r_type symval a (fst (arm_reloc_value r_type addend symval pc)) m, [])"
  using assms unfolding reloc_do_def Let_def case_prod_beta relocate_field_def
  by (simp add: fits_field_messages fits_field_no_overflow overflow_message_def)

end
