(* ===== verification/Arm_Ranges.thy ===== *)
theory Arm_Ranges
  imports Arm_Roundtrip
begin

text \<open>
  Which values an ARM or Thumb field can hold: those that the function which reads the field back (\<open>rel_unpack_addend\<close>)
  delivers for some contents of the memory. For a branch they are the even values of its range, for a 12-bit offset with a
  sign those of a magnitude of 12 bits, for 16 and 8 bits of data the words that fit with or without a sign.
\<close>

lemma SIGN_EXTEND_in_range:
  assumes "x AND mask k = x" "0 < k" "k \<le> 32"
  shows "in_range (k - 1) (SIGN_EXTEND x k)"
proof -
  have hi: "bit x n \<Longrightarrow> n < k" for n
    using assms(1) by (metis bit_and_iff bit_mask_iff)
  have "sar (SIGN_EXTEND x k) (k - 1) = (if bit x (k - 1) then - 1 else 0)"
  proof (rule bit_word_eqI)
    fix n assume "n < LENGTH(32)"
    define j where "j = (if 31 < k - 1 + n then 31 else k - 1 + n)"
    have j: "k - 1 \<le> j" "j < 32"
      using assms(3) by (auto simp: j_def)
    then have "bit x j \<Longrightarrow> j = k - 1"
      using hi [of j] by simp
    then have "bit (SIGN_EXTEND x k) j \<longleftrightarrow> bit x (k - 1)"
      using j by (auto simp: bit_SIGN_EXTEND)
    then show "bit (sar (SIGN_EXTEND x k) (k - 1)) n = bit (if bit x (k - 1) then - 1 else 0 :: u32) n"
      using \<open>n < LENGTH(32)\<close> unfolding bit_sar j_def [symmetric] by simp
  qed
  then show ?thesis
    using rel_overflow_branch [of "SIGN_EXTEND x k" "k - 1"] by (auto split: if_splits)
qed

lemma arm_branch_image: "in_range 25 v \<and> v AND 1 = 0 \<longleftrightarrow> (\<exists>m. unpack_arm_branch a m = v)"
proof
  assume v: "in_range 25 v \<and> v AND 1 = 0"
  define w where "w = 0xFA000000 OR shl (shr v 1 AND 1) 24 OR (shr v 2 AND 0xFFFFFF)"
  have "IS_BLX w"
    by (simp add: w_def IS_BLX_bits codec_bits)
  moreover have "shl (w AND 0xFFFFFF) 2 OR shl (shr w 24 AND 1) 1 = v AND mask 26"
    using aligned_bits(1) [of v] v unfolding w_def by (intro word32_bits; simp add: codec_bits)
  ultimately have "unpack_arm_branch a (write32 a w (\<lambda>_. 0)) = v"
    using v SIGN_EXTEND_range [of 26 v] by (simp add: unpack_arm_branch_bits Let_def)
  then show "\<exists>m. unpack_arm_branch a m = v"
    by blast
next
  assume "\<exists>m. unpack_arm_branch a m = v"
  then obtain m where m: "unpack_arm_branch a m = v"
    by blast
  define y where "y = shl (read32 m a AND 0xFFFFFF) 2 OR (if IS_BLX (read32 m a) then shl (shr (read32 m a) 24 AND 1) 1 else 0)"
  have "y AND mask 26 = y" "SIGN_EXTEND y 26 AND 1 = 0"
    unfolding y_def by (rule word32_bits; simp add: codec_bits)+
  moreover have "v = SIGN_EXTEND y 26"
    using m by (simp add: y_def unpack_arm_branch_bits Let_def)
  ultimately show "in_range 25 v \<and> v AND 1 = 0"
    using SIGN_EXTEND_in_range [of y 26] by simp
qed

lemma thm_branch_image: "in_range 24 v \<and> v AND 1 = 0 \<longleftrightarrow> (\<exists>m. unpack_thm_branch a m = v)"
proof
  assume v: "in_range 24 v \<and> v AND 1 = 0"
  then have "unpack_thm_branch a (write_thm_branch R_ARM_THM_JUMP24 a (sar v 1 AND 0x01FFFFFF) 0 (\<lambda>_. 0)) = v"
    using unpack_thm_branch_written [of v 0 R_ARM_THM_JUMP24 a] SIGN_EXTEND_range [of 25 v] by simp
  then show "\<exists>m. unpack_thm_branch a m = v"
    by blast
next
  assume "\<exists>m. unpack_thm_branch a m = v"
  then obtain m where m: "unpack_thm_branch a m = v"
    by blast
  obtain y where y: "v = SIGN_EXTEND (shl y 1) 25" "shr y 24 = 0"
  proof -
    let ?S = "EXTRACT (ucast (read16 m a)) 10 1"
    let ?y = "shl ?S 23 OR shl (c_bool (EXTRACT (ucast (read16 m (a + 2))) 13 1 XOR ?S = 0)) 22 OR
      shl (c_bool (EXTRACT (ucast (read16 m (a + 2))) 11 1 XOR ?S = 0)) 21 OR
      shl (EXTRACT (ucast (read16 m a)) 0 10) 11 OR EXTRACT (ucast (read16 m (a + 2))) 0 11"
    have "shr ?y 24 = 0"
      by (rule word32_bits; simp add: codec_bits)
    moreover have "v = SIGN_EXTEND (shl ?y 1) 25"
      using m by (simp add: unpack_thm_branch_def Let_def)
    ultimately show thesis
      using that by blast
  qed
  have "bit y n \<Longrightarrow> n < 24" for n
    using arg_cong [OF y(2), of "\<lambda>w. bit w (n - 24)"] by (cases "n < 24") (auto simp: bit_tools dest: bit_imp_le_length)
  then have "shl y 1 AND mask 25 = shl y 1"
    by (intro bit_word_eqI) (fastforce simp: bit_tools bit_mask_iff)
  moreover have "SIGN_EXTEND (shl y 1) 25 AND 1 = 0"
    by (rule word32_bits; simp add: codec_bits)
  ultimately show "in_range 24 v \<and> v AND 1 = 0"
    using SIGN_EXTEND_in_range [of "shl y 1" 25] y(1) by simp
qed

lemma thm_jump19_image: "in_range 20 v \<and> v AND 1 = 0 \<longleftrightarrow> (\<exists>m. unpack_thm_jump19 a m = v)"
proof
  assume v: "in_range 20 v \<and> v AND 1 = 0"
  define W0 where "W0 = (ucast (shl (shr v 20 AND 1) 10 OR (shr v 12 AND 0x3F)) :: u16)"
  define W1 where "W1 = (ucast (shl (shr v 18 AND 1) 13 OR shl (shr v 19 AND 1) 11 OR (shr v 1 AND 0x7FF)) :: u16)"
  let ?m = "write16 (a + 2) W1 (write16 a W0 (\<lambda>_. 0))"
  have "read16 ?m a = W0" "read16 ?m (a + 2) = W1"
    by (simp_all add: write16_swap)
  moreover have "shl (shl (EXTRACT (ucast W0) 10 1) 19 OR shl (EXTRACT (ucast W1) 11 1) 18 OR shl (EXTRACT (ucast W1) 13 1) 17 OR
      shl (EXTRACT (ucast W0) 0 6) 11 OR EXTRACT (ucast W1) 0 11) 1 = v AND mask 21"
    using aligned_bits(1) [of v] v unfolding W0_def W1_def by (intro word32_bits; simp add: codec_bits)
  ultimately have "unpack_thm_jump19 a ?m = v"
    using v SIGN_EXTEND_range [of 21 v] by (simp add: unpack_thm_jump19_def Let_def)
  then show "\<exists>m. unpack_thm_jump19 a m = v"
    by blast
next
  assume "\<exists>m. unpack_thm_jump19 a m = v"
  then obtain m where m: "unpack_thm_jump19 a m = v"
    by blast
  define y where "y = shl (shl (EXTRACT (ucast (read16 m a)) 10 1) 19 OR shl (EXTRACT (ucast (read16 m (a + 2))) 11 1) 18 OR
    shl (EXTRACT (ucast (read16 m (a + 2))) 13 1) 17 OR shl (EXTRACT (ucast (read16 m a)) 0 6) 11 OR EXTRACT (ucast (read16 m (a + 2))) 0 11) 1"
  have "y AND mask 21 = y" "SIGN_EXTEND y 21 AND 1 = 0"
    unfolding y_def by (rule word32_bits; simp add: codec_bits)+
  moreover have "v = SIGN_EXTEND y 21"
    using m by (simp add: y_def unpack_thm_jump19_def Let_def)
  ultimately show "in_range 20 v \<and> v AND 1 = 0"
    using SIGN_EXTEND_in_range [of y 21] by simp
qed

lemma prel31_image: "in_range 30 v \<longleftrightarrow> (\<exists>m. SIGN_EXTEND (EXTRACT (read32 m a) 0 31) 31 = v)"
proof
  assume v: "in_range 30 v"
  have "EXTRACT (read32 (write32 a v (\<lambda>_. 0)) a) 0 31 = v AND mask 31"
    by (simp, rule word32_bits; simp add: codec_bits)
  then have "SIGN_EXTEND (EXTRACT (read32 (write32 a v (\<lambda>_. 0)) a) 0 31) 31 = v"
    using v SIGN_EXTEND_range [of 31 v] by simp
  then show "\<exists>m. SIGN_EXTEND (EXTRACT (read32 m a) 0 31) 31 = v"
    by blast
next
  assume "\<exists>m. SIGN_EXTEND (EXTRACT (read32 m a) 0 31) 31 = v"
  then obtain m where m: "SIGN_EXTEND (EXTRACT (read32 m a) 0 31) 31 = v"
    by blast
  have "EXTRACT (read32 m a) 0 31 AND mask 31 = EXTRACT (read32 m a) 0 31"
    by (rule word32_bits; simp add: codec_bits)
  then show "in_range 30 v"
    using SIGN_EXTEND_in_range [of "EXTRACT (read32 m a) 0 31" 31] m by simp
qed


lemma sint_nonneg:
  fixes x :: u32
  assumes "uint x < 2 ^ 31" shows "sint x = uint x"
proof -
  have "signed_take_bit 31 (uint x) = uint x"
    using assms uint_ge_0 [of x] by (intro signed_take_bit_int_eq_self; linarith)
  then show ?thesis by (simp add: sint_uint)
qed

lemma imm12_magnitude:
  fixes x :: u32
  assumes "x AND 0xFFF = x"
  shows "- 0xFFF \<le> sint x \<and> sint x \<le> 0xFFF" "- 0xFFF \<le> sint (- x) \<and> sint (- x) \<le> 0xFFF"
proof -
  have "x \<le> 0xFFF"
    by (metis assms word_and_le1)
  then have "uint x \<le> 0xFFF"
    by (simp add: word_le_def)
  then have s: "0 \<le> sint x" "sint x \<le> 0xFFF"
    using sint_nonneg [of x] uint_ge_0 [of x] by simp_all
  then show "- 0xFFF \<le> sint x \<and> sint x \<le> 0xFFF"
    by simp
  have "x \<noteq> 0x80000000"
    using \<open>x \<le> 0xFFF\<close> by auto
  then show "- 0xFFF \<le> sint (- x) \<and> sint (- x) \<le> 0xFFF"
    using s by (simp add: sint_uminus)
qed

lemma imm12_image:
  "- 0xFFF \<le> sint v \<and> sint v \<le> 0xFFF \<longleftrightarrow> (\<exists>m. unpack_imm12 (read32 m a) = v)"
  "- 0xFFF \<le> sint v \<and> sint v \<le> 0xFFF \<longleftrightarrow> (\<exists>m. unpack_thm_pc12 a m = v)"
proof -
  have "field_value t a (relocate_field t 0 a v (\<lambda>_. 0)) = v"
    if "- 0xFFF \<le> sint v \<and> sint v \<le> 0xFFF" "t \<in> {R_ARM_ABS12, R_ARM_THM_PC12}" for t
    using that by (intro imm_codec) (auto simp: fits_field_def)
  then have "\<exists>m. field_value R_ARM_ABS12 a m = v" "\<exists>m. field_value R_ARM_THM_PC12 a m = v"
    if "- 0xFFF \<le> sint v \<and> sint v \<le> 0xFFF"
    using that by blast+
  moreover have "EXTRACT x 0 12 AND 0xFFF = EXTRACT x 0 12" "EXTRACT16 y 0 12 AND 0xFFF = EXTRACT16 y 0 12" for x y
    by (rule word32_bits; simp add: codec_bits)+
  then have "- 0xFFF \<le> sint (unpack_imm12 x) \<and> sint (unpack_imm12 x) \<le> 0xFFF"
    "- 0xFFF \<le> sint (unpack_thm_pc12 a m) \<and> sint (unpack_thm_pc12 a m) \<le> 0xFFF" for x m
    using imm12_magnitude by (simp_all add: unpack_imm12_def unpack_thm_pc12_def Let_def)
  ultimately show "- 0xFFF \<le> sint v \<and> sint v \<le> 0xFFF \<longleftrightarrow> (\<exists>m. unpack_imm12 (read32 m a) = v)"
    "- 0xFFF \<le> sint v \<and> sint v \<le> 0xFFF \<longleftrightarrow> (\<exists>m. unpack_thm_pc12 a m = v)"
    unfolding field_value_def rel_unpack_addend_def by (simp_all, blast+)
qed

lemma data_image:
  fixes v :: u32
  assumes k: "LENGTH('a::len) \<le> 31"
  shows "- (2 ^ (LENGTH('a) - 1)) \<le> sint v \<and> sint v < 2 ^ LENGTH('a) \<longleftrightarrow> (\<exists>w :: 'a word. v = ucast w \<or> v = scast w)"
proof
  assume v: "- (2 ^ (LENGTH('a) - 1)) \<le> sint v \<and> sint v < 2 ^ LENGTH('a)"
  show "\<exists>w :: 'a word. v = ucast w \<or> v = scast w"
  proof (cases "0 \<le> sint v")
    case True
    then have "v AND mask LENGTH('a) = v"
      using v by (simp add: and_mask_small)
    then have "bit v i \<Longrightarrow> i < LENGTH('a)" for i
      by (metis bit_and_iff bit_mask_iff)
    then have "v = ucast (ucast v :: 'a word)"
      by (intro bit_word_eqI) (auto simp: bit_simps)
    then show ?thesis by blast
  next
    case False
    have "sint (scast (word_of_int (sint v) :: 'a word) :: u32) = sint (word_of_int (sint v) :: 'a word)"
      using k by (intro sint_up_scast) (simp add: is_up)
    also have "\<dots> = signed_take_bit (LENGTH('a) - 1) (sint v)"
      by (rule sint_sbintrunc')
    also have "\<dots> = sint v"
      using v False zero_less_power [of "2::int" "LENGTH('a) - 1"] by (intro signed_take_bit_int_eq_self; linarith)
    finally have "v = scast (word_of_int (sint v) :: 'a word)"
      by (rule signed_word_eqI [OF sym])
    then show ?thesis by blast
  qed
next
  assume "\<exists>w :: 'a word. v = ucast w \<or> v = scast w"
  then obtain w :: "'a word" where w: "v = ucast w \<or> v = scast w" by blast
  have p: "(2::int) ^ LENGTH('a) \<le> 2 ^ 31"
    using k by (rule power_increasing) simp
  have "uint (ucast w :: u32) = uint w"
    using k by (simp add: uint_up_ucast is_up)
  moreover have "uint w < 2 ^ LENGTH('a)" "0 \<le> uint w"
    by simp_all
  ultimately have "sint (ucast w :: u32) = uint w"
    using p sint_nonneg [of "ucast w"] by linarith
  moreover have "sint (scast w :: u32) = sint w"
    using k by (intro sint_up_scast) (simp add: is_up)
  moreover have "- (2 ^ (LENGTH('a) - 1)) \<le> sint w" "sint w < 2 ^ (LENGTH('a) - 1)"
    by (rule sint_ge sint_lt)+
  moreover have "(2::int) ^ (LENGTH('a) - 1) \<le> 2 ^ LENGTH('a)"
    by (rule power_increasing) simp_all
  ultimately show "- (2 ^ (LENGTH('a) - 1)) \<le> sint v \<and> sint v < 2 ^ LENGTH('a)"
    using w uint_lt2p [of w] uint_ge_0 [of w] zero_le_power [of "2::int" "LENGTH('a) - 1"]
    by (elim disjE; hypsubst; linarith)
qed

lemma small_data:
  fixes v :: u32
  shows "- 0x8000 \<le> sint v \<and> sint v \<le> 0xFFFF \<longleftrightarrow> (\<exists>w :: u16. v = ucast w \<or> v = scast w)"
    "- 0x80 \<le> sint v \<and> sint v \<le> 0xFF \<longleftrightarrow> (\<exists>b :: u8. v = ucast b \<or> v = scast b)"
  using data_image [where 'a = 16, of v] data_image [where 'a = 8, of v] by auto

end
