(* ===== verification/Reloc_Tables.thy ===== *)
theory Reloc_Tables
  imports Arm_Reloc
begin

text \<open>
  The walk over the tables of relocations in \<open>elfload/arm_reloc.c\<close>. The specification is \<open>run_blocks\<close>: for each
  segment in turn, its entries one after the other. The code resumes the table for a segment where the last segment's
  entries ended; for tables in the order of the segments this processes every entry once.
\<close>

section \<open>Every entry of a table\<close>

text \<open>What the tables are for: the entries, one after the other.\<close>

fun run_entries :: "('r \<Rightarrow> mem \<Rightarrow> (mem \<times> reloc_message list) result) \<Rightarrow> 'r list \<Rightarrow> mem \<Rightarrow> (mem \<times> reloc_message list) result" where
  "run_entries step [] m = Some (Inr (m, []))"
| "run_entries step (entry # rest) m =
     bind_result (step entry m) (\<lambda>(m1, e1).
     bind_result (run_entries step rest m1) (\<lambda>(m2, e2). Some (Inr (m2, e1 @ e2))))"

fun run_blocks :: "('g \<Rightarrow> 'r \<Rightarrow> mem \<Rightarrow> (mem \<times> reloc_message list) result) \<Rightarrow> ('g \<times> 'r list) list \<Rightarrow> mem \<Rightarrow> (mem \<times> reloc_message list) result" where
  "run_blocks step [] m = Some (Inr (m, []))"
| "run_blocks step ((seg, entries) # rest) m =
     bind_result (run_entries (step seg) entries m) (\<lambda>(m1, e1).
     bind_result (run_blocks step rest m1) (\<lambda>(m2, e2). Some (Inr (m2, e1 @ e2))))"

lemma scan_table_skip:
  "\<forall>entry\<in>set pre. \<not> inside entry \<Longrightarrow>
     scan_table inside step rid (pre @ rest) False m = scan_table inside step (rid + length pre) rest False m"
  by (induction pre arbitrary: rid) simp_all

lemma scan_table_block:
  "\<forall>entry\<in>set mid. inside entry \<Longrightarrow> \<forall>entry\<in>set post. \<not> inside entry \<Longrightarrow>
     scan_table inside step rid (mid @ post) True m =
     bind_result (run_entries step mid m) (\<lambda>(m1, e1). Some (Inr ((True, rid + length mid), m1, e1)))"
proof (induction mid arbitrary: rid m)
  case Nil
  then show ?case by (cases post) simp_all
next
  case (Cons entry mid)
  then show ?case
    by (simp add: bind_result_assoc split_def)
qed

text \<open>A scan of a table with one block of entries of the segment.\<close>

lemma scan_table_one_block:
  assumes "\<forall>entry\<in>set pre \<union> set post. \<not> inside entry" "\<forall>entry\<in>set mid. inside entry"
  shows "scan_table inside step rid (pre @ mid @ post) False m =
    bind_result (run_entries step mid m) (\<lambda>(m1, e1). Some (Inr ((mid \<noteq> [],
      rid + length pre + (if mid = [] then length post else length mid)), m1, e1)))"
proof -
  have skip: "scan_table inside step rid (pre @ mid @ post) False m
      = scan_table inside step (rid + length pre) (mid @ post) False m"
    using assms(1) by (intro scan_table_skip) auto
  show ?thesis
  proof (cases mid)
    case Nil
    then show ?thesis
      using skip scan_table_skip [of post inside step "rid + length pre" "[]" m] assms(1) by simp
  next
    case (Cons entry rest)
    then show ?thesis
      using skip scan_table_block [of rest inside post step "Suc (rid + length pre)"] assms
      by (simp add: bind_result_assoc split_def)
  qed
qed

text \<open>
  A table in the order of the segments: its blocks, one for each segment. \<open>at\<close> is where the block of a segment begins.
\<close>

fun grouped :: "DLIMP_Loaded_Segment list \<Rightarrow> Elf32_Rel list list \<Rightarrow> bool" where
  "grouped [] blocks = (blocks = [])"
| "grouped (seg # segs) [] = False"
| "grouped (seg # segs) (block # blocks) =
     (p_filesz (phdr seg) \<noteq> 0 \<and> list_all (\<lambda>r. in_segment seg (r_offset r)) block \<and>
      list_all (list_all (\<lambda>r. \<not> in_segment seg (r_offset r))) blocks \<and>
      list_all (\<lambda>s. list_all (\<lambda>r. \<not> in_segment s (r_offset r)) block) segs \<and> grouped segs blocks)"

lemma process_rel_table_block:
  assumes pre: "list_all (\<lambda>r. \<not> in_segment seg (r_offset r)) pre"
    and post: "list_all (\<lambda>r. \<not> in_segment seg (r_offset r)) post"
    and mid: "list_all (\<lambda>r. in_segment seg (r_offset r)) mid"
    and start: "start \<le> length pre \<or> length (pre @ mid @ post) \<le> start"
  shows "process_rel_table env seg (pre @ mid @ post) start dyn_module m =
    bind_result (run_entries (do_rel_entry env dyn_module seg) mid m) (\<lambda>(m1, e1). Some (Inr ((mid \<noteq> [],
      length pre + (if mid = [] then length post else length mid)), m1, e1)))"
proof -
  let ?inside = "\<lambda>r. in_segment seg (r_offset r)"
  define s where "s = (if length (pre @ mid @ post) \<le> start then 0 else start)"
  have "s \<le> length pre" using start by (auto simp: s_def)
  then have table: "drop s (pre @ mid @ post) = drop s pre @ mid @ post"
    and len: "s + length (drop s pre) = length pre"
    by simp_all
  have "set (drop s pre) \<subseteq> set pre" by (rule set_drop_subset)
  then have out: "\<forall>r\<in>set (drop s pre) \<union> set post. \<not> ?inside r" and "\<forall>r\<in>set mid. ?inside r"
    using pre post mid by (auto simp: list_all_iff)
  then have "scan_table ?inside (do_rel_entry env dyn_module seg) s (drop s pre @ mid @ post) False m =
    bind_result (run_entries (do_rel_entry env dyn_module seg) mid m) (\<lambda>(m1, e1). Some (Inr ((mid \<noteq> [],
      s + length (drop s pre) + (if mid = [] then length post else length mid)), m1, e1)))"
    by (rule scan_table_one_block)
  then show ?thesis
    unfolding process_rel_table_def Let_def s_def [symmetric] table len .
qed

lemma process_got_segments_grouped:
  assumes "grouped segs blocks"
    and "\<forall>seg\<in>set segs. list_all (\<lambda>r. \<not> in_segment seg (r_offset r)) pre"
    and "start \<le> length pre \<or> length (pre @ concat blocks) \<le> start"
  shows "process_got_segments env (Some (pre @ concat blocks)) None dyn_module segs start rela_rid m =
    run_blocks (do_rel_entry env dyn_module) (zip segs blocks) m"
  using assms
proof (induction segs blocks arbitrary: pre start m rule: grouped.induct)
  case (3 seg segs block blocks)
  let ?t = "concat blocks"
  have first: "process_rel_table env seg (pre @ block @ ?t) start dyn_module m =
    bind_result (run_entries (do_rel_entry env dyn_module seg) block m) (\<lambda>(m1, e1). Some (Inr ((block \<noteq> [],
      length pre + (if block = [] then length ?t else length block)), m1, e1)))"
    using "3.prems" by (intro process_rel_table_block) (auto simp: list_all_iff)
  have tail: "process_got_segments env (Some (pre @ block @ ?t)) None dyn_module segs
      (length pre + (if block = [] then length ?t else length block)) rela_rid m1 =
    run_blocks (do_rel_entry env dyn_module) (zip segs blocks) m1" for m1
  proof -
    have "\<forall>seg\<in>set segs. list_all (\<lambda>r. \<not> in_segment seg (r_offset r)) (pre @ block)" and "grouped segs blocks"
      using "3.prems" by (auto simp: list_all_iff)
    then show ?thesis
      using "3.IH" [of "pre @ block" "length pre + (if block = [] then length ?t else length block)" m1] by simp
  qed
  show ?case
    using "3.prems" by (simp add: first tail bind_result_assoc split_def)
qed simp_all

text \<open>C30: If the table of relocations lists the entries in the order of the segments, the pass over the segments
  processes every entry exactly once and in the order of the table.\<close>

theorem process_got_relocs_complete:
  assumes "grouped (loaded_segments (loaded_module dyn_module)) blocks"
  shows "process_got_relocs env (Some (concat blocks)) None dyn_module m =
    run_blocks (do_rel_entry env dyn_module) (zip (loaded_segments (loaded_module dyn_module)) blocks) m"
  using process_got_segments_grouped [OF assms, of "[]" 0] by (simp add: process_got_relocs_def)

section \<open>Sample modules\<close>

definition sample_segment :: "u32 \<Rightarrow> DLIMP_Loaded_Segment" where
  "sample_segment a = \<lparr> phdr = \<lparr> p_type = 1, p_offset = 0, p_vaddr = a, p_paddr = a, p_filesz = 0x10, p_memsz = 0x10, p_flags = 6, p_align = 4 \<rparr>, input_vaddr = a, reloc_offset = 0 \<rparr>"

definition sample_module :: "DLIMP_Loaded_Segment list \<Rightarrow> Elf32_Dyn list \<Rightarrow> DLIMP_Dynamic_Module" where
  "sample_module segs tags = \<lparr> fhdr = \<lparr> e_ident = [], e_type = 3, e_machine = 40, e_version = 1, e_entry = 0, e_phoff = 0, e_shoff = 0,
     e_flags = 0, e_ehsize = 52, e_phentsize = 32, e_phnum = 3, e_shentsize = 0, e_shnum = 0, e_shstrndx = 0 \<rparr>,
     strtab = 0, strsz = 0, dyntab = tags,
     symtab = [\<lparr> st_name = 0, st_value = 0x1000, st_size = 4, st_info = 1, st_other = 0, st_shndx = 1 \<rparr>],
     symnum = 1, gsymtab_offset = 0, gstrtab_offset = 0,
     loaded_module = \<lparr> file_handle = 1, gsymtab = [], gsymnum = 0, gstrtab = 0, gstrsz = 0, loaded_segments = segs,
        dependencies = [], direct_dependent_only = False, lm_name = [], use_count = 1, entry_point = 0, fini = 0, fini_array = 0, fini_arraysz = 0 \<rparr>,
     wrong_endian = False, dsbt_index = 0, dsbt_size = 0, dsbt_base_tagidx = 0xFFFFFFFF, dm_name = None,
     dm_phdr = [], phnum = 0, strbuf = [], c_args = 0, dm_direct_dependent_only = True, is_relocatable = True,
     relocate_entry_point = False, preinit_array_idx = 0xFFFFFFFF, preinit_arraysz = 0, init_idx = 0xFFFFFFFF,
     init_array_idx = 0xFFFFFFFF, init_arraysz = 0 \<rparr>"

definition sample_env :: reloc_env where
  "sample_env = \<lparr> lookup_malloc = (\<lambda>_. True), application_handle = 1, loaded_objects = [], stale_symval = 0, stale_addend = 0,
     static_base_name = 0, DLIF_get_dsbt_index = (\<lambda>_. 0) \<rparr>"

definition abs32_at :: "u32 \<Rightarrow> Elf32_Rel" where
  "abs32_at a = \<lparr> r_offset = a, r_info = 2 \<rparr>"

definition words_after :: "(mem \<times> 'e) result \<Rightarrow> u32 list \<Rightarrow> u32 list" where
  "words_after r as = (case r of Some (Inr (m, e)) \<Rightarrow> map (read32 m) as | _ \<Rightarrow> [])"

theorem process_got_relocs_complete_witness:
  "process_got_relocs sample_env (Some (concat [[abs32_at 0x100], [], [abs32_at 0x300, abs32_at 0x304]])) None
      (sample_module [sample_segment 0x100, sample_segment 0x200, sample_segment 0x300] []) (\<lambda>_. 0) =
    run_blocks (do_rel_entry sample_env (sample_module [sample_segment 0x100, sample_segment 0x200, sample_segment 0x300] []))
      (zip (loaded_segments (loaded_module (sample_module [sample_segment 0x100, sample_segment 0x200, sample_segment 0x300] [])))
         [[abs32_at 0x100], [], [abs32_at 0x300, abs32_at 0x304]]) (\<lambda>_. 0)"
proof (rule process_got_relocs_complete)
  show "grouped (loaded_segments (loaded_module (sample_module [sample_segment 0x100, sample_segment 0x200, sample_segment 0x300] [])))
     [[abs32_at 0x100], [], [abs32_at 0x300, abs32_at 0x304]]"
    by code_simp
qed

text \<open>In a table that lists the segments in another order entries are lost: three words in three segments are to
  be relocated, the table begins with that of the second segment, and this one is never relocated. No message
  is printed. In the order of the segments all three are.\<close>

theorem block_out_of_order_lost:
  "words_after (process_got_relocs sample_env (Some [abs32_at 0x200, abs32_at 0x100, abs32_at 0x300]) None
      (sample_module [sample_segment 0x100, sample_segment 0x200, sample_segment 0x300] []) (\<lambda>_. 0)) [0x100, 0x200, 0x300]
     = [0x1000, 0, 0x1000] \<and>
   words_after (process_got_relocs sample_env (Some [abs32_at 0x100, abs32_at 0x200, abs32_at 0x300]) None
      (sample_module [sample_segment 0x100, sample_segment 0x200, sample_segment 0x300] []) (\<lambda>_. 0)) [0x100, 0x200, 0x300]
     = [0x1000, 0x1000, 0x1000]"
  by code_simp

end
