(* ===== verification/Reloc_Frame.thy ===== *)
theory Reloc_Frame
  imports Arm_Roundtrip Reloc_Tables
begin

text \<open>
  Which memory a run of the relocator can change: only that of the loaded segments, up to the three bytes by which
  a relocation at the end of a segment can stick out. \<open>keeps\<close> says that a run leaves one byte alone whenever it returns.
\<close>

section \<open>Segments in memory\<close>

definition segment_memory :: "DLIMP_Loaded_Segment \<Rightarrow> u32 set" where
  "segment_memory seg =
     {b. unat (b - (p_vaddr (phdr seg) + reloc_offset seg)) < unat (p_memsz (phdr seg)) + 3}"

lemma in_segment_offset:
  assumes "in_segment seg r_off"
  shows "unat (r_off - input_vaddr seg) < unat (p_memsz (phdr seg))"
proof -
  have lo: "input_vaddr seg \<le> r_off" and hi: "r_off < input_vaddr seg + p_memsz (phdr seg)"
    using assms by (simp_all add: in_segment_def)
  have "unat (input_vaddr seg + p_memsz (phdr seg)) \<le> unat (input_vaddr seg) + unat (p_memsz (phdr seg))"
    by (simp add: unat_word_ariths)
  moreover have "unat (r_off - input_vaddr seg) = unat r_off - unat (input_vaddr seg)"
    using lo by (rule unat_sub)
  ultimately show ?thesis
    using lo hi by (simp add: word_less_nat_alt word_le_nat_alt)
qed

lemma site_in_segment:
  assumes "in_segment seg r_off" "b \<in> cells (reloc_address seg r_off) n" "n \<le> 4"
  shows "b \<in> segment_memory seg"
proof -
  obtain i where i: "i < n" "b = reloc_address seg r_off + of_nat i"
    using assms(2) by (auto simp: cells_def)
  have "b - (p_vaddr (phdr seg) + reloc_offset seg) = (r_off - input_vaddr seg) + of_nat i"
    by (simp add: i reloc_address_def algebra_simps)
  moreover have "unat ((r_off - input_vaddr seg) + of_nat i) \<le> unat (r_off - input_vaddr seg) + unat (of_nat i :: u32)"
    by (simp only: unat_word_ariths mod_less_eq_dividend)
  moreover have "unat (of_nat i :: u32) \<le> 3"
    using i(1) assms(3) by (simp add: unat_of_nat)
  ultimately show ?thesis
    using in_segment_offset [OF assms(1)] by (simp add: segment_memory_def)
qed

lemma container_size_le: "container_size r_type \<le> 4"
  by (simp add: container_size_def split: ARM_RELOC_SIZE.split)

section \<open>What a run leaves alone\<close>

definition keeps :: "u32 \<Rightarrow> ('a \<Rightarrow> mem) \<Rightarrow> mem \<Rightarrow> 'a result \<Rightarrow> bool" where
  "keeps b mem_of m r \<longleftrightarrow> (\<forall>x. r = Some (Inr x) \<longrightarrow> mem_of x b = m b)"

lemma keeps_simps [simp]:
  "keeps b f m None" "keeps b f m (Some (Inl e))" "keeps b f m (Some (Inr x)) \<longleftrightarrow> f x b = m b"
  by (simp_all add: keeps_def)

lemma keeps_bind:
  assumes "keeps b f m r" "\<And>x. f x b = m b \<Longrightarrow> keeps b g (f x) (h x)"
  shows "keeps b g m (bind_result r h)"
  using assms unfolding keeps_def bind_result_eq_Inr by metis

lemma keeps_bind_pure: "(\<And>x. keeps b g m (h x)) \<Longrightarrow> keeps b g m (bind_result r h)"
  unfolding keeps_def bind_result_eq_Inr by metis

lemma keeps_map: "keeps b f m r \<Longrightarrow> (\<And>x. g (k x) = f x) \<Longrightarrow> keeps b g m (bind_result r (\<lambda>x. Some (Inr (k x))))"
  by (auto simp: keeps_def bind_result_eq_Inr)

lemma scan_table_keeps:
  assumes "\<And>entry m. inside entry \<Longrightarrow> keeps b fst m (step entry m)"
  shows "keeps b (\<lambda>x. fst (snd x)) m (scan_table inside step rid entries found m)"
proof (induction entries arbitrary: rid found m)
  case (Cons entry rest)
  show ?case
  proof (cases "inside entry")
    case True
    show ?thesis
      unfolding scan_table.simps if_P [OF True] case_prod_beta
      by (intro keeps_bind [OF assms [OF True]] keeps_map [OF Cons.IH]) simp
  qed (simp add: Cons.IH)
qed simp

section \<open>The ARM relocator\<close>

lemma relocated_at:
  assumes "b \<notin> cells a 4"
  shows "fst (reloc_do r_type a addend symval pc m) b = m b" "rel_change_endian r_type a m b = m b"
proof -
  have "cells a (container_size r_type) \<subseteq> cells a 4"
    using container_size_le [of r_type] by (auto simp: cells_def)
  then have "b \<notin> cells a (container_size r_type)" using assms by blast
  then show "fst (reloc_do r_type a addend symval pc m) b = m b" "rel_change_endian r_type a m b = m b"
    by (rule acts_within_frame [OF reloc_do_within] acts_within_frame [OF rel_change_endian_within])+
qed

lemma site_apart:
  "b \<notin> segment_memory seg \<Longrightarrow> in_segment seg r_off \<Longrightarrow> b \<notin> cells (reloc_address seg r_off) 4"
  using site_in_segment [of seg r_off b 4] by auto

lemma do_rel_entry_keeps:
  assumes "b \<notin> segment_memory seg" "in_segment seg (r_offset entry)"
  shows "keeps b fst m (do_rel_entry env dyn_module seg entry m)"
  unfolding do_rel_entry_def Let_def case_prod_beta
  by (intro keeps_bind_pure) (simp add: relocated_at [OF site_apart [OF assms]])

lemma do_rela_entry_keeps:
  assumes "b \<notin> segment_memory seg" "in_segment seg (r_offset entry)"
  shows "keeps b fst m (do_rela_entry env dyn_module seg entry m)"
  unfolding do_rela_entry_def Let_def case_prod_beta
  by (intro keeps_bind_pure) (simp add: relocated_at [OF site_apart [OF assms]])

lemma process_rel_table_keeps:
  "b \<notin> segment_memory seg \<Longrightarrow> keeps b (\<lambda>x. fst (snd x)) m (process_rel_table env seg t rid dyn_module m)"
  unfolding process_rel_table_def Let_def by (intro scan_table_keeps do_rel_entry_keeps)

lemma process_rela_table_keeps:
  "b \<notin> segment_memory seg \<Longrightarrow> keeps b (\<lambda>x. fst (snd x)) m (process_rela_table env seg t rid dyn_module m)"
  unfolding process_rela_table_def Let_def by (intro scan_table_keeps do_rela_entry_keeps)

lemma next_rid_keeps:
  "keeps b (\<lambda>x. fst (snd x)) m r \<Longrightarrow>
     keeps b (\<lambda>x. fst (snd x)) m (bind_result r (\<lambda>((found, rid), m1, e1). Some (Inr (rid, m1, e1))))"
  unfolding case_prod_beta by (rule keeps_map) simp_all

lemma process_got_segments_keeps:
  "\<forall>seg\<in>set segs. b \<notin> segment_memory seg \<Longrightarrow>
     keeps b fst m (process_got_segments env rel_table rela_table dyn_module segs rel_rid rela_rid m)"
proof (induction segs arbitrary: rel_rid rela_rid m)
  case (Cons seg segs)
  then have seg: "b \<notin> segment_memory seg" and IH:
    "keeps b fst m (process_got_segments env rel_table rela_table dyn_module segs rel_rid rela_rid m)" for rel_rid rela_rid m
    by simp_all
  have rela: "keeps b (\<lambda>x. fst (snd x)) m (case rela_table of None \<Rightarrow> Some (Inr (rela_rid, m, []))
      | Some t \<Rightarrow> bind_result (process_rela_table env seg t rela_rid dyn_module m)
          (\<lambda>((found, rid), m1, e1). Some (Inr (rid, m1, e1))))" for m
    by (cases rela_table) (simp_all add: next_rid_keeps process_rela_table_keeps seg)
  have rel: "keeps b (\<lambda>x. fst (snd x)) m (case rel_table of None \<Rightarrow> Some (Inr (rel_rid, m, []))
      | Some t \<Rightarrow> bind_result (process_rel_table env seg t rel_rid dyn_module m)
          (\<lambda>((found, rid), m1, e1). Some (Inr (rid, m1, e1))))" for m
    by (cases rel_table) (simp_all add: next_rid_keeps process_rel_table_keeps seg)
  show ?case
  proof (cases "p_filesz (phdr seg) = 0")
    case False
    show ?thesis
      unfolding process_got_segments.simps if_not_P [OF False]
      by (rule keeps_bind [OF rela], unfold case_prod_beta, rule keeps_bind [OF rel [unfolded case_prod_beta]],
          rule keeps_map [OF IH], simp)
  qed (simp add: IH)
qed simp


lemma plt_segment_in: "plt_segment r_off segs = Some seg \<Longrightarrow> seg \<in> set segs"
  by (induction segs) (auto split: if_splits)

lemma process_pltgot_relocs_keeps:
  assumes "\<forall>seg\<in>set (loaded_segments (loaded_module dyn_module)). b \<notin> segment_memory seg"
  shows "keeps b fst m (process_pltgot_relocs env plt dyn_module m)"
proof -
  have fin: "keeps b (\<lambda>x. fst (snd x)) m r \<Longrightarrow>
      keeps b fst m (bind_result r (\<lambda>((found, rid), m1, e1). Some (Inr (m1, e1))))" for r :: "((bool \<times> nat) \<times> mem \<times> reloc_message list) result"
    unfolding case_prod_beta by (rule keeps_map) simp_all
  show ?thesis
    using assms unfolding process_pltgot_relocs_def Let_def
    by (auto split: plt_table.split list.split option.split dest!: plt_segment_in
        intro!: fin process_rel_table_keeps process_rela_table_keeps)
qed

lemma DLREL_relocate_keeps:
  assumes "\<forall>seg\<in>set (loaded_segments (loaded_module dyn_module)). b \<notin> segment_memory seg"
  shows "keeps b fst m (DLREL_relocate env malloc_ok elf_file dyn_module m)"
proof -
  have plt: "keeps b fst m (case plt of None \<Rightarrow> Some (Inr (m, [])) | Some t \<Rightarrow> process_pltgot_relocs env t dyn_module m)" for plt
    by (cases plt) (simp_all add: process_pltgot_relocs_keeps assms)
  have got: "keeps b fst m (if c then process_got_relocs env rel_table rela_table dyn_module m else Some (Inr (m, [])))"
    for c m rel_table rela_table
    by (simp add: process_got_relocs_def process_got_segments_keeps assms)
  show ?thesis
    unfolding DLREL_relocate_def case_prod_beta
    by (rule keeps_bind_pure, rule keeps_bind_pure, rule keeps_bind [OF plt], rule keeps_map [OF got], simp)
qed

text \<open>C24: Relocation of a whole module changes no memory but that of its loaded segments: a byte that differs
  afterwards lies in a segment, or at most three bytes past its end.\<close>

theorem DLREL_relocate_stays_in_segments:
  assumes "DLREL_relocate env malloc_ok elf_file dyn_module m = Some (Inr (m', messages))" and "m' b \<noteq> m b"
  shows "\<exists>seg\<in>set (loaded_segments (loaded_module dyn_module)). 
     unat (b - (p_vaddr (phdr seg) + reloc_offset seg)) < unat (p_memsz (phdr seg)) + 3"
  using DLREL_relocate_keeps [of dyn_module b m env malloc_ok elf_file] assms
  by (auto simp: keeps_def segment_memory_def)

definition one_rela_file :: mem where
  "one_rela_file = write32 0x48 0x20 (write32 0x44 2 (write32 0x40 0x100 (\<lambda>_. 0)))"

definition one_rela_module :: DLIMP_Dynamic_Module where
  "one_rela_module = sample_module [sample_segment 0x100]
     [\<lparr> d_tag = DT_RELA, d_un = 0x40 \<rparr>, \<lparr> d_tag = DT_RELASZ, d_un = 12 \<rparr>, \<lparr> d_tag = DT_RELAENT, d_un = 12 \<rparr>,
      \<lparr> d_tag = DT_NULL, d_un = 0 \<rparr>]"

lemma one_rela_run:
  "(case DLREL_relocate sample_env (\<lambda>_. True) one_rela_file one_rela_module (\<lambda>_. 0) of
      Some (Inr (m', messages)) \<Rightarrow> m' 0x101 \<noteq> 0 | _ \<Rightarrow> False)"
  by code_simp

lemma one_rela_obtains:
  obtains m' messages where
    "DLREL_relocate sample_env (\<lambda>_. True) one_rela_file one_rela_module (\<lambda>_. 0) = Some (Inr (m', messages))" "m' 0x101 \<noteq> 0"
  using one_rela_run by (auto split: option.splits sum.splits)

theorem DLREL_relocate_stays_in_segments_witness:
  "\<exists>seg\<in>set (loaded_segments (loaded_module one_rela_module)).
     unat (0x101 - (p_vaddr (phdr seg) + reloc_offset seg)) < unat (p_memsz (phdr seg)) + 3"
proof -
  obtain m' messages where
    "DLREL_relocate sample_env (\<lambda>_. True) one_rela_file one_rela_module (\<lambda>_. 0) = Some (Inr (m', messages))"
    and "m' 0x101 \<noteq> 0"
    by (rule one_rela_obtains)
  then show ?thesis by (intro DLREL_relocate_stays_in_segments) simp_all
qed

end
