(* ===== verification/Arm_Props.thy ===== *)
theory Arm_Props
  imports Arm_Groups Arm_Ranges Reloc_Frame
begin

text \<open>
  The properties of a single ARM relocation, and closed examples of the types for which the code that writes a
  field and the code that reads it do not agree.
\<close>

section \<open>One relocation\<close>

text \<open>The types of relocation whose field is read the way it is written. Among the others are \<open>THM_JUMP19\<close>, \<open>PREL31\<close>, \<open>PLT32\<close>,
  the MOVT halves and the group relocations; the last section has examples of what they lose.\<close>

definition consistent_types :: "ARM_RELOC_TYPE list" where
  "consistent_types =
     [R_ARM_ABS32, R_ARM_REL32, R_ARM_ABS32_NOI, R_ARM_REL32_NOI, R_ARM_ABS16, R_ARM_ABS8, R_ARM_CALL, R_ARM_PC24,
      R_ARM_JUMP24, R_ARM_THM_CALL, R_ARM_THM_JUMP24, R_ARM_THM_JUMP11, R_ARM_THM_JUMP8, R_ARM_THM_JUMP6, R_ARM_THM_ABS5,
      R_ARM_THM_PC8, R_ARM_MOVW_ABS_NC, R_ARM_MOVW_PREL_NC, R_ARM_THM_MOVW_ABS_NC, R_ARM_THM_MOVW_PREL_NC, R_ARM_ABS12,
      R_ARM_THM_PC12]"

text \<open>C28: One relocation, read back, for the 22 types of \<open>consistent_types\<close> and no others: if the value computed for it
  is one that the field of its type can hold (in its range and, for a branch, aligned), and a branch
  relocated by \<open>JUMP24\<close> is not a BLX, then \<open>reloc_do\<close> prints nothing and \<open>rel_unpack_addend\<close> at the same place gives exactly
  this value. So a module whose REL entries are of these types can be relocated again.\<close>

theorem reloc_do_roundtrip:
  assumes "r_type \<in> set consistent_types"
    and "arm_reloc_value r_type addend symval pc = (v, e)" "fits_field r_type v" "site_ok r_type a m"
    and "reloc_do r_type a addend symval pc m = (m', messages)"
  shows "messages = [] \<and> rel_unpack_addend r_type a x m' = (v, [])"
proof -
  have "fst (arm_reloc_value r_type addend symval pc) = v" using assms(2) by simp
  with reloc_do_fits [of r_type addend symval pc a m] assms(3-)
  have "messages = []" "m' = relocate_field r_type symval a v m" by simp_all
  with assms show ?thesis by (simp add: fits_field_messages arm_field.rd_wr)
qed

theorem reloc_do_roundtrip_witness:
  "snd (reloc_do R_ARM_CALL 0x8000 0xFFFFFFF8 0x9000 0x8000 (write32 0x8000 0xEBFFFFFE (\<lambda>_. 0))) = [] \<and>
   rel_unpack_addend R_ARM_CALL 0x8000 0 (fst (reloc_do R_ARM_CALL 0x8000 0xFFFFFFF8 0x9000 0x8000
      (write32 0x8000 0xEBFFFFFE (\<lambda>_. 0)))) = (0xFF8, [])"
  by (rule reloc_do_roundtrip [where addend = "0xFFFFFFF8" and symval = "0x9000" and pc = "0x8000" and e = "[]"
        and m = "write32 0x8000 0xEBFFFFFE (\<lambda>_. 0)"])
     (simp_all add: consistent_types_def arm_reloc_value_def OPND_S_def OPND_T_def fits_field_def in_range_def site_ok_def)

text \<open>C34: Relocations of different places do not interfere: two whose containers are disjoint can be done in either order,
  for all types and all values.\<close>

theorem reloc_do_commute:
  assumes "cells a (container_size r_type) \<inter> cells b (container_size r_type') = {}"
  shows "fst (reloc_do r_type a addend symval pc (fst (reloc_do r_type' b addend' symval' pc' m)))
    = fst (reloc_do r_type' b addend' symval' pc' (fst (reloc_do r_type a addend symval pc m)))"
  by (rule acts_within_commute [OF reloc_do_within reloc_do_within assms])


theorem reloc_do_commute_witness:
  "fst (reloc_do R_ARM_ABS32 0x100 1 2 3 (fst (reloc_do R_ARM_THM_JUMP24 0x104 4 5 6 (\<lambda>_. 0)))) =
   fst (reloc_do R_ARM_THM_JUMP24 0x104 4 5 6 (fst (reloc_do R_ARM_ABS32 0x100 1 2 3 (\<lambda>_. 0))))"
  by (rule reloc_do_commute) (simp add: container_size_def get_reloc_size_def cells_4)

text \<open>C35: The range check of \<open>rel_overflow\<close>, for the eleven types that it checks. A branch (\<open>CALL\<close>, \<open>PC24\<close>, \<open>JUMP24\<close>,
  \<open>THM_CALL\<close>, \<open>THM_JUMP24\<close>, \<open>THM_JUMP19\<close>) is reported as overflowing if and only if its value is outside the range of the
  type, and the even values that pass are exactly those that the field can hold: the values that
  \<open>rel_unpack_addend\<close> reads from it for some contents of the memory. An odd value, which the field loses, is not reported.
  For \<open>PREL31\<close> the values that pass are exactly those that the field can hold; for \<open>ABS12\<close> and \<open>THM_PC12\<close> they are
  these and $-2^{31}$, whose magnitude is not representable and escapes the check. For \<open>ABS16\<close> and \<open>ABS8\<close> they
  are the words which are a 16-bit (8-bit) datum extended with or without its sign. The other types are not checked here:
  the checks of the group relocations are made by the functions that write them.\<close>

theorem rel_overflow_exact:
  "(rel_overflow R_ARM_CALL v \<longleftrightarrow> \<not> in_range 25 v) \<and> (rel_overflow R_ARM_JUMP24 v \<longleftrightarrow> \<not> in_range 25 v) \<and>
   (rel_overflow R_ARM_PC24 v \<longleftrightarrow> \<not> in_range 25 v) \<and> (rel_overflow R_ARM_THM_CALL v \<longleftrightarrow> \<not> in_range 24 v) \<and>
   (rel_overflow R_ARM_THM_JUMP24 v \<longleftrightarrow> \<not> in_range 24 v) \<and> (rel_overflow R_ARM_THM_JUMP19 v \<longleftrightarrow> \<not> in_range 20 v) \<and>
   (rel_overflow R_ARM_PREL31 v \<longleftrightarrow> \<not> in_range 30 v) \<and>
   (rel_overflow R_ARM_ABS12 v \<longleftrightarrow> v \<noteq> 0x80000000 \<and> \<not> (- 0xFFF \<le> sint v \<and> sint v \<le> 0xFFF)) \<and>
   (rel_overflow R_ARM_THM_PC12 v \<longleftrightarrow> v \<noteq> 0x80000000 \<and> \<not> (- 0xFFF \<le> sint v \<and> sint v \<le> 0xFFF)) \<and>
   (\<not> rel_overflow R_ARM_CALL v \<and> v AND 1 = 0 \<longleftrightarrow> (\<exists>m. fst (rel_unpack_addend R_ARM_CALL a x m) = v)) \<and>
   (\<not> rel_overflow R_ARM_JUMP24 v \<and> v AND 1 = 0 \<longleftrightarrow> (\<exists>m. fst (rel_unpack_addend R_ARM_JUMP24 a x m) = v)) \<and>
   (\<not> rel_overflow R_ARM_PC24 v \<and> v AND 1 = 0 \<longleftrightarrow> (\<exists>m. fst (rel_unpack_addend R_ARM_PC24 a x m) = v)) \<and>
   (\<not> rel_overflow R_ARM_THM_CALL v \<and> v AND 1 = 0 \<longleftrightarrow> (\<exists>m. fst (rel_unpack_addend R_ARM_THM_CALL a x m) = v)) \<and>
   (\<not> rel_overflow R_ARM_THM_JUMP24 v \<and> v AND 1 = 0 \<longleftrightarrow> (\<exists>m. fst (rel_unpack_addend R_ARM_THM_JUMP24 a x m) = v)) \<and>
   (\<not> rel_overflow R_ARM_THM_JUMP19 v \<and> v AND 1 = 0 \<longleftrightarrow> (\<exists>m. fst (rel_unpack_addend R_ARM_THM_JUMP19 a x m) = v)) \<and>
   (\<not> rel_overflow R_ARM_PREL31 v \<longleftrightarrow> (\<exists>m. fst (rel_unpack_addend R_ARM_PREL31 a x m) = v)) \<and>
   (\<not> rel_overflow R_ARM_ABS12 v \<longleftrightarrow> v = 0x80000000 \<or> (\<exists>m. fst (rel_unpack_addend R_ARM_ABS12 a x m) = v)) \<and>
   (\<not> rel_overflow R_ARM_THM_PC12 v \<longleftrightarrow> v = 0x80000000 \<or> (\<exists>m. fst (rel_unpack_addend R_ARM_THM_PC12 a x m) = v)) \<and>
   (\<not> rel_overflow R_ARM_ABS16 v \<longleftrightarrow> (\<exists>w :: u16. v = ucast w \<or> v = scast w)) \<and>
   (\<not> rel_overflow R_ARM_ABS8 v \<longleftrightarrow> (\<exists>b :: u8. v = ucast b \<or> v = scast b))"
proof -
  have image:
    "fst (rel_unpack_addend R_ARM_CALL a x m) = unpack_arm_branch a m" "fst (rel_unpack_addend R_ARM_JUMP24 a x m) = unpack_arm_branch a m"
    "fst (rel_unpack_addend R_ARM_PC24 a x m) = unpack_arm_branch a m" "fst (rel_unpack_addend R_ARM_THM_CALL a x m) = unpack_thm_branch a m"
    "fst (rel_unpack_addend R_ARM_THM_JUMP24 a x m) = unpack_thm_branch a m"
    "fst (rel_unpack_addend R_ARM_THM_JUMP19 a x m) = unpack_thm_jump19 a m"
    "fst (rel_unpack_addend R_ARM_PREL31 a x m) = SIGN_EXTEND (EXTRACT (read32 m a) 0 31) 31"
    "fst (rel_unpack_addend R_ARM_ABS12 a x m) = unpack_imm12 (read32 m a)"
    "fst (rel_unpack_addend R_ARM_THM_PC12 a x m) = unpack_thm_pc12 a m" for m
    by (simp_all add: rel_unpack_addend_def)
  show ?thesis
    by (simp only: rel_overflow_ranges image not_not de_Morgan_conj arm_branch_image [symmetric] thm_branch_image [symmetric]
      thm_jump19_image [symmetric] prel31_image [symmetric] imm12_image [symmetric] small_data [symmetric] simp_thms) blast
qed

lemma SIGN_EXTEND_low: "SIGN_EXTEND (v AND mask 16) 16 AND 0xFFFF = v AND 0xFFFF"
  by (rule word32_bits; simp add: codec_bits)

lemma SIGN_EXTEND_high: "shl (SIGN_EXTEND (sar v 16 AND mask 16) 16) 16 = v AND 0xFFFF0000"
  by (rule word32_bits; simp add: codec_bits)

lemma movw_movt_fields:
  assumes "(movw, movt) \<in> {(R_ARM_MOVW_ABS_NC, R_ARM_MOVT_ABS), (R_ARM_THM_MOVW_ABS_NC, R_ARM_THM_MOVT_ABS)}"
  shows "field_value movw a (fst (reloc_do movw a addend symval pc m)) =
      SIGN_EXTEND (((OPND_S symval + addend) OR OPND_T symval) AND mask 16) 16"
    "field_value movt a (fst (reloc_do movt a addend symval pc m)) =
      SIGN_EXTEND (sar (OPND_S symval + addend) 16 AND mask 16) 16"
    "container_size movw = 4" "container_size movt = 4"
  using assms unpack_movw_written [of "read32 m a" "(OPND_S symval + addend) OR OPND_T symval"]
    unpack_movw_written [of "read32 m a" "sar (OPND_S symval + addend) 16"]
    unpack_thm_movw_written [of a "(OPND_S symval + addend) OR OPND_T symval" m]
    unpack_thm_movw_written [of a "sar (OPND_S symval + addend) 16" m]
  by (auto simp: relocate_simps reloc_do_def arm_reloc_value_def rel_overflow_def write_movw_def Let_def
    container_size_def get_reloc_size_def)

text \<open>The pair MOVW and MOVT loads the address of the symbol with its Thumb bit: the two immediates, each relocated in
  its own instruction, are the low and the high half of it. There is no range to check.\<close>

theorem movw_movt_pair:
  assumes pair: "(movw, movt) \<in> {(R_ARM_MOVW_ABS_NC, R_ARM_MOVT_ABS), (R_ARM_THM_MOVW_ABS_NC, R_ARM_THM_MOVT_ABS)}"
    and apart: "cells a 4 \<inter> cells b 4 = {}"
    and "m1 = fst (reloc_do movw a addend symval pc m)"
    and "m2 = fst (reloc_do movt b addend symval pc' m1)"
  shows "(fst (rel_unpack_addend movw a x m2) AND 0xFFFF) OR shl (fst (rel_unpack_addend movt b y m2)) 16 =
    (OPND_S symval + addend) OR OPND_T symval"
proof -
  let ?v = "OPND_S symval + addend"
  have "field_value movw a m2 = field_value movw a m1"
    unfolding assms(4)
    by (rule arm_field.rd_elsewhere [OF reloc_do_within]) (simp add: movw_movt_fields(3,4) [OF pair] apart)
  then have lo: "field_value movw a m2 AND 0xFFFF = (?v OR OPND_T symval) AND 0xFFFF"
    by (simp only: assms(3) movw_movt_fields(1) [OF pair] SIGN_EXTEND_low)
  have hi: "shl (field_value movt b m2) 16 = ?v AND 0xFFFF0000"
    by (simp only: assms(4) movw_movt_fields(2) [OF pair] SIGN_EXTEND_high)
  have "(?v OR OPND_T symval) AND 0xFFFF OR ?v AND 0xFFFF0000 = ?v OR OPND_T symval"
    by (rule word32_bits; simp add: OPND_T_def codec_bits; blast?)
  then have "(field_value movw a m2 AND 0xFFFF) OR shl (field_value movt b m2) 16 = ?v OR OPND_T symval"
    by (simp only: lo hi)
  moreover have "fst (rel_unpack_addend movw a x m2) = field_value movw a m2"
    "fst (rel_unpack_addend movt b y m2) = field_value movt b m2"
    using pair by (auto simp: field_value_def rel_unpack_addend_def)
  ultimately show ?thesis by simp
qed

theorem movw_movt_pair_witness:
  "(fst (rel_unpack_addend R_ARM_THM_MOVW_ABS_NC 0x100 0 (fst (reloc_do R_ARM_THM_MOVT_ABS 0x104 0 0x12345679 0
        (fst (reloc_do R_ARM_THM_MOVW_ABS_NC 0x100 0 0x12345679 0 (\<lambda>_. 0)))))) AND 0xFFFF) OR
   shl (fst (rel_unpack_addend R_ARM_THM_MOVT_ABS 0x104 0 (fst (reloc_do R_ARM_THM_MOVT_ABS 0x104 0 0x12345679 0
        (fst (reloc_do R_ARM_THM_MOVW_ABS_NC 0x100 0 0x12345679 0 (\<lambda>_. 0))))))) 16 =
   (OPND_S 0x12345679 + 0) OR OPND_T 0x12345679"
  by (rule movw_movt_pair [OF _ _ refl refl]) (simp_all add: cells_4)

section \<open>Where writing and reading disagree\<close>

text \<open>\<open>R_ARM_THM_JUMP19\<close>: the bits J1 and J2 are written in each other's place.\<close>

lemma thm_jump19_swaps_bits:
  "rel_overflow R_ARM_THM_JUMP19 0x40000 = False \<and>
   fst (rel_unpack_addend R_ARM_THM_JUMP19 0x100 0 (fst (reloc_do R_ARM_THM_JUMP19 0x100 0x40000 0 0
     (write16 0x102 0x8000 (write16 0x100 0xF000 (\<lambda>_. 0)))))) = 0x80000"
  by code_simp

lemma thm_jump19_keeps_stale_bit:
  "fst (rel_unpack_addend R_ARM_THM_JUMP19 0x100 0 (fst (reloc_do R_ARM_THM_JUMP19 0x100 0 0 0
     (write16 0x102 0x8800 (write16 0x100 0xF000 (\<lambda>_. 0)))))) = 0x80000"
  by code_simp

lemma plt32_is_cleared:
  "read32 (fst (reloc_do R_ARM_PLT32 0x100 0x1000 0 0 (write32 0x100 0xEB000123 (\<lambda>_. 0)))) 0x100 = 0xEB000000"
  by code_simp

lemma alu_pc_g1_not_written: "reloc_do R_ARM_ALU_PC_G1 a addend symval pc m = (m, [InvalidWriteType])"
  by (simp add: reloc_do_def arm_reloc_value_def rel_overflow_def pack_result_def mask_result_def write_reloc_r_def overflow_message_def)

lemma prel31_keeps_stale_bits:
  "read32 (fst (reloc_do R_ARM_PREL31 0x100 0x10 0 0 (write32 0x100 0x7F (\<lambda>_. 0)))) 0x100 = 0x7F"
  by code_simp

lemma alu_rotation_not_doubled:
  "fst (rel_unpack_addend R_ARM_ALU_PC_G0 0x100 0 (fst (reloc_do R_ARM_ALU_PC_G0 0x100 0x4000 0 0
     (write32 0x100 0xE28F0000 (\<lambda>_. 0))))) \<noteq> 0x4000"
  by code_simp

lemma ldc_range_too_wide:
  "snd (reloc_do R_ARM_LDC_PC_G0 0x100 0x400 0 0 (write32 0x100 0xED9F0000 (\<lambda>_. 0))) = [] \<and>
   read32 (fst (reloc_do R_ARM_LDC_PC_G0 0x100 0x400 0 0 (write32 0x100 0xED9F0000 (\<lambda>_. 0)))) 0x100 = 0xED9F0000"
  by code_simp

text \<open>Types whose writer and reader disagree, by an example at the address 0x100. \<open>THM_JUMP19\<close> exchanges two bits and keeps a stale one; \<open>PLT32\<close> writes 0; \<open>PREL31\<close> leaves old bits in;
  \<open>ALU_PC_G0\<close> reads another constant than was written; \<open>LDC_PC_G0\<close> drops a value that its field cannot hold;
  \<open>ALU_PC_G1\<close> is never written.\<close>

theorem arm_fields_inconsistent:
  "fst (rel_unpack_addend R_ARM_THM_JUMP19 0x100 0 (fst (reloc_do R_ARM_THM_JUMP19 0x100 0x40000 0 0
     (write16 0x102 0x8000 (write16 0x100 0xF000 (\<lambda>_. 0)))))) = 0x80000 \<and>
   fst (rel_unpack_addend R_ARM_THM_JUMP19 0x100 0 (fst (reloc_do R_ARM_THM_JUMP19 0x100 0 0 0
     (write16 0x102 0x8800 (write16 0x100 0xF000 (\<lambda>_. 0)))))) = 0x80000 \<and>
   read32 (fst (reloc_do R_ARM_PLT32 0x100 0x1000 0 0 (write32 0x100 0xEB000123 (\<lambda>_. 0)))) 0x100 = 0xEB000000 \<and>
   read32 (fst (reloc_do R_ARM_PREL31 0x100 0x10 0 0 (write32 0x100 0x7F (\<lambda>_. 0)))) 0x100 = 0x7F \<and>
   fst (rel_unpack_addend R_ARM_ALU_PC_G0 0x100 0 (fst (reloc_do R_ARM_ALU_PC_G0 0x100 0x4000 0 0
     (write32 0x100 0xE28F0000 (\<lambda>_. 0))))) \<noteq> 0x4000 \<and>
   read32 (fst (reloc_do R_ARM_LDC_PC_G0 0x100 0x400 0 0 (write32 0x100 0xED9F0000 (\<lambda>_. 0)))) 0x100 = 0xED9F0000 \<and>
   reloc_do R_ARM_ALU_PC_G1 a addend symval pc m = (m, [InvalidWriteType])"
  using thm_jump19_swaps_bits thm_jump19_keeps_stale_bit plt32_is_cleared prel31_keeps_stale_bits
    alu_rotation_not_doubled ldc_range_too_wide alu_pc_g1_not_written by blast

end
