(* ===== verification/C60_Props.thy ===== *)
theory C60_Props
  imports C60_Reloc Reloc_Frame
begin

text \<open>
  The properties of the C6000 relocator: the fields hold the values that pass the range checks, and a run changes no
  memory outside the segments. The REL tables, whose addends the code cannot read, end the process.
\<close>

section \<open>Fields\<close>

text \<open>Width and position of the field of a relocation, and the shift of the value that is stored in it.\<close>

definition c60_field :: "C60_RELOC_TYPE \<Rightarrow> nat \<times> nat \<times> nat" where
  "c60_field r_type =
     (if r_type = R_C6000_PCR_S21 then (21, 7, 2)
      else if r_type = R_C6000_PCR_S12 then (12, 16, 2)
      else if r_type = R_C6000_PCR_S10 then (10, 13, 2)
      else if r_type = R_C6000_PCR_S7 then (7, 16, 2)
      else if r_type \<in> {R_C6000_ABS_S16, R_C6000_SBR_S16} then (16, 7, 0)
      else if r_type = R_C6000_SBR_U15_B then (15, 8, 0)
      else if r_type = R_C6000_SBR_U15_H then (15, 8, 1)
      else (15, 8, 2))"

abbreviation (input) c60_signed :: "C60_RELOC_TYPE set" where
  "c60_signed \<equiv> {R_C6000_PCR_S21, R_C6000_PCR_S12, R_C6000_PCR_S10, R_C6000_PCR_S7, R_C6000_ABS_S16, R_C6000_SBR_S16}"

abbreviation (input) c60_unsigned :: "C60_RELOC_TYPE set" where
  "c60_unsigned \<equiv> {R_C6000_SBR_U15_B, R_C6000_SBR_U15_H, R_C6000_SBR_U15_W, R_C6000_DSBT_INDEX}"

lemma sar_0 [simp]: "sar v 0 = v"
  by (simp add: sar_def)

lemma c60_field_cases:
  assumes "r_type \<in> c60_signed \<union> c60_unsigned"
  obtains "r_type = R_C6000_PCR_S21" "c60_field r_type = (21, 7, 2)"
    | "r_type = R_C6000_PCR_S12" "c60_field r_type = (12, 16, 2)"
    | "r_type = R_C6000_PCR_S10" "c60_field r_type = (10, 13, 2)"
    | "r_type = R_C6000_PCR_S7" "c60_field r_type = (7, 16, 2)"
    | "r_type = R_C6000_ABS_S16" "c60_field r_type = (16, 7, 0)"
    | "r_type = R_C6000_SBR_S16" "c60_field r_type = (16, 7, 0)"
    | "r_type = R_C6000_SBR_U15_B" "c60_field r_type = (15, 8, 0)"
    | "r_type = R_C6000_SBR_U15_H" "c60_field r_type = (15, 8, 1)"
    | "r_type = R_C6000_SBR_U15_W" "c60_field r_type = (15, 8, 2)"
    | "r_type = R_C6000_DSBT_INDEX" "c60_field r_type = (15, 8, 2)"
  using assms by (auto simp: c60_field_def)

lemma c60_field_facts:
  assumes "r_type \<in> c60_signed \<union> c60_unsigned" "c60_field r_type = (n, s, k)"
  shows "c60_pack_result v r_type = (sar v k, [])" "c60_mask_result u r_type = (u AND mask n, [])"
    "c60_write_reloc_r a off r_type r m = (upd32 (a + off) (\<lambda>w. (w AND NOT (MASK n s)) OR shl r s) m, [])"
    "n + s \<le> 32" "n + k \<le> 32" "0 < n"
proof -
  show "c60_pack_result v r_type = (sar v k, [])"
    by (rule c60_field_cases [OF assms(1)]; use assms(2) in \<open>simp add: c60_pack_result_def\<close>)
  show "c60_mask_result u r_type = (u AND mask n, [])"
    by (rule c60_field_cases [OF assms(1)]; use assms(2) in \<open>auto simp: c60_mask_result_def mask_eq_exp_minus_1\<close>)
  show "c60_write_reloc_r a off r_type r m = (upd32 (a + off) (\<lambda>w. (w AND NOT (MASK n s)) OR shl r s) m, [])"
    by (rule c60_field_cases [OF assms(1)]; use assms(2) in \<open>simp add: c60_write_reloc_r_def Let_def\<close>)
  show "n + s \<le> 32" "n + k \<le> 32" "0 < n"
    by (rule c60_field_cases [OF assms(1)]; use assms(2) in \<open>simp\<close>)+
qed

lemma c60_signed_overflow:
  assumes "r_type \<in> c60_signed" "c60_field r_type = (n, s, k)"
  shows "c60_rel_overflow r_type v = (\<not> in_range (n + k - 1) v, [])"
  using assms by (elim insertE emptyE; hypsubst_thin)
    (auto simp: c60_field_def c60_rel_overflow_def in_range_def Let_def)

lemma aligned_dvd:
  fixes v :: u32
  assumes "v AND mask k = 0" shows "2 ^ k dvd unat v"
proof -
  have "take_bit k (unat v) = unat (v AND mask k)"
    by (simp only: take_bit_eq_mask [symmetric] unsigned_take_bit_eq)
  with assms show ?thesis by (simp add: take_bit_eq_mod dvd_eq_mod_eq_0)
qed

lemma c60_unsigned_overflow:
  assumes "r_type \<in> c60_unsigned" "c60_field r_type = (n, s, k)" "v AND mask k = 0"
  shows "c60_rel_overflow r_type v = (\<not> unat v < 2 ^ (n + k), [])"
proof -
  have b: "0x8000 \<le> v \<longleftrightarrow> \<not> unat v < 0x8000" "0xFFFF \<le> v \<longleftrightarrow> \<not> unat v < 0xFFFF" "0x1FFFD \<le> v \<longleftrightarrow> \<not> unat v < 0x1FFFD"
    by (simp_all add: word_le_nat_alt not_less)
  have h: "\<not> unat v < 0xFFFF \<longleftrightarrow> \<not> unat v < 0x10000" if "2 dvd unat v"
    using that by presburger
  have w: "\<not> unat v < 0x1FFFD \<longleftrightarrow> \<not> unat v < 0x20000" if "4 dvd unat v"
    using that by presburger
  from assms(1) have "r_type \<in> c60_signed \<union> c60_unsigned" by blast
  then show ?thesis
    by (rule c60_field_cases; use assms b h w aligned_dvd [OF assms(3)] in \<open>auto simp: c60_rel_overflow_def Let_def\<close>)
qed

lemma bit_MASK: "n \<le> 32 \<Longrightarrow> bit (MASK n s) i \<longleftrightarrow> s \<le> i \<and> i < s + n \<and> i < 32"
proof -
  have "shl 1 n - 1 = (mask n :: u32)"
    by (simp add: shl_def mask_eq_exp_minus_1 push_bit_eq_mult)
  then show "n \<le> 32 \<Longrightarrow> ?thesis"
    by (auto simp: MASK_def bit_shl bit_mask_iff)
qed

lemma field_read_back:
  assumes "n + s \<le> 32"
  shows "shr ((w AND NOT (MASK n s)) OR shl (u AND mask n) s) s AND mask n = u AND mask n"
  using assms by (intro bit_word_eqI) (auto simp: bit_simps bit_shl bit_shr bit_MASK bit_mask_iff)

lemma field_rest_kept:
  assumes "n + s \<le> 32"
  shows "((w AND NOT (MASK n s)) OR shl (u AND mask n) s) AND NOT (MASK n s) = w AND NOT (MASK n s)"
  using assms by (intro bit_word_eqI) (auto simp: bit_simps bit_shl bit_shr bit_MASK bit_mask_iff)

lemma shift_back:
  assumes "v AND mask k = 0" "n + k \<le> 32"
  shows "shl (sar v k AND mask n) k = v AND mask (n + k)"
proof (rule bit_word_eqI)
  fix i assume "i < LENGTH(32)"
  with assms(2) and_mask_bits [OF assms(1), of i] show "bit (shl (sar v k AND mask n) k) i = bit (v AND mask (n + k)) i"
    by (cases "k \<le> i") (auto simp: bit_simps bit_shl bit_sar bit_mask_iff)
qed

lemma and_mask_unat:
  fixes v :: u32
  assumes "unat v < 2 ^ j" shows "v AND mask j = v"
proof -
  have "unat (take_bit j v) = unat v"
    using assms by (simp only: unsigned_take_bit_eq take_bit_nat_eq_self)
  then have "take_bit j v = v" by (rule unsigned_word_eqI)
  then show ?thesis by (simp only: take_bit_eq_mask)
qed

text \<open>The instruction at an address, of an image in the byte order of the host or (\<open>swap\<close>) in the other.\<close>

definition instruction_word :: "bool \<Rightarrow> u32 \<Rightarrow> mem \<Rightarrow> u32" where
  "instruction_word swap a m = (if swap then DLIMP_change_endian32 (read32 m a) else read32 m a)"

lemma c60_field_written:
  assumes "r_type \<in> c60_signed \<union> c60_unsigned" "c60_field r_type = (n, s, k)"
    and "c60_reloc_value r_type segment_address addend symval spc base_pointer dsbt = (v, e)"
  shows "instruction_word swap (segment_address + spc)
      (fst (c60_reloc_do r_type segment_address addend symval spc swap base_pointer dsbt m)) =
    (instruction_word swap (segment_address + spc) m AND NOT (MASK n s)) OR shl (sar v k AND mask n) s"
  by (simp add: c60_reloc_do_def assms(3) c60_field_facts [OF assms(1,2)] split_def Let_def instruction_word_def
      upd32_def change_endian32_at_def)

text \<open>A place to be relocated in a big-endian image.\<close>

definition call_site :: mem where
  "call_site = write32 0x8020 0x10000000 (\<lambda>_. 0)"

text \<open>C32: One C6000 relocation, for the ten types with a check on a field of an instruction: \<open>PCR_S21\<close>, \<open>PCR_S12\<close>, \<open>PCR_S10\<close>,
  \<open>PCR_S7\<close>, \<open>ABS_S16\<close>, \<open>SBR_S16\<close>, \<open>SBR_U15_B\<close>, \<open>SBR_U15_H\<close>, \<open>SBR_U15_W\<close>, \<open>DSBT_INDEX\<close>, in images of either byte order. If the
  range check passes and the value is a multiple of the unit of the field (4 for the \<open>PCR\<close> types, \<open>SBR_U15_W\<close> and
  \<open>DSBT_INDEX\<close>, 2 for \<open>SBR_U15_H\<close>, 1 for the others), nothing is printed, the other bits of the instruction are unchanged,
  and the field holds the value: signed for the \<open>PCR\<close> and the \<open>S16\<close> types, unsigned for the 15-bit ones. So for
  these types the range check admits no aligned value that is lost. The data relocations, \<open>PREL31\<close> and the halves that
  are not checked are not covered.\<close>

theorem c60_field_roundtrip:
  assumes "r_type \<in> c60_signed \<union> c60_unsigned" "c60_field r_type = (n, s, k)"
    and "c60_reloc_value r_type segment_address addend symval spc base_pointer dsbt = (v, [])"
    and "\<not> fst (c60_rel_overflow r_type v)" "v AND mask k = 0"
    and "c60_reloc_do r_type segment_address addend symval spc swap base_pointer dsbt m = (m', messages)"
    and "w = instruction_word swap (segment_address + spc) m'"
  shows "messages = [] \<and> w AND NOT (MASK n s) = instruction_word swap (segment_address + spc) m AND NOT (MASK n s) \<and>
    (if r_type \<in> c60_signed then SIGN_EXTEND (shl (shr w s AND mask n) k) (n + k) else shl (shr w s AND mask n) k) = v"
proof -
  note facts = c60_field_facts [OF assms(1,2)]
  have "snd (c60_rel_overflow r_type v) = []"
    using assms(1) c60_signed_overflow [OF _ assms(2), of v] c60_unsigned_overflow [OF _ assms(2,5)] by auto
  then have "messages = []"
    using assms(3,4,6) by (simp add: c60_reloc_do_def facts overflow_message_def split_def Let_def split: if_splits)
  moreover have "w = (instruction_word swap (segment_address + spc) m AND NOT (MASK n s)) OR shl (sar v k AND mask n) s"
    using c60_field_written [OF assms(1-3), where swap = swap and m = m] assms(6,7) by simp
  moreover have "shl (sar v k AND mask n) k = v AND mask (n + k)"
    using assms(5) facts(5) by (rule shift_back)
  moreover have "SIGN_EXTEND (v AND mask (n + k)) (n + k) = v" if "r_type \<in> c60_signed"
    using assms(4) c60_signed_overflow [OF that assms(2), of v] facts(5,6) by (intro SIGN_EXTEND_range) simp_all
  moreover have "v AND mask (n + k) = v" if "r_type \<notin> c60_signed"
    using that assms(1,4) c60_unsigned_overflow [OF _ assms(2,5)] by (intro and_mask_unat) auto
  ultimately show ?thesis
    using facts(4) by (auto simp: field_read_back field_rest_kept)
qed

theorem c60_field_roundtrip_witness:
  "snd (c60_reloc_do R_C6000_PCR_S21 0x8000 0 0x7000 0x20 True 0 0 call_site) = [] \<and>
   instruction_word True (0x8000 + 0x20) (fst (c60_reloc_do R_C6000_PCR_S21 0x8000 0 0x7000 0x20 True 0 0 call_site))
       AND NOT (MASK 21 7) = instruction_word True (0x8000 + 0x20) call_site AND NOT (MASK 21 7) \<and>
   (if R_C6000_PCR_S21 \<in> {R_C6000_PCR_S21, R_C6000_PCR_S12, R_C6000_PCR_S10, R_C6000_PCR_S7, R_C6000_ABS_S16, R_C6000_SBR_S16}
    then SIGN_EXTEND (shl (shr (instruction_word True (0x8000 + 0x20)
       (fst (c60_reloc_do R_C6000_PCR_S21 0x8000 0 0x7000 0x20 True 0 0 call_site))) 7 AND mask 21) 2) (21 + 2)
    else shl (shr (instruction_word True (0x8000 + 0x20)
       (fst (c60_reloc_do R_C6000_PCR_S21 0x8000 0 0x7000 0x20 True 0 0 call_site))) 7 AND mask 21) 2) = 0xFFFFEFE0"
proof (rule c60_field_roundtrip [where segment_address = "0x8000" and addend = 0 and symval = "0x7000" and spc = "0x20"
      and base_pointer = 0 and dsbt = 0 and swap = True and m = call_site])
  show "c60_reloc_value R_C6000_PCR_S21 0x8000 0 0x7000 0x20 0 0 = (0xFFFFEFE0, [])" by code_simp
  show "\<not> fst (c60_rel_overflow R_C6000_PCR_S21 0xFFFFEFE0)" by code_simp
qed (simp_all add: c60_field_def mask_eq_exp_minus_1)

section \<open>Which memory is changed\<close>

lemma c60_write_within:
  "acts_within (cells (a + off) 4) (\<lambda>m. fst (c60_write_reloc_r a off r_type r m))"
proof -
  have "acts_within (cells (a + off) 4) (write8 (a + off) v)" for v
    by (rule acts_within_mono [OF write8_within], simp only: cells_1 cells_4, blast)
  then show ?thesis
    by (cases r_type) (simp_all add: c60_write_reloc_r_def Let_def cell_updates within_intros)
qed

lemma c60_reloc_do_within:
  "acts_within (cells (segment_address + spc) 4)
     (\<lambda>m. fst (c60_reloc_do r_type segment_address addend symval spc swap base_pointer dsbt m))"
proof -
  have swap: "acts_within (cells (segment_address + spc) 4) (\<lambda>m. if swap then change_endian32_at (segment_address + spc) m else m)"
    by (simp add: cell_updates within_intros)
  show ?thesis
    unfolding c60_reloc_do_def Let_def case_prod_beta fst_conv
    using acts_within_comp [OF swap acts_within_comp [OF c60_write_within swap]] by simp
qed

lemma c60_do_rela_entry_keeps:
  assumes "b \<notin> segment_memory seg" "in_segment seg (r_offset entry)"
  shows "keeps b fst m (c60_do_rela_entry env base dyn_module seg entry m)"
proof -
  have "p_vaddr (phdr seg) + reloc_offset seg + (r_offset entry - input_vaddr seg) = reloc_address seg (r_offset entry)"
    by (simp add: reloc_address_def)
  then have apart: "b \<notin> cells (p_vaddr (phdr seg) + reloc_offset seg + (r_offset entry - input_vaddr seg)) 4"
    using site_apart [OF assms] by simp
  show ?thesis
    unfolding c60_do_rela_entry_def case_prod_beta
    by (intro keeps_bind_pure) (simp add: acts_within_frame [OF c60_reloc_do_within apart])
qed

text \<open>An entry of a REL table ends the process once its symbol is found.\<close>

lemma c60_do_rel_entry_exits:
  "c60_do_rel_entry env base dyn_module seg entry m =
     bind_result (DLSYM_canonical_lookup (lookup_malloc env) m (application_handle env) (loaded_objects env)
       (unat (ELF32_R_SYM (r_info entry))) dyn_module 0)
     (\<lambda>(found, r_symval). Some (if found then Inl LoaderExit else Inr (m, [])))"
  unfolding c60_do_rel_entry_def c60_rel_unpack_addend_def Let_def
  by (intro arg_cong2 [where f = bind_result] ext) (auto simp: split_def)

lemma c60_do_rel_entry_keeps: "keeps b fst m (c60_do_rel_entry env base dyn_module seg entry m)"
  unfolding c60_do_rel_entry_exits case_prod_beta by (intro keeps_bind_pure) (simp split: if_splits)

lemma c60_process_rela_table_keeps:
  "b \<notin> segment_memory seg \<Longrightarrow> keeps b fst m (c60_process_rela_table env seg t i base dyn_module m)"
  unfolding c60_process_rela_table_def Let_def case_prod_beta
  by (rule keeps_map [OF scan_table_keeps]) (simp_all add: c60_do_rela_entry_keeps)

lemma c60_process_rel_table_keeps: "keeps b fst m (c60_process_rel_table env seg t i base dyn_module m)"
  unfolding c60_process_rel_table_def Let_def case_prod_beta
  by (rule keeps_map [OF scan_table_keeps]) (simp_all add: c60_do_rel_entry_keeps)

lemma c60_process_got_segments_keeps:
  "\<forall>seg\<in>set segs. b \<notin> segment_memory seg \<Longrightarrow>
     keeps b fst m (c60_process_got_segments env base rel_table rela_table dyn_module segs m)"
proof (induction segs arbitrary: m)
  case (Cons seg segs)
  then have seg: "b \<notin> segment_memory seg" and IH:
    "keeps b fst m (c60_process_got_segments env base rel_table rela_table dyn_module segs m)" for m
    by simp_all
  have rela: "keeps b fst m (case rela_table of None \<Rightarrow> Some (Inr (m, []))
      | Some t \<Rightarrow> c60_process_rela_table env seg t 0 base dyn_module m)" for m
    by (cases rela_table) (simp_all add: c60_process_rela_table_keeps seg)
  have rel: "keeps b fst m (case rel_table of None \<Rightarrow> Some (Inr (m, []))
      | Some t \<Rightarrow> c60_process_rel_table env seg t 0 base dyn_module m)" for m
    by (cases rel_table) (simp_all add: c60_process_rel_table_keeps)
  show ?case
  proof (cases "p_filesz (phdr seg) = 0")
    case False
    show ?thesis
      unfolding c60_process_got_segments.simps if_not_P [OF False]
      by (rule keeps_bind [OF rela], unfold case_prod_beta, rule keeps_bind [OF rel], rule keeps_map [OF IH], simp)
  qed (simp add: IH)
qed simp

lemma c60_process_got_relocs_keeps:
  assumes "\<forall>seg\<in>set (loaded_segments (loaded_module dyn_module)). b \<notin> segment_memory seg"
  shows "keeps b fst m (c60_process_got_relocs env rel_table rela_table dyn_module m)"
  unfolding c60_process_got_relocs_def case_prod_beta
  by (rule keeps_bind_pure, rule keeps_map [OF c60_process_got_segments_keeps [OF assms]], simp)

lemma c60_process_pltgot_relocs_keeps:
  assumes segs: "\<forall>seg\<in>set (loaded_segments (loaded_module dyn_module)). b \<notin> segment_memory seg"
  shows "keeps b fst m (c60_process_pltgot_relocs env plt dyn_module m)"
proof -
  have run: "keeps b fst m (bind_result (c60_static_base env dyn_module m) (\<lambda>(base, e0).
      case plt_segment r_off (loaded_segments (loaded_module dyn_module)) of None \<Rightarrow> Some (Inr (m, e0))
      | Some seg \<Rightarrow> bind_result (f seg base) (\<lambda>(m1, e1). Some (Inr (m1, e0 @ e1)))))"
    if "\<And>seg base. b \<notin> segment_memory seg \<Longrightarrow> keeps b fst m (f seg base)" for f r_off
    unfolding case_prod_beta
    by (rule keeps_bind_pure, cases "plt_segment r_off (loaded_segments (loaded_module dyn_module))")
      (use segs that in \<open>auto dest!: plt_segment_in intro!: keeps_map [where f = fst]\<close>)
  show ?thesis
    unfolding c60_process_pltgot_relocs_def Let_def
    by (auto split: plt_table.split list.split intro!: run c60_process_rel_table_keeps c60_process_rela_table_keeps)
qed

text \<open>C33: Relocation of a whole C6000 module changes no memory but that of its loaded segments: a byte that differs
  afterwards lies in a segment, or at most three bytes past its end.\<close>

theorem DLREL_relocate_c60_stays_in_segments:
  assumes "DLREL_relocate_c60 env malloc_ok elf_file dyn_module m = Some (Inr (m', dyn', messages))" and "m' b \<noteq> m b"
  shows "\<exists>seg\<in>set (loaded_segments (loaded_module dyn_module)).
     unat (b - (p_vaddr (phdr seg) + reloc_offset seg)) < unat (p_memsz (phdr seg)) + 3"
proof (rule ccontr)
  assume "\<not> ?thesis"
  moreover have segs: "loaded_module (c60_set_dsbt_index env dyn_module) = loaded_module dyn_module"
    by (simp add: c60_set_dsbt_index_def)
  ultimately have out: "\<forall>seg\<in>set (loaded_segments (loaded_module (c60_set_dsbt_index env dyn_module))). b \<notin> segment_memory seg"
    by (simp add: segment_memory_def)
  let ?d = "c60_set_dsbt_index env dyn_module"
  have plt: "keeps b fst m (case plt of None \<Rightarrow> Some (Inr (m, [])) | Some t \<Rightarrow> c60_process_pltgot_relocs env t ?d m)" for plt
    by (cases plt) (simp_all add: c60_process_pltgot_relocs_keeps out)
  have got: "keeps b fst m (if c then c60_process_got_relocs env rel_table rela_table ?d m else Some (Inr (m, [])))"
    for c m rel_table rela_table
    by (simp add: c60_process_got_relocs_keeps out)
  have "keeps b fst m (DLREL_relocate_c60 env malloc_ok elf_file dyn_module m)"
    unfolding DLREL_relocate_c60_def Let_def case_prod_beta
    by (rule keeps_bind_pure, rule keeps_bind_pure, rule keeps_bind [OF plt], rule keeps_map [OF got], simp)
  with assms show False by (simp add: keeps_def)
qed

definition c60_rela_file :: mem where
  "c60_rela_file = write32 0x48 0x20 (write32 0x44 1 (write32 0x40 0x100 (\<lambda>_. 0)))"

lemma one_rela_c60_run:
  "(case DLREL_relocate_c60 sample_env (\<lambda>_. True) c60_rela_file one_rela_module (\<lambda>_. 0) of
      Some (Inr (m', dyn', messages)) \<Rightarrow> m' 0x101 \<noteq> 0 | _ \<Rightarrow> False)"
  by code_simp

theorem DLREL_relocate_c60_stays_in_segments_witness:
  "\<exists>seg\<in>set (loaded_segments (loaded_module one_rela_module)).
     unat (0x101 - (p_vaddr (phdr seg) + reloc_offset seg)) < unat (p_memsz (phdr seg)) + 3"
proof -
  obtain m' dyn' messages where
    "DLREL_relocate_c60 sample_env (\<lambda>_. True) c60_rela_file one_rela_module (\<lambda>_. 0) = Some (Inr (m', dyn', messages))"
    and "m' 0x101 \<noteq> 0"
    using one_rela_c60_run by (auto split: option.splits sum.splits)
  then show ?thesis by (intro DLREL_relocate_c60_stays_in_segments) simp_all
qed

section \<open>Where fields are missed\<close>

text \<open>Byte swapping: a 16-bit datum of a big-endian image is written into the other half of its word.\<close>

lemma c60_abs16_swapped:
  "map (fst (c60_reloc_do R_C6000_ABS16 0x100 0 0x1234 0 True 0 0 (\<lambda>_. 0))) [0x100, 0x101, 0x102, 0x103] = [0, 0, 0x12, 0x34]"
  by code_simp

lemma c60_prel31_stale_bit:
  "read32 (fst (c60_reloc_do R_C6000_PREL31 0x100 0 0x200 0 False 0 0 (write32 0x100 0x40000000 (\<lambda>_. 0)))) 0x100 = 0x40000080"
  by code_simp

end
