(* ===== verification/Simulation.thy ===== *)
theory Simulation
  imports Prelude
begin

text \<open>
  Components whose callers see an abstract value. A component is a step function over its calls; its
  contract is a function on abstract values that gives the result and the new value of each call. The locale
  lifts the simulation of one call to every sequence of calls that respects the preconditions.
\<close>

fun run_calls :: "('c \<Rightarrow> 's \<Rightarrow> 'e + ('r \<times> 's)) \<Rightarrow> 'c list \<Rightarrow> 's \<Rightarrow> 'e + ('r list \<times> 's)" where
  "run_calls step [] s = Inr ([], s)"
| "run_calls step (c # cs) s =
     bindE (step c s) (\<lambda>(r, s1). bindE (run_calls step cs s1) (\<lambda>(rs, s2). Inr (r # rs, s2)))"

fun run_spec :: "('c \<Rightarrow> 'a \<Rightarrow> 'r \<times> 'a) \<Rightarrow> 'c list \<Rightarrow> 'a \<Rightarrow> 'r list \<times> 'a" where
  "run_spec spec [] a = ([], a)"
| "run_spec spec (c # cs) a =
     (let (r, a1) = spec c a; (rs, a2) = run_spec spec cs a1 in (r # rs, a2))"

fun all_allowed :: "('c \<Rightarrow> 'a \<Rightarrow> 'r \<times> 'a) \<Rightarrow> ('c \<Rightarrow> 'a \<Rightarrow> bool) \<Rightarrow> 'c list \<Rightarrow> 'a \<Rightarrow> bool" where
  "all_allowed spec allowed [] a = True"
| "all_allowed spec allowed (c # cs) a = (allowed c a \<and> all_allowed spec allowed cs (snd (spec c a)))"

locale simulation =
  fixes step :: "'c \<Rightarrow> 's \<Rightarrow> 'e + ('r \<times> 's)"
    and spec :: "'c \<Rightarrow> 'a \<Rightarrow> 'r \<times> 'a"
    and rel :: "'s \<Rightarrow> 'a \<Rightarrow> bool"
    and allowed :: "'c \<Rightarrow> 'a \<Rightarrow> bool"
  assumes step_refines:
    "rel s a \<Longrightarrow> allowed c a \<Longrightarrow> \<exists>s'. step c s = Inr (fst (spec c a), s') \<and> rel s' (snd (spec c a))"
begin

lemma run_refines:
  "rel s a \<Longrightarrow> all_allowed spec allowed cs a \<Longrightarrow>
   \<exists>s'. run_calls step cs s = Inr (fst (run_spec spec cs a), s') \<and> rel s' (snd (run_spec spec cs a))"
proof (induction cs arbitrary: s a)
  case (Cons c cs)
  obtain s1 where s1: "step c s = Inr (fst (spec c a), s1)" "rel s1 (snd (spec c a))"
    using step_refines [OF Cons.prems(1)] Cons.prems(2) by auto
  with Cons.IH [of s1 "snd (spec c a)"] Cons.prems(2) show ?case
    by (auto simp: split_def Let_def)
qed simp

lemma run_keeps: "rel s a \<Longrightarrow> all_allowed spec allowed cs a \<Longrightarrow> run_calls step cs s = Inr (rs, s') \<Longrightarrow>
    rs = fst (run_spec spec cs a) \<and> rel s' (snd (run_spec spec cs a))"
  using run_refines by fastforce

end

end
