(* ===== verification/Linked_Lists.thy ===== *)
theory Linked_Lists
  imports Simulation
begin

text \<open>
  The doubly linked list of \<open>src/syslink/api/src/utils/List.c\<close> and \<open>include/List.h\<close>, which the message
  queues of the remote command server are made of. The links are intrusive: a \<open>List_Elem\<close> is the first
  field of the object that is queued, and a \<open>List_Object\<close> is a ring through its own \<open>elem\<close>. The store maps
  the address of each \<open>List_Elem\<close> to its links and the address of each \<open>List_Object\<close> to its gate; address 0
  is NULL. Following a pointer to an address that is not in the store is the fault \<open>WildPointer\<close>.

  \<open>GT_setFailureReason\<close> only reports; its calls are kept in the list \<open>failures\<close>, newest first. The gates
  that are held are kept in \<open>held\<close>. The trace calls and \<open>GT_assert\<close> (which prints, in the debug build) have
  no effect on the state.
\<close>

section \<open>State\<close>

datatype list_fault = WildPointer | NullParams | NullGate

record List_Elem =
  elem_next :: u32
  elem_prev :: u32

record List_Params =
  params_gateHandle :: u32

record list_store =
  elems :: "u32 \<rightharpoonup> List_Elem"
  gateHandles :: "u32 \<rightharpoonup> u32"
  held :: "u32 list"
  failures :: "(string \<times> int) list"

type_synonym 'a list_op = "list_store \<Rightarrow> list_fault + ('a \<times> list_store)"

abbreviation NULL :: u32 where "NULL \<equiv> 0"

definition IGateProvider_NULL :: u32 where "IGateProvider_NULL = 0xFFFFFFFF"

definition List_E_INVALIDARG :: int where "List_E_INVALIDARG = -2"

definition List_E_MEMORY :: int where "List_E_MEMORY = -3"

definition set_failure :: "string \<Rightarrow> int \<Rightarrow> list_store \<Rightarrow> list_store" where
  "set_failure f code s = s \<lparr> failures := (f, code) # failures s \<rparr>"

section \<open>Access to the store\<close>

definition get_next :: "u32 \<Rightarrow> list_store \<Rightarrow> list_fault + u32" where
  "get_next p s = (case elems s p of None \<Rightarrow> Inl WildPointer | Some e \<Rightarrow> Inr (elem_next e))"

definition get_prev :: "u32 \<Rightarrow> list_store \<Rightarrow> list_fault + u32" where
  "get_prev p s = (case elems s p of None \<Rightarrow> Inl WildPointer | Some e \<Rightarrow> Inr (elem_prev e))"

definition set_next :: "u32 \<Rightarrow> u32 \<Rightarrow> list_store \<Rightarrow> list_fault + list_store" where
  "set_next p v s =
     (case elems s p of
        None \<Rightarrow> Inl WildPointer
      | Some e \<Rightarrow> Inr (s \<lparr> elems := (elems s)(p \<mapsto> e \<lparr> elem_next := v \<rparr>) \<rparr>))"

definition set_prev :: "u32 \<Rightarrow> u32 \<Rightarrow> list_store \<Rightarrow> list_fault + list_store" where
  "set_prev p v s =
     (case elems s p of
        None \<Rightarrow> Inl WildPointer
      | Some e \<Rightarrow> Inr (s \<lparr> elems := (elems s)(p \<mapsto> e \<lparr> elem_prev := v \<rparr>) \<rparr>))"

definition get_gate :: "u32 \<Rightarrow> list_store \<Rightarrow> list_fault + u32" where
  "get_gate h s = (case gateHandles s h of None \<Rightarrow> Inl WildPointer | Some g \<Rightarrow> Inr g)"

text \<open>The gate functions of a handle are a parameter of the code; entering notes the gate as held.\<close>

definition IGateProvider_enter :: "u32 \<Rightarrow> list_store \<Rightarrow> list_fault + list_store" where
  "IGateProvider_enter g s =
     (if g = IGateProvider_NULL then Inr s
      else if g = NULL then Inl NullGate
      else Inr (s \<lparr> held := g # held s \<rparr>))"

definition IGateProvider_leave :: "u32 \<Rightarrow> list_store \<Rightarrow> list_fault + list_store" where
  "IGateProvider_leave g s =
     (if g = IGateProvider_NULL then Inr s
      else if g = NULL then Inl NullGate
      else Inr (s \<lparr> held := remove1 g (held s) \<rparr>))"

text \<open>A body between the two, with the gate of the list.\<close>

definition gated :: "u32 \<Rightarrow> 'a list_op \<Rightarrow> 'a list_op" where
  "gated h body s =
     bindE (get_gate h s) (\<lambda>g.
     bindE (IGateProvider_enter g s) (\<lambda>s1.
     bindE (body s1) (\<lambda>(r, s2).
     bindE (get_gate h s2) (\<lambda>g2.
     bindE (IGateProvider_leave g2 s2) (\<lambda>s3. Inr (r, s3))))))"

section \<open>Operations\<close>

definition List_Params_init :: "List_Params option \<Rightarrow> list_store \<Rightarrow> List_Params option \<times> list_store" where
  "List_Params_init params s =
     (case params of
        None \<Rightarrow> (None, set_failure ''List_Params_init'' List_E_INVALIDARG s)
      | Some p \<Rightarrow> (Some (p \<lparr> params_gateHandle := IGateProvider_NULL \<rparr>), s))"

text \<open>The argument \<open>obj\<close> of \<open>List_create\<close> is what \<open>Memory_alloc\<close> returns.\<close>

definition List_create :: "u32 \<Rightarrow> List_Params option \<Rightarrow> u32 list_op" where
  "List_create obj params s =
     (if obj = NULL then Inr (NULL, set_failure ''List_create'' List_E_MEMORY s)
      else case params of
        None \<Rightarrow> Inl NullParams
      | Some p \<Rightarrow>
          Inr (obj, s \<lparr> elems := (elems s)(obj \<mapsto> \<lparr> elem_next = obj, elem_prev = obj \<rparr>),
                        gateHandles := (gateHandles s)(obj \<mapsto> params_gateHandle p) \<rparr>))"

text \<open>The argument of \<open>List_delete\<close> is a pointer to a handle; the value of the handle afterwards is returned.\<close>

definition List_delete :: "u32 option \<Rightarrow> list_store \<Rightarrow> u32 option \<times> list_store" where
  "List_delete handlePtr s =
     (case handlePtr of
        None \<Rightarrow> (None, set_failure ''List_delete'' List_E_INVALIDARG s)
      | Some obj \<Rightarrow>
          if obj = NULL then (Some NULL, set_failure ''List_delete'' List_E_INVALIDARG s)
          else (Some NULL, s \<lparr> elems := (elems s)(obj := None), gateHandles := (gateHandles s)(obj := None) \<rparr>))"

definition List_construct :: "u32 \<Rightarrow> List_Params option \<Rightarrow> list_store \<Rightarrow> list_fault + list_store" where
  "List_construct obj params s =
     (if obj = NULL then Inr (set_failure ''List_construct'' List_E_INVALIDARG s)
      else if obj \<notin> dom (elems s) then Inl WildPointer
      else
        (let s1 = s \<lparr> elems := (elems s)(obj \<mapsto> \<lparr> elem_next = obj, elem_prev = obj \<rparr>) \<rparr>
         in case params of
              Some p \<Rightarrow>
                (let s2 = s1 \<lparr> gateHandles := (gateHandles s1)(obj \<mapsto> params_gateHandle p) \<rparr>
                 in Inr (if params_gateHandle p = NULL then set_failure ''List_construct'' List_E_INVALIDARG s2
                         else s2))
            | None \<Rightarrow> Inr (s1 \<lparr> gateHandles := (gateHandles s1)(obj \<mapsto> IGateProvider_NULL) \<rparr>)))"

definition List_destruct :: "u32 \<Rightarrow> list_store \<Rightarrow> list_fault + list_store" where
  "List_destruct obj s =
     (if obj = NULL then Inr (set_failure ''List_destruct'' List_E_INVALIDARG s)
      else map_sum id snd (gated obj (\<lambda>s1.
        bindE (set_next obj NULL s1) (\<lambda>s2.
        bindE (set_prev obj NULL s2) (\<lambda>s3. Inr ((), s3)))) s))"

definition List_elemClear :: "u32 \<Rightarrow> list_store \<Rightarrow> list_fault + list_store" where
  "List_elemClear elem s =
     (if elem = NULL then Inr (set_failure ''List_elemClear'' List_E_INVALIDARG s)
      else bindE (set_prev elem elem s) (\<lambda>s1. set_next elem elem s1))"

definition List_empty :: "u32 \<Rightarrow> bool list_op" where
  "List_empty handle s =
     (if handle = NULL then Inr (False, set_failure ''List_empty'' List_E_INVALIDARG s)
      else gated handle (\<lambda>s1. bindE (get_next handle s1) (\<lambda>n. Inr (n = handle, s1))) s)"

text \<open>\<open>List_dequeue\<close> reports its failure under the name of \<open>List_get\<close>.\<close>

definition List_dequeue :: "u32 \<Rightarrow> u32 list_op" where
  "List_dequeue handle s =
     (if handle = NULL then Inr (NULL, set_failure ''List_get'' List_E_INVALIDARG s)
      else
        bindE (get_next handle s) (\<lambda>elem.
        if elem = handle then Inr (NULL, s)
        else
          bindE (get_next elem s) (\<lambda>n.
          bindE (set_next handle n s) (\<lambda>s1.
          bindE (get_next elem s1) (\<lambda>m.
          bindE (set_prev m handle s1) (\<lambda>s2. Inr (elem, s2)))))))"

definition List_get :: "u32 \<Rightarrow> u32 list_op" where
  "List_get handle s =
     (if handle = NULL then Inr (NULL, set_failure ''List_get'' List_E_INVALIDARG s)
      else gated handle (List_dequeue handle) s)"

definition List_enqueue :: "u32 \<Rightarrow> u32 \<Rightarrow> unit list_op" where
  "List_enqueue handle elem s =
     (if handle = NULL \<or> elem = NULL then Inr ((), set_failure ''List_enqueue'' List_E_INVALIDARG s)
      else
        bindE (set_next elem handle s) (\<lambda>s1.
        bindE (get_prev handle s1) (\<lambda>p.
        bindE (set_prev elem p s1) (\<lambda>s2.
        bindE (get_prev handle s2) (\<lambda>p2.
        bindE (set_next p2 elem s2) (\<lambda>s3.
        bindE (set_prev handle elem s3) (\<lambda>s4. Inr ((), s4))))))))"

definition List_put :: "u32 \<Rightarrow> u32 \<Rightarrow> unit list_op" where
  "List_put handle elem s =
     (if handle = NULL \<or> elem = NULL then Inr ((), set_failure ''List_put'' List_E_INVALIDARG s)
      else gated handle (List_enqueue handle elem) s)"

definition List_enqueueHead :: "u32 \<Rightarrow> u32 \<Rightarrow> unit list_op" where
  "List_enqueueHead handle elem s =
     (if handle = NULL \<or> elem = NULL then Inr ((), set_failure ''List_enqueueHead'' List_E_INVALIDARG s)
      else
        bindE (get_next handle s) (\<lambda>n.
        bindE (set_next elem n s) (\<lambda>s1.
        bindE (set_prev elem handle s1) (\<lambda>s2.
        bindE (get_next handle s2) (\<lambda>n2.
        bindE (set_prev n2 elem s2) (\<lambda>s3.
        bindE (set_next handle elem s3) (\<lambda>s4. Inr ((), s4))))))))"

definition List_putHead :: "u32 \<Rightarrow> u32 \<Rightarrow> unit list_op" where
  "List_putHead handle elem s =
     (if handle = NULL \<or> elem = NULL then Inr ((), set_failure ''List_putHead'' List_E_INVALIDARG s)
      else gated handle (List_enqueueHead handle elem) s)"

definition List_next :: "u32 \<Rightarrow> u32 \<Rightarrow> u32 list_op" where
  "List_next handle elem s =
     (if handle = NULL then Inr (NULL, set_failure ''List_next'' List_E_INVALIDARG s)
      else
        bindE (get_next (if elem = NULL then handle else elem) s) (\<lambda>retElem.
        Inr (if retElem = handle then NULL else retElem, s)))"

definition List_prev :: "u32 \<Rightarrow> u32 \<Rightarrow> u32 list_op" where
  "List_prev handle elem s =
     (if handle = NULL \<or> elem = NULL then Inr (NULL, set_failure ''List_prev'' List_E_INVALIDARG s)
      else
        bindE (get_prev (if elem = NULL then handle else elem) s) (\<lambda>retElem.
        Inr (if retElem = handle then NULL else retElem, s)))"

definition List_insert :: "u32 \<Rightarrow> u32 \<Rightarrow> u32 \<Rightarrow> unit list_op" where
  "List_insert handle newElem curElem s =
     (if handle = NULL \<or> newElem = NULL \<or> curElem = NULL
      then Inr ((), set_failure ''List_insert'' List_E_INVALIDARG s)
      else gated handle (\<lambda>s0.
        bindE (set_next newElem curElem s0) (\<lambda>s1.
        bindE (get_prev curElem s1) (\<lambda>p.
        bindE (set_prev newElem p s1) (\<lambda>s2.
        bindE (get_prev newElem s2) (\<lambda>p2.
        bindE (set_next p2 newElem s2) (\<lambda>s3.
        bindE (set_prev curElem newElem s3) (\<lambda>s4. Inr ((), s4))))))) ) s)"

definition List_remove :: "u32 \<Rightarrow> u32 \<Rightarrow> unit list_op" where
  "List_remove handle elem s =
     (if handle = NULL \<or> elem = NULL then Inr ((), set_failure ''List_remove'' List_E_INVALIDARG s)
      else gated handle (\<lambda>s0.
        bindE (get_prev elem s0) (\<lambda>p.
        bindE (get_next elem s0) (\<lambda>n.
        bindE (set_next p n s0) (\<lambda>s1.
        bindE (get_next elem s1) (\<lambda>n1.
        bindE (get_prev elem s1) (\<lambda>p1.
        bindE (set_prev n1 p1 s1) (\<lambda>s2. Inr ((), s2)))))))) s)"

section \<open>Rings\<close>

text \<open>
  \<open>chain m a xs z\<close>: from \<open>a\<close>, the elements \<open>xs\<close> are linked in both directions in this order up to \<open>z\<close>. A
  list object at \<open>h\<close> that holds \<open>xs\<close> is a chain from \<open>h\<close> back to itself.
\<close>

definition linked :: "(u32 \<rightharpoonup> List_Elem) \<Rightarrow> u32 \<Rightarrow> u32 \<Rightarrow> bool" where
  "linked m a b \<longleftrightarrow> map_option elem_next (m a) = Some b \<and> map_option elem_prev (m b) = Some a"

fun chain :: "(u32 \<rightharpoonup> List_Elem) \<Rightarrow> u32 \<Rightarrow> u32 list \<Rightarrow> u32 \<Rightarrow> bool" where
  "chain m a [] z = linked m a z"
| "chain m a (b # bs) z = (linked m a b \<and> chain m b bs z)"

definition ring :: "list_store \<Rightarrow> u32 \<Rightarrow> u32 list \<Rightarrow> bool" where
  "ring s h xs \<longleftrightarrow> chain (elems s) h xs h \<and> distinct (h # xs) \<and> NULL \<notin> set (h # xs)"

lemma chain_append: "chain m a (xs @ b # ys) z = (chain m a xs b \<and> chain m b ys z)"
  by (induction xs arbitrary: a) auto

lemma chain_snoc: "chain m a (xs @ [b]) z = (chain m a xs b \<and> linked m b z)"
  by (simp add: chain_append)

text \<open>A chain depends on the forward links of all but its end and the backward links of all but its start.\<close>

lemma chain_cong:
  "\<forall>r \<in> set (a # xs). map_option elem_next (m' r) = map_option elem_next (m r) \<Longrightarrow>
   \<forall>r \<in> set (xs @ [z]). map_option elem_prev (m' r) = map_option elem_prev (m r) \<Longrightarrow>
   chain m' a xs z = chain m a xs z"
  by (induction xs arbitrary: a) (auto simp: linked_def)

lemma chain_dom: "chain m a xs z \<Longrightarrow> set (a # xs @ [z]) \<subseteq> dom m"
  by (induction xs arbitrary: a) (auto simp: linked_def)

lemma linked_next: "linked (elems s) a b \<Longrightarrow> get_next a s = Inr b"
  by (auto simp: linked_def get_next_def)

lemma linked_prev: "linked (elems s) a b \<Longrightarrow> get_prev b s = Inr a"
  by (auto simp: linked_def get_prev_def)

text \<open>What the writes of the operations do to the links.\<close>

definition relink :: "(u32 \<rightharpoonup> List_Elem) \<Rightarrow> u32 \<Rightarrow> u32 \<Rightarrow> (u32 \<rightharpoonup> List_Elem)" where
  "relink m a b =
     (let m1 = m(a := map_option (elem_next_update (\<lambda>_. b)) (m a))
      in m1(b := map_option (elem_prev_update (\<lambda>_. a)) (m1 b)))"

lemma relink_next: "map_option elem_next (relink m a b r) =
   (if r = a then map_option (\<lambda>_. b) (m a) else map_option elem_next (m r))"
  by (auto simp: relink_def Let_def map_option.compositionality comp_def)

lemma relink_prev: "map_option elem_prev (relink m a b r) =
   (if r = b then map_option (\<lambda>_. a) (m b) else map_option elem_prev (m r))"
  by (auto simp: relink_def Let_def map_option.compositionality comp_def)

lemma relink_dom [simp]: "dom (relink m a b) = dom m"
  by (auto simp: relink_def Let_def dom_def)

lemma relink_linked: "a \<in> dom m \<Longrightarrow> b \<in> dom m \<Longrightarrow> linked (relink m a b) a b"
  by (auto simp: linked_def relink_next relink_prev dom_def)

lemma relink_other:
  "r \<noteq> a \<Longrightarrow> r \<noteq> b \<Longrightarrow> relink m a b r = m r"
  by (simp add: relink_def Let_def)

lemma chain_relink:
  "a \<notin> set (c # xs) \<Longrightarrow> b \<notin> set (xs @ [z]) \<Longrightarrow> chain (relink m a b) c xs z = chain m c xs z"
  by (rule chain_cong) (auto simp: relink_next relink_prev)

text \<open>
  Two facts about rings carry all the operations: an element can be linked in between two neighbours, and
  an element can be bridged. A neighbour may be the list object itself.
\<close>

lemma chain_link_in:
  assumes c: "chain m h (xs @ ys) h" and d: "distinct (h # xs @ ys)" and n: "n \<in> dom m" "n \<notin> set (h # xs @ ys)"
  shows "chain (relink (relink m (last (h # xs)) n) n (hd (ys @ [h]))) h (xs @ n # ys) h"
proof -
  let ?p = "last (h # xs)" and ?q = "hd (ys @ [h])"
  let ?m1 = "relink m ?p n" and ?m2 = "relink (relink m ?p n) n ?q"
  have dom: "?p \<in> dom m" "?q \<in> dom m"
    using chain_dom [OF c] by (cases xs rule: rev_cases; cases ys; auto)+
  have pq: "?p \<noteq> n" "?q \<noteq> n"
    using n(2) by (cases xs rule: rev_cases; cases ys; auto)+
  have l1: "linked ?m2 ?p n"
    using dom n pq by (auto simp: linked_def relink_next relink_prev dom_def)
  have l2: "linked ?m2 n ?q"
    using dom n(1) by (intro relink_linked) auto
  have left: "chain ?m2 h xs n"
  proof (cases xs rule: rev_cases)
    case Nil
    with l1 show ?thesis by simp
  next
    case (snoc us u)
    have "chain m h us u" using c snoc by (simp add: chain_append)
    then have "chain ?m2 h us u"
      using d n(2) snoc by (subst chain_cong [where m = m]) (cases ys; auto simp: relink_next relink_prev)+
    with l1 snoc show ?thesis by (simp add: chain_snoc)
  qed
  have right: "chain ?m2 n ys h"
  proof (cases ys)
    case Nil
    with l2 show ?thesis by simp
  next
    case (Cons v vs)
    have "chain m v vs h" using c Cons by (simp add: chain_append)
    then have "chain ?m2 v vs h"
      using d n(2) Cons by (subst chain_cong [where m = m]) (cases xs rule: rev_cases; auto simp: relink_next relink_prev)+
    with l2 Cons show ?thesis by simp
  qed
  from left right show ?thesis by (simp add: chain_append)
qed

lemma chain_bridge:
  assumes c: "chain m h (xs @ x # ys) h" and d: "distinct (h # xs @ x # ys)"
  shows "chain (relink m (last (h # xs)) (hd (ys @ [h]))) h (xs @ ys) h"
proof -
  let ?p = "last (h # xs)" and ?q = "hd (ys @ [h])"
  let ?m1 = "relink m ?p ?q"
  have dom: "?p \<in> dom m" "?q \<in> dom m"
    using chain_dom [OF c] by (cases xs rule: rev_cases; cases ys; auto)+
  have l: "linked ?m1 ?p ?q" using dom by (rule relink_linked)
  have left: "chain ?m1 h us u" if "xs = us @ [u]" for us u
  proof -
    have "chain m h us u" using c that by (simp add: chain_append)
    then show ?thesis
      using d that by (subst chain_cong [where m = m]) (cases ys; auto simp: relink_next relink_prev)+
  qed
  have right: "chain ?m1 v vs h" if "ys = v # vs" for v vs
  proof -
    have "chain m v vs h" using c that by (simp add: chain_append)
    then show ?thesis
      using d that by (subst chain_cong [where m = m]) (cases xs rule: rev_cases; auto simp: relink_next relink_prev)+
  qed
  show ?thesis
    using l left right by (cases xs rule: rev_cases; cases ys) (auto simp: chain_append)
qed

section \<open>The operations on a ring\<close>

text \<open>Each operation as the links it writes.\<close>

definition gate_ok :: "list_store \<Rightarrow> u32 \<Rightarrow> bool" where
  "gate_ok s h \<longleftrightarrow> gateHandles s h \<noteq> None \<and> gateHandles s h \<noteq> Some NULL"

lemma gated_links:
  assumes "gate_ok s h" "\<And>s'. elems s' = elems s \<Longrightarrow> body s' = Inr (r, s' \<lparr> elems := m \<rparr>)"
  shows "gated h body s = Inr (r, s \<lparr> elems := m \<rparr>)"
  using assms(1) assms(2) [of s] assms(2) [of "s \<lparr> held := g # held s \<rparr>" for g]
  by (cases s) (auto simp: gate_ok_def gated_def get_gate_def IGateProvider_enter_def IGateProvider_leave_def)

lemma enqueue_links:
  assumes "elems s h = Some e" "elems s (elem_prev e) \<noteq> None" "elems s n = Some nd"
    "n \<noteq> h" "elem_prev e \<noteq> n" "h \<noteq> NULL" "n \<noteq> NULL"
  shows "List_enqueue h n s = Inr ((), s \<lparr> elems := relink (relink (elems s) (elem_prev e) n) n h \<rparr>)"
  using assms
  by (cases s) (auto simp: List_enqueue_def set_next_def set_prev_def get_next_def get_prev_def relink_def Let_def
      fun_eq_iff split: option.splits)

lemma enqueueHead_links:
  assumes "elems s h = Some e" "elems s (elem_next e) \<noteq> None" "elems s n = Some nd"
    "n \<noteq> h" "elem_next e \<noteq> n" "h \<noteq> NULL" "n \<noteq> NULL"
  shows "List_enqueueHead h n s = Inr ((), s \<lparr> elems := relink (relink (elems s) h n) n (elem_next e) \<rparr>)"
  using assms
  by (cases s) (auto simp: List_enqueueHead_def set_next_def set_prev_def get_next_def get_prev_def relink_def Let_def
      fun_eq_iff split: option.splits)

lemma dequeue_links:
  assumes "elems s h = Some e" "elem_next e \<noteq> h" "elems s (elem_next e) = Some x" "elems s (elem_next x) \<noteq> None"
    "elem_next x \<noteq> elem_next e" "h \<noteq> NULL"
  shows "List_dequeue h s = Inr (elem_next e, s \<lparr> elems := relink (elems s) h (elem_next x) \<rparr>)"
  using assms
  by (cases s) (auto simp: List_dequeue_def set_next_def set_prev_def get_next_def get_prev_def relink_def Let_def
      fun_eq_iff split: option.splits)

lemma insert_links:
  assumes "elems s c = Some e" "elems s (elem_prev e) \<noteq> None" "elems s n = Some nd"
    "n \<noteq> c" "elem_prev e \<noteq> n" "h \<noteq> NULL" "n \<noteq> NULL" "c \<noteq> NULL" "gate_ok s h"
  shows "List_insert h n c s = Inr ((), s \<lparr> elems := relink (relink (elems s) (elem_prev e) n) n c \<rparr>)"
proof -
  have "gated h body s = Inr ((), s \<lparr> elems := relink (relink (elems s) (elem_prev e) n) n c \<rparr>)"
    if "\<And>s'. elems s' = elems s \<Longrightarrow>
       body s' = Inr ((), s' \<lparr> elems := relink (relink (elems s) (elem_prev e) n) n c \<rparr>)" for body
    using that by (intro gated_links assms)
  then show ?thesis
    using assms unfolding List_insert_def
    by (auto simp: set_next_def set_prev_def get_next_def get_prev_def relink_def Let_def
      fun_eq_iff split: option.splits)
qed

lemma remove_links:
  assumes "elems s x = Some e" "elems s (elem_prev e) \<noteq> None" "elems s (elem_next e) \<noteq> None"
    "elem_prev e \<noteq> x" "h \<noteq> NULL" "x \<noteq> NULL" "gate_ok s h"
  shows "List_remove h x s = Inr ((), s \<lparr> elems := relink (elems s) (elem_prev e) (elem_next e) \<rparr>)"
proof -
  have "gated h body s = Inr ((), s \<lparr> elems := relink (elems s) (elem_prev e) (elem_next e) \<rparr>)"
    if "\<And>s'. elems s' = elems s \<Longrightarrow>
       body s' = Inr ((), s' \<lparr> elems := relink (elems s) (elem_prev e) (elem_next e) \<rparr>)" for body
    using that by (intro gated_links assms)
  then show ?thesis
    using assms unfolding List_remove_def
    by (auto simp: set_next_def set_prev_def get_next_def get_prev_def relink_def Let_def
      fun_eq_iff split: option.splits)
qed

text \<open>
  The same as steps of a ring. \<open>stays s R s'\<close>: no memory comes or goes, and only the elements of \<open>R\<close> are
  written; gates and reports are as they were.
\<close>

definition stays :: "list_store \<Rightarrow> u32 set \<Rightarrow> list_store \<Rightarrow> bool" where
  "stays s R s' \<longleftrightarrow>
     dom (elems s') = dom (elems s) \<and> (\<forall>r. r \<notin> R \<longrightarrow> elems s' r = elems s r) \<and>
     gateHandles s' = gateHandles s \<and> held s' = held s \<and> failures s' = failures s"

definition linkable :: "list_store \<Rightarrow> u32 \<Rightarrow> u32 list \<Rightarrow> u32 \<Rightarrow> bool" where
  "linkable s h xs n \<longleftrightarrow> n \<in> dom (elems s) \<and> n \<notin> set (h # xs) \<and> n \<noteq> NULL"

lemma ring_neighbours:
  assumes "ring s h (xs @ ys)"
  shows "\<exists>e. elems s (hd (ys @ [h])) = Some e \<and> elem_prev e = last (h # xs)"
    "\<exists>e. elems s (last (h # xs)) = Some e \<and> elem_next e = hd (ys @ [h])"
  using assms by (cases xs rule: rev_cases; cases ys; auto simp: ring_def chain_append linked_def)+

lemma ring_in_store: "ring s h xs \<Longrightarrow> set (h # xs) \<subseteq> dom (elems s)"
  using chain_dom [of "elems s" h xs h] by (auto simp: ring_def)

lemma ring_link_in:
  assumes r: "ring s h (xs @ ys)" and n: "linkable s h (xs @ ys) n"
  shows "ring (s \<lparr> elems := relink (relink (elems s) (last (h # xs)) n) n (hd (ys @ [h])) \<rparr>) h (xs @ n # ys)"
    "stays s (set (h # n # xs @ ys)) (s \<lparr> elems := relink (relink (elems s) (last (h # xs)) n) n (hd (ys @ [h])) \<rparr>)"
proof -
  show "ring (s \<lparr> elems := relink (relink (elems s) (last (h # xs)) n) n (hd (ys @ [h])) \<rparr>) h (xs @ n # ys)"
    using r n chain_link_in [of "elems s" h xs ys n] by (auto simp: ring_def linkable_def)
  have "last (h # xs) \<in> set (h # xs)" "hd (ys @ [h]) \<in> set (h # ys)" by (cases ys; simp)+
  then have "relink (relink (elems s) (last (h # xs)) n) n (hd (ys @ [h])) r = elems s r"
    if "r \<notin> set (h # n # xs @ ys)" for r
    using that by (subst relink_other, force, force, subst relink_other) (force simp del: last.simps)+
  then show "stays s (set (h # n # xs @ ys)) (s \<lparr> elems := relink (relink (elems s) (last (h # xs)) n) n (hd (ys @ [h])) \<rparr>)"
    by (simp add: stays_def del: last.simps)
qed

lemma ring_bridge:
  assumes r: "ring s h (xs @ x # ys)"
  shows "ring (s \<lparr> elems := relink (elems s) (last (h # xs)) (hd (ys @ [h])) \<rparr>) h (xs @ ys)"
    "stays s (set (h # xs @ x # ys)) (s \<lparr> elems := relink (elems s) (last (h # xs)) (hd (ys @ [h])) \<rparr>)"
proof -
  show "ring (s \<lparr> elems := relink (elems s) (last (h # xs)) (hd (ys @ [h])) \<rparr>) h (xs @ ys)"
    using r chain_bridge [of "elems s" h xs x ys] by (auto simp: ring_def)
  have "last (h # xs) \<in> set (h # xs)" "hd (ys @ [h]) \<in> set (h # ys)" by (cases ys; simp)+
  then have "relink (elems s) (last (h # xs)) (hd (ys @ [h])) r = elems s r" if "r \<notin> set (h # xs @ x # ys)" for r
    using that by (subst relink_other) (force simp del: last.simps)+
  then show "stays s (set (h # xs @ x # ys)) (s \<lparr> elems := relink (elems s) (last (h # xs)) (hd (ys @ [h])) \<rparr>)"
    by (simp add: stays_def del: last.simps)
qed

lemma enqueue_ring:
  assumes r: "ring s h xs" and n: "linkable s h xs n"
  shows "\<exists>s'. List_enqueue h n s = Inr ((), s') \<and> ring s' h (xs @ [n]) \<and> stays s (set (h # n # xs)) s'"
proof -
  obtain e where e: "elems s h = Some e" "elem_prev e = last (h # xs)"
    using ring_neighbours(1) [of s h xs "[]"] r by auto
  have "last (h # xs) \<in> set (h # xs)" by simp
  then have l: "last (h # xs) \<in> dom (elems s)" "last (h # xs) \<noteq> n"
    using ring_in_store [OF r] n unfolding linkable_def by blast+
  have "List_enqueue h n s = Inr ((), s \<lparr> elems := relink (relink (elems s) (last (h # xs)) n) n h \<rparr>)"
    using enqueue_links [OF e(1), of n] e(2) r n l ring_in_store [OF r]
    by (auto simp: ring_def linkable_def simp del: last.simps)
  then show ?thesis
    using ring_link_in [of s h xs "[]" n] r n by simp
qed

lemma enqueueHead_ring:
  assumes r: "ring s h xs" and n: "linkable s h xs n"
  shows "\<exists>s'. List_enqueueHead h n s = Inr ((), s') \<and> ring s' h (n # xs) \<and> stays s (set (h # n # xs)) s'"
proof -
  obtain e where e: "elems s h = Some e" "elem_next e = hd (xs @ [h])"
    using ring_neighbours(2) [of s h "[]" xs] r by auto
  have "hd (xs @ [h]) \<in> set (h # xs)" by (cases xs) simp_all
  then have l: "hd (xs @ [h]) \<in> dom (elems s)" "hd (xs @ [h]) \<noteq> n"
    using ring_in_store [OF r] n unfolding linkable_def by blast+
  have "List_enqueueHead h n s = Inr ((), s \<lparr> elems := relink (relink (elems s) h n) n (hd (xs @ [h])) \<rparr>)"
    using enqueueHead_links [OF e(1), of n] e(2) r n l ring_in_store [OF r]
    by (auto simp: ring_def linkable_def)
  then show ?thesis
    using ring_link_in [of s h "[]" xs n] r n by simp
qed

lemma dequeue_ring:
  assumes r: "ring s h (x # xs)"
  shows "\<exists>s'. List_dequeue h s = Inr (x, s') \<and> ring s' h xs \<and> stays s (set (h # x # xs)) s'"
proof -
  obtain e where e: "elems s h = Some e" "elem_next e = x"
    using ring_neighbours(2) [of s h "[]" "x # xs"] r by auto
  obtain d where d: "elems s x = Some d" "elem_next d = hd (xs @ [h])"
    using ring_neighbours(2) [of s h "[x]" xs] r by auto
  have "hd (xs @ [h]) \<in> set (h # xs)" by (cases xs) simp_all
  moreover have "x \<notin> set (h # xs)" using r by (auto simp: ring_def)
  ultimately have l: "hd (xs @ [h]) \<in> dom (elems s)" "hd (xs @ [h]) \<noteq> x"
    using ring_in_store [OF r] by auto
  have "List_dequeue h s = Inr (x, s \<lparr> elems := relink (elems s) h (hd (xs @ [h])) \<rparr>)"
    using dequeue_links [OF e(1), of d] e(2) d r l ring_in_store [OF r] by (auto simp: ring_def)
  then show ?thesis
    using ring_bridge [of s h "[]" x xs] r by simp
qed

lemma dequeue_ring_empty: "ring s h [] \<Longrightarrow> List_dequeue h s = Inr (NULL, s)"
  by (auto simp: ring_def linked_def List_dequeue_def get_next_def)

lemma insert_ring:
  assumes r: "ring s h (xs @ ys)" and g: "gate_ok s h" and n: "linkable s h (xs @ ys) n" and c: "c = hd (ys @ [h])"
  shows "\<exists>s'. List_insert h n c s = Inr ((), s') \<and> ring s' h (xs @ n # ys) \<and> stays s (set (h # n # xs @ ys)) s'"
proof -
  obtain e where e: "elems s c = Some e" "elem_prev e = last (h # xs)"
    using ring_neighbours(1) [OF r] c by auto
  have "last (h # xs) \<in> set (h # xs)" by simp
  then have l: "last (h # xs) \<in> dom (elems s)" "last (h # xs) \<noteq> n"
    using ring_in_store [OF r] n unfolding linkable_def by auto
  have cn: "c \<in> set (h # ys)" using c by (cases ys) auto
  then have "c \<noteq> NULL" "n \<noteq> c" using r n by (auto simp: ring_def linkable_def)
  then have "List_insert h n c s = Inr ((), s \<lparr> elems := relink (relink (elems s) (last (h # xs)) n) n c \<rparr>)"
    using insert_links [OF e(1), of n _ h] e(2) r n l g by (auto simp: ring_def linkable_def)
  then show ?thesis
    using ring_link_in [OF r n] c by simp
qed

lemma remove_ring:
  assumes r: "ring s h (xs @ x # ys)" and g: "gate_ok s h"
  shows "\<exists>s'. List_remove h x s = Inr ((), s') \<and> ring s' h (xs @ ys) \<and> stays s (set (h # xs @ x # ys)) s'"
proof -
  obtain e where e: "elems s x = Some e" "elem_prev e = last (h # xs)" "elem_next e = hd (ys @ [h])"
    using ring_neighbours(1) [of s h xs "x # ys"] ring_neighbours(2) [of s h "xs @ [x]" ys] r by auto
  have "last (h # xs) \<in> set (h # xs)" "hd (ys @ [h]) \<in> set (h # ys)" by (cases ys; simp)+
  then have l: "last (h # xs) \<in> dom (elems s)" "hd (ys @ [h]) \<in> dom (elems s)" "last (h # xs) \<noteq> x"
    using ring_in_store [OF r] r by (auto simp: ring_def)
  have "List_remove h x s = Inr ((), s \<lparr> elems := relink (elems s) (last (h # xs)) (hd (ys @ [h])) \<rparr>)"
    using remove_links [OF e(1), of h] e(2,3) r l g by (auto simp: ring_def)
  then show ?thesis
    using ring_bridge [OF r] by simp
qed

lemma gated_ring:
  assumes "gate_ok s h" and "ring s h xs"
    and "\<And>s'. ring s' h xs \<Longrightarrow> elems s' = elems s \<Longrightarrow> \<exists>t. body s' = Inr (r, t) \<and> ring t h ys \<and> stays s' R t"
  shows "\<exists>t. gated h body s = Inr (r, t) \<and> ring t h ys \<and> stays s R t"
proof -
  obtain g where g: "gateHandles s h = Some g" "g \<noteq> NULL" using assms(1) by (auto simp: gate_ok_def)
  define s1 where "s1 = (if g = IGateProvider_NULL then s else s \<lparr> held := g # held s \<rparr>)"
  have "ring s1 h xs" "elems s1 = elems s" using assms(2) by (auto simp: s1_def ring_def)
  then obtain t where t: "body s1 = Inr (r, t)" "ring t h ys" "stays s1 R t" using assms(3) by blast
  define t1 where "t1 = (if g = IGateProvider_NULL then t else t \<lparr> held := remove1 g (held t) \<rparr>)"
  have "gated h body s = Inr (r, t1)"
    using g t by (auto simp: gated_def get_gate_def IGateProvider_enter_def IGateProvider_leave_def s1_def t1_def stays_def)
  moreover have "ring t1 h ys" "stays s R t1"
    using t(2,3) by (auto simp: ring_def stays_def s1_def t1_def)
  ultimately show ?thesis by blast
qed

lemma stays_refl [simp]: "stays s R s"
  by (simp add: stays_def)

section \<open>Sequences of calls on one list\<close>

datatype list_call = Put u32 | PutHead u32 | Get | Empty | Insert u32 u32 | Remove u32

definition returning :: "('a \<Rightarrow> u32) \<Rightarrow> 'a list_op \<Rightarrow> u32 list_op" where
  "returning f op s = bindE (op s) (\<lambda>(r, s1). Inr (f r, s1))"

fun do_call :: "u32 \<Rightarrow> list_call \<Rightarrow> u32 list_op" where
  "do_call h (Put e) = returning (\<lambda>_. NULL) (List_put h e)"
| "do_call h (PutHead e) = returning (\<lambda>_. NULL) (List_putHead h e)"
| "do_call h Get = List_get h"
| "do_call h Empty = returning c_bool (List_empty h)"
| "do_call h (Insert n c) = returning (\<lambda>_. NULL) (List_insert h n c)"
| "do_call h (Remove e) = returning (\<lambda>_. NULL) (List_remove h e)"

text \<open>The contract, on the sequence of the elements.\<close>

fun list_spec :: "list_call \<Rightarrow> u32 list \<Rightarrow> u32 \<times> u32 list" where
  "list_spec (Put e) xs = (NULL, xs @ [e])"
| "list_spec (PutHead e) xs = (NULL, e # xs)"
| "list_spec Get xs = (case xs of [] \<Rightarrow> (NULL, []) | y # ys \<Rightarrow> (y, ys))"
| "list_spec Empty xs = (c_bool (xs = []), xs)"
| "list_spec (Insert n c) xs = (NULL, takeWhile (\<lambda>x. x \<noteq> c) xs @ n # dropWhile (\<lambda>x. x \<noteq> c) xs)"
| "list_spec (Remove e) xs = (NULL, remove1 e xs)"

text \<open>Only elements that are in memory and not in a list may be added; what is removed must be in the list.\<close>

fun list_allowed :: "list_store \<Rightarrow> u32 set \<Rightarrow> u32 \<Rightarrow> list_call \<Rightarrow> u32 list \<Rightarrow> bool" where
  "list_allowed s R h (Put e) xs = (linkable s h xs e \<and> e \<in> R)"
| "list_allowed s R h (PutHead e) xs = (linkable s h xs e \<and> e \<in> R)"
| "list_allowed s R h Get xs = True"
| "list_allowed s R h Empty xs = True"
| "list_allowed s R h (Insert n c) xs = (linkable s h xs n \<and> n \<in> R \<and> c \<in> set (h # xs))"
| "list_allowed s R h (Remove e) xs = (e \<in> set xs)"

definition list_rel :: "list_store \<Rightarrow> u32 set \<Rightarrow> u32 \<Rightarrow> list_store \<Rightarrow> u32 list \<Rightarrow> bool" where
  "list_rel s0 R h s xs \<longleftrightarrow> ring s h xs \<and> gate_ok s h \<and> stays s0 R s \<and> set (h # xs) \<subseteq> R"

lemma stays_trans: "stays s0 R s \<Longrightarrow> stays s R' t \<Longrightarrow> R' \<subseteq> R \<Longrightarrow> stays s0 R t"
  unfolding stays_def by (metis subsetD)

lemma list_relI:
  "list_rel s0 R h s xs \<Longrightarrow> ring t h ys \<Longrightarrow> stays s R' t \<Longrightarrow> R' \<subseteq> R \<Longrightarrow> set ys \<subseteq> R \<Longrightarrow> list_rel s0 R h t ys"
  using stays_trans [of s0 R s R' t] unfolding list_rel_def gate_ok_def by (auto simp: stays_def)

lemma put_calls:
  assumes r: "list_rel s0 R h s xs" and n: "linkable s0 h xs n" "n \<in> R"
  shows "\<exists>t. List_put h n s = Inr ((), t) \<and> list_rel s0 R h t (xs @ [n])"
    "\<exists>t. List_putHead h n s = Inr ((), t) \<and> list_rel s0 R h t (n # xs)"
proof -
  have s: "ring s h xs" "gate_ok s h" "h \<noteq> NULL" "n \<noteq> NULL" "set (h # n # xs) \<subseteq> R"
    using r n by (auto simp: list_rel_def ring_def linkable_def)
  have l: "linkable s' h xs n" if "elems s' = elems s" for s'
    using that r n by (simp add: list_rel_def linkable_def stays_def)
  obtain t where "gated h (List_enqueue h n) s = Inr ((), t)" "ring t h (xs @ [n])" "stays s (set (h # n # xs)) t"
    using gated_ring [OF s(2,1), of "List_enqueue h n"] enqueue_ring l by blast
  with list_relI [OF r, of t] s show "\<exists>t. List_put h n s = Inr ((), t) \<and> list_rel s0 R h t (xs @ [n])"
    by (auto simp: List_put_def)
  obtain t where "gated h (List_enqueueHead h n) s = Inr ((), t)" "ring t h (n # xs)" "stays s (set (h # n # xs)) t"
    using gated_ring [OF s(2,1), of "List_enqueueHead h n"] enqueueHead_ring l by blast
  with list_relI [OF r, of t] s show "\<exists>t. List_putHead h n s = Inr ((), t) \<and> list_rel s0 R h t (n # xs)"
    by (auto simp: List_putHead_def)
qed

lemma get_call:
  assumes r: "list_rel s0 R h s xs"
  shows "\<exists>t. List_get h s = Inr (fst (list_spec Get xs), t) \<and> list_rel s0 R h t (snd (list_spec Get xs))"
proof (cases xs)
  case Nil
  with r have "\<exists>t. gated h (List_dequeue h) s = Inr (NULL, t) \<and> ring t h [] \<and> stays s {} t"
    by (intro gated_ring [where xs = "[]"]) (auto simp: list_rel_def dequeue_ring_empty)
  then obtain t where "gated h (List_dequeue h) s = Inr (NULL, t)" "ring t h []" "stays s {} t" by blast
  with Nil list_relI [OF r, of t "[]" "{}"] r show ?thesis
    by (auto simp: List_get_def list_rel_def ring_def)
next
  case (Cons y ys)
  with r have "\<exists>t. gated h (List_dequeue h) s = Inr (y, t) \<and> ring t h ys \<and> stays s (set (h # y # ys)) t"
    by (intro gated_ring [where xs = "y # ys"] dequeue_ring) (auto simp: list_rel_def)
  then obtain t where "gated h (List_dequeue h) s = Inr (y, t)" "ring t h ys" "stays s (set (h # y # ys)) t" by blast
  moreover have "set (h # y # ys) \<subseteq> R" using r Cons by (auto simp: list_rel_def)
  ultimately show ?thesis
    using Cons list_relI [OF r, of t ys "set (h # y # ys)"] r by (auto simp: List_get_def list_rel_def ring_def)
qed

lemma empty_call:
  assumes r: "list_rel s0 R h s xs"
  shows "List_empty h s = Inr (xs = [], s)"
proof -
  have h: "h \<noteq> NULL" "gate_ok s h" using r by (auto simp: list_rel_def ring_def)
  obtain e where e: "elems s h = Some e" "elem_next e = hd (xs @ [h])"
    using ring_neighbours(2) [of s h "[]" xs] r by (auto simp: list_rel_def)
  have "(hd (xs @ [h]) = h) = (xs = [])" using r by (cases xs) (auto simp: list_rel_def ring_def)
  then have "gated h (\<lambda>s1. bindE (get_next h s1) (\<lambda>n. Inr (n = h, s1))) s = Inr (xs = [], s \<lparr> elems := elems s \<rparr>)"
    using e by (intro gated_links [OF h(2)]) (auto simp: get_next_def)
  with h show ?thesis by (simp add: List_empty_def)
qed

lemma insert_call:
  assumes r: "list_rel s0 R h s xs" and n: "linkable s0 h xs n" "n \<in> R" and c: "c \<in> set (h # xs)"
  shows "\<exists>t. List_insert h n c s = Inr ((), t) \<and> list_rel s0 R h t (takeWhile (\<lambda>x. x \<noteq> c) xs @ n # dropWhile (\<lambda>x. x \<noteq> c) xs)"
proof -
  let ?us = "takeWhile (\<lambda>x. x \<noteq> c) xs" and ?vs = "dropWhile (\<lambda>x. x \<noteq> c) xs"
  have "c = hd (?vs @ [h])"
  proof (cases ?vs)
    case Nil
    then have "c \<notin> set xs" by (auto simp: dropWhile_eq_Nil_conv)
    with c have "c = h" by simp
    then show ?thesis by (subst Nil) simp
  next
    case (Cons v vs)
    then show ?thesis using hd_dropWhile [of "\<lambda>x. x \<noteq> c" xs] by simp
  qed
  moreover have "linkable s h (?us @ ?vs) n" using r n by (simp add: list_rel_def linkable_def stays_def)
  ultimately obtain t where t: "List_insert h n c s = Inr ((), t)" "ring t h (?us @ n # ?vs)" "stays s (set (h # n # xs)) t"
    using insert_ring [of s h ?us ?vs n c] r by (auto simp: list_rel_def)
  have "set ?us \<subseteq> set xs" "set ?vs \<subseteq> set xs" by (auto dest: set_takeWhileD set_dropWhileD)
  then have "list_rel s0 R h t (?us @ n # ?vs)"
    using t r n by (intro list_relI [OF r t(2,3)]) (auto simp: list_rel_def)
  with t show ?thesis by blast
qed

lemma remove_call:
  assumes r: "list_rel s0 R h s xs" and x: "x \<in> set xs"
  shows "\<exists>t. List_remove h x s = Inr ((), t) \<and> list_rel s0 R h t (remove1 x xs)"
proof -
  obtain us vs where xs: "xs = us @ x # vs" "x \<notin> set us" using split_list_first [OF x] by blast
  then obtain t where t: "List_remove h x s = Inr ((), t)" "ring t h (us @ vs)" "stays s (set (h # xs)) t"
    using remove_ring [of s h us x vs] r by (auto simp: list_rel_def)
  moreover have "list_rel s0 R h t (us @ vs)"
    using t r xs by (intro list_relI [OF r t(2,3)]) (auto simp: list_rel_def)
  ultimately show ?thesis using xs by (auto simp: remove1_append)
qed

interpretation list_calls: simulation "do_call h" list_spec "list_rel s0 R h" "list_allowed s0 R h" for s0 R h
proof
  fix s xs c
  assume r: "list_rel s0 R h s xs" and a: "list_allowed s0 R h c xs"
  show "\<exists>t. do_call h c s = Inr (fst (list_spec c xs), t) \<and> list_rel s0 R h t (snd (list_spec c xs))"
  proof (cases c)
    case (Put e)
    with put_calls(1) [OF r, of e] a show ?thesis by (auto simp: returning_def)
  next
    case (PutHead e)
    with put_calls(2) [OF r, of e] a show ?thesis by (auto simp: returning_def)
  next
    case Get
    with get_call [OF r] show ?thesis by simp
  next
    case Empty
    with empty_call [OF r] r show ?thesis by (simp add: returning_def)
  next
    case (Insert n d)
    with insert_call [OF r, of n d] a show ?thesis by (auto simp: returning_def)
  next
    case (Remove e)
    with remove_call [OF r, of e] a show ?thesis by (auto simp: returning_def)
  qed
qed

section \<open>Traversal\<close>

text \<open>Following \<open>List_next\<close> from NULL, or \<open>List_prev\<close> from an element, with fuel for the walk.\<close>

fun walk :: "(u32 \<Rightarrow> u32 list_op) \<Rightarrow> nat \<Rightarrow> u32 \<Rightarrow> u32 list list_op" where
  "walk f 0 e s = Inr ([], s)"
| "walk f (Suc n) e s =
     bindE (f e s) (\<lambda>(r, s1).
       if r = NULL then Inr ([], s1)
       else bindE (walk f n r s1) (\<lambda>(rs, s2). Inr (r # rs, s2)))"

lemma List_next_ring:
  assumes "ring s h (xs @ ys)" "p = (if xs = [] then NULL else last xs)"
  shows "List_next h p s = Inr (if ys = [] then NULL else hd ys, s)"
proof -
  obtain e where e: "elems s (last (h # xs)) = Some e" "elem_next e = hd (ys @ [h])"
    using ring_neighbours(2) [OF assms(1)] by auto
  have "(if p = NULL then h else p) = last (h # xs)"
    using assms by (cases xs rule: rev_cases) (auto simp: ring_def)
  moreover have "h \<noteq> NULL" "ys \<noteq> [] \<Longrightarrow> hd ys \<noteq> h" using assms(1) by (cases ys; auto simp: ring_def)+
  ultimately show ?thesis using e by (cases ys) (simp_all add: List_next_def get_next_def del: last.simps)
qed

lemma List_prev_ring:
  assumes "ring s h (xs @ p # ys)"
  shows "List_prev h p s = Inr (if xs = [] then NULL else last xs, s)"
proof -
  obtain e where e: "elems s p = Some e" "elem_prev e = last (h # xs)"
    using ring_neighbours(1) [OF assms] by auto
  have "h \<noteq> NULL" "p \<noteq> NULL" "xs \<noteq> [] \<Longrightarrow> last xs \<noteq> h"
    using assms by (cases xs rule: rev_cases; auto simp: ring_def)+
  with e show ?thesis by (cases "xs = []") (simp_all add: List_prev_def get_prev_def)
qed

lemma walk_next:
  "ring s h (xs @ ys) \<Longrightarrow> length ys < n \<Longrightarrow> walk (List_next h) n (if xs = [] then NULL else last xs) s = Inr (ys, s)"
proof (induction ys arbitrary: xs n)
  case Nil
  from Nil.prems(2) obtain k where "n = Suc k" by (cases n) auto
  then show ?case by (simp only: walk.simps List_next_ring [OF Nil.prems(1) refl]) simp
next
  case (Cons y ys)
  then obtain k where n: "n = Suc k" by (cases n) auto
  have "y \<noteq> NULL" using Cons.prems(1) by (auto simp: ring_def)
  moreover have "walk (List_next h) k y s = Inr (ys, s)"
    using Cons.IH [of "xs @ [y]" k] Cons.prems n by simp
  ultimately show ?case using List_next_ring [OF Cons.prems(1) refl] n by simp
qed

lemma walk_prev:
  "ring s h (xs @ p # ys) \<Longrightarrow> length xs < n \<Longrightarrow> walk (List_prev h) n p s = Inr (rev xs, s)"
proof (induction xs arbitrary: p ys n rule: rev_induct)
  case Nil
  then show ?case using List_prev_ring [of s h "[]" p ys] by (cases n) simp_all
next
  case (snoc x xs)
  then obtain k where n: "n = Suc k" by (cases n) auto
  have "x \<noteq> NULL" using snoc.prems(1) by (auto simp: ring_def)
  moreover have "walk (List_prev h) k x s = Inr (rev xs, s)"
    using snoc.IH [of x "p # ys" k] snoc.prems n by simp
  ultimately show ?case using List_prev_ring [OF snoc.prems(1)] n by simp
qed

section \<open>Properties\<close>

text \<open>C13: Every sequence of calls on a list (put at either end, get, insertion before an element, removal,
  test for empty), each within its precondition, returns what the same calls return on the sequence of the
  elements, and leaves a well-formed ring that holds the resulting sequence. Nothing outside the list object and
  the elements that pass through it is written, no gate stays held and no failure is reported.\<close>

theorem list_calls_refine:
  assumes "ring s h xs" "gate_ok s h" "set (h # xs) \<subseteq> R"
    and "all_allowed list_spec (list_allowed s R h) cs xs"
  shows "\<exists>t. run_calls (do_call h) cs s = Inr (fst (run_spec list_spec cs xs), t) \<and>
    ring t h (snd (run_spec list_spec cs xs)) \<and> stays s R t"
proof -
  have "list_rel s R h s xs" using assms by (simp add: list_rel_def)
  from list_calls.run_refines [OF this assms(4)] show ?thesis by (auto simp: list_rel_def)
qed

text \<open>A list object at 8 with no gate, and three elements at 16, 24 and 32.\<close>

definition list_memory :: list_store where
  "list_memory =
     \<lparr> elems = [8 \<mapsto> \<lparr> elem_next = 8, elem_prev = 8 \<rparr>, 16 \<mapsto> \<lparr> elem_next = 0, elem_prev = 0 \<rparr>,
               24 \<mapsto> \<lparr> elem_next = 0, elem_prev = 0 \<rparr>, 32 \<mapsto> \<lparr> elem_next = 0, elem_prev = 0 \<rparr>],
       gateHandles = [8 \<mapsto> IGateProvider_NULL], held = [], failures = [] \<rparr>"

lemma list_memory_ok: "ring list_memory 8 []" "gate_ok list_memory 8"
  by (simp_all add: list_memory_def ring_def linked_def gate_ok_def IGateProvider_NULL_def)

lemma list_memory_linkable: "linkable list_memory 8 xs n \<longleftrightarrow> n \<in> {16, 24, 32} \<and> n \<notin> set xs"
  by (auto simp: linkable_def list_memory_def)

theorem list_calls_refine_witness:
  "\<exists>t. run_calls (do_call 8) [Put 16, PutHead 24, Insert 32 16, Remove 24, Get, Empty] list_memory =
       Inr ([0, 0, 0, 0, 32, 0], t) \<and>
     ring t 8 [16] \<and> stays list_memory {8, 16, 24, 32} t"
  using list_calls_refine [OF list_memory_ok, of "{8, 16, 24, 32}" "[Put 16, PutHead 24, Insert 32 16, Remove 24, Get, Empty]"]
  by (simp add: list_memory_linkable c_bool_def)

text \<open>A list that shares no element with the list the calls work on is left exactly as it is.\<close>

theorem list_calls_leave_others:
  assumes "ring s h xs" "gate_ok s h" "set (h # xs) \<subseteq> R"
    and "all_allowed list_spec (list_allowed s R h) cs xs"
    and "ring s k ys" "R \<inter> set (k # ys) = {}"
    and "run_calls (do_call h) cs s = Inr (rs, t)"
  shows "ring t k ys"
proof -
  have "list_rel s R h s xs" using assms by (simp add: list_rel_def)
  from list_calls.run_keeps [OF this assms(4,7)] have "stays s R t" by (simp add: list_rel_def)
  then have "elems t r = elems s r" if "r \<in> set (k # ys)" for r
    using that assms(6) unfolding stays_def by blast
  then have "chain (elems t) k ys k = chain (elems s) k ys k"
    by (intro chain_cong) auto
  with assms(5) show ?thesis by (simp add: ring_def)
qed

definition two_lists :: list_store where
  "two_lists = list_memory \<lparr> elems := (elems list_memory)(40 \<mapsto> \<lparr> elem_next = 48, elem_prev = 48 \<rparr>,
     48 \<mapsto> \<lparr> elem_next = 40, elem_prev = 40 \<rparr>) \<rparr>"

theorem list_calls_leave_others_witness:
  "\<exists>t. run_calls (do_call 8) [Put 16, Get] two_lists = Inr ([0, 16], t) \<and> ring t 40 [48]"
proof -
  have r: "ring two_lists 8 []" "gate_ok two_lists 8" "ring two_lists 40 [48]"
    by (simp_all add: two_lists_def list_memory_def ring_def linked_def gate_ok_def IGateProvider_NULL_def)
  have a: "all_allowed list_spec (list_allowed two_lists {8, 16} 8) [Put 16, Get] []"
    by (simp add: linkable_def two_lists_def list_memory_def)
  obtain t where "run_calls (do_call 8) [Put 16, Get] two_lists = Inr ([0, 16], t)"
    by (simp add: returning_def two_lists_def list_memory_def List_put_def List_get_def gated_def get_gate_def
        IGateProvider_enter_def IGateProvider_leave_def List_enqueue_def List_dequeue_def get_next_def get_prev_def
        set_next_def set_prev_def)
  with list_calls_leave_others [OF r(1,2) _ a r(3)] show ?thesis by auto
qed

text \<open>Walking a list with \<open>List_next\<close> from NULL visits its elements in order and ends with NULL after the
  last; walking it with \<open>List_prev\<close> from the last element visits the others in the opposite order. The list is not
  changed. (\<open>List_prev\<close> does not start from NULL: it refuses that argument, although its body has a branch for it.)\<close>

theorem list_traversal:
  assumes "ring s h xs" "length xs < n"
  shows "walk (List_next h) n NULL s = Inr (xs, s) \<and>
    (xs = [] \<or> walk (List_prev h) n (last xs) s = Inr (rev (butlast xs), s)) \<and>
    List_prev h NULL s = Inr (NULL, set_failure ''List_prev'' List_E_INVALIDARG s)"
proof -
  have "walk (List_next h) n NULL s = Inr (xs, s)"
    using walk_next [of s h "[]" xs n] assms by simp
  moreover have "walk (List_prev h) n (last xs) s = Inr (rev (butlast xs), s)" if "xs \<noteq> []"
    using walk_prev [of s h "butlast xs" "last xs" "[]" n] that assms by simp
  ultimately show ?thesis by (auto simp: List_prev_def)
qed

theorem list_traversal_witness:
  "walk (List_next 40) 2 NULL two_lists = Inr ([48], two_lists) \<and>
   ([48 :: u32] = [] \<or> walk (List_prev 40) 2 (last [48]) two_lists = Inr (rev (butlast [48]), two_lists)) \<and>
   List_prev 40 NULL two_lists = Inr (NULL, set_failure ''List_prev'' List_E_INVALIDARG two_lists)"
  by (rule list_traversal) (simp_all add: two_lists_def list_memory_def ring_def linked_def)

end
