(* ===== verification/Rcm_Types.thy ===== *)
theory Rcm_Types
  imports Prelude
begin

text \<open>
  The data of the remote command server: the constants and the packet of \<open>include/RcmTypes.h\<close>,
  \<open>include/RcmServer.h\<close> and \<open>include/RcmClient.h\<close>, and the objects of \<open>src/syslink/api/src/rcm/RcmServer.c\<close>.

  The intrusive lists of the server (ready queues, job streams and their message queues) are HOL lists of
  what they hold; the theory \<open>Linked_Lists\<close> shows that the rings behave like that. A packet is known by the
  address \<open>packet_at\<close> of its message; its fields are carried with it, since one thread at a time owns it.
  Function addresses are 32-bit words and 0 is NULL. Return codes are integers.
\<close>

section \<open>Codes\<close>

definition RcmServer_S_SUCCESS :: int where "RcmServer_S_SUCCESS = 0"
definition RcmServer_S_ALREADYSETUP :: int where "RcmServer_S_ALREADYSETUP = 1"
definition RcmServer_S_ALREADYCLEANEDUP :: int where "RcmServer_S_ALREADYCLEANEDUP = 1"
definition RcmServer_E_FAIL :: int where "RcmServer_E_FAIL = -1"
definition RcmServer_E_NOMEMORY :: int where "RcmServer_E_NOMEMORY = -2"
definition RcmServer_E_SYMBOLNOTFOUND :: int where "RcmServer_E_SYMBOLNOTFOUND = -3"
definition RcmServer_E_SYMBOLSTATIC :: int where "RcmServer_E_SYMBOLSTATIC = -4"
definition RcmServer_E_SYMBOLTABLEFULL :: int where "RcmServer_E_SYMBOLTABLEFULL = -5"
definition RcmServer_E_INVALIDARG :: int where "RcmServer_E_INVALIDARG = -9"
definition RcmServer_E_INVALIDSTATE :: int where "RcmServer_E_INVALIDSTATE = -10"
definition RcmServer_E_InvalidFxnIdx :: int where "RcmServer_E_InvalidFxnIdx = -101"
definition RcmServer_E_JobIdNotFound :: int where "RcmServer_E_JobIdNotFound = -102"
definition RcmServer_E_PoolIdNotFound :: int where "RcmServer_E_PoolIdNotFound = -103"

lemmas rcm_codes =
  RcmServer_S_SUCCESS_def RcmServer_S_ALREADYSETUP_def RcmServer_S_ALREADYCLEANEDUP_def RcmServer_E_FAIL_def
  RcmServer_E_NOMEMORY_def RcmServer_E_SYMBOLNOTFOUND_def RcmServer_E_SYMBOLSTATIC_def
  RcmServer_E_SYMBOLTABLEFULL_def RcmServer_E_INVALIDARG_def RcmServer_E_INVALIDSTATE_def
  RcmServer_E_InvalidFxnIdx_def RcmServer_E_JobIdNotFound_def RcmServer_E_PoolIdNotFound_def

definition RCMSERVER_MAX_TABLES :: nat where "RCMSERVER_MAX_TABLES = 8"
definition RCM_KeyResetValue :: u16 where "RCM_KeyResetValue = 0x07FF"
definition RCM_KeyMask :: u32 where "RCM_KeyMask = 0x7FF00000"
definition RCM_KeyShift :: nat where "RCM_KeyShift = 20"

definition RcmClient_DISCRETEJOBID :: u16 where "RcmClient_DISCRETEJOBID = 0"
definition RcmClient_DEFAULTPOOLID :: u16 where "RcmClient_DEFAULTPOOLID = 0x8000"
definition RcmClient_Desc_TYPE_MASK :: u16 where "RcmClient_Desc_TYPE_MASK = 0x0F00"
definition RcmClient_Desc_TYPE_SHIFT :: nat where "RcmClient_Desc_TYPE_SHIFT = 8"

definition RcmClient_Desc_RCM_MSG :: u16 where "RcmClient_Desc_RCM_MSG = 1"
definition RcmClient_Desc_DPC :: u16 where "RcmClient_Desc_DPC = 2"
definition RcmClient_Desc_SYM_ADD :: u16 where "RcmClient_Desc_SYM_ADD = 3"
definition RcmClient_Desc_SYM_IDX :: u16 where "RcmClient_Desc_SYM_IDX = 4"
definition RcmClient_Desc_CMD :: u16 where "RcmClient_Desc_CMD = 5"
definition RcmClient_Desc_JOB_ACQ :: u16 where "RcmClient_Desc_JOB_ACQ = 6"
definition RcmClient_Desc_JOB_REL :: u16 where "RcmClient_Desc_JOB_REL = 7"

lemmas rcm_desc_types =
  RcmClient_Desc_RCM_MSG_def RcmClient_Desc_DPC_def RcmClient_Desc_SYM_ADD_def RcmClient_Desc_SYM_IDX_def
  RcmClient_Desc_CMD_def RcmClient_Desc_JOB_ACQ_def RcmClient_Desc_JOB_REL_def

definition Status_SUCCESS :: u16 where "Status_SUCCESS = 0"
definition Status_INVALID_FXN :: u16 where "Status_INVALID_FXN = 1"
definition Status_SYMBOL_NOT_FOUND :: u16 where "Status_SYMBOL_NOT_FOUND = 2"
definition Status_MSG_FXN_ERR :: u16 where "Status_MSG_FXN_ERR = 4"
definition Status_ERROR :: u16 where "Status_ERROR = 5"
definition Status_Unprocessed :: u16 where "Status_Unprocessed = 6"
definition Status_JobNotFound :: u16 where "Status_JobNotFound = 7"
definition Status_PoolNotFound :: u16 where "Status_PoolNotFound = 8"

lemmas rcm_status =
  Status_SUCCESS_def Status_INVALID_FXN_def Status_SYMBOL_NOT_FOUND_def Status_MSG_FXN_ERR_def Status_ERROR_def
  Status_Unprocessed_def Status_JobNotFound_def Status_PoolNotFound_def

section \<open>Objects\<close>

record RcmClient_Packet =
  packet_at :: nat
  desc :: u16
  msgId :: u16
  poolId :: u16
  msg_jobId :: u16
  fxnIdx :: u32
  msg_result :: u32
  msg_dataSize :: u32
  msg_data :: "u32 list"

record RcmServer_FxnTabElem =
  fxn_name :: "string option"
  fxn_addr :: u32
  fxn_key :: u16

record RcmServer_ThreadPool =
  count :: nat
  sem :: nat
  readyQueue :: "RcmClient_Packet list"

record RcmServer_JobStream =
  job_id :: u16
  job_empty :: bool
  msgQue :: "RcmClient_Packet list"

record RcmServer_Object =
  static_length :: nat
  fxnTab :: "RcmServer_FxnTabElem list option list"
  next_key :: u16
  last_jobId :: u16
  shutdown :: bool
  poolMap0 :: "RcmServer_ThreadPool list"
  jobList :: "RcmServer_JobStream list"

text \<open>What the code can do outside the behaviour that C defines.\<close>

datatype rcm_fault = NoTable | OutsideTable | NullCall | UninitialisedCall | OutsideMessage

section \<open>Module set-up\<close>

text \<open>The set-up count is an \<open>Int32\<close>.\<close>

definition RcmServer_init :: "u32 \<Rightarrow> int \<times> u32" where
  "RcmServer_init refs =
     (let refs1 = refs + 1
      in (if sint refs1 > 1 then RcmServer_S_ALREADYSETUP else RcmServer_S_SUCCESS, refs1))"

definition RcmServer_exit :: "u32 \<Rightarrow> int \<times> u32" where
  "RcmServer_exit refs =
     (let refs1 = refs - 1
      in (if sint refs1 < 0 then RcmServer_S_ALREADYCLEANEDUP else RcmServer_S_SUCCESS, refs1))"

end
