(* ===== verification/Rcm_Mail.thy ===== *)
theory Rcm_Mail
  imports Rcm_Types "HOL-Library.Multiset"
begin

text \<open>
  The delivery of return messages in \<open>src/syslink/api/src/rcm/RcmClient.c\<close>: \<open>_RcmClient_getReturnMsg\<close>, called by any number
  of threads of one client at once. A caller looks for its message in the list of new mail; if it is not there, it
  becomes the mailman if nobody else is (it gets the \<open>queueLock\<close>) and reads the inbound queue, or it enters the list of
  recipients and waits on its own semaphore.

  Everything the code does between taking \<open>mbxLock\<close> and releasing it is one step here: no other caller can look at the two
  lists or at \<open>queueLock\<close> in between, and a message that arrives meanwhile might as well have arrived before. What a caller
  does outside of the lock, waiting for the queue or for its semaphore, is a step of its own. The operations on
  semaphores succeed; a failing \<open>MessageQ_get\<close> and a semaphore that cannot be created are the steps of \<open>mail_fault\<close>.
\<close>

section \<open>State\<close>

record Recipient =
  r_who :: nat
  r_msgId :: u16
  r_msg :: "RcmClient_Packet option"
  r_event :: nat

datatype mail_pc =
    Enter
  | Blocked
  | Holding RcmClient_Packet
  | Waiting
  | Woken
  | Returned RcmClient_Packet
  | Failed int

record mail_system =
  inbox :: "RcmClient_Packet list"
  newMail :: "RcmClient_Packet list"
  recipients :: "Recipient list"
  queue_free :: bool
  mbx_free :: bool
  callers :: "(u16 \<times> mail_pc) list"
  arrived :: "RcmClient_Packet list"

section \<open>What is done under the lock\<close>

text \<open>The search of the new mail list takes the first message with the id out of the list.\<close>

fun take_mail :: "u16 \<Rightarrow> RcmClient_Packet list \<Rightarrow> (RcmClient_Packet \<times> RcmClient_Packet list) option" where
  "take_mail me [] = None"
| "take_mail me (p # ps) =
     (if msgId p = me then Some (p, ps) else map_option (\<lambda>(q, qs). (q, p # qs)) (take_mail me ps))"

text \<open>The search of the wait list for a new mailman posts the first recipient without a message.\<close>

fun hand_over :: "Recipient list \<Rightarrow> Recipient list" where
  "hand_over [] = []"
| "hand_over (r # rs) = (if r_msg r = None then r \<lparr> r_event := r_event r + 1 \<rparr> # rs else r # hand_over rs)"

text \<open>Delivery to the first recipient with the id of the message, if there is one.\<close>

fun give_to :: "RcmClient_Packet \<Rightarrow> Recipient list \<Rightarrow> Recipient list option" where
  "give_to p [] = None"
| "give_to p (r # rs) =
     (if r_msgId r = msgId p then Some (r \<lparr> r_msg := Some p, r_event := r_event r + 1 \<rparr> # rs)
      else map_option (\<lambda>rs'. r # rs') (give_to p rs))"

definition deliver :: "RcmClient_Packet \<Rightarrow> Recipient list \<times> RcmClient_Packet list \<Rightarrow> Recipient list \<times> RcmClient_Packet list" where
  "deliver p box = (case give_to p (fst box) of None \<Rightarrow> (fst box, snd box @ [p]) | Some rs \<Rightarrow> (rs, snd box))"

text \<open>The loop of the mailman over the messages at hand, until its own is found; then what is left of the queue.\<close>

fun mailman :: "u16 \<Rightarrow> RcmClient_Packet list \<Rightarrow> Recipient list \<times> RcmClient_Packet list \<Rightarrow>
    RcmClient_Packet option \<times> RcmClient_Packet list \<times> Recipient list \<times> RcmClient_Packet list" where
  "mailman me [] box = (None, [], box)"
| "mailman me (p # ps) box = (if msgId p = me then (Some p, ps, box) else mailman me ps (deliver p box))"

section \<open>Steps of a caller\<close>

definition set_pc :: "nat \<Rightarrow> mail_pc \<Rightarrow> mail_system \<Rightarrow> mail_system" where
  "set_pc i pc s = s \<lparr> callers := (callers s)[i := (fst (callers s ! i), pc)] \<rparr>"

definition mailman_step :: "nat \<Rightarrow> RcmClient_Packet list \<Rightarrow> mail_system \<Rightarrow> mail_system" where
  "mailman_step i msgs s =
     (case mailman (fst (callers s ! i)) msgs (recipients s, newMail s) of
        (None, rest, rs, nm) \<Rightarrow>
          set_pc i Blocked (s \<lparr> inbox := rest, recipients := rs, newMail := nm, queue_free := False \<rparr>)
      | (Some p, rest, rs, nm) \<Rightarrow>
          set_pc i (Returned p) (s \<lparr> inbox := rest, recipients := hand_over rs, newMail := nm, queue_free := True \<rparr>))"

definition enter_step :: "nat \<Rightarrow> mail_system \<Rightarrow> mail_system" where
  "enter_step i s =
     (case take_mail (fst (callers s ! i)) (newMail s) of
        Some (p, rest) \<Rightarrow> set_pc i (Returned p) (s \<lparr> newMail := rest \<rparr>)
      | None \<Rightarrow>
          if queue_free s then mailman_step i (inbox s) s
          else set_pc i Waiting (s \<lparr> recipients := recipients s @
                 [\<lparr> r_who = i, r_msgId = fst (callers s ! i), r_msg = None, r_event = 0 \<rparr>] \<rparr>))"

definition my_recipient :: "nat \<Rightarrow> Recipient list \<Rightarrow> Recipient option" where
  "my_recipient i rs = find (\<lambda>r. r_who r = i) rs"

definition woken_step :: "nat \<Rightarrow> mail_system \<Rightarrow> mail_system option" where
  "woken_step i s =
     (case my_recipient i (recipients s) of
        None \<Rightarrow> None
      | Some r \<Rightarrow>
          Some (set_pc i (case r_msg r of None \<Rightarrow> Enter | Some p \<Rightarrow> Returned p)
            (s \<lparr> recipients := filter (\<lambda>r. r_who r \<noteq> i) (recipients s) \<rparr>)))"

definition pend_event :: "nat \<Rightarrow> Recipient list \<Rightarrow> Recipient list" where
  "pend_event i rs = map (\<lambda>r. if r_who r = i then r \<lparr> r_event := r_event r - 1 \<rparr> else r) rs"

text \<open>One step of caller \<open>i\<close>, or \<^const>\<open>None\<close> if it cannot move.\<close>

definition caller_step :: "nat \<Rightarrow> mail_system \<Rightarrow> mail_system option" where
  "caller_step i s =
     (if length (callers s) \<le> i then None
      else case snd (callers s ! i) of
        Enter \<Rightarrow> if mbx_free s then Some (enter_step i s) else None
      | Blocked \<Rightarrow>
          (case inbox s of [] \<Rightarrow> None | p # ps \<Rightarrow> Some (set_pc i (Holding p) (s \<lparr> inbox := ps \<rparr>)))
      | Holding p \<Rightarrow> if mbx_free s then Some (mailman_step i (p # inbox s) s) else None
      | Waiting \<Rightarrow>
          (case my_recipient i (recipients s) of
             None \<Rightarrow> None
           | Some r \<Rightarrow> if r_event r = 0 then None
                       else Some (set_pc i Woken (s \<lparr> recipients := pend_event i (recipients s) \<rparr>)))
      | Woken \<Rightarrow> if mbx_free s then woken_step i s else None
      | _ \<Rightarrow> None)"

section \<open>The system\<close>

text \<open>Messages on their way to a caller.\<close>

fun held :: "mail_pc \<Rightarrow> RcmClient_Packet list" where
  "held (Holding p) = [p]"
| "held _ = []"

fun got :: "mail_pc \<Rightarrow> RcmClient_Packet list" where
  "got (Returned p) = [p]"
| "got _ = []"

fun active :: "mail_pc \<Rightarrow> bool" where
  "active (Returned p) = False"
| "active (Failed e) = False"
| "active _ = True"

definition pending :: "mail_system \<Rightarrow> RcmClient_Packet multiset" where
  "pending s = mset (inbox s) + mset (newMail s) + mset (concat (map (held \<circ> snd) (callers s))) +
     mset (concat (map (\<lambda>r. case r_msg r of None \<Rightarrow> [] | Some p \<Rightarrow> [p]) (recipients s)))"

definition handed_out :: "mail_system \<Rightarrow> RcmClient_Packet multiset" where
  "handed_out s = mset (concat (map (got \<circ> snd) (callers s)))"

definition RcmClient_E_LOSTMSG :: int where "RcmClient_E_LOSTMSG = -9"
definition RcmClient_E_FAIL :: int where "RcmClient_E_FAIL = -1"

text \<open>
  A new caller waits for a message that no active caller waits for; the message ids in flight differ, since an id is given to
  one message and the server answers a message once.
\<close>

inductive mail_step :: "mail_system \<Rightarrow> mail_system \<Rightarrow> bool" where
  arrive: "msgId p \<notin> msgId ` set_mset (pending s) \<Longrightarrow>
     mail_step s (s \<lparr> inbox := inbox s @ [p], arrived := arrived s @ [p] \<rparr>)"
| call: "me \<notin> fst ` {c \<in> set (callers s). active (snd c)} \<Longrightarrow>
     mail_step s (s \<lparr> callers := callers s @ [(me, Enter)] \<rparr>)"
| caller: "caller_step i s = Some t \<Longrightarrow> mail_step s t"

text \<open>
  The error exits: the mailman gets an error from the queue while it holds both locks (after it has delivered some messages), or
  while it waits for the queue; a recipient cannot create its semaphore. The locks that the caller holds stay taken.
\<close>

inductive mail_fault :: "mail_system \<Rightarrow> mail_system \<Rightarrow> bool" where
  get_failed: "i < length (callers s) \<Longrightarrow> snd (callers s ! i) = Enter \<Longrightarrow> mbx_free s \<Longrightarrow> queue_free s \<Longrightarrow>
     take_mail (fst (callers s ! i)) (newMail s) = None \<Longrightarrow> inbox s = msgs @ rest \<Longrightarrow>
     mailman (fst (callers s ! i)) msgs (recipients s, newMail s) = (None, [], rs, nm) \<Longrightarrow>
     mail_fault s (set_pc i (Failed RcmClient_E_LOSTMSG)
       (s \<lparr> inbox := rest, recipients := rs, newMail := nm, queue_free := False, mbx_free := False \<rparr>))"
| get_failed_later: "i < length (callers s) \<Longrightarrow> snd (callers s ! i) = Holding p \<Longrightarrow> mbx_free s \<Longrightarrow> inbox s = msgs @ rest \<Longrightarrow>
     mailman (fst (callers s ! i)) (p # msgs) (recipients s, newMail s) = (None, [], rs, nm) \<Longrightarrow>
     mail_fault s (set_pc i (Failed RcmClient_E_LOSTMSG)
       (s \<lparr> inbox := rest, recipients := rs, newMail := nm, mbx_free := False \<rparr>))"
| wait_failed: "i < length (callers s) \<Longrightarrow> snd (callers s ! i) = Blocked \<Longrightarrow>
     mail_fault s (set_pc i (Failed RcmClient_E_LOSTMSG) s)"
| no_event: "i < length (callers s) \<Longrightarrow> snd (callers s ! i) = Enter \<Longrightarrow> mbx_free s \<Longrightarrow> \<not> queue_free s \<Longrightarrow>
     take_mail (fst (callers s ! i)) (newMail s) = None \<Longrightarrow>
     mail_fault s (set_pc i (Failed RcmClient_E_FAIL) (s \<lparr> mbx_free := False \<rparr>))"

definition mail_start :: mail_system where
  "mail_start = \<lparr> inbox = [], newMail = [], recipients = [], queue_free = True, mbx_free = True, callers = [], arrived = [] \<rparr>"

inductive mail_reachable :: "mail_system \<Rightarrow> bool" where
  start: "mail_reachable mail_start"
| step: "mail_reachable s \<Longrightarrow> mail_step s t \<Longrightarrow> mail_reachable t"

section \<open>Callers come to rest\<close>

fun pc_work :: "mail_pc \<Rightarrow> nat" where
  "pc_work Enter = 12"
| "pc_work Blocked = 11"
| "pc_work (Holding p) = 16"
| "pc_work Waiting = 11"
| "pc_work Woken = 13"
| "pc_work _ = 0"

definition events_work :: "Recipient list \<Rightarrow> nat" where
  "events_work rs = 4 * sum_list (map r_event rs)"

definition mail_work :: "mail_system \<Rightarrow> nat" where
  "mail_work s = sum_list (map (pc_work \<circ> snd) (callers s)) + 6 * length (inbox s) + events_work (recipients s)"

lemma hand_over_work: "events_work (hand_over rs) \<le> events_work rs + 4"
  by (induction rs) (auto simp: events_work_def)

lemma give_to_work: "give_to p rs = Some rs' \<Longrightarrow> events_work rs' = events_work rs + 4"
  by (induction rs arbitrary: rs') (auto simp: events_work_def split: if_splits)

lemma deliver_work: "events_work (fst (deliver p box)) \<le> events_work (fst box) + 4"
  using give_to_work by (fastforce simp: deliver_def split: option.splits)

lemma mailman_work:
  "mailman me msgs box = (found, rest, box') \<Longrightarrow>
     6 * length rest + events_work (fst box') + (if found = None then 2 * length msgs else 0) \<le> 6 * length msgs + events_work (fst box)"
proof (induction me msgs box rule: mailman.induct)
  case (2 me p ps box)
  then show ?case using deliver_work [of p box] by (auto split: if_splits)
qed auto

lemma pc_sum_update:
  "i < length cs \<Longrightarrow> sum_list (map (f \<circ> snd) (cs[i := (me, pc)])) + f (snd (cs ! i)) = sum_list (map (f \<circ> snd) cs) + f pc"
  for f :: "mail_pc \<Rightarrow> nat"
  by (induction cs arbitrary: i) (auto simp: nth_Cons split: nat.splits)

lemma set_pc_work:
  assumes "i < length (callers s)"
  shows "mail_work (set_pc i pc s) + pc_work (snd (callers s ! i)) = mail_work s + pc_work pc"
  using pc_sum_update [OF assms, of pc_work "fst (callers s ! i)" pc] by (simp add: mail_work_def set_pc_def)

lemma mail_work_simps:
  "mail_work (s \<lparr> newMail := nm \<rparr>) = mail_work s"
  "mail_work (s \<lparr> queue_free := b \<rparr>) = mail_work s"
  by (simp_all add: mail_work_def)

lemma mailman_step_work:
  assumes "i < length (callers s)" "6 * length msgs + 12 \<le> 6 * length (inbox s) + pc_work (snd (callers s ! i)) + 2 * length msgs"
    "6 * length msgs + 5 \<le> 6 * length (inbox s) + pc_work (snd (callers s ! i))"
  shows "mail_work (mailman_step i msgs s) < mail_work s"
proof -
  obtain found rest rs nm where m: "mailman (fst (callers s ! i)) msgs (recipients s, newMail s) = (found, rest, rs, nm)"
    by (cases "mailman (fst (callers s ! i)) msgs (recipients s, newMail s)") auto
  note w = mailman_work [OF m]
  show ?thesis
  proof (cases found)
    case None
    let ?t = "s \<lparr> inbox := rest, recipients := rs, newMail := nm, queue_free := False \<rparr>"
    have "mail_work (set_pc i Blocked ?t) + pc_work (snd (callers s ! i)) = mail_work ?t + 11"
      using set_pc_work [of i ?t Blocked] assms(1) by simp
    moreover have "mail_work ?t + 6 * length (inbox s) + events_work (recipients s) = mail_work s + 6 * length rest + events_work rs"
      by (simp add: mail_work_def)
    ultimately show ?thesis using None w m assms(2) by (simp add: mailman_step_def)
  next
    case (Some p)
    let ?t = "s \<lparr> inbox := rest, recipients := hand_over rs, newMail := nm, queue_free := True \<rparr>"
    have "mail_work (set_pc i (Returned p) ?t) + pc_work (snd (callers s ! i)) = mail_work ?t"
      using set_pc_work [of i ?t "Returned p"] assms(1) by simp
    moreover have "mail_work ?t + 6 * length (inbox s) + events_work (recipients s) \<le> mail_work s + 6 * length rest + events_work rs + 4"
      using hand_over_work [of rs] by (simp add: mail_work_def)
    ultimately show ?thesis using Some w m assms(3) by (simp add: mailman_step_def)
  qed
qed

lemma enter_step_work:
  assumes "i < length (callers s)" "snd (callers s ! i) = Enter"
  shows "mail_work (enter_step i s) < mail_work s"
proof (cases "take_mail (fst (callers s ! i)) (newMail s)")
  case None
  then show ?thesis
    using assms mailman_step_work [of i s "inbox s"]
      set_pc_work [of i "s \<lparr> recipients := recipients s @ [\<lparr> r_who = i, r_msgId = fst (callers s ! i), r_msg = None, r_event = 0 \<rparr>] \<rparr>" Waiting]
    by (cases "queue_free s") (auto simp: enter_step_def mail_work_def events_work_def)
next
  case (Some m)
  then show ?thesis
    using assms set_pc_work [of i "s \<lparr> newMail := snd m \<rparr>" "Returned (fst m)"]
    by (cases m) (auto simp: enter_step_def mail_work_def)
qed

lemma pend_event_le: "events_work (pend_event i rs) \<le> events_work rs"
  by (induction rs) (auto simp: events_work_def pend_event_def)

lemma pend_event_work:
  "my_recipient i rs = Some r \<Longrightarrow> r_event r \<noteq> 0 \<Longrightarrow> events_work (pend_event i rs) + 4 \<le> events_work rs"
proof (induction rs)
  case (Cons q rs)
  show ?case
  proof (cases "r_who q = i")
    case True
    with Cons.prems pend_event_le [of i rs] show ?thesis
      by (cases "r_event q") (auto simp: my_recipient_def events_work_def pend_event_def)
  next
    case False
    with Cons show ?thesis by (auto simp: my_recipient_def events_work_def pend_event_def)
  qed
qed (simp add: my_recipient_def)

lemma leave_work: "events_work (filter P rs) \<le> events_work rs"
  by (induction rs) (auto simp: events_work_def)

text \<open>C12: every step a caller of \<open>_RcmClient_getReturnMsg\<close> takes lowers \<open>mail_work\<close>: without new messages or callers they
  come to rest, whatever the order in which they run.\<close>

theorem caller_steps_terminate:
  assumes "caller_step i s = Some t"
  shows "mail_work t < mail_work s"
proof -
  have i: "i < length (callers s)" using assms by (simp add: caller_step_def split: if_splits)
  show ?thesis
  proof (cases "snd (callers s ! i)")
    case Enter
    with assms i enter_step_work [OF i] show ?thesis by (auto simp: caller_step_def split: if_splits)
  next
    case Blocked
    then obtain p ps where "inbox s = p # ps" "t = set_pc i (Holding p) (s \<lparr> inbox := ps \<rparr>)"
      using assms i by (auto simp: caller_step_def split: list.splits)
    with set_pc_work [of i "s \<lparr> inbox := ps \<rparr>" "Holding p"] i Blocked show ?thesis by (simp add: mail_work_def)
  next
    case (Holding p)
    with assms i mailman_step_work [of i s "p # inbox s"] show ?thesis by (auto simp: caller_step_def split: if_splits)
  next
    case Waiting
    then obtain r where r: "my_recipient i (recipients s) = Some r" "r_event r \<noteq> 0"
      "t = set_pc i Woken (s \<lparr> recipients := pend_event i (recipients s) \<rparr>)"
      using assms i by (auto simp: caller_step_def split: option.splits if_splits)
    with set_pc_work [of i "s \<lparr> recipients := pend_event i (recipients s) \<rparr>" Woken] pend_event_work [OF r(1,2)] i Waiting
    show ?thesis by (simp add: mail_work_def)
  next
    case Woken
    then obtain r where r: "my_recipient i (recipients s) = Some r"
      "t = set_pc i (case r_msg r of None \<Rightarrow> Enter | Some p \<Rightarrow> Returned p)
         (s \<lparr> recipients := filter (\<lambda>r. r_who r \<noteq> i) (recipients s) \<rparr>)"
      using assms i by (auto simp: caller_step_def woken_step_def split: option.splits if_splits)
    with set_pc_work [of i "s \<lparr> recipients := filter (\<lambda>r. r_who r \<noteq> i) (recipients s) \<rparr>"
        "case r_msg r of None \<Rightarrow> Enter | Some p \<Rightarrow> Returned p"] leave_work [of "\<lambda>r. r_who r \<noteq> i" "recipients s"] i Woken
    show ?thesis by (simp add: mail_work_def split: option.splits)
  qed (use assms i in \<open>auto simp: caller_step_def\<close>)
qed

end
