(* ===== verification/Rcm_Mail_Inv.thy ===== *)
theory Rcm_Mail_Inv
  imports Rcm_Mail
begin

text \<open>
  The invariant of the callers of \<open>_RcmClient_getReturnMsg\<close>, conjunct by conjunct, and what follows from it: every message
  goes to the caller it answers, none is lost or delivered twice, and nobody waits for a message that is there.
\<close>

section \<open>Recipients\<close>

definition rec_ok :: "(u16 \<times> mail_pc) list \<Rightarrow> Recipient \<Rightarrow> bool" where
  "rec_ok cs r \<longleftrightarrow>
     r_who r < length cs \<and> fst (cs ! r_who r) = r_msgId r \<and>
     (snd (cs ! r_who r) = Woken \<or> snd (cs ! r_who r) = Waiting \<and> (r_msg r \<noteq> None \<longrightarrow> 0 < r_event r)) \<and>
     (\<forall>p. r_msg r = Some p \<longrightarrow> msgId p = r_msgId r)"

text \<open>The callers that are not in the list of recipients.\<close>

fun no_rec :: "mail_pc \<Rightarrow> bool" where
  "no_rec Waiting = False"
| "no_rec Woken = False"
| "no_rec _ = True"

definition inv_recs :: "(u16 \<times> mail_pc) list \<Rightarrow> Recipient list \<Rightarrow> bool" where
  "inv_recs cs rs \<longleftrightarrow>
     distinct (map r_who rs) \<and> (\<forall>r \<in> set rs. rec_ok cs r) \<and>
     (\<forall>i < length cs. \<not> no_rec (snd (cs ! i)) \<longrightarrow> i \<in> r_who ` set rs)"

lemma upd_nth: "j < length cs \<Longrightarrow> cs[i := c] ! j = (if i = j then c else cs ! j)"
  by (auto simp: nth_list_update)

text \<open>What delivering and posting do to a recipient.\<close>

definition grown :: "Recipient \<Rightarrow> Recipient \<Rightarrow> bool" where
  "grown r r' \<longleftrightarrow>
     r_who r' = r_who r \<and> r_msgId r' = r_msgId r \<and> r_event r \<le> r_event r' \<and>
     (r_msg r' = r_msg r \<or> (\<exists>p. r_msg r' = Some p \<and> msgId p = r_msgId r \<and> 0 < r_event r'))"

lemma grown_refl [simp]: "grown r r"
  by (simp add: grown_def)

lemma grown_list_refl [simp]: "list_all2 grown rs rs"
  by (simp add: list_all2_refl)

lemma grown_trans: "grown a b \<Longrightarrow> grown b c \<Longrightarrow> grown a c"
  by (auto simp: grown_def)

lemma grown_list_trans: "list_all2 grown xs ys \<Longrightarrow> list_all2 grown ys zs \<Longrightarrow> list_all2 grown xs zs"
  using list_all2_trans [of grown grown grown] grown_trans by blast

lemma hand_over_grown: "list_all2 grown rs (hand_over rs)"
  by (induction rs) (auto, simp add: grown_def)

lemma give_to_grown: "give_to p rs = Some rs' \<Longrightarrow> list_all2 grown rs rs'"
  by (induction rs arbitrary: rs') (auto simp: grown_def split: if_splits)

lemma deliver_grown: "list_all2 grown (fst box) (fst (deliver p box))"
  using give_to_grown by (auto simp: deliver_def split: option.splits)

lemma mailman_grown: "mailman me msgs box = (found, rest, box') \<Longrightarrow> list_all2 grown (fst box) (fst box')"
proof (induction me msgs box rule: mailman.induct)
  case (2 me p ps box)
  then show ?case using deliver_grown [of box p] grown_list_trans by (auto split: if_splits)
qed simp

lemma grown_map:
  "list_all2 grown rs rs' \<Longrightarrow> map r_who rs' = map r_who rs \<and> map r_msgId rs' = map r_msgId rs"
  by (induction rule: list_all2_induct) (auto simp: grown_def)

lemma grown_in:
  assumes "list_all2 grown rs rs'" "r' \<in> set rs'"
  obtains r where "r \<in> set rs" "grown r r'"
  using assms by (metis in_set_conv_nth list_all2_conv_all_nth)

lemma rec_ok_grown: "rec_ok cs r \<Longrightarrow> grown r r' \<Longrightarrow> rec_ok cs r'"
  by (auto simp: rec_ok_def grown_def)

lemma inv_recs_grown:
  assumes "inv_recs cs rs" "list_all2 grown rs rs'"
  shows "inv_recs cs rs'"
proof -
  have "r_who ` set rs' = r_who ` set rs" using grown_map [OF assms(2)] by (metis list.set_map)
  moreover have "rec_ok cs r'" if "r' \<in> set rs'" for r'
    using grown_in [OF assms(2) that] assms(1) rec_ok_grown unfolding inv_recs_def by metis
  ultimately show ?thesis using assms grown_map [OF assms(2)] by (simp add: inv_recs_def)
qed

lemma rec_move: "rec_ok cs r \<Longrightarrow> r_who r \<noteq> i \<Longrightarrow> rec_ok (cs[i := c]) r"
  by (simp add: rec_ok_def)

lemma rec_not_at:
  "inv_recs cs rs \<Longrightarrow> no_rec (snd (cs ! i)) \<Longrightarrow> r \<in> set rs \<Longrightarrow> r_who r \<noteq> i"
  by (auto simp: inv_recs_def rec_ok_def)

lemma inv_recs_move:
  assumes "inv_recs cs rs" "no_rec (snd (cs ! i))" "no_rec pc"
  shows "inv_recs (cs[i := (fst (cs ! i), pc)]) rs"
proof -
  have "rec_ok (cs[i := (fst (cs ! i), pc)]) r" if "r \<in> set rs" for r
    using assms(1) rec_not_at [OF assms(1,2) that] that rec_move by (simp add: inv_recs_def)
  with assms(1,3) show ?thesis by (auto simp: inv_recs_def upd_nth)
qed

lemma inv_recs_join:
  assumes "inv_recs cs rs" "no_rec (snd (cs ! i))" "i < length cs"
  shows "inv_recs (cs[i := (fst (cs ! i), Waiting)])
    (rs @ [\<lparr> r_who = i, r_msgId = fst (cs ! i), r_msg = None, r_event = 0 \<rparr>])"
proof -
  have "rec_ok (cs[i := (fst (cs ! i), Waiting)]) r" if "r \<in> set rs" for r
    using assms(1) rec_not_at [OF assms(1,2) that] that rec_move by (simp add: inv_recs_def)
  moreover have "i \<notin> r_who ` set rs" using rec_not_at [OF assms(1,2)] by auto
  ultimately show ?thesis using assms by (auto simp: inv_recs_def upd_nth rec_ok_def)
qed

lemma my_recipient_in: "my_recipient i rs = Some r \<Longrightarrow> r \<in> set rs \<and> r_who r = i"
  by (auto simp: my_recipient_def find_Some_iff)

lemma my_recipient_unique:
  "distinct (map r_who rs) \<Longrightarrow> my_recipient i rs = Some r \<Longrightarrow> q \<in> set rs \<Longrightarrow> r_who q = i \<Longrightarrow> q = r"
  using my_recipient_in by (metis distinct_map inj_onD)

lemma my_recipient_exists: "i \<in> r_who ` set rs \<Longrightarrow> \<exists>r. my_recipient i rs = Some r"
  by (cases "my_recipient i rs") (auto simp: my_recipient_def find_None_iff)

lemma pend_event_who [simp]: "map r_who (pend_event i rs) = map r_who rs"
  by (induction rs) (auto simp: pend_event_def)

lemma inv_recs_wake:
  assumes "inv_recs cs rs" "i < length cs" "snd (cs ! i) = Waiting"
  shows "inv_recs (cs[i := (fst (cs ! i), Woken)]) (pend_event i rs)"
proof -
  have "r_who ` set (pend_event i rs) = r_who ` set rs" using pend_event_who by (metis list.set_map)
  moreover have "rec_ok (cs[i := (fst (cs ! i), Woken)]) r" if "r \<in> set (pend_event i rs)" for r
    using assms that by (auto simp: inv_recs_def rec_ok_def pend_event_def upd_nth)
  ultimately show ?thesis using assms by (auto simp: inv_recs_def upd_nth)
qed

lemma inv_recs_leave:
  assumes "inv_recs cs rs" "i < length cs" "no_rec pc"
  shows "inv_recs (cs[i := (fst (cs ! i), pc)]) (filter (\<lambda>r. r_who r \<noteq> i) rs)"
proof -
  have "rec_ok (cs[i := (fst (cs ! i), pc)]) r" if "r \<in> set rs" "r_who r \<noteq> i" for r
    using assms(1) that by (auto simp: inv_recs_def rec_ok_def)
  with assms show ?thesis by (auto simp: inv_recs_def upd_nth distinct_map_filter)
qed

lemma inv_recs_new: "inv_recs cs rs \<Longrightarrow> inv_recs (cs @ [(me, Enter)]) rs"
  by (auto simp: inv_recs_def rec_ok_def nth_append)

section \<open>The mailman\<close>

fun is_man :: "mail_pc \<Rightarrow> bool" where
  "is_man Blocked = True"
| "is_man (Holding p) = True"
| "is_man _ = False"

definition man_at :: "(u16 \<times> mail_pc) list \<Rightarrow> nat \<Rightarrow> bool" where
  "man_at cs i \<longleftrightarrow> i < length cs \<and> is_man (snd (cs ! i))"

definition inv_man :: "(u16 \<times> mail_pc) list \<Rightarrow> bool \<Rightarrow> bool" where
  "inv_man cs free \<longleftrightarrow>
     (if free then \<forall>i. \<not> man_at cs i else \<exists>i. man_at cs i \<and> (\<forall>j. man_at cs j \<longrightarrow> j = i))"

lemma man_at_upd: "i < length cs \<Longrightarrow> man_at (cs[i := c]) j \<longleftrightarrow> (if i = j then is_man (snd c) else man_at cs j)"
  by (auto simp: man_at_def upd_nth)

lemma inv_man_keep:
  "inv_man cs free \<Longrightarrow> i < length cs \<Longrightarrow> is_man pc = is_man (snd (cs ! i)) \<Longrightarrow> inv_man (cs[i := (me, pc)]) free"
proof -
  assume h: "inv_man cs free" "i < length cs" "is_man pc = is_man (snd (cs ! i))"
  then have "man_at (cs[i := (me, pc)]) j = man_at cs j" for j by (auto simp: man_at_upd) (auto simp: man_at_def)
  with h(1) show ?thesis by (simp add: inv_man_def)
qed

lemma inv_man_take: "inv_man cs True \<Longrightarrow> i < length cs \<Longrightarrow> inv_man (cs[i := (me, Blocked)]) False"
  by (auto simp: inv_man_def man_at_upd)

lemma inv_man_free:
  "inv_man cs free \<Longrightarrow> i < length cs \<Longrightarrow> free \<or> is_man (snd (cs ! i)) \<Longrightarrow> \<not> is_man pc \<Longrightarrow> inv_man (cs[i := (me, pc)]) True"
  by (cases free) (auto simp: inv_man_def man_at_upd, auto simp: man_at_def)

lemma inv_man_new: "inv_man cs free \<Longrightarrow> inv_man (cs @ [(me, Enter)]) free"
proof -
  have "man_at (cs @ [(me, Enter)]) j = man_at cs j" for j by (auto simp: man_at_def nth_append)
  then show "inv_man cs free \<Longrightarrow> ?thesis" by (simp add: inv_man_def)
qed

section \<open>New mail\<close>

text \<open>Nobody who can be served directly has mail in the list.\<close>

definition inv_mail :: "(u16 \<times> mail_pc) list \<Rightarrow> Recipient list \<Rightarrow> RcmClient_Packet list \<Rightarrow> bool" where
  "inv_mail cs rs nm \<longleftrightarrow>
     r_msgId ` set rs \<inter> msgId ` set nm = {} \<and> (\<forall>i. man_at cs i \<longrightarrow> fst (cs ! i) \<notin> msgId ` set nm)"

lemma inv_mail_subset:
  "inv_mail cs rs nm \<Longrightarrow> set nm' \<subseteq> set nm \<Longrightarrow> r_msgId ` set rs' \<subseteq> r_msgId ` set rs \<Longrightarrow>
     (\<And>i. man_at cs' i \<Longrightarrow> man_at cs i \<and> fst (cs' ! i) = fst (cs ! i)) \<Longrightarrow> inv_mail cs' rs' nm'"
proof -
  assume inv: "inv_mail cs rs nm" and sub: "set nm' \<subseteq> set nm" "r_msgId ` set rs' \<subseteq> r_msgId ` set rs"
    and man: "\<And>i. man_at cs' i \<Longrightarrow> man_at cs i \<and> fst (cs' ! i) = fst (cs ! i)"
  have ids: "msgId ` set nm' \<subseteq> msgId ` set nm" using sub(1) by (rule image_mono)
  show "inv_mail cs' rs' nm'"
    unfolding inv_mail_def
  proof (intro conjI allI impI)
    show "r_msgId ` set rs' \<inter> msgId ` set nm' = {}" using inv ids sub(2) unfolding inv_mail_def by blast
    show "fst (cs' ! i) \<notin> msgId ` set nm'" if "man_at cs' i" for i
    proof -
      have m: "man_at cs i" and f: "fst (cs' ! i) = fst (cs ! i)" using man [OF that] by simp_all
      have "\<forall>i. man_at cs i \<longrightarrow> fst (cs ! i) \<notin> msgId ` set nm" using inv unfolding inv_mail_def by (rule conjunct2)
      then have "fst (cs ! i) \<notin> msgId ` set nm" by (metis m)
      then show ?thesis unfolding f using ids by (metis contra_subsetD)
    qed
  qed
qed

lemma grown_ids: "list_all2 grown rs rs' \<Longrightarrow> r_msgId ` set rs' = r_msgId ` set rs"
  using grown_map by (metis list.set_map)

lemma give_to_None: "give_to p rs = None \<longleftrightarrow> msgId p \<notin> r_msgId ` set rs"
  by (induction rs) (auto split: if_splits)

lemma mailman_mail:
  "mailman me msgs box = (found, rest, box') \<Longrightarrow> p \<in> set (snd box') \<Longrightarrow>
     p \<in> set (snd box) \<or> msgId p \<noteq> me \<and> msgId p \<notin> r_msgId ` set (fst box)"
proof (induction me msgs box rule: mailman.induct)
  case (2 me q ps box)
  have ids: "r_msgId ` set (fst (deliver q box)) = r_msgId ` set (fst box)" using grown_ids [OF deliver_grown] .
  have del: "p \<in> set (snd (deliver q box)) \<Longrightarrow> p \<in> set (snd box) \<or> p = q \<and> msgId q \<notin> r_msgId ` set (fst box)"
    using give_to_None [of q "fst box"] by (auto simp: deliver_def split: option.splits)
  show ?case
  proof (cases "msgId q = me")
    case False
    with 2 have "p \<in> set (snd (deliver q box)) \<or> msgId p \<noteq> me \<and> msgId p \<notin> r_msgId ` set (fst box)"
      unfolding ids by simp
    with del False show ?thesis by blast
  qed (use 2 in simp)
qed simp

lemma mailman_found: "mailman me msgs box = (Some p, rest, box') \<Longrightarrow> msgId p = me"
  by (induction me msgs box rule: mailman.induct) (auto split: if_splits)

lemma mailman_all: "mailman me msgs box = (None, rest, box') \<Longrightarrow> rest = []"
  by (induction me msgs box rule: mailman.induct) (auto split: if_splits)

lemma take_mail_Some: "take_mail me ps = Some (p, rest) \<Longrightarrow> msgId p = me \<and> mset ps = add_mset p (mset rest)"
  by (induction ps arbitrary: rest) (auto split: if_splits)

lemma take_mail_None: "take_mail me ps = None \<longleftrightarrow> me \<notin> msgId ` set ps"
  by (induction ps) auto

section \<open>The next mailman\<close>

text \<open>Someone who will look for the queue lock without waiting for a message first.\<close>

definition will_look :: "(u16 \<times> mail_pc) list \<Rightarrow> Recipient list \<Rightarrow> RcmClient_Packet list \<Rightarrow> bool" where
  "will_look cs rs nm \<longleftrightarrow>
     (\<exists>i < length cs. snd (cs ! i) = Enter \<and> fst (cs ! i) \<notin> msgId ` set nm) \<or>
     (\<exists>r \<in> set rs. r_msg r = None \<and> (0 < r_event r \<or> snd (cs ! r_who r) = Woken))"

definition inv_next :: "(u16 \<times> mail_pc) list \<Rightarrow> Recipient list \<Rightarrow> RcmClient_Packet list \<Rightarrow> bool \<Rightarrow> bool" where
  "inv_next cs rs nm free \<longleftrightarrow> free \<and> (\<exists>r \<in> set rs. r_msg r = None) \<longrightarrow> will_look cs rs nm"

lemma hand_over_next: "inv_next cs (hand_over rs) nm free"
proof -
  have "\<exists>r \<in> set (hand_over rs). r_msg r = None \<and> 0 < r_event r" if "\<exists>r \<in> set (hand_over rs). r_msg r = None"
    using that by (induction rs) (auto split: if_splits)
  then show ?thesis by (auto simp: inv_next_def will_look_def)
qed

text \<open>A move of a caller that does not look for the lock leaves the others as they are.\<close>

lemma inv_next_move:
  assumes "inv_next cs rs nm free" "set nm' \<subseteq> set nm" "i < length cs"
    and "\<not> (snd (cs ! i) = Enter \<and> fst (cs ! i) \<notin> msgId ` set nm)"
    and "\<And>r. r \<in> set rs \<Longrightarrow> r_msg r = None \<Longrightarrow> r_who r \<noteq> i" "set rs' \<subseteq> set rs" "{r \<in> set rs. r_msg r = None} \<subseteq> set rs'"
  shows "inv_next (cs[i := c]) rs' nm' free"
proof -
  have "will_look (cs[i := c]) rs' nm'" if "will_look cs rs nm"
  proof -
    from that consider
      (enter) j where "j < length cs" "snd (cs ! j) = Enter" "fst (cs ! j) \<notin> msgId ` set nm"
      | (rec) r where "r \<in> set rs" "r_msg r = None" "0 < r_event r \<or> snd (cs ! r_who r) = Woken"
      by (auto simp: will_look_def)
    then show ?thesis
    proof cases
      case enter
      with assms(2,4) have "j \<noteq> i" "fst (cs ! j) \<notin> msgId ` set nm'" by auto
      with enter show ?thesis by (auto simp: will_look_def intro!: exI [of _ j])
    next
      case rec
      with assms(5) [of r] assms(7) show ?thesis by (auto simp: will_look_def)
    qed
  qed
  with assms(1,6) show ?thesis by (auto simp: inv_next_def)
qed

end
