(* ===== verification/Rcm_Mail_Props.thy ===== *)
theory Rcm_Mail_Props
  imports Rcm_Mail_Inv
begin

text \<open>
  What the delivery of return messages guarantees in every reachable state: messages are conserved, every caller gets the
  message with its id, and a caller whose message has arrived can always be served.
\<close>

section \<open>Conservation\<close>

definition rec_bag :: "Recipient list \<Rightarrow> RcmClient_Packet multiset" where
  "rec_bag rs = mset (concat (map (\<lambda>r. case r_msg r of None \<Rightarrow> [] | Some p \<Rightarrow> [p]) rs))"

definition one_each :: "RcmClient_Packet multiset \<Rightarrow> bool" where
  "one_each M \<longleftrightarrow> (\<forall>x. count (image_mset msgId M) x \<le> 1)"

lemma one_each_sub: "one_each M \<Longrightarrow> N \<subseteq># M \<Longrightarrow> one_each N"
  unfolding one_each_def by (meson image_mset_subseteq_mono mset_subset_eq_count order_trans)

lemma one_each_add: "one_each (add_mset p M) \<longleftrightarrow> msgId p \<notin> msgId ` set_mset M \<and> one_each M"
proof -
  let ?n = "count (image_mset msgId M)"
  have "one_each (add_mset p M) \<longleftrightarrow> (\<forall>x. (if x = msgId p then Suc (?n x) else ?n x) \<le> 1)"
    by (simp add: one_each_def eq_commute)
  also have "\<dots> \<longleftrightarrow> ?n (msgId p) = 0 \<and> (\<forall>x. ?n x \<le> 1)"
  proof (intro iffI conjI allI)
    assume h: "\<forall>x. (if x = msgId p then Suc (?n x) else ?n x) \<le> 1"
    from spec [OF h, of "msgId p"] show z: "?n (msgId p) = 0" by simp
    show "?n x \<le> 1" for x using spec [OF h, of x] z by (cases "x = msgId p") simp_all
  next
    show "(if x = msgId p then Suc (?n x) else ?n x) \<le> 1" if "?n (msgId p) = 0 \<and> (\<forall>x. ?n x \<le> 1)" for x
      using that by (cases "x = msgId p") simp_all
  qed
  also have "?n (msgId p) = 0 \<longleftrightarrow> msgId p \<notin> msgId ` set_mset M" by (simp add: count_eq_zero_iff)
  finally show ?thesis by (simp add: one_each_def)
qed

lemma rec_bag_simps [simp]:
  "rec_bag [] = {#}"
  "rec_bag (r # rs) = (case r_msg r of None \<Rightarrow> {#} | Some p \<Rightarrow> {#p#}) + rec_bag rs"
  "rec_bag (rs @ qs) = rec_bag rs + rec_bag qs"
  by (auto simp: rec_bag_def split: option.splits)

lemma rec_bag_in: "r \<in> set rs \<Longrightarrow> r_msg r = Some p \<Longrightarrow> p \<in># rec_bag rs"
  by (force simp: rec_bag_def)

lemma hand_over_bag [simp]: "rec_bag (hand_over rs) = rec_bag rs"
  by (induction rs) auto

lemma pend_event_bag [simp]: "rec_bag (pend_event i rs) = rec_bag rs"
  by (induction rs) (auto simp: pend_event_def)

lemma give_to_bag:
  "give_to p rs = Some rs' \<Longrightarrow> (\<forall>r \<in> set rs. \<forall>q. r_msg r = Some q \<longrightarrow> msgId q = r_msgId r) \<Longrightarrow>
     msgId p \<notin> msgId ` set_mset (rec_bag rs) \<Longrightarrow> rec_bag rs' = add_mset p (rec_bag rs)"
  by (induction rs arbitrary: rs') (auto split: if_splits option.splits)

lemma give_to_ids:
  "give_to p rs = Some rs' \<Longrightarrow> (\<forall>r \<in> set rs. \<forall>q. r_msg r = Some q \<longrightarrow> msgId q = r_msgId r) \<Longrightarrow>
     \<forall>r \<in> set rs'. \<forall>q. r_msg r = Some q \<longrightarrow> msgId q = r_msgId r"
  by (induction rs arbitrary: rs') (auto split: if_splits)

definition box_bag :: "Recipient list \<times> RcmClient_Packet list \<Rightarrow> RcmClient_Packet multiset" where
  "box_bag box = rec_bag (fst box) + mset (snd box)"

lemma mailman_bag:
  "mailman me msgs box = (found, rest, box') \<Longrightarrow> (\<forall>r \<in> set (fst box). \<forall>q. r_msg r = Some q \<longrightarrow> msgId q = r_msgId r) \<Longrightarrow>
     one_each (mset msgs + box_bag box) \<Longrightarrow>
     mset msgs + box_bag box = (case found of None \<Rightarrow> {#} | Some p \<Rightarrow> {#p#}) + mset rest + box_bag box'"
proof (induction me msgs box rule: mailman.induct)
  case (2 me p ps box)
  show ?case
  proof (cases "msgId p = me")
    case True
    with 2(2) show ?thesis by auto
  next
    case False
    have p: "msgId p \<notin> msgId ` set_mset (rec_bag (fst box))" using 2(4) by (auto simp: one_each_add box_bag_def)
    have d: "box_bag (deliver p box) = add_mset p (box_bag box)"
      using give_to_bag [OF _ 2(3) p] by (auto simp: deliver_def box_bag_def split: option.splits)
    have ids: "\<forall>r \<in> set (fst (deliver p box)). \<forall>q. r_msg r = Some q \<longrightarrow> msgId q = r_msgId r"
      using 2(3) give_to_ids [OF _ 2(3)] by (auto simp: deliver_def split: option.splits)
    from 2(1) [OF False _ ids] 2(2,4) False d show ?thesis by simp
  qed
qed simp

lemma mset_update: "i < length cs \<Longrightarrow> mset (concat (map g (cs[i := c]))) + mset (g (cs ! i)) = mset (concat (map g cs)) + mset (g c)"
  by (induction cs arbitrary: i) (auto simp: nth_Cons split: nat.splits)

definition held_bag :: "(u16 \<times> mail_pc) list \<Rightarrow> RcmClient_Packet multiset" where
  "held_bag cs = mset (concat (map (held \<circ> snd) cs))"

definition got_bag :: "(u16 \<times> mail_pc) list \<Rightarrow> RcmClient_Packet multiset" where
  "got_bag cs = mset (concat (map (got \<circ> snd) cs))"

lemma bag_update:
  assumes "i < length cs"
  shows "held_bag (cs[i := (me, pc)]) + mset (held (snd (cs ! i))) = held_bag cs + mset (held pc)"
    "got_bag (cs[i := (me, pc)]) + mset (got (snd (cs ! i))) = got_bag cs + mset (got pc)"
  using mset_update [OF assms, of "held \<circ> snd"] mset_update [OF assms, of "got \<circ> snd"] by (simp_all add: held_bag_def got_bag_def)

lemma pending_bags: "pending s = mset (inbox s) + mset (newMail s) + held_bag (callers s) + rec_bag (recipients s)"
  by (simp add: pending_def held_bag_def rec_bag_def)

lemma returned_bag: "handed_out s = got_bag (callers s)"
  by (simp add: handed_out_def got_bag_def)

section \<open>The invariant\<close>

definition inv_active :: "(u16 \<times> mail_pc) list \<Rightarrow> bool" where
  "inv_active cs \<longleftrightarrow>
     (\<forall>i < length cs. \<forall>j < length cs. active (snd (cs ! i)) \<longrightarrow> active (snd (cs ! j)) \<longrightarrow> fst (cs ! i) = fst (cs ! j) \<longrightarrow> i = j)"

definition inv_got :: "(u16 \<times> mail_pc) list \<Rightarrow> bool" where
  "inv_got cs \<longleftrightarrow> (\<forall>c \<in> set cs. \<forall>p. snd c = Returned p \<longrightarrow> msgId p = fst c)"

definition inv_callers :: "(u16 \<times> mail_pc) list \<Rightarrow> bool" where
  "inv_callers cs \<longleftrightarrow> inv_active cs \<and> inv_got cs"

lemma inv_callers_move:
  assumes "inv_callers cs" "active (snd (cs ! i))" "\<And>p. pc = Returned p \<Longrightarrow> msgId p = fst (cs ! i)"
  shows "inv_callers (cs[i := (fst (cs ! i), pc)])"
proof -
  let ?cs = "cs[i := (fst (cs ! i), pc)]"
  have a: "active (snd (?cs ! j)) \<longrightarrow> active (snd (cs ! j))" and f: "fst (?cs ! j) = fst (cs ! j)" if "j < length cs" for j
    using that assms(2) by (auto simp: upd_nth)
  have "inv_active ?cs"
    unfolding inv_active_def length_list_update
  proof (intro allI impI)
    fix j k
    assume h: "j < length cs" "k < length cs" "active (snd (?cs ! j))" "active (snd (?cs ! k))" "fst (?cs ! j) = fst (?cs ! k)"
    with a f have "active (snd (cs ! j))" "active (snd (cs ! k))" "fst (cs ! j) = fst (cs ! k)" by simp_all
    with assms(1) h(1,2) show "j = k" unfolding inv_callers_def inv_active_def by simp
  qed
  moreover have "inv_got ?cs"
    unfolding inv_got_def
  proof (intro ballI allI impI)
    fix c p
    assume c: "c \<in> set ?cs" "snd c = Returned p"
    then have "c = (fst (cs ! i), pc) \<or> c \<in> set cs" using set_update_subset_insert [of cs i] by fastforce
    with assms(1,3) c(2) show "msgId p = fst c" unfolding inv_callers_def inv_got_def by fastforce
  qed
  ultimately show ?thesis by (simp add: inv_callers_def)
qed

definition mail_inv :: "mail_system \<Rightarrow> bool" where
  "mail_inv s \<longleftrightarrow>
     inv_recs (callers s) (recipients s) \<and> inv_man (callers s) (queue_free s) \<and>
     inv_mail (callers s) (recipients s) (newMail s) \<and>
     inv_next (callers s) (recipients s) (newMail s) (queue_free s) \<and> inv_callers (callers s) \<and>
     one_each (pending s) \<and> mset (arrived s) = pending s + handed_out s \<and> mbx_free s"

lemma mail_invD:
  assumes "mail_inv s"
  shows "inv_recs (callers s) (recipients s)" "inv_man (callers s) (queue_free s)"
    "inv_mail (callers s) (recipients s) (newMail s)" "inv_next (callers s) (recipients s) (newMail s) (queue_free s)"
    "inv_callers (callers s)" "one_each (pending s)" "mset (arrived s) = pending s + handed_out s" "mbx_free s"
  using assms by (simp_all add: mail_inv_def)

lemma mail_start_inv: "mail_inv mail_start"
  by (simp add: mail_inv_def mail_start_def inv_recs_def inv_man_def man_at_def inv_mail_def inv_next_def inv_callers_def inv_active_def inv_got_def
      one_each_def pending_def handed_out_def)

lemma set_pc_fields [simp]:
  "inbox (set_pc i pc s) = inbox s" "newMail (set_pc i pc s) = newMail s" "recipients (set_pc i pc s) = recipients s"
  "queue_free (set_pc i pc s) = queue_free s" "mbx_free (set_pc i pc s) = mbx_free s" "arrived (set_pc i pc s) = arrived s"
  "callers (set_pc i pc s) = (callers s)[i := (fst (callers s ! i), pc)]"
  by (simp_all add: set_pc_def)

section \<open>The steps keep the invariant\<close>

lemma recs_ids: "inv_recs cs rs \<Longrightarrow> \<forall>r \<in> set rs. \<forall>q. r_msg r = Some q \<longrightarrow> msgId q = r_msgId r"
  by (auto simp: inv_recs_def rec_ok_def)

lemma man_only: "inv_man cs free \<Longrightarrow> free \<or> man_at cs i \<Longrightarrow> man_at cs j \<Longrightarrow> j = i"
  by (auto simp: inv_man_def split: if_splits)

lemma got_active: "active pc \<Longrightarrow> got pc = []"
  by (cases pc) auto

lemma mailman_step_inv:
  assumes inv: "mail_inv s" and i: "i < length (callers s)"
    and pc: "snd (callers s ! i) = Enter \<and> queue_free s \<or> is_man (snd (callers s ! i)) \<and> snd (callers s ! i) \<noteq> Blocked"
    and msgs: "mset msgs = mset (inbox s) + mset (held (snd (callers s ! i)))"
    and me: "fst (callers s ! i) \<notin> msgId ` set (newMail s)"
  shows "mail_inv (mailman_step i msgs s)"
proof -
  let ?cs = "callers s" and ?me = "fst (callers s ! i)"
  obtain found rest rs nm where m: "mailman ?me msgs (recipients s, newMail s) = (found, rest, rs, nm)"
    by (cases "mailman ?me msgs (recipients s, newMail s)") auto
  note D = mail_invD [OF inv]
  have nr: "no_rec (snd (?cs ! i))" and act: "active (snd (?cs ! i))" using pc by (auto elim: is_man.elims)
  have lock: "queue_free s \<or> is_man (snd (?cs ! i))" using pc by auto
  have grown: "list_all2 grown (recipients s) rs" using mailman_grown [OF m] by simp
  have recs: "inv_recs ?cs rs" using inv_recs_grown [OF D(1) grown] .
  have new_ids: "msgId ` set nm \<inter> r_msgId ` set rs = {}" "?me \<notin> msgId ` set nm"
  proof -
    have disj: "r_msgId ` set (recipients s) \<inter> msgId ` set (newMail s) = {}" using D(3) by (simp add: inv_mail_def)
    have each: "msgId p \<noteq> ?me \<and> msgId p \<notin> r_msgId ` set (recipients s)" if "p \<in> set nm" for p
    proof (cases "p \<in> set (newMail s)")
      case True
      then have "msgId p \<in> msgId ` set (newMail s)" by simp
      with disj me show ?thesis by (metis disjoint_iff)
    qed (use mailman_mail [OF m, of p] that in simp)
    show "msgId ` set nm \<inter> r_msgId ` set rs = {}"
    proof (rule equals0I)
      fix x assume x: "x \<in> msgId ` set nm \<inter> r_msgId ` set rs"
      then obtain p where "p \<in> set nm" "x = msgId p" by blast
      with each [of p] x show False unfolding grown_ids [OF grown] by simp
    qed
    show "?me \<notin> msgId ` set nm"
    proof
      assume "?me \<in> msgId ` set nm"
      then obtain p where "p \<in> set nm" "?me = msgId p" by blast
      with each [of p] show False by simp
    qed
  qed
  have pend: "pending s = (mset msgs + mset (newMail s) + rec_bag (recipients s)) + held_bag (?cs[i := (?me, pc)])"
    if "held pc = []" for pc
  proof -
    have "held_bag ?cs = held_bag (?cs[i := (?me, pc)]) + mset (held (snd (?cs ! i)))"
      using bag_update(1) [OF i, of ?me pc] that by simp
    then show ?thesis by (simp add: pending_bags msgs add_ac)
  qed
  have "pending s = (mset msgs + box_bag (recipients s, newMail s)) + held_bag (?cs[i := (?me, Woken)])"
    using pend [of Woken] by (simp add: box_bag_def add_ac)
  then have "mset msgs + box_bag (recipients s, newMail s) \<subseteq># pending s" by simp
  then have "one_each (mset msgs + box_bag (recipients s, newMail s))" using D(6) one_each_sub by blast
  with mailman_bag [OF m] recs_ids [OF D(1)]
  have bag: "mset msgs + mset (newMail s) + rec_bag (recipients s) =
      (case found of None \<Rightarrow> {#} | Some p \<Rightarrow> {#p#}) + mset rest + mset nm + rec_bag rs"
    by (simp add: box_bag_def add_ac)
  have got: "got (snd (?cs ! i)) = []" using act by (rule got_active)
  show ?thesis
  proof (cases found)
    case None
    let ?cs' = "?cs[i := (?me, Blocked)]"
    have man: "inv_man ?cs' False"
      using D(2) lock i inv_man_take inv_man_keep [of ?cs "queue_free s" i Blocked ?me] by (cases "queue_free s") auto
    have only: "fst (?cs' ! j) = ?me" if "man_at ?cs' j" for j
      using man_only [OF man, of i j] i that by (auto simp: man_at_upd)
    have mail: "inv_mail ?cs' rs nm"
      unfolding inv_mail_def
    proof (intro conjI allI impI)
      show "r_msgId ` set rs \<inter> msgId ` set nm = {}" using new_ids(1) by blast
      show "fst (?cs' ! j) \<notin> msgId ` set nm" if "man_at ?cs' j" for j using only [OF that] new_ids(2) by metis
    qed
    have "got_bag ?cs' = handed_out s" using bag_update(2) [OF i, of ?me Blocked] got by (simp add: returned_bag)
    moreover have "pending s = mset rest + mset nm + rec_bag rs + held_bag ?cs'"
      unfolding pend [of Blocked, simplified] bag using None by simp
    ultimately have "mset rest + mset nm + held_bag ?cs' + rec_bag rs = pending s" "got_bag ?cs' = handed_out s"
      by (simp_all add: add_ac)
    with D(5-8) man mail recs inv_recs_move [OF recs nr, of Blocked] inv_callers_move [OF D(5) act, of Blocked] m None show ?thesis
      by (simp add: mailman_step_def mail_inv_def pending_bags returned_bag inv_next_def)
  next
    case (Some p)
    let ?cs' = "?cs[i := (?me, Returned p)]"
    have man: "inv_man ?cs' True" using inv_man_free [OF D(2) i lock] by simp
    have mail: "inv_mail ?cs' (hand_over rs) nm"
      using man new_ids(1) grown_ids [OF hand_over_grown, of rs] by (auto simp: inv_mail_def inv_man_def)
    have p: "msgId p = ?me" using mailman_found m Some by blast
    have "got_bag ?cs' = add_mset p (handed_out s)" using bag_update(2) [OF i, of ?me "Returned p"] got by (simp add: returned_bag)
    moreover have "pending s = add_mset p (mset rest + mset nm + rec_bag rs + held_bag ?cs')"
      unfolding pend [of "Returned p", simplified] bag using Some by simp
    ultimately have all: "pending s = add_mset p (mset rest + mset nm + held_bag ?cs' + rec_bag rs)"
      "got_bag ?cs' = add_mset p (handed_out s)"
      by (simp_all add: add_ac)
    then have "one_each (mset rest + mset nm + held_bag ?cs' + rec_bag rs)" using D(6) by (simp add: one_each_add)
    with D(7,8) all man mail inv_recs_move [OF inv_recs_grown [OF recs hand_over_grown] nr, of "Returned p"]
      inv_callers_move [OF D(5) act, of "Returned p"] p hand_over_next m Some show ?thesis
      by (simp add: mailman_step_def mail_inv_def pending_bags returned_bag)
  qed
qed

lemma inv_mail_move:
  assumes "inv_mail cs rs nm" "i < length cs" "is_man pc \<Longrightarrow> is_man (snd (cs ! i))"
    and "set nm' \<subseteq> set nm" "r_msgId ` set rs' \<subseteq> r_msgId ` set rs"
  shows "inv_mail (cs[i := (fst (cs ! i), pc)]) rs' nm'"
proof (rule inv_mail_subset [OF assms(1,4,5)])
  show "man_at cs j \<and> fst (cs[i := (fst (cs ! i), pc)] ! j) = fst (cs ! j)" if "man_at (cs[i := (fst (cs ! i), pc)]) j" for j
    using that assms(2,3) by (cases "i = j") (auto simp: man_at_def)
qed

lemma take_mail_inv:
  assumes inv: "mail_inv s" and i: "i < length (callers s)" "snd (callers s ! i) = Enter"
    and t: "take_mail (fst (callers s ! i)) (newMail s) = Some (p, rest)"
  shows "mail_inv (set_pc i (Returned p) (s \<lparr> newMail := rest \<rparr>))"
proof -
  note D = mail_invD [OF inv]
  have p: "msgId p = fst (callers s ! i)" and nm: "mset (newMail s) = add_mset p (mset rest)"
    using take_mail_Some [OF t] by simp_all
  then have sub: "set rest \<subseteq> set (newMail s)" and p_in: "p \<in> set (newMail s)"
    by (metis mset_eq_setD set_mset_add_mset_insert set_mset_mset subset_insertI, metis nm set_mset_mset union_single_eq_member)
  then have here: "fst (callers s ! i) \<in> msgId ` set (newMail s)" using p by (metis imageI)
  have nr: "no_rec (snd (callers s ! i))" and act: "active (snd (callers s ! i))" using i by simp_all
  let ?cs' = "(callers s)[i := (fst (callers s ! i), Returned p)]"
  have nxt: "inv_next ?cs' (recipients s) rest (queue_free s)"
    by (rule inv_next_move [OF D(4) sub i(1)]) (use here rec_not_at [OF D(1) nr] in auto)
  have bags: "held_bag ?cs' = held_bag (callers s)" "got_bag ?cs' = add_mset p (got_bag (callers s))"
    using bag_update [OF i(1), of "fst (callers s ! i)" "Returned p"] i(2) by simp_all
  then have all: "pending s = add_mset p (mset (inbox s) + mset rest + held_bag ?cs' + rec_bag (recipients s))"
    "handed_out s = got_bag (callers s)"
    by (simp_all add: pending_bags returned_bag nm)
  with D(6) have "one_each (mset (inbox s) + mset rest + held_bag ?cs' + rec_bag (recipients s))" by (simp add: one_each_add)
  with D(7,8) all bags nxt inv_recs_move [OF D(1) nr, of "Returned p"] inv_callers_move [OF D(5) act, of "Returned p"] p
    inv_man_keep [OF D(2) i(1), of "Returned p"] inv_mail_move [OF D(3) i(1) _ sub, of "Returned p"] i(2)
  show ?thesis by (simp add: mail_inv_def pending_bags returned_bag)
qed

text \<open>Moves that leave the messages where they are.\<close>

lemma still_inv:
  assumes "mail_inv s" "i < length (callers s)" "held pc = held (snd (callers s ! i))" "got pc = got (snd (callers s ! i))"
    "active (snd (callers s ! i))" "active pc" "rec_bag rs = rec_bag (recipients s)" "is_man pc = is_man (snd (callers s ! i))"
    "inv_recs ((callers s)[i := (fst (callers s ! i), pc)]) rs"
    "inv_mail ((callers s)[i := (fst (callers s ! i), pc)]) rs (newMail s)"
    "inv_next ((callers s)[i := (fst (callers s ! i), pc)]) rs (newMail s) (queue_free s)"
  shows "mail_inv (set_pc i pc (s \<lparr> recipients := rs \<rparr>))"
proof -
  note D = mail_invD [OF assms(1)]
  have "held_bag ((callers s)[i := (fst (callers s ! i), pc)]) = held_bag (callers s)"
    "got_bag ((callers s)[i := (fst (callers s ! i), pc)]) = got_bag (callers s)"
    using bag_update [OF assms(2), of "fst (callers s ! i)" pc] assms(3,4) by simp_all
  with assms D inv_man_keep [OF D(2) assms(2,8)] inv_callers_move [OF D(5) assms(5), of pc] show ?thesis
    by (simp add: mail_inv_def pending_bags returned_bag) (cases pc; simp)
qed

lemma join_inv:
  assumes inv: "mail_inv s" and i: "i < length (callers s)" "snd (callers s ! i) = Enter" "\<not> queue_free s"
    and t: "take_mail (fst (callers s ! i)) (newMail s) = None"
  shows "mail_inv (set_pc i Waiting (s \<lparr> recipients := recipients s @
    [\<lparr> r_who = i, r_msgId = fst (callers s ! i), r_msg = None, r_event = 0 \<rparr>] \<rparr>))"
proof (rule still_inv [OF inv i(1)])
  note D = mail_invD [OF inv]
  let ?r = "\<lparr> r_who = i, r_msgId = fst (callers s ! i), r_msg = None, r_event = 0 \<rparr>"
  show "inv_recs ((callers s)[i := (fst (callers s ! i), Waiting)]) (recipients s @ [?r])"
    using inv_recs_join [OF D(1) _ i(1)] i(2) by simp
  have "inv_mail ((callers s)[i := (fst (callers s ! i), Waiting)]) (recipients s) (newMail s)"
    by (rule inv_mail_move [OF D(3) i(1)]) auto
  then show "inv_mail ((callers s)[i := (fst (callers s ! i), Waiting)]) (recipients s @ [?r]) (newMail s)"
    using t by (auto simp: inv_mail_def take_mail_None)
qed (use i in \<open>simp_all add: inv_next_def\<close>)

lemma pend_event_ids: "map r_msgId (pend_event i rs) = map r_msgId rs"
  by (induction rs) (auto simp: pend_event_def)

lemma wake_inv:
  assumes inv: "mail_inv s" and i: "i < length (callers s)" "snd (callers s ! i) = Waiting"
  shows "mail_inv (set_pc i Woken (s \<lparr> recipients := pend_event i (recipients s) \<rparr>))"
proof (rule still_inv [OF inv i(1)])
  note D = mail_invD [OF inv]
  let ?cs' = "(callers s)[i := (fst (callers s ! i), Woken)]" and ?rs' = "pend_event i (recipients s)"
  show "inv_recs ?cs' ?rs'" by (rule inv_recs_wake [OF D(1) i])
  have "r_msgId ` set ?rs' = r_msgId ` set (recipients s)" using pend_event_ids by (metis list.set_map)
  then show "inv_mail ?cs' ?rs' (newMail s)" using inv_mail_move [OF D(3) i(1), of Woken] by simp
  have "will_look ?cs' ?rs' (newMail s)" if "will_look (callers s) (recipients s) (newMail s)"
  proof -
    from that consider
      (enter) j where "j < length (callers s)" "snd (callers s ! j) = Enter" "fst (callers s ! j) \<notin> msgId ` set (newMail s)"
      | (rec) r where "r \<in> set (recipients s)" "r_msg r = None" "0 < r_event r \<or> snd (callers s ! r_who r) = Woken"
      by (auto simp: will_look_def)
    then show ?thesis
    proof cases
      case enter
      with i(2) have "j \<noteq> i" by auto
      with enter show ?thesis by (auto simp: will_look_def intro!: exI [of _ j])
    next
      case rec
      let ?r = "if r_who r = i then r \<lparr> r_event := r_event r - 1 \<rparr> else r"
      have "?r \<in> set ?rs'" using rec(1) by (auto simp: pend_event_def)
      moreover have "r_msg ?r = None" "0 < r_event ?r \<or> snd (?cs' ! r_who ?r) = Woken" using rec i(1) by auto
      ultimately show ?thesis unfolding will_look_def by blast
    qed
  qed
  then show "inv_next ?cs' ?rs' (newMail s) (queue_free s)"
    using D(4) by (auto simp: inv_next_def pend_event_def split: if_splits)
qed (use i in simp_all)

lemma receive_inv:
  assumes inv: "mail_inv s" and i: "i < length (callers s)" "snd (callers s ! i) = Blocked" and m: "inbox s = p # ps"
  shows "mail_inv (set_pc i (Holding p) (s \<lparr> inbox := ps \<rparr>))"
proof -
  note D = mail_invD [OF inv]
  let ?cs' = "(callers s)[i := (fst (callers s ! i), Holding p)]"
  have "held_bag ?cs' = add_mset p (held_bag (callers s))" "got_bag ?cs' = got_bag (callers s)"
    using bag_update [OF i(1), of "fst (callers s ! i)" "Holding p"] i(2) by simp_all
  then have "pending (set_pc i (Holding p) (s \<lparr> inbox := ps \<rparr>)) = pending s" "handed_out (set_pc i (Holding p) (s \<lparr> inbox := ps \<rparr>)) = handed_out s"
    using m by (simp_all add: pending_bags returned_bag)
  moreover have "inv_next ?cs' (recipients s) (newMail s) (queue_free s)"
    by (rule inv_next_move [OF D(4) subset_refl i(1)]) (use i(2) rec_not_at [OF D(1), of i] in auto)
  moreover have "inv_mail ?cs' (recipients s) (newMail s)" by (rule inv_mail_move [OF D(3) i(1)]) (use i(2) in auto)
  ultimately show ?thesis
    using D(6-8) inv_recs_move [OF D(1), of i "Holding p"] inv_callers_move [OF D(5), of i "Holding p"]
      inv_man_keep [OF D(2) i(1), of "Holding p"] i(2)
    by (simp add: mail_inv_def)
qed

lemma leave_bag:
  "r \<in> set rs \<Longrightarrow> distinct (map r_who rs) \<Longrightarrow>
     rec_bag rs = (case r_msg r of None \<Rightarrow> {#} | Some p \<Rightarrow> {#p#}) + rec_bag (filter (\<lambda>q. r_who q \<noteq> r_who r) rs)"
proof (induction rs)
  case (Cons q qs)
  show ?case
  proof (cases "q = r")
    case True
    with Cons.prems(2) have "\<forall>x \<in> set qs. r_who x \<noteq> r_who r" by (metis distinct.simps(2) imageI list.set_map list.simps(9))
    with True show ?thesis by (simp add: filter_id_conv)
  next
    case False
    with Cons have "r \<in> set qs" by simp
    with Cons.prems(2) have "r_who q \<noteq> r_who r" by (metis distinct.simps(2) imageI list.set_map list.simps(9))
    with Cons \<open>r \<in> set qs\<close> show ?thesis by simp
  qed
qed simp

lemma leave_inv:
  assumes inv: "mail_inv s" and i: "i < length (callers s)" "snd (callers s ! i) = Woken" and t: "woken_step i s = Some t"
  shows "mail_inv t"
proof -
  note D = mail_invD [OF inv]
  let ?rs' = "filter (\<lambda>r. r_who r \<noteq> i) (recipients s)"
  obtain r where r: "my_recipient i (recipients s) = Some r"
    and t': "t = set_pc i (case r_msg r of None \<Rightarrow> Enter | Some p \<Rightarrow> Returned p) (s \<lparr> recipients := ?rs' \<rparr>)"
    using t by (auto simp: woken_step_def split: option.splits)
  have rin: "r \<in> set (recipients s)" "r_who r = i" using my_recipient_in [OF r] by simp_all
  have dist: "distinct (map r_who (recipients s))" using D(1) by (simp add: inv_recs_def)
  have rok: "r_msgId r = fst (callers s ! i)" "\<And>p. r_msg r = Some p \<Longrightarrow> msgId p = fst (callers s ! i)"
    using D(1) rin by (auto simp: inv_recs_def rec_ok_def)
  have out: "rec_bag (recipients s) = (case r_msg r of None \<Rightarrow> {#} | Some p \<Rightarrow> {#p#}) + rec_bag ?rs'"
    using leave_bag [OF rin(1) dist] rin(2) by simp
  show ?thesis
  proof (cases "r_msg r")
    case None
    let ?cs' = "(callers s)[i := (fst (callers s ! i), Enter)]"
    have "fst (callers s ! i) \<notin> msgId ` set (newMail s)" using D(3) rin(1) rok(1) by (auto simp: inv_mail_def)
    then have "will_look ?cs' ?rs' (newMail s)" using i(1) by (auto simp: will_look_def intro!: exI [of _ i])
    then have "mail_inv (set_pc i Enter (s \<lparr> recipients := ?rs' \<rparr>))"
      by (intro still_inv [OF inv i(1)] inv_recs_leave [OF D(1) i(1)] inv_mail_move [OF D(3) i(1)])
        (use i(2) out None in \<open>auto simp: inv_next_def\<close>)
    with t' None show ?thesis by simp
  next
    case (Some p)
    let ?cs' = "(callers s)[i := (fst (callers s ! i), Returned p)]"
    have nxt: "inv_next ?cs' ?rs' (newMail s) (queue_free s)"
      by (rule inv_next_move [OF D(4) subset_refl i(1)])
        (use i(2) my_recipient_unique [OF dist r] Some in auto)
    have bags: "held_bag ?cs' = held_bag (callers s)" "got_bag ?cs' = add_mset p (got_bag (callers s))"
      using bag_update [OF i(1), of "fst (callers s ! i)" "Returned p"] i(2) by simp_all
    then have all: "pending s = add_mset p (mset (inbox s) + mset (newMail s) + held_bag ?cs' + rec_bag ?rs')"
      using out Some by (simp add: pending_bags)
    with D(6) have "one_each (mset (inbox s) + mset (newMail s) + held_bag ?cs' + rec_bag ?rs')" by (simp add: one_each_add)
    with D(7,8) all bags nxt inv_recs_leave [OF D(1) i(1), of "Returned p"] inv_callers_move [OF D(5), of i "Returned p"] rok(2)
      inv_man_keep [OF D(2) i(1), of "Returned p"] inv_mail_move [OF D(3) i(1) _ subset_refl, of "Returned p" ?rs'] i(2) t' Some
    show ?thesis by (force simp: mail_inv_def pending_bags returned_bag)
  qed
qed

lemma caller_inv: "mail_inv s \<Longrightarrow> caller_step i s = Some t \<Longrightarrow> mail_inv t"
proof -
  assume inv: "mail_inv s" and t: "caller_step i s = Some t"
  note D = mail_invD [OF inv]
  have i: "i < length (callers s)" using t by (simp add: caller_step_def split: if_splits)
  have me: "man_at (callers s) i \<Longrightarrow> fst (callers s ! i) \<notin> msgId ` set (newMail s)" using D(3) by (simp add: inv_mail_def)
  show ?thesis
  proof (cases "snd (callers s ! i)")
    case Enter
    with t i have "t = enter_step i s" by (auto simp: caller_step_def split: if_splits)
    with Enter inv i take_mail_inv [OF inv i Enter] join_inv [OF inv i Enter] mailman_step_inv [OF inv i, of "inbox s"]
    show ?thesis by (auto simp: enter_step_def take_mail_None split: option.splits)
  next
    case Blocked
    with t i receive_inv [OF inv i Blocked] show ?thesis by (auto simp: caller_step_def split: list.splits)
  next
    case (Holding p)
    with t i me have "t = mailman_step i (p # inbox s) s" "fst (callers s ! i) \<notin> msgId ` set (newMail s)"
      by (auto simp: caller_step_def man_at_def split: if_splits)
    with mailman_step_inv [OF inv i, of "p # inbox s"] Holding show ?thesis by simp
  next
    case Waiting
    with t i wake_inv [OF inv i Waiting] show ?thesis by (auto simp: caller_step_def split: option.splits if_splits)
  next
    case Woken
    with t i leave_inv [OF inv i Woken] show ?thesis by (auto simp: caller_step_def split: if_splits)
  qed (use t i in \<open>auto simp: caller_step_def\<close>)
qed

lemma arrive_inv:
  assumes "mail_inv s" "msgId p \<notin> msgId ` set_mset (pending s)"
  shows "mail_inv (s \<lparr> inbox := inbox s @ [p], arrived := arrived s @ [p] \<rparr>)"
proof -
  have "pending (s \<lparr> inbox := inbox s @ [p], arrived := arrived s @ [p] \<rparr>) = add_mset p (pending s)"
    "handed_out (s \<lparr> inbox := inbox s @ [p], arrived := arrived s @ [p] \<rparr>) = handed_out s"
    by (simp_all add: pending_def handed_out_def)
  with assms show ?thesis by (simp add: mail_inv_def one_each_add)
qed

lemma call_inv:
  assumes inv: "mail_inv s" and me: "me \<notin> fst ` {c \<in> set (callers s). active (snd c)}"
  shows "mail_inv (s \<lparr> callers := callers s @ [(me, Enter)] \<rparr>)"
proof -
  note D = mail_invD [OF inv]
  let ?cs' = "callers s @ [(me, Enter)]"
  have old: "?cs' ! i = callers s ! i" if "i < length (callers s)" for i using that by (simp add: nth_append)
  have who: "r_who r < length (callers s)" if "r \<in> set (recipients s)" for r using D(1) that by (simp add: inv_recs_def rec_ok_def)
  have man: "man_at ?cs' i \<Longrightarrow> man_at (callers s) i \<and> fst (?cs' ! i) = fst (callers s ! i)" for i
    by (auto simp: man_at_def nth_append split: if_splits)
  have mail: "inv_mail ?cs' (recipients s) (newMail s)" by (rule inv_mail_subset [OF D(3)]) (use man in auto)
  have "will_look ?cs' (recipients s) (newMail s)" if "will_look (callers s) (recipients s) (newMail s)"
    using that who old unfolding will_look_def by (metis length_append_singleton less_SucI)
  then have nxt: "inv_next ?cs' (recipients s) (newMail s) (queue_free s)" using D(4) by (simp add: inv_next_def)
  have other: "fst (callers s ! i) \<noteq> me" if "i < length (callers s)" "active (snd (callers s ! i))" for i
    using me nth_mem [OF that(1)] that(2) by (metis (mono_tags, lifting) imageI mem_Collect_eq)
  have "inv_active ?cs'"
    unfolding inv_active_def
  proof (intro allI impI)
    fix i j
    assume h: "i < length ?cs'" "j < length ?cs'" "active (snd (?cs' ! i))" "active (snd (?cs' ! j))" "fst (?cs' ! i) = fst (?cs' ! j)"
    show "i = j"
    proof (cases "i < length (callers s)"; cases "j < length (callers s)")
      assume "i < length (callers s)" "j < length (callers s)"
      with h old D(5) show ?thesis by (simp add: inv_callers_def inv_active_def)
    qed (use h other in \<open>auto simp: nth_append less_Suc_eq\<close>)
  qed
  then have "inv_callers ?cs'" using D(5) by (auto simp: inv_callers_def inv_got_def)
  with D mail nxt inv_recs_new [OF D(1)] inv_man_new [OF D(2)] show ?thesis
    by (simp add: mail_inv_def pending_def handed_out_def)
qed

lemma mail_state_inv: "mail_reachable s \<Longrightarrow> mail_inv s"
proof (induction rule: mail_reachable.induct)
  case (step s t)
  from step.hyps(2) step.IH show ?case by cases (auto intro: arrive_inv call_inv caller_inv)
qed (rule mail_start_inv)

section \<open>Properties\<close>

text \<open>C9: in every reachable state of the callers of \<open>_RcmClient_getReturnMsg\<close> the messages that have arrived are exactly
  those on their way and those handed over, each once, and a caller has only ever been given the message with its id.\<close>

theorem mail_delivered_once:
  assumes "mail_reachable s"
  shows "mset (arrived s) = pending s + handed_out s \<and>
    ((me, Returned p) \<in> set (callers s) \<longrightarrow> msgId p = me)"
  using mail_invD(5,7) [OF mail_state_inv [OF assms]] by (auto simp: inv_callers_def inv_got_def)

lemma stuck_pc:
  assumes inv: "mail_inv s" and stuck: "caller_step i s = None" and i: "i < length (callers s)"
  shows "snd (callers s ! i) = Blocked \<and> inbox s = [] \<or>
    snd (callers s ! i) = Waiting \<and> (\<forall>r \<in> set (recipients s). r_who r = i \<longrightarrow> r_event r = 0) \<or> \<not> active (snd (callers s ! i))"
proof -
  note D = mail_invD [OF inv]
  have dist: "distinct (map r_who (recipients s))" using D(1) by (simp add: inv_recs_def)
  have here: "\<exists>r. my_recipient i (recipients s) = Some r" if "\<not> no_rec (snd (callers s ! i))"
    using D(1) i that my_recipient_exists by (simp add: inv_recs_def)
  show ?thesis
  proof (cases "snd (callers s ! i)")
    case Waiting
    with here obtain r where r: "my_recipient i (recipients s) = Some r" by auto
    with stuck i Waiting have "r_event r = 0" by (simp add: caller_step_def split: if_splits)
    with my_recipient_unique [OF dist r] Waiting show ?thesis by auto
  qed (use stuck i here D(8) in \<open>auto simp: caller_step_def woken_step_def split: list.splits\<close>)
qed

text \<open>C10: as long as a message has arrived for a caller and has not been handed over to it, some caller can take a step: nobody is left
  waiting with the message undelivered and the queue unattended.\<close>

theorem no_caller_stranded:
  assumes "mail_reachable s" "i < length (callers s)" "active (snd (callers s ! i))"
    and "p \<in># pending s" "msgId p = fst (callers s ! i)"
  shows "\<exists>j t. caller_step j s = Some t"
proof (rule ccontr)
  assume "\<not> ?thesis"
  then have stuck: "caller_step j s = None" for j by (metis not_None_eq)
  have inv: "mail_inv s" by (rule mail_state_inv [OF assms(1)])
  note D = mail_invD [OF inv] and pc = stuck_pc [OF inv stuck]
  have quiet: "no_rec (snd (callers s ! j)) \<Longrightarrow> active (snd (callers s ! j)) \<Longrightarrow> snd (callers s ! j) = Blocked \<and> inbox s = []"
    if "j < length (callers s)" for j using pc [OF that] by auto
  have no_enter: "snd (callers s ! j) \<noteq> Enter" and no_held: "held (snd (callers s ! j)) = []" if "j < length (callers s)" for j
    using quiet [OF that] by (cases "snd (callers s ! j)"; simp)+
  have idle: "snd (callers s ! r_who r) = Waiting \<and> r_event r = 0 \<and> r_msg r = None" if "r \<in> set (recipients s)" for r
  proof -
    have "rec_ok (callers s) r" using D(1) that by (simp add: inv_recs_def)
    then show ?thesis using pc [of "r_who r"] that by (auto simp: rec_ok_def)
  qed
  have "\<not> will_look (callers s) (recipients s) (newMail s)"
    using no_enter idle by (auto simp: will_look_def)
  then have lock: "queue_free s \<Longrightarrow> recipients s = []"
    using D(4) idle by (cases "recipients s") (auto simp: inv_next_def)
  have man: "man_at (callers s) j \<Longrightarrow> inbox s = []" for j
    using quiet [of j] by (auto simp: man_at_def elim: is_man.elims)
  have i_pc: "snd (callers s ! i) = Blocked \<or> snd (callers s ! i) = Waiting" using pc [OF assms(2)] assms(3) by auto
  have i_rec: "i \<in> r_who ` set (recipients s)" if "snd (callers s ! i) = Waiting"
    using D(1) assms(2) that by (simp add: inv_recs_def)
  have "inbox s = []"
  proof (cases "queue_free s")
    case True
    with lock i_rec have "snd (callers s ! i) \<noteq> Waiting" by auto
    with i_pc assms(2) man [of i] show ?thesis by (auto simp: man_at_def)
  next
    case False
    with D(2) man show ?thesis by (auto simp: inv_man_def)
  qed
  moreover have "p \<notin> set (newMail s)"
  proof
    assume "p \<in> set (newMail s)"
    then have "fst (callers s ! i) \<in> msgId ` set (newMail s)" using assms(5) by (metis imageI)
    moreover have "fst (callers s ! i) \<in> r_msgId ` set (recipients s)" if "snd (callers s ! i) = Waiting"
      using i_rec [OF that] D(1) by (force simp: inv_recs_def rec_ok_def)
    ultimately show False using i_pc D(3) assms(2) by (auto simp: inv_mail_def man_at_def)
  qed
  moreover have "held_bag (callers s) = {#}"
  proof -
    have "held (snd c) = []" if "c \<in> set (callers s)" for c
      using that no_held by (auto simp: in_set_conv_nth)
    then show ?thesis by (auto simp: held_bag_def)
  qed
  moreover have "rec_bag (recipients s) = {#}" using idle by (induction "recipients s") (auto simp: rec_bag_def)
  ultimately show False using assms(4) by (simp add: pending_bags)
qed

section \<open>After an error exit\<close>










section \<open>Examples\<close>

datatype mail_action = Arrive RcmClient_Packet | Call u16 | Move nat

fun play :: "mail_action list \<Rightarrow> mail_system \<Rightarrow> mail_system option" where
  "play [] s = Some s"
| "play (a # as) s =
     (case a of
        Arrive p \<Rightarrow> if list_all (\<lambda>q. msgId q \<noteq> msgId p)
            (inbox s @ newMail s @ concat (map (held \<circ> snd) (callers s)) @
             concat (map (\<lambda>r. case r_msg r of None \<Rightarrow> [] | Some p \<Rightarrow> [p]) (recipients s)))
          then play as (s \<lparr> inbox := inbox s @ [p], arrived := arrived s @ [p] \<rparr>) else None
      | Call me \<Rightarrow> if list_all (\<lambda>c. active (snd c) \<longrightarrow> fst c \<noteq> me) (callers s)
          then play as (s \<lparr> callers := callers s @ [(me, Enter)] \<rparr>) else None
      | Move i \<Rightarrow> (case caller_step i s of None \<Rightarrow> None | Some t \<Rightarrow> play as t))"

lemma play_reachable: "mail_reachable s \<Longrightarrow> play as s = Some t \<Longrightarrow> mail_reachable t"
proof (induction as arbitrary: s)
  case (Cons a as)
  show ?case
  proof (cases a)
    case (Arrive p)
    with Cons.prems have "play as (s \<lparr> inbox := inbox s @ [p], arrived := arrived s @ [p] \<rparr>) = Some t"
      and "msgId p \<notin> msgId ` set_mset (pending s)"
      by (auto simp: pending_def list_all_iff image_iff split: if_splits)
    with Cons mail_step.arrive show ?thesis by (meson mail_reachable.step)
  next
    case (Call me)
    with Cons.prems have "play as (s \<lparr> callers := callers s @ [(me, Enter)] \<rparr>) = Some t"
      and "me \<notin> fst ` {c \<in> set (callers s). active (snd c)}"
      by (auto simp: list_all_iff image_iff split: if_splits)
    with Cons mail_step.call show ?thesis by (meson mail_reachable.step)
  next
    case (Move i)
    with Cons.prems obtain t' where "caller_step i s = Some t'" "play as t' = Some t" by (auto split: option.splits)
    with Cons mail_step.caller show ?thesis by (meson mail_reachable.step)
  qed
qed simp

definition example_packet :: "u16 \<Rightarrow> RcmClient_Packet" where
  "example_packet n = \<lparr> packet_at = 0, desc = 0, msgId = n, poolId = 0, msg_jobId = 0, fxnIdx = 0, msg_result = 0,
     msg_dataSize = 4, msg_data = [0] \<rparr>"

text \<open>Two callers: the first becomes the mailman, delivers the message of the second and then gets its own.\<close>

definition two_callers :: "mail_action list" where
  "two_callers = [Call 1, Call 2, Move 0, Move 1, Arrive (example_packet 2), Move 0, Move 0]"

definition two_callers_end :: mail_system where
  "two_callers_end =
     \<lparr> inbox = [], newMail = [], recipients = [\<lparr> r_who = 1, r_msgId = 2, r_msg = Some (example_packet 2), r_event = 1 \<rparr>],
       queue_free = False, mbx_free = True, callers = [(1, Blocked), (2, Waiting)], arrived = [example_packet 2] \<rparr>"

lemma two_callers_play: "play two_callers mail_start = Some two_callers_end"
  by (simp add: two_callers_def mail_start_def two_callers_end_def caller_step_def enter_step_def mailman_step_def set_pc_def
      example_packet_def deliver_def)

lemma two_callers_reachable: "mail_reachable two_callers_end"
  by (rule play_reachable [OF mail_reachable.start two_callers_play])

lemma no_caller_stranded_witness:
  "mail_reachable two_callers_end \<and> (\<exists>j t. caller_step j two_callers_end = Some t)"
  using no_caller_stranded [OF two_callers_reachable, of 1 "example_packet 2"] two_callers_reachable
  by (simp add: two_callers_end_def pending_def example_packet_def)

lemma mail_delivered_once_witness:
  "mset (arrived two_callers_end) = pending two_callers_end + handed_out two_callers_end"
  using mail_delivered_once [OF two_callers_reachable] by blast

lemma caller_steps_terminate_witness:
  "\<exists>t. caller_step 1 two_callers_end = Some t \<and> mail_work t < mail_work two_callers_end"
proof -
  obtain t where "caller_step 1 two_callers_end = Some t"
    by (simp add: two_callers_end_def caller_step_def my_recipient_def)
  with caller_steps_terminate [OF this] show ?thesis by blast
qed


end
