(* ===== verification/Rcm_Symbols.thy ===== *)
theory Rcm_Symbols
  imports Rcm_Types
begin

text \<open>
  The function tables of the remote command server: \<open>RcmServer_addSymbol\<close>, \<open>RcmServer_removeSymbol\<close>,
  \<open>_RcmServer_getFxnAddr\<close>, \<open>_RcmServer_getSymIdx\<close> and \<open>_RcmServer_getNextKey\<close> of \<open>RcmServer.c\<close>. Table 0 is
  the static table given at creation; table \<open>i\<close> of the dynamic tables 1 to 7 has \<open>2 ^ (i + 4)\<close> slots and is
  allocated when the tables before it are full. A slot is free while its address is 0. The argument
  \<open>refs\<close> of the interface functions is the set-up count of the module; whether the heap has room for table
  \<open>i\<close> and for the copy of a name are the parameters \<open>tab_ok\<close> and \<open>name_ok\<close>.
\<close>

section \<open>Operations\<close>

definition table_size :: "nat \<Rightarrow> nat" where
  "table_size i = 2 ^ (i + 4)"

definition free_elem :: RcmServer_FxnTabElem where
  "free_elem = \<lparr> fxn_name = None, fxn_addr = 0, fxn_key = 0 \<rparr>"

definition fxn_index :: "u16 \<Rightarrow> nat \<Rightarrow> nat \<Rightarrow> u32" where
  "fxn_index k i j = push_bit RCM_KeyShift (ucast k) OR push_bit 12 (word_of_nat i) OR word_of_nat j"

definition getNextKey :: "RcmServer_Object \<Rightarrow> u16 \<times> RcmServer_Object" where
  "getNextKey obj =
     (let k = (if next_key obj \<le> 1 then RCM_KeyResetValue else next_key obj - 1)
      in (k, obj \<lparr> next_key := k \<rparr>))"

definition index_key :: "u32 \<Rightarrow> u16" where
  "index_key idx = ucast (drop_bit RCM_KeyShift (idx AND RCM_KeyMask))"

definition index_table :: "u32 \<Rightarrow> nat" where
  "index_table idx = unat (drop_bit 12 (idx AND 0xF000))"

definition index_offset :: "u32 \<Rightarrow> nat" where
  "index_offset idx = unat (idx AND 0x0FFF)"

definition getFxnAddr :: "RcmServer_Object \<Rightarrow> u32 \<Rightarrow> rcm_fault + (int \<times> u32 option)" where
  "getFxnAddr obj idx =
     (if idx AND 0x80000000 \<noteq> 0 then
        (let j = unat (idx AND 0x0000FFFF)
         in if j < static_length obj then
              (case fxnTab obj ! 0 of
                 None \<Rightarrow> Inl NoTable
               | Some tab \<Rightarrow>
                   if j < length tab then Inr (RcmServer_S_SUCCESS, Some (fxn_addr (tab ! j)))
                   else Inl OutsideTable)
            else Inr (RcmServer_E_InvalidFxnIdx, None))
      else
        (let i = index_table idx; j = index_offset idx
         in if 0 < i \<and> i < RCMSERVER_MAX_TABLES then
              (case fxnTab obj ! i of
                 None \<Rightarrow> Inr (RcmServer_E_InvalidFxnIdx, None)
               | Some tab \<Rightarrow>
                   if \<not> j < length tab then Inl OutsideTable
                   else if index_key idx \<noteq> fxn_key (tab ! j) then Inr (RcmServer_E_InvalidFxnIdx, None)
                   else Inr (RcmServer_S_SUCCESS, Some (fxn_addr (tab ! j))))
            else Inr (RcmServer_E_InvalidFxnIdx, None)))"

text \<open>The search by name through the tables that are left; \<open>0xFFFFFFFF\<close> stands for nothing found.\<close>

fun search_tables :: "RcmServer_Object \<Rightarrow> string \<Rightarrow> nat list \<Rightarrow> u32" where
  "search_tables obj nm [] = 0xFFFFFFFF"
| "search_tables obj nm (i # is) =
     (let idx =
        (case fxnTab obj ! i of
           None \<Rightarrow> 0xFFFFFFFF
         | Some tab \<Rightarrow>
             (let len = (if i = 0 then static_length obj else table_size i)
              in case find (\<lambda>j. fxn_name (tab ! j) = Some nm) [0..<len] of
                   None \<Rightarrow> 0xFFFFFFFF
                 | Some j \<Rightarrow>
                     if i = 0 then 0x80000000 OR word_of_nat j
                     else fxn_index (fxn_key (tab ! j)) i j))
      in if idx \<noteq> 0xFFFFFFFF then idx else search_tables obj nm is)"

definition getSymIdx :: "RcmServer_Object \<Rightarrow> string \<Rightarrow> int \<times> u32 option" where
  "getSymIdx obj nm =
     (let idx = search_tables obj nm [0..<RCMSERVER_MAX_TABLES]
      in if idx = 0xFFFFFFFF then (RcmServer_E_SYMBOLNOTFOUND, None) else (RcmServer_S_SUCCESS, Some idx))"

text \<open>The loop over the dynamic tables of \<open>RcmServer_addSymbol\<close>: status, slot and tables.\<close>

fun find_slot :: "(nat \<Rightarrow> bool) \<Rightarrow> nat list \<Rightarrow> RcmServer_FxnTabElem list option list \<Rightarrow>
    int \<times> (nat \<times> nat) option \<times> RcmServer_FxnTabElem list option list" where
  "find_slot tab_ok [] tabs = (RcmServer_S_SUCCESS, None, tabs)"
| "find_slot tab_ok (i # is) tabs =
     (case tabs ! i of
        Some tab \<Rightarrow>
          (case find (\<lambda>j. fxn_addr (tab ! j) = 0) [0..<table_size i] of
             Some j \<Rightarrow> (RcmServer_S_SUCCESS, Some (i, j), tabs)
           | None \<Rightarrow> find_slot tab_ok is tabs)
      | None \<Rightarrow>
          if tab_ok i then (RcmServer_S_SUCCESS, Some (i, 0), tabs[i := Some (replicate (table_size i) free_elem)])
          else (RcmServer_E_NOMEMORY, None, tabs))"

definition set_slot :: "nat \<Rightarrow> nat \<Rightarrow> (RcmServer_FxnTabElem \<Rightarrow> RcmServer_FxnTabElem) \<Rightarrow> RcmServer_Object \<Rightarrow> RcmServer_Object" where
  "set_slot i j f obj =
     obj \<lparr> fxnTab := (fxnTab obj)[i := map_option (\<lambda>tab. tab[j := f (tab ! j)]) (fxnTab obj ! i)] \<rparr>"

text \<open>The part of \<open>RcmServer_addSymbol\<close> behind its argument checks: status, index (if set) and object.\<close>

definition add_to_tables :: "(nat \<Rightarrow> bool) \<Rightarrow> bool \<Rightarrow> RcmServer_Object \<Rightarrow> string \<Rightarrow> u32 \<Rightarrow> int \<times> u32 \<times> RcmServer_Object" where
  "add_to_tables tab_ok name_ok obj funcName addr =
     (case find_slot tab_ok [1..<RCMSERVER_MAX_TABLES] (fxnTab obj) of
        (status, slot, tabs) \<Rightarrow>
          (let obj1 = obj \<lparr> fxnTab := tabs \<rparr>
           in if status < 0 then (status, 0xFFFFFFFF, obj1)
              else case slot of
                None \<Rightarrow> (RcmServer_E_SYMBOLTABLEFULL, 0xFFFFFFFF, obj1)
              | Some (i, j) \<Rightarrow>
                  (let obj2 = set_slot i j (fxn_addr_update (\<lambda>_. addr)) obj1
                   in if \<not> name_ok then
                        (RcmServer_E_NOMEMORY, 0xFFFFFFFF, set_slot i j (fxn_name_update (\<lambda>_. None)) obj2)
                      else
                        (let obj3 = set_slot i j (fxn_name_update (\<lambda>_. Some funcName)) obj2;
                             (k, obj4) = getNextKey obj3;
                             obj5 = set_slot i j (fxn_key_update (\<lambda>_. k)) obj4
                         in (RcmServer_S_SUCCESS, fxn_index k i j, obj5)))))"

text \<open>\<open>index\<close> is \<^const>\<open>None\<close> for a NULL pointer and else what the pointer points to; its new value is returned.\<close>

definition RcmServer_addSymbol ::
    "u32 \<Rightarrow> (nat \<Rightarrow> bool) \<Rightarrow> bool \<Rightarrow> RcmServer_Object option \<Rightarrow> string option \<Rightarrow> u32 \<Rightarrow> u32 option \<Rightarrow>
     int \<times> u32 option \<times> RcmServer_Object option" where
  "RcmServer_addSymbol refs tab_ok name_ok handle funcName addr index =
     (if refs = 0 then (RcmServer_E_INVALIDSTATE, index, handle)
      else case handle of
        None \<Rightarrow> (RcmServer_E_INVALIDARG, index, handle)
      | Some obj \<Rightarrow>
          (case funcName of
             None \<Rightarrow> (RcmServer_E_INVALIDARG, index, handle)
           | Some nm \<Rightarrow>
               if addr = 0 then (RcmServer_E_INVALIDARG, index, handle)
               else if index = None then (RcmServer_E_INVALIDARG, index, handle)
               else (case add_to_tables tab_ok name_ok obj nm addr of
                       (status, idx, obj1) \<Rightarrow> (status, if status \<ge> 0 then Some idx else index, Some obj1))))"

definition RcmServer_removeSymbol ::
    "u32 \<Rightarrow> RcmServer_Object option \<Rightarrow> string option \<Rightarrow> rcm_fault + (int \<times> RcmServer_Object option)" where
  "RcmServer_removeSymbol refs handle nm =
     (if refs = 0 then Inr (RcmServer_E_INVALIDSTATE, handle)
      else case handle of
        None \<Rightarrow> Inr (RcmServer_E_INVALIDARG, handle)
      | Some obj \<Rightarrow>
          (case nm of
             None \<Rightarrow> Inr (RcmServer_E_INVALIDARG, handle)
           | Some name \<Rightarrow>
               (case getSymIdx obj name of
                  (status, None) \<Rightarrow> Inr (status, handle)
                | (status, Some idx) \<Rightarrow>
                    if idx AND 0x80000000 \<noteq> 0 then Inr (RcmServer_E_SYMBOLSTATIC, handle)
                    else
                      (let i = index_table idx; j = index_offset idx
                       in if i < length (fxnTab obj) \<and> fxnTab obj ! i \<noteq> None \<and> j < length (the (fxnTab obj ! i))
                          then Inr (status, Some (set_slot i j (\<lambda>_. free_elem) obj))
                          else Inl OutsideTable))))"

section \<open>Function indices\<close>

lemma index_masks:
  "RCM_KeyMask = push_bit 20 (mask 11)" "(0xF000 :: u32) = push_bit 12 (mask 4)" "(0x0FFF :: u32) = mask 12"
  by (simp_all add: RCM_KeyMask_def mask_eq_exp_minus_1 push_bit_eq_mult)

lemma bit_bound: "unat (x :: 'a::len word) < 2 ^ m \<Longrightarrow> bit x n \<Longrightarrow> n < m"
proof (rule ccontr)
  assume x: "unat x < 2 ^ m" and b: "bit x n" and "\<not> n < m"
  then have "unat x < 2 ^ n" by (simp add: order_less_le_trans)
  then have "\<not> bit (unat x) n" by (simp add: bit_iff_odd)
  with b show False by (simp add: bit_unsigned_iff bit_imp_le_length)
qed

lemma nat_bit_bound: "(x :: nat) < 2 ^ m \<Longrightarrow> bit x n \<Longrightarrow> n < m"
proof (rule ccontr)
  assume x: "x < 2 ^ m" and b: "bit x n" and "\<not> n < m"
  then have "x < 2 ^ n" by (simp add: order_less_le_trans)
  with b show False by (simp add: bit_iff_odd)
qed

lemma bit_31: "bit (0x80000000 :: nat) n \<longleftrightarrow> n = 31" "bit (0x80000000 :: int) n \<longleftrightarrow> n = 31"
proof -
  have "(0x80000000 :: nat) = push_bit 31 1" "(0x80000000 :: int) = push_bit 31 1" by (simp_all add: push_bit_eq_mult)
  then show "bit (0x80000000 :: nat) n \<longleftrightarrow> n = 31" "bit (0x80000000 :: int) n \<longleftrightarrow> n = 31"
    by (metis bit_exp_iff push_bit_of_1 possible_bit_def possible_bit_nat possible_bit_int)+
qed

lemma index_parts:
  assumes k: "k \<le> RCM_KeyResetValue" and i: "i < 16" and j: "j < 2 ^ 12"
  shows "fxn_index k i j AND 0x80000000 = 0" "index_table (fxn_index k i j) = i"
    "index_offset (fxn_index k i j) = j" "index_key (fxn_index k i j) = k"
proof -
  have kb: "n < 11" if "bit k n" for n
    using bit_bound [OF _ that, of 11] k by (simp add: RCM_KeyResetValue_def word_le_nat_alt)
  have ib: "n < 4" if "bit i n" for n using nat_bit_bound [OF _ that, of 4] i by simp
  have jb: "n < 12" if "bit j n" for n using nat_bit_bound [OF _ that, of 12] j by simp
  show "fxn_index k i j AND 0x80000000 = 0"
    unfolding fxn_index_def RCM_KeyShift_def
    by (rule bit_word_eqI) (auto simp: bit_31 bit_simps dest: kb ib jb)
  have "drop_bit 12 (fxn_index k i j AND 0xF000) = word_of_nat i"
    unfolding fxn_index_def index_masks RCM_KeyShift_def
    by (rule bit_word_eqI) (auto simp: bit_simps dest: kb ib jb)
  then show "index_table (fxn_index k i j) = i"
    using i by (simp only: index_table_def) (simp add: unat_of_nat take_bit_nat_eq_self unsigned_of_nat)
  have "fxn_index k i j AND 0x0FFF = word_of_nat j"
    unfolding fxn_index_def index_masks RCM_KeyShift_def
    by (rule bit_word_eqI) (auto simp: bit_simps dest: kb ib jb)
  then show "index_offset (fxn_index k i j) = j"
    using j by (simp only: index_offset_def) (simp add: unat_of_nat take_bit_nat_eq_self unsigned_of_nat)
  show "index_key (fxn_index k i j) = k"
    unfolding fxn_index_def index_masks RCM_KeyShift_def index_key_def
    by (rule bit_word_eqI) (auto simp: bit_simps dest: kb ib jb)
qed

section \<open>Well-formed tables\<close>

text \<open>
  A slot with a name is in use and has a key; a free slot has neither. (A slot can be in use without a name: see
  \<open>failed_name_leaks_slot\<close>.)
\<close>

definition elem_ok :: "RcmServer_FxnTabElem \<Rightarrow> bool" where
  "elem_ok e \<longleftrightarrow> fxn_key e \<le> RCM_KeyResetValue \<and>
     (fxn_addr e = 0 \<longrightarrow> e = free_elem) \<and> (fxn_name e \<noteq> None \<longrightarrow> fxn_key e \<noteq> 0)"

definition table_ok :: "nat \<Rightarrow> RcmServer_FxnTabElem list option \<Rightarrow> bool" where
  "table_ok i t \<longleftrightarrow> (\<forall>tab. t = Some tab \<longrightarrow> length tab = table_size i \<and> (\<forall>e \<in> set tab. elem_ok e))"

definition tables_ok :: "RcmServer_Object \<Rightarrow> bool" where
  "tables_ok obj \<longleftrightarrow>
     length (fxnTab obj) = RCMSERVER_MAX_TABLES \<and> next_key obj \<le> RCM_KeyResetValue \<and>
     static_length obj = (case fxnTab obj ! 0 of None \<Rightarrow> 0 | Some tab \<Rightarrow> length tab) \<and>
     (\<forall>i \<in> {1..<RCMSERVER_MAX_TABLES}. table_ok i (fxnTab obj ! i))"

lemma free_elem_ok [simp]: "elem_ok free_elem"
  by (simp add: elem_ok_def free_elem_def)

lemma table_size_pos [simp]: "0 < table_size i"
  by (simp add: table_size_def)

lemma fresh_table_ok [simp]: "table_ok i (Some (replicate (table_size i) free_elem))"
  by (simp add: table_ok_def)

lemma table_ok_update:
  "table_ok i (Some tab) \<Longrightarrow> elem_ok e \<Longrightarrow> table_ok i (Some (tab[j := e]))"
  unfolding table_ok_def using set_update_subset_insert by fastforce

lemma table_size_bound: "i < RCMSERVER_MAX_TABLES \<Longrightarrow> table_size i \<le> 2 ^ 12"
proof -
  assume "i < RCMSERVER_MAX_TABLES"
  then have "i + 4 \<le> 12" by (simp add: RCMSERVER_MAX_TABLES_def)
  then have "(2::nat) ^ (i + 4) \<le> 2 ^ 12" by (rule power_increasing) simp
  then show ?thesis by (simp add: table_size_def)
qed

lemma getNextKey_range:
  "next_key obj \<le> RCM_KeyResetValue \<Longrightarrow> fst (getNextKey obj) \<noteq> 0 \<and> fst (getNextKey obj) \<le> RCM_KeyResetValue"
  by (auto simp: getNextKey_def Let_def RCM_KeyResetValue_def not_le word_less_nat_alt word_le_nat_alt
      unat_sub_if_size word_size unat_eq_0)

lemma find_slot_cases:
  "find_slot tab_ok is tabs = (st, sl, tabs') \<Longrightarrow> \<forall>i \<in> set is. table_ok i (tabs ! i) \<Longrightarrow>
   (\<exists>i j tab. sl = Some (i, j) \<and> i \<in> set is \<and> j < table_size i \<and> st = RcmServer_S_SUCCESS \<and>
      tabs' = tabs[i := Some tab] \<and> table_ok i (Some tab) \<and> tab ! j = free_elem \<and>
      (tabs ! i = Some tab \<or> tabs ! i = None \<and> tab = replicate (table_size i) free_elem)) \<or>
   sl = None \<and> tabs' = tabs \<and>
     (st = RcmServer_E_NOMEMORY \<or> st = RcmServer_S_SUCCESS \<and>
      (\<forall>i \<in> set is. \<exists>tab. tabs ! i = Some tab \<and> (\<forall>j < table_size i. fxn_addr (tab ! j) \<noteq> 0)))"
proof (induction tab_ok "is" tabs rule: find_slot.induct)
  case (2 tab_ok i "is" tabs)
  show ?case
  proof (cases "tabs ! i")
    case None
    with 2 show ?thesis by (auto split: if_splits)
  next
    case (Some tab)
    show ?thesis
    proof (cases "find (\<lambda>j. fxn_addr (tab ! j) = 0) [0..<table_size i]")
      case None
      then have "\<forall>j < table_size i. fxn_addr (tab ! j) \<noteq> 0" by (auto simp: find_None_iff)
      with 2 None Some show ?thesis by auto
    next
      case (Some j)
      then have "j < table_size i" "fxn_addr (tab ! j) = 0" by (auto simp: find_Some_iff)
      moreover from this 2(3) \<open>tabs ! i = Some tab\<close> have "elem_ok (tab ! j)" by (simp add: table_ok_def)
      ultimately have "j < table_size i" "tab ! j = free_elem" by (auto simp: elem_ok_def)
      moreover have "tabs[i := Some tab] = tabs" using \<open>tabs ! i = Some tab\<close> by (metis list_update_id)
      ultimately show ?thesis using 2 Some \<open>tabs ! i = Some tab\<close> by auto
    qed
  qed
qed auto

section \<open>What addition and removal do to the tables\<close>

definition put_elem :: "nat \<Rightarrow> nat \<Rightarrow> RcmServer_FxnTabElem list \<Rightarrow> RcmServer_FxnTabElem \<Rightarrow> RcmServer_Object \<Rightarrow> RcmServer_Object" where
  "put_elem i j tab e obj = obj \<lparr> fxnTab := (fxnTab obj)[i := Some (tab[j := e])] \<rparr>"

lemma put_elem_ok:
  assumes "tables_ok obj" "i \<in> {1..<RCMSERVER_MAX_TABLES}" "table_ok i (Some tab)" "elem_ok e"
  shows "tables_ok (put_elem i j tab e obj)"
  using assms table_ok_update [OF assms(3,4), of j]
  by (auto simp: tables_ok_def put_elem_def nth_list_update)

lemma next_key_ok: "tables_ok obj \<Longrightarrow> tables_ok (snd (getNextKey obj))"
  using getNextKey_range [of obj] by (simp add: tables_ok_def getNextKey_def Let_def)

lemma add_to_tables_cases:
  assumes ok: "tables_ok obj" and a: "addr \<noteq> 0" and r: "add_to_tables tab_ok name_ok obj nm addr = (st, idx, obj')"
  obtains (stored) i j tab where "st = RcmServer_S_SUCCESS" "name_ok" "i \<in> {1..<RCMSERVER_MAX_TABLES}" "j < table_size i"
      "fxnTab obj ! i = Some tab \<or> fxnTab obj ! i = None \<and> tab = replicate (table_size i) free_elem"
      "table_ok i (Some tab)" "tab ! j = free_elem" "idx = fxn_index (fst (getNextKey obj)) i j"
      "obj' = put_elem i j tab \<lparr> fxn_name = Some nm, fxn_addr = addr, fxn_key = fst (getNextKey obj) \<rparr> (snd (getNextKey obj))"
    | (unnamed) i j tab where "st = RcmServer_E_NOMEMORY" "\<not> name_ok" "i \<in> {1..<RCMSERVER_MAX_TABLES}" "j < table_size i"
      "fxnTab obj ! i = Some tab \<or> fxnTab obj ! i = None \<and> tab = replicate (table_size i) free_elem"
      "table_ok i (Some tab)" "tab ! j = free_elem"
      "obj' = put_elem i j tab \<lparr> fxn_name = None, fxn_addr = addr, fxn_key = 0 \<rparr> obj"
    | (no_table) "st = RcmServer_E_NOMEMORY" "obj' = obj"
    | (full) "st = RcmServer_E_SYMBOLTABLEFULL" "obj' = obj"
      "\<And>i. i \<in> {1..<RCMSERVER_MAX_TABLES} \<Longrightarrow> \<exists>tab. fxnTab obj ! i = Some tab \<and> (\<forall>j < table_size i. fxn_addr (tab ! j) \<noteq> 0)"
proof -
  obtain st0 sl tabs where f: "find_slot tab_ok [1..<RCMSERVER_MAX_TABLES] (fxnTab obj) = (st0, sl, tabs)"
    by (cases "find_slot tab_ok [1..<RCMSERVER_MAX_TABLES] (fxnTab obj)") auto
  have len: "length (fxnTab obj) = RCMSERVER_MAX_TABLES" and t: "\<forall>i \<in> set [1..<RCMSERVER_MAX_TABLES]. table_ok i (fxnTab obj ! i)"
    using ok by (auto simp: tables_ok_def)
  from find_slot_cases [OF f t]
  consider (slot) i j tab where "sl = Some (i, j)" "i \<in> set [1..<RCMSERVER_MAX_TABLES]" "j < table_size i"
      "st0 = RcmServer_S_SUCCESS" "tabs = (fxnTab obj)[i := Some tab]" "table_ok i (Some tab)" "tab ! j = free_elem"
      "fxnTab obj ! i = Some tab \<or> fxnTab obj ! i = None \<and> tab = replicate (table_size i) free_elem"
    | (memory) "sl = None" "tabs = fxnTab obj" "st0 = RcmServer_E_NOMEMORY"
    | (none) "sl = None" "tabs = fxnTab obj" "st0 = RcmServer_S_SUCCESS"
      "\<forall>i \<in> set [1..<RCMSERVER_MAX_TABLES]. \<exists>tab. fxnTab obj ! i = Some tab \<and> (\<forall>j < table_size i. fxn_addr (tab ! j) \<noteq> 0)"
    by blast
  then show thesis
  proof cases
    case s: (slot i j tab)
    have i: "i < length (fxnTab obj)" and l: "j < length tab" using s len by (auto simp: table_ok_def)
    show thesis
    proof (cases name_ok)
      case True
      with r f s i l have "st = RcmServer_S_SUCCESS" "idx = fxn_index (fst (getNextKey obj)) i j"
        "obj' = put_elem i j tab \<lparr> fxn_name = Some nm, fxn_addr = addr, fxn_key = fst (getNextKey obj) \<rparr> (snd (getNextKey obj))"
        by (auto simp: add_to_tables_def getNextKey_def set_slot_def put_elem_def Let_def free_elem_def rcm_codes)
      with True s show thesis by (intro stored [of i j tab]) auto
    next
      case False
      with r f s i l have "st = RcmServer_E_NOMEMORY"
        "obj' = put_elem i j tab \<lparr> fxn_name = None, fxn_addr = addr, fxn_key = 0 \<rparr> obj"
        by (auto simp: add_to_tables_def set_slot_def put_elem_def Let_def free_elem_def rcm_codes)
      with False s show thesis by (intro unnamed [of i j tab]) auto
    qed
  next
    case memory
    with r f show thesis by (intro no_table) (auto simp: add_to_tables_def Let_def rcm_codes)
  next
    case none
    with r f show thesis by (intro full) (auto simp: add_to_tables_def Let_def rcm_codes)
  qed
qed

lemma issued_key: "tables_ok obj \<Longrightarrow> fst (getNextKey obj) \<noteq> 0 \<and> fst (getNextKey obj) \<le> RCM_KeyResetValue"
  using getNextKey_range by (simp add: tables_ok_def)

lemma add_to_tables_ok:
  assumes "tables_ok obj" "addr \<noteq> 0" "add_to_tables tab_ok name_ok obj nm addr = (st, idx, obj')"
  shows "tables_ok obj'"
proof (cases rule: add_to_tables_cases [OF assms, case_names stored unnamed no_table full])
  case (stored i j tab)
  then show ?thesis
    using issued_key [OF assms(1)] assms(1,2)
    by (auto intro!: put_elem_ok next_key_ok simp: elem_ok_def)
next
  case (unnamed i j tab)
  then show ?thesis
    using assms(1,2) by (auto intro!: put_elem_ok simp: elem_ok_def)
qed (use assms(1) in auto)

section \<open>Looking an index up\<close>

lemma getFxnAddr_dynamic:
  assumes ok: "tables_ok obj" and i: "i \<in> {1..<RCMSERVER_MAX_TABLES}" and t: "fxnTab obj ! i = Some tab"
    and j: "j < table_size i" and k: "k \<le> RCM_KeyResetValue"
  shows "getFxnAddr obj (fxn_index k i j) =
    Inr (if k = fxn_key (tab ! j) then (RcmServer_S_SUCCESS, Some (fxn_addr (tab ! j))) else (RcmServer_E_InvalidFxnIdx, None))"
proof -
  have b: "i < 16" "j < 2 ^ 12" using i j table_size_bound [of i] by (auto simp: RCMSERVER_MAX_TABLES_def)
  have "length tab = table_size i" using ok i t by (auto simp: tables_ok_def table_ok_def)
  then show ?thesis
    using i t j by (auto simp: getFxnAddr_def index_parts [OF k b])
qed

lemma nth_update_in: "n < length xs \<Longrightarrow> xs[j := e] ! n = (if j = n then e else xs ! n)"
  by (cases "j = n") auto

lemma getFxnAddr_put_outside:
  assumes "0 < i" and "\<not> (idx AND 0x80000000 = 0 \<and> index_table idx = i)"
  shows "getFxnAddr (put_elem i j tab e obj) idx = getFxnAddr obj idx"
  using assms by (cases "idx AND 0x80000000 = 0") (simp_all add: getFxnAddr_def put_elem_def Let_def)

lemma getFxnAddr_put_other:
  assumes ok: "tables_ok obj" and i: "i \<in> {1..<RCMSERVER_MAX_TABLES}" and t: "fxnTab obj ! i = Some tab"
    and o: "\<not> (idx AND 0x80000000 = 0 \<and> index_table idx = i \<and> index_offset idx = j)"
  shows "getFxnAddr (put_elem i j tab e obj) idx = getFxnAddr obj idx"
proof (cases "idx AND 0x80000000 = 0 \<and> index_table idx = i")
  case False
  with i show ?thesis by (intro getFxnAddr_put_outside) auto
next
  case True
  moreover have "i < length (fxnTab obj)" using ok i by (auto simp: tables_ok_def)
  ultimately show ?thesis
    using t o i by (simp add: getFxnAddr_def put_elem_def Let_def nth_update_in)
qed

lemma getFxnAddr_put_free:
  assumes ok: "tables_ok obj" and i: "i \<in> {1..<RCMSERVER_MAX_TABLES}"
    and t: "fxnTab obj ! i = Some tab \<or> fxnTab obj ! i = None" and f: "tab ! j = free_elem"
    and r: "getFxnAddr obj idx = Inr (RcmServer_S_SUCCESS, Some a)" "a \<noteq> 0"
  shows "getFxnAddr (put_elem i j tab e obj) idx = Inr (RcmServer_S_SUCCESS, Some a)"
proof -
  have i: "i < length (fxnTab obj)" "0 < i" using ok i by (auto simp: tables_ok_def)
  show ?thesis
  proof (cases "idx AND 0x80000000 = 0 \<and> index_table idx = i")
    case False
    with i r show ?thesis by (simp add: getFxnAddr_put_outside)
  next
    case True
    with r t i have "fxnTab obj ! i = Some tab" "index_offset idx < length tab" "index_key idx = fxn_key (tab ! index_offset idx)"
      "a = fxn_addr (tab ! index_offset idx)" "i < RCMSERVER_MAX_TABLES"
      by (auto simp: getFxnAddr_def Let_def split: if_splits)
    moreover from this f r(2) have "index_offset idx \<noteq> j" by (auto simp: free_elem_def)
    ultimately show ?thesis
      using True i by (simp add: getFxnAddr_def put_elem_def Let_def nth_update_in)
  qed
qed

lemma getFxnAddr_next_key [simp]: "getFxnAddr (snd (getNextKey obj)) idx = getFxnAddr obj idx"
  by (simp add: getFxnAddr_def getNextKey_def Let_def)

lemma tab_next_key [simp]:
  "fxnTab (snd (getNextKey obj)) = fxnTab obj" "static_length (snd (getNextKey obj)) = static_length obj"
  by (simp_all add: getNextKey_def Let_def)

section \<open>Looking a name up\<close>

definition has_name :: "RcmServer_Object \<Rightarrow> string \<Rightarrow> bool" where
  "has_name obj nm \<longleftrightarrow>
     (\<exists>t \<in> set (fxnTab obj). \<exists>e \<in> (case t of None \<Rightarrow> {} | Some tab \<Rightarrow> set tab). fxn_name e = Some nm)"

lemma find_no_name:
  "\<forall>e \<in> set tab. fxn_name e \<noteq> Some nm \<Longrightarrow> len = length tab \<Longrightarrow> find (\<lambda>j. fxn_name (tab ! j) = Some nm) [0..<len] = None"
  by (auto simp: find_None_iff)

lemma find_put_name:
  assumes "\<forall>e \<in> set tab. fxn_name e \<noteq> Some nm" "j < length tab" "fxn_name e = Some nm"
  shows "find (\<lambda>n. fxn_name (tab[j := e] ! n) = Some nm) [0..<length tab] = Some j"
proof -
  have "(fxn_name (tab[j := e] ! n) = Some nm) = (n = j)" if "n < length tab" for n
    using that assms by (auto simp: nth_list_update)
  then have "find (\<lambda>n. fxn_name (tab[j := e] ! n) = Some nm) [0..<length tab] = find (\<lambda>n. n = j) [0..<length tab]"
    by (intro find_cong) auto
  also have "\<dots> = Some j" using assms(2) by (simp add: find_Some_iff) (metis (no_types) add_0 less_trans nth_upt order_less_irrefl)
  finally show ?thesis .
qed

lemma dynamic_table:
  "tables_ok obj \<Longrightarrow> i \<in> {1..<RCMSERVER_MAX_TABLES} \<Longrightarrow> fxnTab obj ! i = Some tab \<Longrightarrow>
   length tab = table_size i \<and> (\<forall>e \<in> set tab. elem_ok e)"
  unfolding tables_ok_def table_ok_def by blast

lemma fxn_index_not_none:
  "k \<le> RCM_KeyResetValue \<Longrightarrow> i < 16 \<Longrightarrow> j < 2 ^ 12 \<Longrightarrow> fxn_index k i j \<noteq> 0xFFFFFFFF"
  using index_parts(1) [of k i j] by auto

lemma search_put_name:
  assumes ok: "tables_ok obj" and n: "\<not> has_name obj nm" and i: "i \<in> {1..<RCMSERVER_MAX_TABLES}" "i \<in> set is"
    and is_: "set is \<subseteq> {0..<RCMSERVER_MAX_TABLES}"
    and t: "fxnTab obj ! i = Some tab \<or> fxnTab obj ! i = None \<and> tab = replicate (table_size i) free_elem"
    and j: "j < table_size i" and e: "fxn_name e = Some nm" "fxn_key e \<le> RCM_KeyResetValue"
  shows "search_tables (put_elem i j tab e obj) nm is = fxn_index (fxn_key e) i j"
  using i(2) is_
proof (induction "is")
  case (Cons h hs)
  have len: "length (fxnTab obj) = 8" "static_length obj = (case fxnTab obj ! 0 of None \<Rightarrow> 0 | Some tab \<Rightarrow> length tab)"
    using ok by (auto simp: tables_ok_def RCMSERVER_MAX_TABLES_def)
  have h: "h < 8" "h < RCMSERVER_MAX_TABLES" using Cons.prems by (auto simp: RCMSERVER_MAX_TABLES_def)
  show ?case
  proof (cases "h = i")
    case True
    have "\<forall>e \<in> set tab. fxn_name e \<noteq> Some nm"
      using t n h len True nth_mem [of i "fxnTab obj"] by (fastforce simp: has_name_def free_elem_def)
    moreover have l: "length tab = table_size i"
      using t ok i by (auto simp: tables_ok_def table_ok_def)
    ultimately have "find (\<lambda>n. fxn_name (tab[j := e] ! n) = Some nm) [0..<table_size i] = Some j"
      using find_put_name [of tab nm j e] j e by simp
    moreover have "fxn_index (fxn_key e) i j \<noteq> 0xFFFFFFFF"
      using fxn_index_not_none [OF e(2), of i j] i j table_size_bound [of i] by (auto simp: RCMSERVER_MAX_TABLES_def)
    ultimately show ?thesis
      using True i len h l j by (auto simp: put_elem_def Let_def)
  next
    case False
    have "search_tables (put_elem i j tab e obj) nm (h # hs) = search_tables (put_elem i j tab e obj) nm hs"
    proof (cases "fxnTab obj ! h")
      case None
      with False show ?thesis by (simp add: put_elem_def)
    next
      case (Some tb)
      have "\<forall>e \<in> set tb. fxn_name e \<noteq> Some nm"
        using Some n h len nth_mem [of h "fxnTab obj"] by (fastforce simp: has_name_def)
      moreover have "(if h = 0 then static_length obj else table_size h) = length tb"
        using Some len(2) dynamic_table [OF ok, of h tb] h(2) by (cases "h = 0") simp_all
      ultimately have "find (\<lambda>j. fxn_name (tb ! j) = Some nm) [0..<if h = 0 then static_length obj else table_size h] = None"
        by (intro find_no_name) auto
      with Some False show ?thesis by (cases "h = 0") (simp_all add: put_elem_def Let_def)
    qed
    with Cons False show ?thesis by auto
  qed
qed simp

lemma search_tables_cases:
  assumes ok: "tables_ok obj" and r: "search_tables obj nm is = idx" "idx \<noteq> 0xFFFFFFFF" "idx AND 0x80000000 = 0"
    and is_: "set is \<subseteq> {0..<RCMSERVER_MAX_TABLES}"
  shows "\<exists>i j tab. i \<in> {1..<RCMSERVER_MAX_TABLES} \<and> fxnTab obj ! i = Some tab \<and> j < table_size i \<and>
    fxn_name (tab ! j) = Some nm \<and> idx = fxn_index (fxn_key (tab ! j)) i j"
  using r(1) is_
proof (induction "is")
  case Nil
  with r(2) show ?case by simp
next
  case (Cons h hs)
  show ?case
  proof (cases "search_tables obj nm hs = idx")
    case True
    with Cons show ?thesis by auto
  next
    case False
    with Cons.prems(1) r(2) obtain tab j where f: "fxnTab obj ! h = Some tab"
      "find (\<lambda>j. fxn_name (tab ! j) = Some nm) [0..<if h = 0 then static_length obj else table_size h] = Some j"
      "idx = (if h = 0 then 0x80000000 OR word_of_nat j else fxn_index (fxn_key (tab ! j)) h j)"
      by (auto simp: Let_def split: option.splits if_splits)
    have "h \<noteq> 0"
    proof
      assume "h = 0"
      with f(3) have "idx AND 0x80000000 = 0x80000000" by (simp add: bit.conj_disj_distrib2 word_bw_comms)
      with r(3) show False by simp
    qed
    moreover have "j < table_size h" "fxn_name (tab ! j) = Some nm"
      using f(2) calculation by (auto simp: find_Some_iff)
    ultimately show ?thesis
      using f Cons.prems(2) by (intro exI [of _ h] exI [of _ j] exI [of _ tab]) auto
  qed
qed

lemma getSymIdx_dynamic:
  assumes ok: "tables_ok obj" and r: "getSymIdx obj nm = (st, Some idx)" "idx AND 0x80000000 = 0"
  obtains i j tab where "i \<in> {1..<RCMSERVER_MAX_TABLES}" "fxnTab obj ! i = Some tab" "j < table_size i"
    "fxn_name (tab ! j) = Some nm" "idx = fxn_index (fxn_key (tab ! j)) i j"
    "fxn_key (tab ! j) \<le> RCM_KeyResetValue" "fxn_key (tab ! j) \<noteq> 0" "st = RcmServer_S_SUCCESS"
proof -
  have s: "search_tables obj nm [0..<RCMSERVER_MAX_TABLES] = idx" "idx \<noteq> 0xFFFFFFFF" "st = RcmServer_S_SUCCESS"
    using r(1) by (auto simp: getSymIdx_def Let_def split: if_splits)
  obtain i j tab where f: "i \<in> {1..<RCMSERVER_MAX_TABLES}" "fxnTab obj ! i = Some tab" "j < table_size i"
    "fxn_name (tab ! j) = Some nm" "idx = fxn_index (fxn_key (tab ! j)) i j"
    using search_tables_cases [OF ok s(1,2) r(2)] by auto
  have "elem_ok (tab ! j)" using dynamic_table [OF ok f(1,2)] f(3) by auto
  with f s(3) show thesis by (intro that [of i tab j]) (auto simp: elem_ok_def)
qed

text \<open>The offsets in the two index layouts are within the masks of the code.\<close>

lemma slot_masks:
  assumes "i \<in> {1..<RCMSERVER_MAX_TABLES}" "j < table_size i"
  shows "i < 16" "j < 2 ^ 12"
  using assms table_size_bound [of i] by (auto simp: RCMSERVER_MAX_TABLES_def)

section \<open>Properties\<close>

lemma symbol_added:
  assumes ok: "tables_ok obj"
    and r: "RcmServer_addSymbol refs tab_ok name_ok (Some obj) (Some nm) addr (Some old) = (RcmServer_S_SUCCESS, Some idx, Some obj')"
  shows "tables_ok obj' \<and> idx AND 0x80000000 = 0 \<and> index_key idx \<noteq> 0 \<and>
    getFxnAddr obj' idx = Inr (RcmServer_S_SUCCESS, Some addr) \<and>
    (\<not> has_name obj nm \<longrightarrow> getSymIdx obj' nm = (RcmServer_S_SUCCESS, Some idx)) \<and>
    (\<forall>other a. getFxnAddr obj other = Inr (RcmServer_S_SUCCESS, Some a) \<longrightarrow> a \<noteq> 0 \<longrightarrow>
       getFxnAddr obj' other = Inr (RcmServer_S_SUCCESS, Some a))"
proof -
  have a: "addr \<noteq> 0" and add: "add_to_tables tab_ok name_ok obj nm addr = (RcmServer_S_SUCCESS, idx, obj')"
    using r by (auto simp: RcmServer_addSymbol_def rcm_codes split: prod.splits if_splits)
  from add show ?thesis
  proof (cases rule: add_to_tables_cases [OF ok a add, case_names stored unnamed no_table full])
    case (stored i j tab)
    let ?k = "fst (getNextKey obj)" and ?o = "snd (getNextKey obj)"
    let ?e = "\<lparr> fxn_name = Some nm, fxn_addr = addr, fxn_key = ?k \<rparr>"
    have k: "?k \<noteq> 0" "?k \<le> RCM_KeyResetValue" using issued_key [OF ok] by auto
    have ok': "tables_ok obj'" using add_to_tables_ok [OF ok a add] .
    note m = slot_masks [OF stored(3,4)]
    have t: "fxnTab obj' ! i = Some (tab[j := ?e])" "tab[j := ?e] ! j = ?e"
      using stored ok by (auto simp: put_elem_def tables_ok_def table_ok_def)
    have "getFxnAddr obj' idx = Inr (RcmServer_S_SUCCESS, Some addr)"
      using getFxnAddr_dynamic [OF ok' stored(3) t(1) stored(4) k(2)] t(2) stored(8) by simp
    moreover have "getSymIdx obj' nm = (RcmServer_S_SUCCESS, Some idx)" if n: "\<not> has_name obj nm"
    proof -
      have "search_tables obj' nm [0..<RCMSERVER_MAX_TABLES] = idx"
        using search_put_name [of ?o nm i "[0..<RCMSERVER_MAX_TABLES]" tab j ?e] stored n k next_key_ok [OF ok]
        by (auto simp: has_name_def)
      then show ?thesis
        using fxn_index_not_none [OF k(2) m] stored(8) by (simp add: getSymIdx_def)
    qed
    moreover have "getFxnAddr obj' other = Inr (RcmServer_S_SUCCESS, Some b)"
      if "getFxnAddr obj other = Inr (RcmServer_S_SUCCESS, Some b)" "b \<noteq> 0" for other b
      using getFxnAddr_put_free [OF next_key_ok [OF ok] stored(3), of tab j other b ?e] that stored by auto
    moreover have "idx AND 0x80000000 = 0" "index_key idx \<noteq> 0"
      using stored(8) index_parts [OF k(2) m] k(1) by auto
    ultimately show ?thesis using ok' by blast
  qed (simp_all add: rcm_codes)
qed

text \<open>C14: A symbol that was added resolves: the index returned is a dynamic one (bit 31 clear) with a key that is
  not 0, and looking it up gives the address that was registered; looking up the name, if no other slot had it, gives
  the index. Every index that resolved to a function before still resolves to the same one, and the tables stay
  well formed.\<close>

theorem addSymbol_resolves:
  assumes ok: "tables_ok obj"
    and r: "RcmServer_addSymbol refs tab_ok name_ok (Some obj) (Some nm) addr (Some old) = (RcmServer_S_SUCCESS, Some idx, Some obj')"
  shows "tables_ok obj' \<and> idx AND 0x80000000 = 0 \<and> index_key idx \<noteq> 0 \<and>
    getFxnAddr obj' idx = Inr (RcmServer_S_SUCCESS, Some addr) \<and>
    (\<not> has_name obj nm \<longrightarrow> getSymIdx obj' nm = (RcmServer_S_SUCCESS, Some idx)) \<and>
    (\<forall>other a. getFxnAddr obj other = Inr (RcmServer_S_SUCCESS, Some a) \<longrightarrow> a \<noteq> 0 \<longrightarrow>
       getFxnAddr obj' other = Inr (RcmServer_S_SUCCESS, Some a))"
  by (rule symbol_added [OF assms])

text \<open>A server object as \<open>_RcmServer_Instance_init\<close> leaves it when no static functions are given.\<close>

definition fresh_server :: RcmServer_Object where
  "fresh_server = \<lparr> static_length = 0, fxnTab = replicate 8 None, next_key = 0, last_jobId = 0xFFFF, shutdown = False,
     poolMap0 = [\<lparr> count = 0, sem = 0, readyQueue = [] \<rparr>], jobList = [] \<rparr>"

lemma fresh_server_ok: "tables_ok fresh_server"
  by (auto simp: tables_ok_def table_ok_def fresh_server_def RCMSERVER_MAX_TABLES_def)

definition one_symbol :: RcmServer_Object where
  "one_symbol = fresh_server \<lparr> fxnTab := [None, Some (\<lparr> fxn_name = Some ''f'', fxn_addr = 64, fxn_key = 0x7FF \<rparr> # replicate 31 free_elem),
      None, None, None, None, None, None], next_key := 0x7FF \<rparr>"

lemma add_first_symbol:
  "RcmServer_addSymbol 1 (\<lambda>_. True) True (Some fresh_server) (Some ''f'') 64 (Some 0) =
     (RcmServer_S_SUCCESS, Some 0x7FF01000, Some one_symbol)"
  by code_simp

theorem addSymbol_resolves_witness:
  "tables_ok one_symbol \<and> getFxnAddr one_symbol 0x7FF01000 = Inr (RcmServer_S_SUCCESS, Some 64)"
  using addSymbol_resolves [OF fresh_server_ok add_first_symbol] by blast

text \<open>Removing a symbol that was added withdraws its index: the index that the name had is refused afterwards,
  every index of another slot is answered as before, and the tables stay well formed.\<close>

theorem removeSymbol_withdraws:
  assumes ok: "tables_ok obj" and s: "getSymIdx obj nm = (st, Some idx)" "idx AND 0x80000000 = 0" and refs: "refs \<noteq> 0"
  shows "\<exists>obj'. RcmServer_removeSymbol refs (Some obj) (Some nm) = Inr (RcmServer_S_SUCCESS, Some obj') \<and> tables_ok obj' \<and>
    getFxnAddr obj' idx = Inr (RcmServer_E_InvalidFxnIdx, None) \<and>
    (\<forall>other. other AND 0x80000000 \<noteq> 0 \<or> index_table other \<noteq> index_table idx \<or> index_offset other \<noteq> index_offset idx \<longrightarrow>
       getFxnAddr obj' other = getFxnAddr obj other)"
proof -
  obtain i j tab where d: "i \<in> {1..<RCMSERVER_MAX_TABLES}" "fxnTab obj ! i = Some tab" "j < table_size i"
    "fxn_name (tab ! j) = Some nm" "idx = fxn_index (fxn_key (tab ! j)) i j"
    "fxn_key (tab ! j) \<le> RCM_KeyResetValue" "fxn_key (tab ! j) \<noteq> 0" "st = RcmServer_S_SUCCESS"
    by (rule getSymIdx_dynamic [OF ok s])
  note m = slot_masks [OF d(1,3)] and parts = index_parts [OF d(6) slot_masks [OF d(1,3)]]
  have l: "length tab = table_size i" "table_ok i (Some tab)" "length (fxnTab obj) = RCMSERVER_MAX_TABLES"
    using dynamic_table [OF ok d(1,2)] ok by (auto simp: table_ok_def tables_ok_def)
  let ?obj = "put_elem i j tab free_elem obj"
  have r: "RcmServer_removeSymbol refs (Some obj) (Some nm) = Inr (RcmServer_S_SUCCESS, Some ?obj)"
    using refs s d l parts by (simp add: RcmServer_removeSymbol_def set_slot_def put_elem_def)
  have ok': "tables_ok ?obj" using put_elem_ok [OF ok d(1) l(2)] by simp
  have t: "fxnTab ?obj ! i = Some (tab[j := free_elem])" "tab[j := free_elem] ! j = free_elem"
    using d l by (auto simp: put_elem_def)
  have "getFxnAddr ?obj idx = Inr (RcmServer_E_InvalidFxnIdx, None)"
    using getFxnAddr_dynamic [OF ok' d(1) t(1) d(3) d(6)] t(2) d(5,7) by (simp add: free_elem_def)
  moreover have "getFxnAddr ?obj other = getFxnAddr obj other"
    if "other AND 0x80000000 \<noteq> 0 \<or> index_table other \<noteq> index_table idx \<or> index_offset other \<noteq> index_offset idx" for other
    using that parts d(5) by (intro getFxnAddr_put_other [OF ok d(1,2)]) auto
  ultimately show ?thesis using r ok' by blast
qed

lemma one_symbol_ok: "tables_ok one_symbol"
  using symbol_added [OF fresh_server_ok add_first_symbol] by blast

theorem removeSymbol_withdraws_witness:
  "\<exists>obj'. RcmServer_removeSymbol 1 (Some one_symbol) (Some ''f'') = Inr (RcmServer_S_SUCCESS, Some obj') \<and>
     getFxnAddr obj' 0x7FF01000 = Inr (RcmServer_E_InvalidFxnIdx, None)"
proof -
  have "getSymIdx one_symbol ''f'' = (RcmServer_S_SUCCESS, Some 0x7FF01000)" "(0x7FF01000 :: u32) AND 0x80000000 = 0"
    by code_simp+
  from removeSymbol_withdraws [OF one_symbol_ok this, of 1] show ?thesis by auto
qed

subsection \<open>Indices over a long run\<close>

datatype symbol_call = AddSym "nat \<Rightarrow> bool" bool string u32 | RemoveSym string

fun symbol_step :: "symbol_call \<Rightarrow> RcmServer_Object \<Rightarrow> RcmServer_Object" where
  "symbol_step (AddSym tab_ok name_ok nm addr) obj =
     the (snd (snd (RcmServer_addSymbol 1 tab_ok name_ok (Some obj) (Some nm) addr (Some 0))))"
| "symbol_step (RemoveSym nm) obj =
     (case RcmServer_removeSymbol 1 (Some obj) (Some nm) of Inl _ \<Rightarrow> obj | Inr (_, h) \<Rightarrow> the h)"

fun is_add :: "symbol_call \<Rightarrow> bool" where
  "is_add (AddSym _ _ _ _) = True"
| "is_add (RemoveSym _) = False"

text \<open>The keys come back after 2047 of them.\<close>

definition key_after :: "nat \<Rightarrow> nat \<Rightarrow> nat" where
  "key_after k m = (k - 1 + 2046 * m) mod 2047 + 1"

lemma key_after_distinct:
  assumes "1 \<le> k" "k \<le> 2047" "0 < m" "m < 2047"
  shows "key_after k m \<noteq> k"
proof
  assume "key_after k m = k"
  then have "(k - 1 + 2046 * m) mod 2047 = (k - 1) mod 2047" using assms by (simp add: key_after_def)
  then have "2047 dvd (k - 1 + 2046 * m) - (k - 1)" using mod_eq_dvd_iff_nat by fastforce
  then have "2047 dvd 2046 * m" by simp
  moreover have "coprime (2047 :: nat) 2046" by code_simp
  ultimately have "2047 dvd m" using coprime_dvd_mult_right_iff by blast
  then show False using assms by (auto dest: dvd_imp_le)
qed

lemma key_after_Suc:
  assumes "next_key obj \<noteq> 0" "next_key obj \<le> RCM_KeyResetValue" "unat (next_key obj) = key_after k m"
  shows "unat (fst (getNextKey obj)) = key_after k (Suc m)"
proof -
  have "unat (fst (getNextKey obj)) = (if unat (next_key obj) \<le> 1 then 2047 else unat (next_key obj) - 1)"
    using assms(1) by (simp add: getNextKey_def Let_def RCM_KeyResetValue_def word_le_nat_alt unat_minus_one)
  moreover have "key_after k (Suc m) = (if key_after k m \<le> 1 then 2047 else key_after k m - 1)"
  proof -
    let ?x = "(k - 1 + 2046 * m) mod 2047"
    have "(k - 1 + 2046 * Suc m) mod 2047 = (?x + 2046) mod 2047" by (simp add: mod_simps ac_simps)
    also have "\<dots> = (if ?x = 0 then 2046 else ?x - 1)"
    proof (cases "?x = 0")
      case False
      then have "(?x + 2046) mod 2047 = (?x - 1 + 2047) mod 2047" by (intro arg_cong [of _ _ "\<lambda>z. z mod 2047"]) arith
      also have "\<dots> = ?x - 1" by (simp add: less_imp_diff_less)
      finally show ?thesis using False by simp
    qed simp
    finally show ?thesis by (simp add: key_after_def)
  qed
  ultimately show ?thesis using assms(3) by simp
qed

text \<open>What a slot of the run can hold: the function of the index, or an element with another key.\<close>

definition slot_held :: "nat \<Rightarrow> nat \<Rightarrow> u16 \<Rightarrow> u32 \<Rightarrow> RcmServer_Object \<Rightarrow> bool" where
  "slot_held i j k addr obj \<longleftrightarrow>
     (\<exists>tab. fxnTab obj ! i = Some tab \<and> (fxn_key (tab ! j) = k \<longrightarrow> fxn_addr (tab ! j) = addr))"

definition key_count :: "u16 \<Rightarrow> nat \<Rightarrow> RcmServer_Object \<Rightarrow> bool" where
  "key_count k n obj \<longleftrightarrow> next_key obj \<noteq> 0 \<and> (\<exists>m \<le> n. unat (next_key obj) = key_after (unat k) m)"

lemma slot_held_put:
  assumes "tables_ok obj" "slot_held i j k addr obj" "i2 \<in> {1..<RCMSERVER_MAX_TABLES}" "j2 < table_size i2"
    "fxnTab obj ! i2 = Some tab \<or> fxnTab obj ! i2 = None" "table_ok i2 (Some tab)"
    "fxn_key e \<noteq> k"
  shows "slot_held i j k addr (put_elem i2 j2 tab e obj)"
proof -
  have "i2 < length (fxnTab obj)" "j2 < length tab" using assms by (auto simp: tables_ok_def table_ok_def)
  with assms(2,5,7) show ?thesis
    by (cases "i = i2"; cases "j = j2") (auto simp: slot_held_def put_elem_def nth_list_update)
qed

lemma AddSym_unfold:
  "addr \<noteq> 0 \<Longrightarrow> symbol_step (AddSym tab_ok name_ok nm addr) obj = snd (snd (add_to_tables tab_ok name_ok obj nm addr))"
  "addr = 0 \<Longrightarrow> symbol_step (AddSym tab_ok name_ok nm addr) obj = obj"
  by (simp_all add: RcmServer_addSymbol_def split_def)

lemma RemoveSym_unfold:
  assumes ok: "tables_ok obj"
  shows "symbol_step (RemoveSym nm) obj = obj \<or>
    (\<exists>i j tab. i \<in> {1..<RCMSERVER_MAX_TABLES} \<and> fxnTab obj ! i = Some tab \<and> j < table_size i \<and> table_ok i (Some tab) \<and>
       symbol_step (RemoveSym nm) obj = put_elem i j tab free_elem obj)"
proof (cases "\<exists>st idx. getSymIdx obj nm = (st, Some idx) \<and> idx AND 0x80000000 = 0")
  case True
  then obtain st idx where s: "getSymIdx obj nm = (st, Some idx)" "idx AND 0x80000000 = 0" by blast
  obtain i j tab where d: "i \<in> {1..<RCMSERVER_MAX_TABLES}" "fxnTab obj ! i = Some tab" "j < table_size i"
    "fxn_name (tab ! j) = Some nm" "idx = fxn_index (fxn_key (tab ! j)) i j"
    "fxn_key (tab ! j) \<le> RCM_KeyResetValue" "fxn_key (tab ! j) \<noteq> 0" "st = RcmServer_S_SUCCESS"
    by (rule getSymIdx_dynamic [OF ok s])
  have "length tab = table_size i" "table_ok i (Some tab)" "length (fxnTab obj) = RCMSERVER_MAX_TABLES"
    using dynamic_table [OF ok d(1,2)] ok by (auto simp: table_ok_def tables_ok_def)
  then have "symbol_step (RemoveSym nm) obj = put_elem i j tab free_elem obj"
    using s d index_parts [OF d(6) slot_masks [OF d(1,3)]]
    by (simp add: RcmServer_removeSymbol_def set_slot_def put_elem_def)
  with d \<open>table_ok i (Some tab)\<close> show ?thesis by blast
next
  case False
  then show ?thesis
    by (cases "getSymIdx obj nm"; cases "snd (getSymIdx obj nm)") (auto simp: RcmServer_removeSymbol_def)
qed

lemma symbol_step_ok:
  assumes ok: "tables_ok obj"
  shows "tables_ok (symbol_step c obj)"
proof (cases c)
  case (AddSym tab_ok name_ok nm a)
  then show ?thesis
    using ok add_to_tables_ok [OF ok, of a tab_ok name_ok nm]
    by (cases "a = 0"; cases "add_to_tables tab_ok name_ok obj nm a") (simp_all add: AddSym_unfold del: symbol_step.simps)
next
  case (RemoveSym nm)
  with RemoveSym_unfold [OF ok, of nm] ok put_elem_ok [OF ok] show ?thesis by (auto simp del: symbol_step.simps)
qed

text \<open>The function tables stay well formed through every sequence of additions and removals, whatever allocations fail:
  each dynamic table that exists has its size, keys stay within 11 bits, a free slot has no name and no key, and a slot
  with a name has a key other than 0.\<close>

theorem tables_stay_well_formed:
  assumes "tables_ok obj"
  shows "tables_ok (fold symbol_step cs obj)"
  using assms by (induction cs arbitrary: obj) (simp_all add: symbol_step_ok)

theorem tables_stay_well_formed_witness:
  "tables_ok (fold symbol_step [AddSym (\<lambda>_. True) True ''f'' 64, AddSym (\<lambda>_. True) False ''g'' 72, RemoveSym ''f''] fresh_server)"
  by (rule tables_stay_well_formed [OF fresh_server_ok])

lemma key_count_mono: "key_count k m obj \<Longrightarrow> m \<le> n \<Longrightarrow> key_count k n obj"
  unfolding key_count_def by (meson order_trans)

lemma symbol_step_held:
  assumes ok: "tables_ok obj" and h: "slot_held i j k addr obj" and c: "key_count k n obj"
    and k: "k \<noteq> 0" "k \<le> RCM_KeyResetValue" and n: "n + (if is_add c then 1 else 0) \<le> 2046"
  shows "tables_ok (symbol_step c obj) \<and> slot_held i j k addr (symbol_step c obj) \<and>
    key_count k (n + (if is_add c then 1 else 0)) (symbol_step c obj)"
proof (cases c)
  case (RemoveSym nm)
  have kc: "key_count k n (put_elem i2 j2 tab e obj)" for i2 j2 tab e
    using c by (simp add: key_count_def put_elem_def)
  have e: "fxn_key free_elem \<noteq> k" using k by (simp add: free_elem_def)
  from RemoveSym_unfold [OF ok, of nm] show ?thesis
  proof (elim disjE exE conjE)
    assume "symbol_step (RemoveSym nm) obj = obj"
    with ok h c RemoveSym show ?thesis by (simp del: symbol_step.simps)
  next
    fix i2 j2 tab
    assume s: "i2 \<in> {1..<RCMSERVER_MAX_TABLES}" "fxnTab obj ! i2 = Some tab" "j2 < table_size i2" "table_ok i2 (Some tab)"
      "symbol_step (RemoveSym nm) obj = put_elem i2 j2 tab free_elem obj"
    have "slot_held i j k addr (put_elem i2 j2 tab free_elem obj)"
      using slot_held_put [OF ok h s(1,3) _ s(4) e] s(2) by simp
    with s kc put_elem_ok [OF ok s(1,4) free_elem_ok] RemoveSym show ?thesis by (simp del: symbol_step.simps)
  qed
next
  case add: (AddSym tab_ok name_ok nm a)
  show ?thesis
  proof (cases "a = 0")
    case True
    with add ok h key_count_mono [OF c, of "Suc n"] show ?thesis by (simp add: AddSym_unfold del: symbol_step.simps)
  next
    case False
    obtain st idx obj' where r: "add_to_tables tab_ok name_ok obj nm a = (st, idx, obj')"
      by (cases "add_to_tables tab_ok name_ok obj nm a") auto
    have s: "symbol_step c obj = obj'" using add False r by (simp add: AddSym_unfold del: symbol_step.simps)
    have c': "key_count k (Suc n) obj" using key_count_mono [OF c] by simp
    have "slot_held i j k addr obj' \<and> key_count k (Suc n) obj'"
    proof (cases rule: add_to_tables_cases [OF ok False r, case_names stored unnamed no_table full])
      case (stored i2 j2 tab)
      obtain m where m: "m \<le> n" "unat (next_key obj) = key_after (unat k) m" "next_key obj \<noteq> 0"
        using c by (auto simp: key_count_def)
      have nk: "unat (fst (getNextKey obj)) = key_after (unat k) (Suc m)"
        using m ok by (intro key_after_Suc) (auto simp: tables_ok_def)
      have "unat k \<noteq> 0" "unat k \<le> 2047"
        using k by (auto simp: RCM_KeyResetValue_def word_le_nat_alt unat_eq_0)
      then have "key_after (unat k) (Suc m) \<noteq> unat k"
        using m(1) n add by (intro key_after_distinct) auto
      then have "fst (getNextKey obj) \<noteq> k" using nk by auto
      then have "slot_held i j k addr obj'"
        using slot_held_put [OF next_key_ok [OF ok], of i j k addr i2 j2 tab] stored h by (auto simp: slot_held_def)
      moreover have "key_count k (Suc n) obj'"
        using nk m(1) stored(9) issued_key [OF ok] by (auto simp: key_count_def put_elem_def getNextKey_def Let_def intro!: exI [of _ "Suc m"])
      ultimately show ?thesis by blast
    next
      case (unnamed i2 j2 tab)
      then show ?thesis
        using slot_held_put [OF ok h, of i2 j2 tab] k(1) c' by (auto simp: key_count_def put_elem_def)
    qed (use h c' in auto)
    then show ?thesis using s add_to_tables_ok [OF ok False r] add by simp
  qed
qed

lemma symbol_run_held:
  "tables_ok obj \<Longrightarrow> slot_held i j k addr obj \<Longrightarrow> key_count k n obj \<Longrightarrow> k \<noteq> 0 \<Longrightarrow> k \<le> RCM_KeyResetValue \<Longrightarrow>
   n + length (filter is_add cs) \<le> 2046 \<Longrightarrow>
   tables_ok (fold symbol_step cs obj) \<and> slot_held i j k addr (fold symbol_step cs obj)"
proof (induction cs arbitrary: obj n)
  case (Cons c cs)
  have "n + (if is_add c then 1 else 0) \<le> 2046" using Cons.prems(6) by auto
  from symbol_step_held [OF Cons.prems(1-5) this] Cons.IH [of "symbol_step c obj" "n + (if is_add c then 1 else 0)"]
    Cons.prems(4-6)
  show ?case by (simp split: if_splits)
qed simp

text \<open>C15: Through any sequence of additions and removals with fewer than 2047 further additions, an index that was
  returned for a function resolves to that function or is refused; it never resolves to another function.\<close>

theorem index_never_another:
  assumes ok: "tables_ok obj"
    and r: "RcmServer_addSymbol refs tab_ok name_ok (Some obj) (Some nm) addr (Some old) = (RcmServer_S_SUCCESS, Some idx, Some obj1)"
    and n: "length (filter is_add cs) < 2047"
  shows "getFxnAddr (fold symbol_step cs obj1) idx = Inr (RcmServer_S_SUCCESS, Some addr) \<or>
    getFxnAddr (fold symbol_step cs obj1) idx = Inr (RcmServer_E_InvalidFxnIdx, None)"
proof -
  have a: "addr \<noteq> 0" and add: "add_to_tables tab_ok name_ok obj nm addr = (RcmServer_S_SUCCESS, idx, obj1)"
    using r by (auto simp: RcmServer_addSymbol_def rcm_codes split: prod.splits if_splits)
  show ?thesis
  proof (cases rule: add_to_tables_cases [OF ok a add, case_names stored unnamed no_table full])
    case (stored i j tab)
    let ?k = "fst (getNextKey obj)"
    have k: "?k \<noteq> 0" "?k \<le> RCM_KeyResetValue" using issued_key [OF ok] by auto
    have "slot_held i j ?k addr obj1"
      using stored ok by (auto simp: slot_held_def put_elem_def tables_ok_def table_ok_def)
    moreover have "key_count ?k 0 obj1"
      using k stored(9) by (auto simp: key_count_def key_after_def put_elem_def getNextKey_def Let_def RCM_KeyResetValue_def
          word_le_nat_alt unat_eq_0 unat_gt_0)
    ultimately have h: "tables_ok (fold symbol_step cs obj1)" "slot_held i j ?k addr (fold symbol_step cs obj1)"
      using symbol_run_held [OF add_to_tables_ok [OF ok a add] _ _ k, of i j addr 0 cs] n by auto
    then obtain tab' where "fxnTab (fold symbol_step cs obj1) ! i = Some tab'" "fxn_key (tab' ! j) = ?k \<longrightarrow> fxn_addr (tab' ! j) = addr"
      by (auto simp: slot_held_def)
    with getFxnAddr_dynamic [OF h(1) stored(3) this(1) stored(4) k(2)] stored(8) show ?thesis by auto
  qed (simp_all add: rcm_codes)
qed

theorem index_never_another_witness:
  "getFxnAddr (fold symbol_step [RemoveSym ''f'', AddSym (\<lambda>_. True) True ''g'' 72] one_symbol) 0x7FF01000 =
     Inr (RcmServer_S_SUCCESS, Some 64) \<or>
   getFxnAddr (fold symbol_step [RemoveSym ''f'', AddSym (\<lambda>_. True) True ''g'' 72] one_symbol) 0x7FF01000 =
     Inr (RcmServer_E_InvalidFxnIdx, None)"
  by (rule index_never_another [OF fresh_server_ok add_first_symbol]) simp

subsection \<open>Capacity\<close>

definition used_in :: "RcmServer_FxnTabElem list option \<Rightarrow> nat" where
  "used_in t = (case t of None \<Rightarrow> 0 | Some tab \<Rightarrow> length (filter (\<lambda>e. fxn_addr e \<noteq> 0) tab))"

definition used_slots :: "RcmServer_Object \<Rightarrow> nat" where
  "used_slots obj = (\<Sum>i \<in> {1..<RCMSERVER_MAX_TABLES}. used_in (fxnTab obj ! i))"

lemma used_in_put:
  assumes "j < length tab" "tab ! j = free_elem" "fxn_addr e \<noteq> 0"
  shows "used_in (Some (tab[j := e])) = Suc (used_in (Some tab))"
proof -
  have "tab = take j tab @ tab ! j # drop (Suc j) tab" using assms(1) by (rule id_take_nth_drop)
  then have "filter P tab = filter P (take j tab) @ filter P (tab ! j # drop (Suc j) tab)" for P
    by (metis filter_append)
  with assms show ?thesis
    by (simp add: used_in_def upd_conv_take_nth_drop free_elem_def)
qed

lemma used_slots_put:
  assumes i: "i \<in> {1..<RCMSERVER_MAX_TABLES}" "i < length (fxnTab obj)" and j: "j < length tab" "tab ! j = free_elem" "fxn_addr e \<noteq> 0"
    and t: "used_in (Some tab) = used_in (fxnTab obj ! i)"
  shows "used_slots (put_elem i j tab e obj) = Suc (used_slots obj)"
proof -
  have "used_slots (put_elem i j tab e obj) =
      (\<Sum>n \<in> {1..<RCMSERVER_MAX_TABLES}. used_in (fxnTab obj ! n) + (if n = i then 1 else 0))"
    unfolding used_slots_def
    using i(2) used_in_put [OF j] t by (intro sum.cong refl) (auto simp: put_elem_def nth_list_update)
  then show ?thesis using i(1) by (simp add: sum.distrib used_slots_def)
qed

lemma capacity_sum: "(\<Sum>i \<in> {1..<RCMSERVER_MAX_TABLES}. table_size i) = 4064"
  by code_simp

lemma used_slots_le:
  assumes "tables_ok obj"
  shows "used_slots obj \<le> 4064"
proof -
  have "used_in (fxnTab obj ! i) \<le> table_size i" if "i \<in> {1..<RCMSERVER_MAX_TABLES}" for i
    using dynamic_table [OF assms that] length_filter_le
    by (fastforce simp: used_in_def split: option.splits intro: order_trans [OF length_filter_le])
  then have "used_slots obj \<le> (\<Sum>i \<in> {1..<RCMSERVER_MAX_TABLES}. table_size i)"
    unfolding used_slots_def by (rule sum_mono)
  then show ?thesis by (simp only: capacity_sum)
qed

text \<open>While the heap gives memory, the dynamic tables take exactly 4064 symbols: an addition succeeds and takes one
  more slot as long as fewer are in use, and fails with the code for a full table, changing nothing, when 4064
  are.\<close>

theorem addSymbol_capacity:
  assumes ok: "tables_ok obj" and args: "refs \<noteq> 0" "addr \<noteq> 0"
  shows "(used_slots obj < 4064 \<and>
      (\<exists>idx obj'. RcmServer_addSymbol refs (\<lambda>_. True) True (Some obj) (Some nm) addr (Some old) = (RcmServer_S_SUCCESS, Some idx, Some obj') \<and>
         used_slots obj' = used_slots obj + 1)) \<or>
    (used_slots obj = 4064 \<and>
      RcmServer_addSymbol refs (\<lambda>_. True) True (Some obj) (Some nm) addr (Some old) = (RcmServer_E_SYMBOLTABLEFULL, Some old, Some obj))"
proof -
  obtain st idx obj' where r: "add_to_tables (\<lambda>_. True) True obj nm addr = (st, idx, obj')"
    by (cases "add_to_tables (\<lambda>_. True) True obj nm addr") auto
  have call: "RcmServer_addSymbol refs (\<lambda>_. True) True (Some obj) (Some nm) addr (Some old) = (st, if st \<ge> 0 then Some idx else Some old, Some obj')"
    using args r by (simp add: RcmServer_addSymbol_def)
  have find: "st' = RcmServer_S_SUCCESS" if "find_slot (\<lambda>_. True) is tabs = (st', sl, tabs')" for "is" tabs st' sl tabs'
    using that by (induction "\<lambda>_ :: nat. True" "is" tabs rule: find_slot.induct) (auto split: option.splits)
  show ?thesis
  proof (cases rule: add_to_tables_cases [OF ok args(2) r, case_names stored unnamed no_table full])
    case (stored i j tab)
    have "j < length tab" "i < length (fxnTab obj)" using stored ok by (auto simp: table_ok_def tables_ok_def)
    moreover have "used_in (Some tab) = used_in (fxnTab obj ! i)"
      using stored(5) by (auto simp: used_in_def free_elem_def)
    ultimately have u: "used_slots obj' = Suc (used_slots obj)"
      using used_slots_put [of i "snd (getNextKey obj)" j tab] stored args by (simp add: used_slots_def)
    with used_slots_le [OF add_to_tables_ok [OF ok args(2) r]] call stored(1) show ?thesis
      by (auto simp: rcm_codes)
  next
    case no_table
    obtain st0 sl tabs where f: "find_slot (\<lambda>_. True) [1..<RCMSERVER_MAX_TABLES] (fxnTab obj) = (st0, sl, tabs)"
      by (cases "find_slot (\<lambda>_. True) [1..<RCMSERVER_MAX_TABLES] (fxnTab obj)") auto
    have False using no_table r f find [OF f] by (auto simp: add_to_tables_def rcm_codes Let_def split: option.splits prod.splits)
    then show ?thesis ..
  next
    case full
    have "used_in (fxnTab obj ! i) = table_size i" if i: "i \<in> {1..<RCMSERVER_MAX_TABLES}" for i
    proof -
      obtain tab where t: "fxnTab obj ! i = Some tab" "\<forall>j < table_size i. fxn_addr (tab ! j) \<noteq> 0" using full(3) i by blast
      with dynamic_table [OF ok i t(1)] have "filter (\<lambda>e. fxn_addr e \<noteq> 0) tab = tab"
        by (auto simp: filter_id_conv in_set_conv_nth)
      with t dynamic_table [OF ok i t(1)] show ?thesis by (simp add: used_in_def)
    qed
    then have "used_slots obj = (\<Sum>i \<in> {1..<RCMSERVER_MAX_TABLES}. table_size i)"
      unfolding used_slots_def by (intro sum.cong) auto
    then have "used_slots obj = 4064" by (simp only: capacity_sum)
    with call full(1,2) show ?thesis by (simp add: rcm_codes)
  qed simp_all
qed

theorem addSymbol_capacity_witness:
  "(used_slots one_symbol < 4064 \<and>
      (\<exists>idx obj'. RcmServer_addSymbol 1 (\<lambda>_. True) True (Some one_symbol) (Some ''g'') 72 (Some 0) = (RcmServer_S_SUCCESS, Some idx, Some obj') \<and>
         used_slots obj' = used_slots one_symbol + 1)) \<or>
    (used_slots one_symbol = 4064 \<and>
      RcmServer_addSymbol 1 (\<lambda>_. True) True (Some one_symbol) (Some ''g'') 72 (Some 0) = (RcmServer_E_SYMBOLTABLEFULL, Some 0, Some one_symbol))"
  by (rule addSymbol_capacity [OF one_symbol_ok]) simp_all

subsection \<open>What the tables do not guard against\<close>

text \<open>Three weaknesses of the tables, as runs of the model: a function index with key 0 that names a free slot is
  accepted and resolves to the NULL address; an offset beyond the end of a table reads outside it; and an addition whose
  name cannot be copied fails but leaves its slot in use, so that the function stays reachable with key 0 and no name
  to remove it by.\<close>

theorem table_weaknesses:
  "getFxnAddr one_symbol 0x00001001 = Inr (RcmServer_S_SUCCESS, Some 0) \<and>
   getFxnAddr one_symbol 0x00001020 = Inl OutsideTable \<and>
   (case RcmServer_addSymbol 1 (\<lambda>_. True) False (Some one_symbol) (Some ''g'') 72 (Some 0) of
      (status, _, Some obj') \<Rightarrow>
        status = RcmServer_E_NOMEMORY \<and> getFxnAddr obj' 0x00001001 = Inr (RcmServer_S_SUCCESS, Some 72) \<and>
        getSymIdx obj' ''g'' = (RcmServer_E_SYMBOLNOTFOUND, None) \<and> used_slots obj' = 2
    | _ \<Rightarrow> False)"
  by code_simp

end
