(* ===== verification/Rcm_Jobs.thy ===== *)
theory Rcm_Jobs
  imports Rcm_Types
begin

text \<open>
  Job streams and dispatching in \<open>RcmServer.c\<close>: \<open>_RcmServer_acqJobId\<close>, \<open>_RcmServer_relJobId\<close>,
  \<open>_RcmServer_getPool\<close>, \<open>_RcmServer_dispatch\<close> and \<open>_RcmServer_setStatusCode\<close>. The gate of the instance is
  held through each of them, so that they are single steps. Whether the heap has room for a job object, whether
  \<open>GateMutex_create\<close> and \<open>GateMutex_delete\<close> succeed and whether a semaphore can be posted are parameters.
\<close>

section \<open>Status code\<close>

definition setStatusCode :: "u16 \<Rightarrow> RcmClient_Packet \<Rightarrow> RcmClient_Packet" where
  "setStatusCode code p =
     p \<lparr> desc := (desc p AND NOT RcmClient_Desc_TYPE_MASK) OR
          (push_bit RcmClient_Desc_TYPE_SHIFT code AND RcmClient_Desc_TYPE_MASK) \<rparr>"

definition messageType :: "RcmClient_Packet \<Rightarrow> u16" where
  "messageType p = drop_bit RcmClient_Desc_TYPE_SHIFT (RcmClient_Desc_TYPE_MASK AND desc p)"

section \<open>Job ids\<close>

text \<open>
  The loop over new ids: at most \<open>count\<close> of them are tried; the result is the id (0 if none was found) and the
  id tracker. \<open>jobId\<close> is only read after the loop, which runs at least once.
\<close>

definition next_jobId :: "u16 \<Rightarrow> u16" where
  "next_jobId j = (if j = 0xFFFF then 1 else j + 1)"

fun try_jobIds :: "nat \<Rightarrow> RcmServer_JobStream list \<Rightarrow> u16 \<Rightarrow> u16 \<Rightarrow> u16 \<times> u16" where
  "try_jobIds 0 jobs jobId tracker = (jobId, tracker)"
| "try_jobIds (Suc n) jobs jobId tracker =
     (let tracker1 = next_jobId tracker
      in if list_ex (\<lambda>job. tracker1 = job_id job) jobs then try_jobIds n jobs RcmClient_DISCRETEJOBID tracker1
         else if tracker1 \<noteq> RcmClient_DISCRETEJOBID then (tracker1, tracker1)
         else try_jobIds n jobs tracker1 tracker1)"

definition new_job :: "u16 \<Rightarrow> RcmServer_JobStream" where
  "new_job j = \<lparr> job_id = j, job_empty = True, msgQue = [] \<rparr>"

text \<open>Status, the value written to \<open>jobIdPtr\<close> (if any) and the object.\<close>

definition acqJobId :: "bool \<Rightarrow> bool \<Rightarrow> RcmServer_Object \<Rightarrow> int \<times> u16 option \<times> RcmServer_Object" where
  "acqJobId mem_ok gate_ok obj =
     (let (jobId, tracker1) = try_jobIds 0xFFFF (jobList obj) 0 (last_jobId obj);
          obj1 = obj \<lparr> last_jobId := tracker1 \<rparr>
      in if jobId = RcmClient_DISCRETEJOBID then (RcmServer_E_FAIL, Some RcmClient_DISCRETEJOBID, obj1)
         else if \<not> mem_ok then (RcmServer_E_NOMEMORY, None, obj1)
         else if \<not> gate_ok then (RcmServer_E_FAIL, None, obj1)
         else (RcmServer_S_SUCCESS, Some jobId, obj1 \<lparr> jobList := jobList obj1 @ [new_job jobId] \<rparr>))"

text \<open>
  The first job with the id leaves the list; the messages it still queues are sent back. Status, the packets given to
  \<open>MessageQ_put\<close> in order and the object.
\<close>

fun take_job :: "u16 \<Rightarrow> RcmServer_JobStream list \<Rightarrow> (RcmServer_JobStream \<times> RcmServer_JobStream list) option" where
  "take_job j [] = None"
| "take_job j (job # jobs) =
     (if job_id job = j then Some (job, jobs) else map_option (\<lambda>(x, rest). (x, job # rest)) (take_job j jobs))"

definition relJobId :: "bool \<Rightarrow> RcmServer_Object \<Rightarrow> u16 \<Rightarrow> int \<times> RcmClient_Packet list \<times> RcmServer_Object" where
  "relJobId gate_deleted obj j =
     (case take_job j (jobList obj) of
        None \<Rightarrow> (RcmServer_E_JobIdNotFound, [], obj)
      | Some (job, rest) \<Rightarrow>
          (if gate_deleted then RcmServer_S_SUCCESS else RcmServer_E_FAIL,
           map (setStatusCode Status_Unprocessed) (msgQue job), obj \<lparr> jobList := rest \<rparr>))"

section \<open>Pools\<close>

text \<open>The index of the pool in the static pool table.\<close>

definition getPool :: "RcmServer_Object \<Rightarrow> RcmClient_Packet \<Rightarrow> int \<times> nat option" where
  "getPool obj p =
     (if poolId p AND 0x8000 \<noteq> 0 then
        (let offset = unat (poolId p AND 0x00FF)
         in if offset < length (poolMap0 obj) then (RcmServer_S_SUCCESS, Some offset)
            else (RcmServer_E_PoolIdNotFound, None))
      else (RcmServer_E_FAIL, None))"

text \<open>
  Putting a packet on the ready queue of a pool and posting the semaphore of the pool; \<open>post_ok\<close> tells whether
  \<open>OsalSemaphore_post\<close> succeeds, and the status is its result.
\<close>

definition make_ready :: "bool \<Rightarrow> nat \<Rightarrow> RcmClient_Packet \<Rightarrow> RcmServer_Object \<Rightarrow> int \<times> RcmServer_Object" where
  "make_ready post_ok i p obj =
     (let pool = poolMap0 obj ! i;
          pool1 = pool \<lparr> readyQueue := readyQueue pool @ [p], sem := (if post_ok then sem pool + 1 else sem pool) \<rparr>
      in (if post_ok then RcmServer_S_SUCCESS else RcmServer_E_FAIL, obj \<lparr> poolMap0 := (poolMap0 obj)[i := pool1] \<rparr>))"

text \<open>The first job with an id, replaced by \<open>f\<close> of it.\<close>

fun update_job :: "u16 \<Rightarrow> (RcmServer_JobStream \<Rightarrow> RcmServer_JobStream) \<Rightarrow> RcmServer_JobStream list \<Rightarrow> RcmServer_JobStream list" where
  "update_job j f [] = []"
| "update_job j f (job # jobs) = (if job_id job = j then f job # jobs else job # update_job j f jobs)"

definition find_job :: "u16 \<Rightarrow> RcmServer_Object \<Rightarrow> RcmServer_JobStream option" where
  "find_job j obj = List.find (\<lambda>job. job_id job = j) (jobList obj)"

definition set_job :: "u16 \<Rightarrow> (RcmServer_JobStream \<Rightarrow> RcmServer_JobStream) \<Rightarrow> RcmServer_Object \<Rightarrow> RcmServer_Object" where
  "set_job j f obj = obj \<lparr> jobList := update_job j f (jobList obj) \<rparr>"

definition dispatch :: "bool \<Rightarrow> RcmServer_Object \<Rightarrow> RcmClient_Packet \<Rightarrow> int \<times> RcmServer_Object" where
  "dispatch post_ok obj p =
     (case getPool obj p of
        (status, None) \<Rightarrow> (status, obj)
      | (status, Some pool) \<Rightarrow>
          (let jobId = msg_jobId p
           in if jobId = RcmClient_DISCRETEJOBID then make_ready post_ok pool p obj
              else case find_job jobId obj of
                None \<Rightarrow> (RcmServer_E_JobIdNotFound, obj)
              | Some job \<Rightarrow>
                  if job_empty job then make_ready post_ok pool p (set_job jobId (job_empty_update (\<lambda>_. False)) obj)
                  else (status, set_job jobId (\<lambda>job. job \<lparr> msgQue := msgQue job @ [p] \<rparr>) obj)))"

text \<open>
  What a worker does after a job message, under the gate: the next message of the job goes to the ready queue of its
  pool; one whose pool is unknown goes back to its sender, and the search goes on. Also when posting the semaphore
  failed the search goes on, but then in the ready queue of that pool, since the code reuses the variable
  of the list. \<open>where\<close> is the list that is read: the job (\<^const>\<open>None\<close>) or the ready queue of a pool. The result is
  the packets sent back, whether the worker is left with a packet (so that it does not wait next) and the object.
\<close>

definition pop_from :: "u16 \<Rightarrow> nat option \<Rightarrow> RcmServer_Object \<Rightarrow> (RcmClient_Packet \<times> RcmServer_Object) option" where
  "pop_from j source obj =
     (case source of
        None \<Rightarrow>
          (case find_job j obj of
             None \<Rightarrow> None
           | Some job \<Rightarrow>
               (case msgQue job of [] \<Rightarrow> None | p # ps \<Rightarrow> Some (p, set_job j (msgQue_update (\<lambda>_. ps)) obj)))
      | Some i \<Rightarrow>
          (case readyQueue (poolMap0 obj ! i) of
             [] \<Rightarrow> None
           | p # ps \<Rightarrow> Some (p, obj \<lparr> poolMap0 := (poolMap0 obj)[i := (poolMap0 obj ! i) \<lparr> readyQueue := ps \<rparr>] \<rparr>)))"

definition no_pool_status :: "int \<Rightarrow> u16" where
  "no_pool_status rval = (if rval = RcmServer_E_PoolIdNotFound then Status_PoolNotFound else Status_ERROR)"

definition return_unprocessed :: "int \<Rightarrow> u16 \<Rightarrow> RcmClient_Packet \<Rightarrow> RcmClient_Packet" where
  "return_unprocessed rval code p = setStatusCode code p \<lparr> msg_result := word_of_int rval \<rparr>"

fun advance_loop :: "nat \<Rightarrow> bool \<Rightarrow> u16 \<Rightarrow> nat option \<Rightarrow> bool \<Rightarrow> RcmServer_Object \<Rightarrow>
    (RcmClient_Packet list \<times> bool \<times> RcmServer_Object) option" where
  "advance_loop 0 post_ok j source holds obj = None"
| "advance_loop (Suc n) post_ok j source holds obj =
     (case pop_from j source obj of
        None \<Rightarrow> Some ([], holds, set_job j (job_empty_update (\<lambda>_. True)) obj)
      | Some (p, obj1) \<Rightarrow>
          (case getPool obj1 p of
             (rval, None) \<Rightarrow>
               map_option (\<lambda>(sent, h, obj2). (return_unprocessed rval (no_pool_status rval) p # sent, h, obj2))
                 (advance_loop n post_ok j source True obj1)
           | (_, Some i) \<Rightarrow>
               (case make_ready post_ok i p obj1 of
                  (rval, obj2) \<Rightarrow>
                    if rval < 0 then advance_loop n post_ok j (Some i) False obj2 else Some ([], False, obj2))))"

definition advance_job :: "bool \<Rightarrow> u16 \<Rightarrow> RcmServer_Object \<Rightarrow> (RcmClient_Packet list \<times> bool \<times> RcmServer_Object) option" where
  "advance_job post_ok j obj =
     (case find_job j obj of
        None \<Rightarrow> Some ([], False, obj)
      | Some job \<Rightarrow> advance_loop (Suc (length (msgQue job))) post_ok j None False obj)"

section \<open>Acquisition\<close>

lemma next_jobId_nz [simp]: "next_jobId j \<noteq> 0"
proof -
  have "(- 1 :: u16) = 0xFFFF" by simp
  then have "j + 1 = 0 \<longleftrightarrow> j = 0xFFFF" using eq_neg_iff_add_eq_0 [of j 1] by metis
  then show ?thesis by (simp add: next_jobId_def)
qed

lemma unat_next_jobId: "unat (next_jobId j) = unat j mod 65535 + 1"
proof (cases "j = 0xFFFF")
  case False
  then have "unat j \<noteq> unat (0xFFFF :: u16)" using word_unat_eq_iff by blast
  then have "unat j \<noteq> 65535" by simp
  moreover have "unat j < 65536" using unsigned_less [of j] by simp
  ultimately have "unat j < 65535" by simp
  with False show ?thesis by (simp add: next_jobId_def unat_word_ariths)
qed (simp add: next_jobId_def)

lemma unat_iter_jobId: "unat ((next_jobId ^^ Suc m) l) = (unat l + m) mod 65535 + 1"
proof (induction m)
  case (Suc m)
  have "unat ((next_jobId ^^ Suc (Suc m)) l) = unat ((next_jobId ^^ Suc m) l) mod 65535 + 1"
    by (simp add: unat_next_jobId)
  also have "\<dots> = ((unat l + m) mod 65535 + 1) mod 65535 + 1" by (simp only: Suc)
  finally show ?case by (simp add: mod_simps)
qed (simp add: unat_next_jobId)

lemma iter_jobId_reaches:
  assumes "j \<noteq> 0"
  shows "\<exists>m < 65535. (next_jobId ^^ Suc m) l = j"
proof -
  define m where "m = (unat j + 65534 + 65535 * unat l - unat l) mod 65535"
  have j: "0 < unat j" "unat j \<le> 65535" using assms unsigned_less [of j, where 'a = nat] by (auto simp: unat_gt_0)
  have "(unat l + m) mod 65535 = (unat l + (unat j + 65534 + 65535 * unat l - unat l)) mod 65535"
    by (simp add: m_def mod_simps)
  also have "unat l + (unat j + 65534 + 65535 * unat l - unat l) = (unat j - 1) + 65535 * (unat l + 1)"
    using j by (simp add: algebra_simps)
  also have "\<dots> mod 65535 = (unat j - 1)" using j by (subst mod_mult_self2) simp
  finally have "unat ((next_jobId ^^ Suc m) l) = unat j" using j by (simp add: unat_iter_jobId del: funpow.simps)
  then have "(next_jobId ^^ Suc m) l = j" by (rule word_unat_eq_iff [THEN iffD2])
  moreover have "m < 65535" by (simp add: m_def)
  ultimately show ?thesis by blast
qed

lemma try_jobIds_found:
  "\<exists>m < n. (next_jobId ^^ Suc m) l \<notin> job_id ` set jobs \<Longrightarrow>
   \<exists>m < n. try_jobIds n jobs x l = ((next_jobId ^^ Suc m) l, (next_jobId ^^ Suc m) l) \<and>
     (next_jobId ^^ Suc m) l \<notin> job_id ` set jobs \<and> (\<forall>i < m. (next_jobId ^^ Suc i) l \<in> job_id ` set jobs)"
proof (induction n arbitrary: x l)
  case (Suc n)
  show ?case
  proof (cases "next_jobId l \<in> job_id ` set jobs")
    case False
    then have "\<not> list_ex (\<lambda>job. next_jobId l = job_id job) jobs" by (auto simp: list_ex_iff)
    with False show ?thesis by (intro exI [of _ 0]) (simp add: RcmClient_DISCRETEJOBID_def Let_def)
  next
    case True
    obtain m where m: "m < Suc n" "(next_jobId ^^ Suc m) l \<notin> job_id ` set jobs" using Suc.prems by blast
    with True obtain k where k: "m = Suc k" by (cases m) auto
    have step: "(next_jobId ^^ Suc i) (next_jobId l) = (next_jobId ^^ Suc (Suc i)) l" for i
      by (simp add: funpow_swap1)
    have "\<exists>k < n. (next_jobId ^^ Suc k) (next_jobId l) \<notin> job_id ` set jobs"
      using m k step [of k] by (intro exI [of _ k]) auto
    from Suc.IH [OF this, of RcmClient_DISCRETEJOBID] obtain k where r: "k < n"
      "try_jobIds n jobs RcmClient_DISCRETEJOBID (next_jobId l) =
         ((next_jobId ^^ Suc (Suc k)) l, (next_jobId ^^ Suc (Suc k)) l)"
      "(next_jobId ^^ Suc (Suc k)) l \<notin> job_id ` set jobs"
      "\<forall>i < k. (next_jobId ^^ Suc (Suc i)) l \<in> job_id ` set jobs"
      unfolding step by blast
    have "list_ex (\<lambda>job. next_jobId l = job_id job) jobs" using True by (auto simp: list_ex_iff)
    moreover have "\<forall>i < Suc k. (next_jobId ^^ Suc i) l \<in> job_id ` set jobs"
      using r(4) True by (auto simp: less_Suc_eq_0_disj)
    ultimately show ?thesis using r(1-3) by (intro exI [of _ "Suc k"]) (simp add: Let_def)
  qed
qed simp

lemma try_jobIds_none:
  "\<forall>m < n. (next_jobId ^^ Suc m) l \<in> job_id ` set jobs \<Longrightarrow> 0 < n \<Longrightarrow> fst (try_jobIds n jobs x l) = 0"
proof (induction n arbitrary: x l)
  case (Suc n)
  then have "next_jobId l \<in> job_id ` set jobs" by force
  then have ex: "list_ex (\<lambda>job. next_jobId l = job_id job) jobs" by (auto simp: list_ex_iff)
  have "\<forall>m < n. (next_jobId ^^ Suc m) (next_jobId l) \<in> job_id ` set jobs"
    using Suc.prems(1) by (metis Suc_less_eq comp_apply funpow_Suc_right)
  with Suc.IH ex show ?case
    by (cases n) (simp_all add: RcmClient_DISCRETEJOBID_def Let_def)
qed simp

text \<open>C17: A job id is acquired whenever one is free: if some id other than 0 is not in use, the loop over at most
  65535 candidates ends with such an id, and a new empty job stream with it is put at the end of the job list;
  if all are in use, the call fails and the job list stays as it is.\<close>

theorem acqJobId_finds_free_id:
  "(\<exists>j. j \<noteq> 0 \<and> j \<notin> job_id ` set (jobList obj) \<and>
      acqJobId True True obj =
        (RcmServer_S_SUCCESS, Some j, obj \<lparr> last_jobId := j, jobList := jobList obj @ [new_job j] \<rparr>)) \<or>
   ({j. j \<noteq> 0} \<subseteq> job_id ` set (jobList obj) \<and>
      (case acqJobId True True obj of (status, j, obj1) \<Rightarrow>
         status = RcmServer_E_FAIL \<and> j = Some RcmClient_DISCRETEJOBID \<and> jobList obj1 = jobList obj))"
proof (cases "{j. j \<noteq> 0} \<subseteq> job_id ` set (jobList obj)")
  case True
  have "(next_jobId ^^ Suc m) (last_jobId obj) \<in> job_id ` set (jobList obj)" for m
    using True by auto
  then have "fst (try_jobIds 0xFFFF (jobList obj) 0 (last_jobId obj)) = 0" by (intro try_jobIds_none) auto
  then show ?thesis
    using True by (auto simp: acqJobId_def RcmClient_DISCRETEJOBID_def Let_def split: prod.splits)
next
  case False
  then obtain j where "j \<noteq> 0" "j \<notin> job_id ` set (jobList obj)" by blast
  with iter_jobId_reaches [of j "last_jobId obj"]
  have "\<exists>m < 0xFFFF. (next_jobId ^^ Suc m) (last_jobId obj) \<notin> job_id ` set (jobList obj)" by auto
  from try_jobIds_found [OF this, of 0] obtain m where
    "try_jobIds 0xFFFF (jobList obj) 0 (last_jobId obj) =
       ((next_jobId ^^ Suc m) (last_jobId obj), (next_jobId ^^ Suc m) (last_jobId obj))"
    "(next_jobId ^^ Suc m) (last_jobId obj) \<notin> job_id ` set (jobList obj)" by blast
  then show ?thesis
    by (intro disjI1 exI [of _ "(next_jobId ^^ Suc m) (last_jobId obj)"])
      (simp add: acqJobId_def RcmClient_DISCRETEJOBID_def Let_def)
qed

end
