(* ===== verification/Rcm_Process.thy ===== *)
theory Rcm_Process
  imports Rcm_Symbols Rcm_Jobs
begin

text \<open>
  Processing of one message by the remote command server: \<open>_RcmServer_execMsg\<close>, \<open>_RcmServer_process\<close> and the
  server thread \<open>_RcmServer_serverThrFxn\<close> of \<open>RcmServer.c\<close>. What a message does to the world is a list
  of events in their order: calls of message functions, packets handed to \<open>MessageQ_put\<close> (whose failure the
  code only reports) and packets freed. The message functions are a parameter; they get the size and the data
  of the message and give a result and the new data.
\<close>

datatype rcm_event = CallFxn u32 u32 "u32 list" | Reply RcmClient_Packet | FreeMsg RcmClient_Packet

record rcm_env =
  run_fxn :: "u32 \<Rightarrow> u32 \<Rightarrow> u32 list \<Rightarrow> u32 \<times> u32 list"
  job_mem :: bool
  gate_created :: bool
  gate_deleted :: bool

section \<open>Message data\<close>

text \<open>The data as a C string, on a little-endian processor; without a terminator it does not end in the message.\<close>

definition word_bytes :: "u32 \<Rightarrow> u8 list" where
  "word_bytes w = [ucast w, ucast (drop_bit 8 w), ucast (drop_bit 16 w), ucast (drop_bit 24 w)]"

definition data_string :: "u32 list \<Rightarrow> string option" where
  "data_string ws =
     (let bs = concat (map word_bytes ws)
      in if 0 \<in> set bs then Some (map (\<lambda>b. char_of (unat b)) (takeWhile (\<lambda>b. b \<noteq> 0) bs)) else None)"

definition set_data0 :: "(u32 \<Rightarrow> u32) \<Rightarrow> RcmClient_Packet \<Rightarrow> rcm_fault + RcmClient_Packet" where
  "set_data0 f p =
     (case msg_data p of [] \<Rightarrow> Inl OutsideMessage | w # ws \<Rightarrow> Inr (p \<lparr> msg_data := f w # ws \<rparr>))"

text \<open>The store of a \<open>UInt16\<close> in the first half of a word.\<close>

definition put_low16 :: "u16 \<Rightarrow> u32 \<Rightarrow> u32" where
  "put_low16 v w = (w AND 0xFFFF0000) OR ucast v"

section \<open>Processing\<close>

definition execMsg :: "rcm_env \<Rightarrow> RcmServer_Object \<Rightarrow> RcmClient_Packet \<Rightarrow>
    rcm_fault + (int \<times> rcm_event list \<times> RcmClient_Packet)" where
  "execMsg env obj p =
     bindE (getFxnAddr obj (fxnIdx p)) (\<lambda>(status, addr).
       case addr of
         None \<Rightarrow> Inr (status, [], p)
       | Some a \<Rightarrow>
           if a = 0 then Inl NullCall
           else
             (let (res, data1) = run_fxn env a (msg_dataSize p) (msg_data p)
              in Inr (status, [CallFxn a (msg_dataSize p) (msg_data p)], p \<lparr> msg_data := data1, msg_result := res \<rparr>)))"

definition exec_status :: "int \<Rightarrow> u16" where
  "exec_status rval = (if rval = RcmServer_E_InvalidFxnIdx then Status_INVALID_FXN else Status_ERROR)"

definition process_msg :: "rcm_env \<Rightarrow> RcmServer_Object \<Rightarrow> RcmClient_Packet \<Rightarrow> rcm_fault + rcm_event list" where
  "process_msg env obj p =
     bindE (execMsg env obj p) (\<lambda>(rval, ev, q).
       let code = (if rval < 0 then exec_status rval
                   else if sint (msg_result q) < 0 then Status_MSG_FXN_ERR
                   else Status_SUCCESS)
       in Inr (ev @ [Reply (setStatusCode code q)]))"

definition process_cmd :: "rcm_env \<Rightarrow> RcmServer_Object \<Rightarrow> RcmClient_Packet \<Rightarrow> rcm_fault + rcm_event list" where
  "process_cmd env obj p =
     bindE (execMsg env obj p) (\<lambda>(status, ev, q).
       if status \<ge> 0 \<and> sint (msg_result q) \<ge> 0 then Inr (ev @ [FreeMsg q])
       else Inr (ev @ [Reply (setStatusCode (if status < 0 then exec_status status else Status_MSG_FXN_ERR) q)]))"

text \<open>The deferred call uses \<open>fxn\<close> also when it was not set.\<close>

definition process_dpc :: "RcmServer_Object \<Rightarrow> RcmClient_Packet \<Rightarrow> rcm_fault + rcm_event list" where
  "process_dpc obj p =
     bindE (getFxnAddr obj (fxnIdx p)) (\<lambda>(rval, addr).
       let q = (if rval < 0 then setStatusCode Status_SYMBOL_NOT_FOUND p else p)
       in case addr of
            None \<Rightarrow> Inl UninitialisedCall
          | Some a \<Rightarrow> if a = 0 then Inl NullCall else Inr [Reply q, CallFxn a 0 []])"

definition process_sym_idx :: "RcmServer_Object \<Rightarrow> RcmClient_Packet \<Rightarrow> rcm_fault + rcm_event list" where
  "process_sym_idx obj p =
     (case data_string (msg_data p) of
        None \<Rightarrow> Inl OutsideMessage
      | Some nm \<Rightarrow>
          (case getSymIdx obj nm of
             (rval, None) \<Rightarrow> Inr [Reply (setStatusCode Status_SYMBOL_NOT_FOUND p)]
           | (rval, Some idx) \<Rightarrow>
               bindE (set_data0 (\<lambda>_. idx) (setStatusCode Status_SUCCESS p)) (\<lambda>q. Inr [Reply (q \<lparr> msg_result := 0 \<rparr>)])))"

definition process_job_acq :: "rcm_env \<Rightarrow> RcmServer_Object \<Rightarrow> RcmClient_Packet \<Rightarrow>
    rcm_fault + (rcm_event list \<times> RcmServer_Object)" where
  "process_job_acq env obj p =
     (case acqJobId (job_mem env) (gate_created env) obj of
        (rval, jobId, obj1) \<Rightarrow>
          if rval < 0 then Inr ([Reply (setStatusCode Status_ERROR p)], obj1)
          else bindE (set_data0 (put_low16 (the jobId)) (setStatusCode Status_SUCCESS p)) (\<lambda>q.
                 Inr ([Reply (q \<lparr> msg_result := 0 \<rparr>)], obj1)))"

definition process_job_rel :: "rcm_env \<Rightarrow> RcmServer_Object \<Rightarrow> RcmClient_Packet \<Rightarrow>
    rcm_fault + (rcm_event list \<times> RcmServer_Object)" where
  "process_job_rel env obj p =
     (case msg_data p of
        [] \<Rightarrow> Inl OutsideMessage
      | w # _ \<Rightarrow>
          (case relJobId (gate_deleted env) obj (ucast w) of
             (rval, back, obj1) \<Rightarrow>
               (let code = (if rval < 0 then (if rval = RcmServer_E_JobIdNotFound then Status_JobNotFound else Status_ERROR)
                            else Status_SUCCESS);
                    q = setStatusCode code p \<lparr> msg_result := (if rval < 0 then word_of_int rval else 0) \<rparr>
                in Inr (map Reply back @ [Reply q], obj1))))"

definition process :: "rcm_env \<Rightarrow> RcmServer_Object \<Rightarrow> RcmClient_Packet \<Rightarrow>
    rcm_fault + (rcm_event list \<times> RcmServer_Object)" where
  "process env obj p =
     (let t = messageType p; keep = map_sum id (\<lambda>ev. (ev, obj))
      in if t = RcmClient_Desc_RCM_MSG then keep (process_msg env obj p)
         else if t = RcmClient_Desc_CMD then keep (process_cmd env obj p)
         else if t = RcmClient_Desc_DPC then keep (process_dpc obj p)
         else if t = RcmClient_Desc_SYM_ADD then Inr ([], obj)
         else if t = RcmClient_Desc_SYM_IDX then keep (process_sym_idx obj p)
         else if t = RcmClient_Desc_JOB_ACQ then process_job_acq env obj p
         else if t = RcmClient_Desc_JOB_REL then process_job_rel env obj p
         else Inr ([], obj))"

section \<open>The server thread\<close>

definition in_band :: "RcmServer_Object \<Rightarrow> RcmClient_Packet \<Rightarrow> bool" where
  "in_band obj p \<longleftrightarrow> poolId p = RcmClient_DEFAULTPOOLID \<and> count (poolMap0 obj ! 0) = 0"

definition dispatch_status :: "int \<Rightarrow> u16" where
  "dispatch_status status =
     (if status = RcmServer_E_JobIdNotFound then Status_JobNotFound
      else if status = RcmServer_E_PoolIdNotFound then Status_PoolNotFound
      else Status_ERROR)"

definition server_step :: "rcm_env \<Rightarrow> bool \<Rightarrow> RcmServer_Object \<Rightarrow> RcmClient_Packet \<Rightarrow>
    rcm_fault + (rcm_event list \<times> RcmServer_Object)" where
  "server_step env post_ok obj p =
     (if in_band obj p then process env obj p
      else case dispatch post_ok obj p of
        (status, obj1) \<Rightarrow>
          Inr (if status < 0 then [Reply (return_unprocessed status (dispatch_status status) p)] else [], obj1))"

text \<open>
  The loop of the server thread over what \<open>MessageQ_get\<close> returns (\<^const>\<open>None\<close> for NULL), each time with the
  value of \<open>shutdown\<close> when it is tested. The last component tells whether the thread has ended; otherwise it waits
  for a message.
\<close>

fun server_loop :: "rcm_env \<Rightarrow> (RcmClient_Packet option \<times> bool) list \<Rightarrow> RcmServer_Object \<Rightarrow>
    rcm_fault + (rcm_event list \<times> RcmServer_Object \<times> bool)" where
  "server_loop env [] obj = Inr ([], obj, False)"
| "server_loop env ((msg, down) # rest) obj =
     (case msg of
        None \<Rightarrow> if down then Inr ([], obj, True) else server_loop env rest obj
      | Some p \<Rightarrow>
          bindE (server_step env True obj p) (\<lambda>(ev, obj1).
            if down then Inr (ev, obj1, True)
            else bindE (server_loop env rest obj1) (\<lambda>(ev2, obj2, ended). Inr (ev @ ev2, obj2, ended))))"

definition RcmServer_start :: "u32 \<Rightarrow> bool \<Rightarrow> bool \<Rightarrow> int" where
  "RcmServer_start refs has_handle posted =
     (if refs = 0 then RcmServer_E_INVALIDSTATE
      else if \<not> has_handle then RcmServer_E_INVALIDARG
      else if posted then RcmServer_S_SUCCESS else RcmServer_E_FAIL)"

end
