(* ===== verification/Rcm_Client.thy ===== *)
theory Rcm_Client
  imports Rcm_Process Rcm_Mail
begin

text \<open>
  The remote command client of \<open>src/syslink/api/src/rcm/RcmClient.c\<close>: its set-up count, the creation and deletion of an
  instance, message ids, and the calls that send a message to the server and wait for the answer. The message queues are
  parameters: the status of \<open>MessageQ_put\<close> and what \<open>_RcmClient_getReturnMsg\<close> yields for a message id (the
  theory \<open>Rcm_Mail\<close> has its algorithm). What a call does outside of the client is a list of events: a packet put into the
  queue of the server, with the queue it is to be answered to, and a packet given back to its heap.
\<close>

section \<open>Codes\<close>

definition RcmClient_S_SUCCESS :: int where "RcmClient_S_SUCCESS = 0"
definition RcmClient_S_ALREADYSETUP :: int where "RcmClient_S_ALREADYSETUP = 1"
definition RcmClient_S_ALREADYCLEANEDUP :: int where "RcmClient_S_ALREADYCLEANEDUP = 2"
definition RcmClient_E_EXECASYNCNOTENABLED :: int where "RcmClient_E_EXECASYNCNOTENABLED = -2"
definition RcmClient_E_EXECFAILED :: int where "RcmClient_E_EXECFAILED = -3"
definition RcmClient_E_INVALIDFXNIDX :: int where "RcmClient_E_INVALIDFXNIDX = -5"
definition RcmClient_E_MSGFXNERROR :: int where "RcmClient_E_MSGFXNERROR = -6"
definition RcmClient_E_IPCERROR :: int where "RcmClient_E_IPCERROR = -7"
definition RcmClient_E_LISTCREATEFAILED :: int where "RcmClient_E_LISTCREATEFAILED = -8"
definition RcmClient_E_MSGALLOCFAILED :: int where "RcmClient_E_MSGALLOCFAILED = -10"
definition RcmClient_E_MSGQCREATEFAILED :: int where "RcmClient_E_MSGQCREATEFAILED = -11"
definition RcmClient_E_MSGQOPENFAILED :: int where "RcmClient_E_MSGQOPENFAILED = -12"
definition RcmClient_E_SERVERERROR :: int where "RcmClient_E_SERVERERROR = -13"
definition RcmClient_E_SERVERNOTFOUND :: int where "RcmClient_E_SERVERNOTFOUND = -14"
definition RcmClient_E_SYMBOLNOTFOUND :: int where "RcmClient_E_SYMBOLNOTFOUND = -15"
definition RcmClient_E_NOMEMORY :: int where "RcmClient_E_NOMEMORY = -16"
definition RcmClient_E_JOBIDNOTFOUND :: int where "RcmClient_E_JOBIDNOTFOUND = -17"
definition RcmClient_E_INVALIDSTATE :: int where "RcmClient_E_INVALIDSTATE = -18"
definition RcmClient_E_NOTSUPPORTED :: int where "RcmClient_E_NOTSUPPORTED = -19"
definition RcmClient_E_INVALIDARG :: int where "RcmClient_E_INVALIDARG = -20"

lemmas client_codes =
  RcmClient_S_SUCCESS_def RcmClient_S_ALREADYSETUP_def RcmClient_S_ALREADYCLEANEDUP_def
  RcmClient_E_EXECASYNCNOTENABLED_def RcmClient_E_EXECFAILED_def RcmClient_E_INVALIDFXNIDX_def RcmClient_E_MSGFXNERROR_def
  RcmClient_E_IPCERROR_def RcmClient_E_LISTCREATEFAILED_def RcmClient_E_MSGALLOCFAILED_def RcmClient_E_MSGQCREATEFAILED_def
  RcmClient_E_MSGQOPENFAILED_def RcmClient_E_SERVERERROR_def RcmClient_E_SERVERNOTFOUND_def RcmClient_E_SYMBOLNOTFOUND_def
  RcmClient_E_NOMEMORY_def RcmClient_E_JOBIDNOTFOUND_def RcmClient_E_INVALIDSTATE_def RcmClient_E_NOTSUPPORTED_def
  RcmClient_E_INVALIDARG_def RcmClient_E_FAIL_def RcmClient_E_LOSTMSG_def

definition RcmClient_INVALIDFXNIDX :: u32 where "RcmClient_INVALIDFXNIDX = 0xFFFFFFFF"
definition RcmClient_INVALIDMSGID :: u16 where "RcmClient_INVALIDMSGID = 0"
definition RCMCLIENT_DEFAULT_HEAPID :: u16 where "RCMCLIENT_DEFAULT_HEAPID = 0xFFFF"
definition RCMCLIENT_HEAPID_ARRAY_LENGTH :: nat where "RCMCLIENT_HEAPID_ARRAY_LENGTH = 4"
definition MAX_NAME_LEN :: nat where "MAX_NAME_LEN = 32"
definition MessageQ_INVALIDMESSAGEQ :: u32 where "MessageQ_INVALIDMESSAGEQ = 0xFFFF"
definition MessageQ_E_NOTFOUND :: int where "MessageQ_E_NOTFOUND = -5"
definition MessageQ_E_TIMEOUT :: int where "MessageQ_E_TIMEOUT = -6"

section \<open>Module set-up\<close>

definition RcmClient_init :: "u32 \<Rightarrow> int \<times> u32" where
  "RcmClient_init refs =
     (let refs1 = refs + 1
      in (if sint refs1 > 1 then RcmClient_S_ALREADYSETUP else RcmClient_S_SUCCESS, refs1))"

definition RcmClient_exit :: "u32 \<Rightarrow> int \<times> u32" where
  "RcmClient_exit refs =
     (let refs1 = refs - 1
      in (if sint refs1 < 0 then RcmClient_S_ALREADYCLEANEDUP else RcmClient_S_SUCCESS, refs1))"

section \<open>Instances\<close>

text \<open>The handles of an instance are present or NULL.\<close>

record RcmClient_Object =
  cl_gate :: bool
  cl_msgQue :: bool
  errorMsgQue :: bool
  heapId :: u16
  serverMsgQ :: u32
  cbNotify :: bool
  last_msgId :: u16
  mbxLock :: bool
  queueLock :: bool
  has_recipients :: bool
  has_newMail :: bool

record RcmClient_Params =
  par_heapId :: u16
  callbackNotification :: bool

text \<open>The outcomes of what the creation of an instance asks for.\<close>

record client_env =
  obj_mem :: bool
  gate_ok :: bool
  msgq_ok :: bool
  errq_ok :: bool
  open_status :: int
  opened_queue :: u32
  mbx_ok :: bool
  lock_ok :: bool
  recips_ok :: bool
  mail_ok :: bool
  heapIdAry :: "nat \<Rightarrow> u16"

definition blank_client :: "RcmClient_Object" where
  "blank_client =
     \<lparr> cl_gate = False, cl_msgQue = False, errorMsgQue = False, heapId = 0xFFFF, serverMsgQ = MessageQ_INVALIDMESSAGEQ,
       cbNotify = False, last_msgId = 0xFFFF, mbxLock = False, queueLock = False, has_recipients = False, has_newMail = False \<rparr>"

text \<open>The cast in \<open>(UInt16) ((UInt32)obj->serverMsgQ) >> 16\<close> binds stronger than the shift.\<close>

definition client_procId :: "u32 \<Rightarrow> u16" where
  "client_procId q = drop_bit 16 (ucast q)"

definition init_queues :: "client_env \<Rightarrow> RcmClient_Object \<Rightarrow> int \<times> RcmClient_Object" where
  "init_queues env obj =
     (let obj1 = obj \<lparr> cl_gate := gate_ok env \<rparr>
      in if \<not> gate_ok env then (RcmClient_E_FAIL, obj1)
         else let obj2 = obj1 \<lparr> cl_msgQue := msgq_ok env \<rparr>
         in if \<not> msgq_ok env then (RcmClient_E_MSGQCREATEFAILED, obj2)
         else let obj3 = obj2 \<lparr> errorMsgQue := errq_ok env \<rparr>
         in if \<not> errq_ok env then (RcmClient_E_MSGQCREATEFAILED, obj3)
         else if open_status env = MessageQ_E_NOTFOUND then (RcmClient_E_SERVERNOTFOUND, obj3)
         else if open_status env < 0 then (RcmClient_E_MSGQOPENFAILED, obj3)
         else (RcmClient_S_SUCCESS, obj3 \<lparr> serverMsgQ := opened_queue env \<rparr>))"

definition init_locks :: "client_env \<Rightarrow> RcmClient_Object \<Rightarrow> int \<times> RcmClient_Object" where
  "init_locks env obj =
     (let obj1 = obj \<lparr> mbxLock := mbx_ok env \<rparr>
      in if \<not> mbx_ok env then (RcmClient_E_FAIL, obj1)
         else let obj2 = obj1 \<lparr> queueLock := lock_ok env \<rparr>
         in if \<not> lock_ok env then (RcmClient_E_FAIL, obj2)
         else let obj3 = obj2 \<lparr> has_recipients := recips_ok env \<rparr>
         in if \<not> recips_ok env then (RcmClient_E_LISTCREATEFAILED, obj3)
         else let obj4 = obj3 \<lparr> has_newMail := mail_ok env \<rparr>
         in (if mail_ok env then RcmClient_S_SUCCESS else RcmClient_E_LISTCREATEFAILED, obj4))"

definition Instance_init :: "client_env \<Rightarrow> RcmClient_Params \<Rightarrow> int \<times> RcmClient_Object" where
  "Instance_init env params =
     (let (status, obj) = init_queues env blank_client
      in if status < 0 then (status, obj)
         else
           let obj1 = obj \<lparr> cbNotify := callbackNotification params \<rparr>
           in if cbNotify obj1 then (status, obj1)
              else
                let obj2 = obj1 \<lparr> heapId := par_heapId params \<rparr>
                in if heapId obj2 = RCMCLIENT_DEFAULT_HEAPID then
                     (let procId = client_procId (serverMsgQ obj2)
                      in if RCMCLIENT_HEAPID_ARRAY_LENGTH \<le> unat procId then (RcmClient_E_FAIL, obj2)
                         else init_locks env (obj2 \<lparr> heapId := heapIdAry env (unat procId) \<rparr>))
                   else init_locks env obj2)"

text \<open>What an instance holds, and what its removal gives back, in the order of the code.\<close>

datatype client_resource = NewMailList | RecipientList | QueueLock | MbxLock | ServerQueue | ErrorQueue | InboundQueue | Gate

definition client_holds :: "RcmClient_Object \<Rightarrow> client_resource list" where
  "client_holds obj =
     (if cl_gate obj then [Gate] else []) @ (if cl_msgQue obj then [InboundQueue] else []) @
     (if errorMsgQue obj then [ErrorQueue] else []) @
     (if serverMsgQ obj \<noteq> MessageQ_INVALIDMESSAGEQ then [ServerQueue] else []) @
     (if mbxLock obj then [MbxLock] else []) @ (if queueLock obj then [QueueLock] else []) @
     (if has_recipients obj then [RecipientList] else []) @ (if has_newMail obj then [NewMailList] else [])"

definition Instance_finalize :: "RcmClient_Object \<Rightarrow> client_resource list" where
  "Instance_finalize obj =
     (if has_newMail obj then [NewMailList] else []) @ (if has_recipients obj then [RecipientList] else []) @
     (if queueLock obj then [QueueLock] else []) @ (if mbxLock obj then [MbxLock] else []) @
     (if serverMsgQ obj \<noteq> MessageQ_INVALIDMESSAGEQ then [ServerQueue] else []) @
     (if errorMsgQue obj then [ErrorQueue] else []) @ (if cl_msgQue obj then [InboundQueue] else []) @
     (if cl_gate obj then [Gate] else [])"

text \<open>The status, the new handle and what has been given back.\<close>

definition RcmClient_create :: "u32 \<Rightarrow> client_env \<Rightarrow> bool \<Rightarrow> RcmClient_Params option \<Rightarrow> string option \<Rightarrow>
    int \<times> RcmClient_Object option \<times> client_resource list" where
  "RcmClient_create refs env has_handle params server =
     (if refs = 0 then (RcmClient_E_INVALIDSTATE, None, [])
      else if \<not> has_handle \<or> params = None \<or> server = None then (RcmClient_E_INVALIDARG, None, [])
      else if length (the server) > MAX_NAME_LEN then (RcmClient_E_INVALIDARG, None, [])
      else if \<not> obj_mem env then (RcmClient_E_NOMEMORY, None, [])
      else
        let (status, obj) = Instance_init env (the params)
        in if status < 0 then (status, None, Instance_finalize obj) else (RcmClient_S_SUCCESS, Some obj, []))"

definition RcmClient_delete :: "u32 \<Rightarrow> RcmClient_Object option option \<Rightarrow> int \<times> client_resource list" where
  "RcmClient_delete refs handlePtr =
     (if refs = 0 then (RcmClient_E_INVALIDSTATE, [])
      else case handlePtr of
        None \<Rightarrow> (RcmClient_E_INVALIDARG, [])
      | Some None \<Rightarrow> (RcmClient_E_INVALIDARG, [])
      | Some (Some obj) \<Rightarrow> (RcmClient_S_SUCCESS, Instance_finalize obj))"

definition RcmClient_Params_init :: "u32 \<Rightarrow> RcmClient_Params option \<Rightarrow> int \<times> RcmClient_Params option" where
  "RcmClient_Params_init refs params =
     (if refs = 0 then (RcmClient_E_INVALIDSTATE, params)
      else if params = None then (RcmClient_E_INVALIDARG, params)
      else (RcmClient_S_SUCCESS, Some \<lparr> par_heapId = RCMCLIENT_DEFAULT_HEAPID, callbackNotification = False \<rparr>))"

section \<open>Messages\<close>

text \<open>
  What a call finds outside: \<open>MessageQ_alloc\<close> for a number of bytes of data (the address of the message and the words
  its data part happens to hold), \<open>MessageQ_put\<close>, \<open>MessageQ_free\<close>, the return message for an id or the
  negative status of \<open>_RcmClient_getReturnMsg\<close>, and a non-blocking \<open>MessageQ_get\<close> from the error queue.
\<close>

record call_env =
  new_message :: "u32 \<Rightarrow> (nat \<times> u32 list) option"
  put_status :: int
  free_status :: int
  return_mail :: "u16 \<Rightarrow> int + RcmClient_Packet"
  error_mail :: "int \<times> RcmClient_Packet option"

datatype reply_queue = ToInbound | ToErrors

datatype client_event = Put reply_queue RcmClient_Packet | FreeMessage RcmClient_Packet

definition args_status :: "u32 \<Rightarrow> bool list \<Rightarrow> int" where
  "args_status refs given =
     (if refs = 0 then RcmClient_E_INVALIDSTATE
      else if list_all id given then RcmClient_S_SUCCESS else RcmClient_E_INVALIDARG)"

definition genMsgId :: "u32 \<Rightarrow> RcmClient_Object \<Rightarrow> u16 \<times> RcmClient_Object" where
  "genMsgId refs obj =
     (if refs = 0 then (0, obj)
      else
        let n = (if last_msgId obj = 0xFFFF then 1 else last_msgId obj + 1)
        in (n, obj \<lparr> last_msgId := n \<rparr>))"

definition RcmClient_getHeaderSize :: "u32 \<Rightarrow> u32" where
  "RcmClient_getHeaderSize packet_size = packet_size - 4"

text \<open>What \<open>RcmClient_alloc\<close> does once its arguments are checked, as they are for the calls of the client itself.\<close>

definition alloc_message :: "u32 \<Rightarrow> call_env \<Rightarrow> RcmClient_Object \<Rightarrow> u32 \<Rightarrow> int \<times> RcmClient_Object \<times> RcmClient_Packet option" where
  "alloc_message refs env obj dataSize =
     (let n = (if dataSize < 4 then 4 else dataSize)
      in case new_message env n of
             None \<Rightarrow> (RcmClient_E_MSGALLOCFAILED, obj, None)
           | Some (a, ws) \<Rightarrow>
               (let (m, obj1) = genMsgId refs obj
                in (RcmClient_S_SUCCESS, obj1,
                    Some \<lparr> packet_at = a, desc = 0, msgId = m, poolId = RcmClient_DEFAULTPOOLID,
                           msg_jobId = RcmClient_DISCRETEJOBID, fxnIdx = RcmClient_INVALIDFXNIDX, msg_result = 0,
                           msg_dataSize = n, msg_data = ws \<rparr>)))"

definition RcmClient_alloc :: "u32 \<Rightarrow> call_env \<Rightarrow> RcmClient_Object option \<Rightarrow> u32 \<Rightarrow> bool \<Rightarrow>
    int \<times> RcmClient_Object option \<times> RcmClient_Packet option" where
  "RcmClient_alloc refs env handle dataSize has_message =
     (let st = args_status refs [handle \<noteq> None, has_message]
      in if st < 0 then (st, handle, None)
         else case alloc_message refs env (the handle) dataSize of (st, obj, m) \<Rightarrow> (st, Some obj, m))"

definition RcmClient_free :: "u32 \<Rightarrow> call_env \<Rightarrow> bool \<Rightarrow> RcmClient_Packet option \<Rightarrow> int \<times> client_event list" where
  "RcmClient_free refs env has_handle msg =
     (if args_status refs [has_handle, msg \<noteq> None] < 0 then (args_status refs [has_handle, msg \<noteq> None], [])
      else (if free_status env < 0 then RcmClient_E_IPCERROR else RcmClient_S_SUCCESS, [FreeMessage (the msg)]))"

text \<open>The type of a message is ORed into its descriptor; the status of a returned one is read from the same bits.\<close>

definition classify :: "u16 \<Rightarrow> RcmClient_Packet \<Rightarrow> RcmClient_Packet" where
  "classify t p = p \<lparr> desc := desc p OR push_bit RcmClient_Desc_TYPE_SHIFT t \<rparr>"

definition serverStatus :: "RcmClient_Packet \<Rightarrow> u16" where
  "serverStatus p = drop_bit RcmClient_Desc_TYPE_SHIFT (RcmClient_Desc_TYPE_MASK AND desc p)"

section \<open>Execution of a remote function\<close>

definition exec_code :: "u16 \<Rightarrow> int" where
  "exec_code st =
     (if st = Status_SUCCESS then RcmClient_S_SUCCESS
      else if st = Status_INVALID_FXN then RcmClient_E_INVALIDFXNIDX
      else if st = Status_MSG_FXN_ERR then RcmClient_E_MSGFXNERROR
      else RcmClient_E_SERVERERROR)"

text \<open>The last component is what the call stores in \<open>*returnMsg\<close>, if it does.\<close>

definition RcmClient_exec :: "u32 \<Rightarrow> call_env \<Rightarrow> bool \<Rightarrow> RcmClient_Packet option \<Rightarrow> bool \<Rightarrow>
    int \<times> client_event list \<times> RcmClient_Packet option option" where
  "RcmClient_exec refs env has_handle cmdMsg has_return =
     (let st = args_status refs [has_handle, cmdMsg \<noteq> None, has_return]
      in if st < 0 then (st, [], None)
         else
           let q = classify RcmClient_Desc_RCM_MSG (the cmdMsg)
           in if put_status env < 0 then (RcmClient_E_EXECFAILED, [], None)
              else case return_mail env (msgId q) of
                     Inl e \<Rightarrow> (e, [Put ToInbound q], Some None)
                   | Inr r \<Rightarrow> (exec_code (serverStatus r), [Put ToInbound q], Some (Some r)))"

definition RcmClient_execAsync :: "u32 \<Rightarrow> call_env \<Rightarrow> RcmClient_Object option \<Rightarrow> RcmClient_Packet option \<Rightarrow>
    int \<times> client_event list" where
  "RcmClient_execAsync refs env handle cmdMsg =
     (let st = args_status refs [handle \<noteq> None, cmdMsg \<noteq> None]
      in if st < 0 then (st, [])
         else if \<not> cbNotify (the handle) then (RcmClient_E_EXECASYNCNOTENABLED, [])
         else if put_status env < 0 then (RcmClient_E_EXECFAILED, [])
         else (RcmClient_S_SUCCESS, [Put ToInbound (classify RcmClient_Desc_RCM_MSG (the cmdMsg))]))"

definition RcmClient_execCmd :: "u32 \<Rightarrow> call_env \<Rightarrow> bool \<Rightarrow> RcmClient_Packet option \<Rightarrow> int \<times> client_event list" where
  "RcmClient_execCmd refs env has_handle msg =
     (let st = args_status refs [has_handle, msg \<noteq> None]
      in if st < 0 then (st, [])
         else if put_status env < 0 then (RcmClient_E_IPCERROR, [])
         else (RcmClient_S_SUCCESS, [Put ToErrors (classify RcmClient_Desc_CMD (the msg))]))"

definition RcmClient_execDpc :: "u32 \<Rightarrow> call_env \<Rightarrow> bool \<Rightarrow> RcmClient_Packet option \<Rightarrow> bool \<Rightarrow>
    int \<times> client_event list \<times> RcmClient_Packet option option" where
  "RcmClient_execDpc refs env has_handle cmdMsg has_return =
     (let st = args_status refs [has_handle, cmdMsg \<noteq> None, has_return]
      in if st < 0 then (st, [], None)
         else
           let q = classify RcmClient_Desc_DPC (the cmdMsg)
           in if put_status env < 0 then (RcmClient_E_EXECFAILED, [], None)
              else case return_mail env (msgId q) of
                     Inl e \<Rightarrow> (e, [Put ToInbound q], Some None)
                   | Inr r \<Rightarrow> (RcmClient_S_SUCCESS, [Put ToInbound q], Some (Some r)))"

definition RcmClient_execNoWait :: "u32 \<Rightarrow> call_env \<Rightarrow> bool \<Rightarrow> RcmClient_Packet option \<Rightarrow> bool \<Rightarrow>
    int \<times> client_event list \<times> u16 option" where
  "RcmClient_execNoWait refs env has_handle cmdMsg has_id =
     (let st = args_status refs [has_handle, cmdMsg \<noteq> None, has_id]
      in if st < 0 then (st, [], None)
         else
           let q = classify RcmClient_Desc_RCM_MSG (the cmdMsg)
           in if put_status env < 0 then (RcmClient_E_EXECFAILED, [], Some RcmClient_INVALIDMSGID)
              else (RcmClient_S_SUCCESS, [Put ToInbound q], Some (msgId q)))"

definition RcmClient_waitUntilDone :: "u32 \<Rightarrow> call_env \<Rightarrow> bool \<Rightarrow> u16 \<Rightarrow> bool \<Rightarrow> int \<times> RcmClient_Packet option option" where
  "RcmClient_waitUntilDone refs env has_handle m has_return =
     (let st = args_status refs [has_handle, m \<noteq> RcmClient_INVALIDMSGID, has_return]
      in if st < 0 then (st, None)
         else case return_mail env m of
                Inl e \<Rightarrow> (e, Some None)
              | Inr r \<Rightarrow> (RcmClient_S_SUCCESS, Some (Some r)))"

definition error_code :: "u16 \<Rightarrow> int" where
  "error_code st =
     (if st = Status_JobNotFound \<or> st = Status_PoolNotFound then RcmClient_S_SUCCESS
      else if st = Status_INVALID_FXN then RcmClient_E_INVALIDFXNIDX
      else if st = Status_MSG_FXN_ERR then RcmClient_E_MSGFXNERROR
      else RcmClient_E_SERVERERROR)"

definition RcmClient_checkForError :: "u32 \<Rightarrow> call_env \<Rightarrow> bool \<Rightarrow> bool \<Rightarrow> int \<times> RcmClient_Packet option option" where
  "RcmClient_checkForError refs env has_handle has_return =
     (let st = args_status refs [has_handle, has_return]
      in if st < 0 then (st, None)
         else case error_mail env of (rval, msg) \<Rightarrow>
           if rval \<noteq> MessageQ_E_TIMEOUT \<and> rval < 0 then (RcmClient_E_IPCERROR, Some None)
           else case msg of
                  None \<Rightarrow> (RcmClient_S_SUCCESS, Some None)
                | Some p \<Rightarrow> (error_code (serverStatus p), Some (Some p)))"

section \<open>Jobs\<close>

text \<open>
  The messages of these calls are freed before they return. When no return message is had, \<open>_RcmClient_getReturnMsg\<close>
  has cleared the pointer to the message and nothing is freed.
\<close>

definition RcmClient_acquireJobId :: "u32 \<Rightarrow> call_env \<Rightarrow> RcmClient_Object option \<Rightarrow> bool \<Rightarrow>
    rcm_fault + (int \<times> RcmClient_Object option \<times> client_event list \<times> u16 option)" where
  "RcmClient_acquireJobId refs env handle has_jobId =
     (let st = args_status refs [handle \<noteq> None, has_jobId]
      in if st < 0 then Inr (st, handle, [], None)
         else case alloc_message refs env (the handle) 2 of
           (st, obj, None) \<Rightarrow> Inr (st, Some obj, [], None)
         | (st, obj, Some p) \<Rightarrow>
             (let q = classify RcmClient_Desc_JOB_ACQ p
              in if put_status env < 0 then Inr (RcmClient_E_FAIL, Some obj, snd (RcmClient_free refs env True (Some q)), None)
                 else case return_mail env (msgId q) of
                        Inl e \<Rightarrow> Inr (e, Some obj, [Put ToInbound q], None)
                      | Inr r \<Rightarrow>
                          (let ev = Put ToInbound q # snd (RcmClient_free refs env True (Some r))
                           in if serverStatus r \<noteq> Status_SUCCESS then Inr (RcmClient_E_SERVERERROR, Some obj, ev, None)
                              else case msg_data r of
                                     [] \<Rightarrow> Inl OutsideMessage
                                   | w # _ \<Rightarrow> Inr (RcmClient_S_SUCCESS, Some obj, ev, Some (ucast w)))))"

definition RcmClient_releaseJobId :: "u32 \<Rightarrow> call_env \<Rightarrow> RcmClient_Object option \<Rightarrow> u16 \<Rightarrow>
    rcm_fault + (int \<times> RcmClient_Object option \<times> client_event list)" where
  "RcmClient_releaseJobId refs env handle jobId =
     (let st = args_status refs [handle \<noteq> None]
      in if st < 0 then Inr (st, handle, [])
         else case alloc_message refs env (the handle) 2 of
           (st, obj, None) \<Rightarrow> Inr (st, Some obj, [])
         | (st, obj, Some p) \<Rightarrow>
             bindE (set_data0 (put_low16 jobId) (classify RcmClient_Desc_JOB_REL p)) (\<lambda>q.
               if put_status env < 0 then Inr (RcmClient_E_FAIL, Some obj, snd (RcmClient_free refs env True (Some q)))
               else case return_mail env (msgId q) of
                      Inl e \<Rightarrow> Inr (e, Some obj, [Put ToInbound q])
                    | Inr r \<Rightarrow>
                        Inr (if serverStatus r = Status_SUCCESS then RcmClient_S_SUCCESS
                             else if serverStatus r = Status_JobNotFound then RcmClient_E_JOBIDNOTFOUND
                             else RcmClient_E_SERVERERROR,
                             Some obj, Put ToInbound q # snd (RcmClient_free refs env True (Some r)))))"

section \<open>Symbols\<close>

text \<open>\<open>String_cpy\<close> into the data of a message: the bytes of the string and the terminator, over what was there.\<close>

definition bytes_word :: "u8 list \<Rightarrow> u32" where
  "bytes_word bs = foldr (\<lambda>b w. ucast b OR push_bit 8 w) bs 0"

fun put_bytes :: "u8 list \<Rightarrow> u32 list \<Rightarrow> rcm_fault + u32 list" where
  "put_bytes [] ws = Inr ws"
| "put_bytes (b # bs) [] = Inl OutsideMessage"
| "put_bytes (b # bs) (w # ws) =
     (let here = take 4 (b # bs)
      in map_sum id (\<lambda>rest. bytes_word (here @ drop (length here) (word_bytes w)) # rest) (put_bytes (drop 4 (b # bs)) ws))"

definition string_bytes :: "string \<Rightarrow> u8 list" where
  "string_bytes nm = map (\<lambda>c. of_char c) nm @ [0]"

text \<open>The request of \<open>RcmClient_getSymbolIndex\<close>, made from a newly allocated message.\<close>

definition symbol_request :: "string \<Rightarrow> RcmClient_Packet \<Rightarrow> rcm_fault + RcmClient_Packet" where
  "symbol_request nm p =
     bindE (put_bytes (string_bytes nm) (msg_data p)) (\<lambda>ws.
       Inr (classify RcmClient_Desc_SYM_IDX (p \<lparr> msg_dataSize := of_nat (length nm + 1), msg_data := ws \<rparr>)))"

text \<open>Before anything else \<open>*index\<close> is set to \<open>RcmClient_E_INVALIDFXNIDX\<close>, as an unsigned word.\<close>

definition RcmClient_getSymbolIndex :: "u32 \<Rightarrow> call_env \<Rightarrow> RcmClient_Object option \<Rightarrow> string option \<Rightarrow> bool \<Rightarrow>
    rcm_fault + (int \<times> RcmClient_Object option \<times> client_event list \<times> u32 option)" where
  "RcmClient_getSymbolIndex refs env handle nm has_index =
     (let st = args_status refs [handle \<noteq> None, nm \<noteq> None, has_index]; none = Some (word_of_int RcmClient_E_INVALIDFXNIDX)
      in if st < 0 then Inr (st, handle, [], None)
         else case alloc_message refs env (the handle) (of_nat (length (the nm) + 1)) of
           (st, obj, None) \<Rightarrow> Inr (st, Some obj, [], none)
         | (st, obj, Some p) \<Rightarrow>
             bindE (symbol_request (the nm) p) (\<lambda>q.
               if put_status env < 0 then Inr (RcmClient_E_EXECFAILED, Some obj, snd (RcmClient_free refs env True (Some q)), none)
               else case return_mail env (msgId q) of
                      Inl e \<Rightarrow> Inr (e, Some obj, [Put ToInbound q], none)
                    | Inr r \<Rightarrow>
                        (let ev = Put ToInbound q # snd (RcmClient_free refs env True (Some r))
                         in if serverStatus r = Status_SYMBOL_NOT_FOUND then Inr (RcmClient_E_SYMBOLNOTFOUND, Some obj, ev, none)
                            else if serverStatus r \<noteq> Status_SUCCESS then Inr (RcmClient_E_SERVERERROR, Some obj, ev, none)
                            else case msg_data r of
                                   [] \<Rightarrow> Inl OutsideMessage
                                 | w # _ \<Rightarrow> Inr (RcmClient_S_SUCCESS, Some obj, ev, Some w))))"

definition RcmClient_addSymbol :: "u32 \<Rightarrow> bool \<Rightarrow> bool \<Rightarrow> u32 \<Rightarrow> bool \<Rightarrow> int" where
  "RcmClient_addSymbol refs has_handle name_given addr has_index =
     (if args_status refs [has_handle, name_given, addr \<noteq> 0, has_index] < 0
      then args_status refs [has_handle, name_given, addr \<noteq> 0, has_index] else RcmClient_E_NOTSUPPORTED)"

definition RcmClient_removeSymbol :: "u32 \<Rightarrow> bool \<Rightarrow> bool \<Rightarrow> int" where
  "RcmClient_removeSymbol refs has_handle name_given =
     (if args_status refs [has_handle, name_given] < 0 then args_status refs [has_handle, name_given] else RcmClient_E_NOTSUPPORTED)"

end
