(* ===== verification/Rcm_Streams.thy ===== *)
theory Rcm_Streams
  imports Rcm_Process
begin

text \<open>
  The invariant of the job streams of a server object, and that each operation of the server keeps it. It relates the
  object to what the rest of the system holds: \<open>R j\<close> counts the workers that are at a message of job \<open>j\<close>
  or have yet to pass on the job after one, \<open>acc\<close> lists the packets that were accepted for the pools and \<open>sta\<close>
  those that workers took up, in order, and \<open>n\<close> counts the job ids requested so far.
\<close>

definition ready_of :: "RcmServer_Object \<Rightarrow> RcmClient_Packet list" where
  "ready_of obj = concat (map readyQueue (poolMap0 obj))"

definition of_job :: "u16 \<Rightarrow> RcmClient_Packet list \<Rightarrow> RcmClient_Packet list" where
  "of_job j ps = filter (\<lambda>p. msg_jobId p = j) ps"

definition pool_known :: "RcmServer_Object \<Rightarrow> RcmClient_Packet \<Rightarrow> bool" where
  "pool_known obj p \<longleftrightarrow> snd (getPool obj p) \<noteq> None"

definition in_flight :: "RcmServer_Object \<Rightarrow> (u16 \<Rightarrow> nat) \<Rightarrow> u16 \<Rightarrow> nat" where
  "in_flight obj R j = length (of_job j (ready_of obj)) + R j"

definition job_inv :: "RcmServer_Object \<Rightarrow> (u16 \<Rightarrow> nat) \<Rightarrow> RcmServer_JobStream \<Rightarrow> bool" where
  "job_inv obj R job \<longleftrightarrow>
     job_id job \<noteq> 0 \<and> (\<forall>p \<in> set (msgQue job). msg_jobId p = job_id job \<and> pool_known obj p) \<and>
     (if job_empty job then msgQue job = [] \<and> in_flight obj R (job_id job) = 0 else in_flight obj R (job_id job) = 1)"

definition order_inv :: "RcmServer_Object \<Rightarrow> RcmClient_Packet list \<Rightarrow> RcmClient_Packet list \<Rightarrow> u16 \<Rightarrow> bool" where
  "order_inv obj acc sta j \<longleftrightarrow>
     (\<exists>rest. of_job j acc = of_job j sta @ of_job j (ready_of obj) @ rest \<and>
        (\<forall>job \<in> set (jobList obj). job_id job = j \<longrightarrow> rest = msgQue job))"

definition ids_inv :: "RcmServer_Object \<Rightarrow> RcmClient_Packet list \<Rightarrow> nat \<Rightarrow> bool" where
  "ids_inv obj acc n \<longleftrightarrow>
     n \<le> 65535 \<and> last_jobId obj = (if n = 0 then 0xFFFF else word_of_nat n) \<and>
     (\<forall>job \<in> set (jobList obj). unat (job_id job) \<le> n) \<and> (\<forall>p \<in> set acc. unat (msg_jobId p) \<le> n)"

definition streams_inv :: "RcmServer_Object \<Rightarrow> (u16 \<Rightarrow> nat) \<Rightarrow> RcmClient_Packet list \<Rightarrow> RcmClient_Packet list \<Rightarrow> nat \<Rightarrow> bool" where
  "streams_inv obj R acc sta n \<longleftrightarrow>
     distinct (map job_id (jobList obj)) \<and> (\<forall>job \<in> set (jobList obj). job_inv obj R job) \<and>
     (\<forall>j. j \<noteq> 0 \<longrightarrow> in_flight obj R j \<le> 1 \<and> order_inv obj acc sta j \<and> (in_flight obj R j \<noteq> 0 \<longrightarrow> unat j \<le> n)) \<and>
     ids_inv obj acc n"

section \<open>Ready queues\<close>

lemma of_job_simps [simp]:
  "of_job j [] = []" "of_job j (p # ps) = (if msg_jobId p = j then p # of_job j ps else of_job j ps)"
  "of_job j (ps @ qs) = of_job j ps @ of_job j qs"
  by (simp_all add: of_job_def)

lemma ready_split:
  assumes "i < length (poolMap0 obj)"
  obtains A B where "ready_of obj = A @ readyQueue (poolMap0 obj ! i) @ B"
    "\<And>pool. ready_of (obj \<lparr> poolMap0 := (poolMap0 obj)[i := pool] \<rparr>) = A @ readyQueue pool @ B"
proof
  let ?A = "concat (map readyQueue (take i (poolMap0 obj)))" and ?B = "concat (map readyQueue (drop (Suc i) (poolMap0 obj)))"
  have "poolMap0 obj = take i (poolMap0 obj) @ poolMap0 obj ! i # drop (Suc i) (poolMap0 obj)"
    using assms by (rule id_take_nth_drop)
  then have "map readyQueue (poolMap0 obj) =
      map readyQueue (take i (poolMap0 obj)) @ readyQueue (poolMap0 obj ! i) # map readyQueue (drop (Suc i) (poolMap0 obj))"
    by (metis list.simps(9) map_append)
  then show "ready_of obj = ?A @ readyQueue (poolMap0 obj ! i) @ ?B" by (simp add: ready_of_def)
  show "ready_of (obj \<lparr> poolMap0 := (poolMap0 obj)[i := pool] \<rparr>) = ?A @ readyQueue pool @ ?B" for pool
    using assms by (simp add: ready_of_def upd_conv_take_nth_drop)
qed

lemma make_ready_jobs:
  assumes "make_ready True i p obj = (st, obj')" "i < length (poolMap0 obj)"
  shows "of_job j (ready_of obj') = of_job j (ready_of obj) \<or> msg_jobId p = j"
    "of_job (msg_jobId p) (ready_of obj) = [] \<Longrightarrow> of_job (msg_jobId p) (ready_of obj') = [p]"
    "length (of_job (msg_jobId p) (ready_of obj')) = Suc (length (of_job (msg_jobId p) (ready_of obj)))"
    "jobList obj' = jobList obj" "last_jobId obj' = last_jobId obj" "length (poolMap0 obj') = length (poolMap0 obj)" "st = RcmServer_S_SUCCESS"
proof -
  obtain A B where ab: "ready_of obj = A @ readyQueue (poolMap0 obj ! i) @ B"
    "\<And>pool. ready_of (obj \<lparr> poolMap0 := (poolMap0 obj)[i := pool] \<rparr>) = A @ readyQueue pool @ B"
    by (rule ready_split [OF assms(2)]) blast
  have r: "ready_of obj' = A @ (readyQueue (poolMap0 obj ! i) @ [p]) @ B"
    using assms(1) ab(2) by (auto simp: make_ready_def Let_def)
  show "of_job j (ready_of obj') = of_job j (ready_of obj) \<or> msg_jobId p = j" by (simp add: r ab(1))
  show "of_job (msg_jobId p) (ready_of obj) = [] \<Longrightarrow> of_job (msg_jobId p) (ready_of obj') = [p]" by (simp add: r ab(1))
  show "length (of_job (msg_jobId p) (ready_of obj')) = Suc (length (of_job (msg_jobId p) (ready_of obj)))" by (simp add: r ab(1))
  show "jobList obj' = jobList obj" "last_jobId obj' = last_jobId obj" "length (poolMap0 obj') = length (poolMap0 obj)" "st = RcmServer_S_SUCCESS"
    using assms(1) by (auto simp: make_ready_def Let_def)
qed

lemma getPool_cong: "length (poolMap0 obj') = length (poolMap0 obj) \<Longrightarrow> getPool obj' p = getPool obj p"
  by (simp add: getPool_def Let_def)

lemma pool_known_cong: "length (poolMap0 obj') = length (poolMap0 obj) \<Longrightarrow> pool_known obj' p = pool_known obj p"
  using getPool_cong [of obj' obj p] by (simp add: pool_known_def)

lemma getPool_bound: "getPool obj p = (st, Some i) \<Longrightarrow> i < length (poolMap0 obj) \<and> st = RcmServer_S_SUCCESS"
  by (auto simp: getPool_def Let_def split: if_splits)

section \<open>Jobs with distinct ids\<close>

lemma update_job_distinct:
  "distinct (map job_id jobs) \<Longrightarrow> update_job j f jobs = map (\<lambda>job. if job_id job = j then f job else job) jobs"
proof (induction jobs)
  case (Cons job jobs)
  have "\<forall>x \<in> set jobs. job_id x \<noteq> job_id job" using Cons.prems by (auto simp: image_iff)
  then have "map (\<lambda>x. if job_id x = j then f x else x) jobs = jobs" if "job_id job = j"
    using that by (intro map_idI) auto
  with Cons show ?case by auto
qed simp

lemma update_job_ids: "(\<And>job. job_id (f job) = job_id job) \<Longrightarrow> map job_id (update_job j f jobs) = map job_id jobs"
  by (induction jobs) auto

lemma find_job_Some: "find_job j obj = Some job \<Longrightarrow> job \<in> set (jobList obj) \<and> job_id job = j"
  by (auto simp: find_job_def find_Some_iff)

lemma find_job_None: "find_job j obj = None \<longleftrightarrow> j \<notin> job_id ` set (jobList obj)"
  by (auto simp: find_job_def find_None_iff)

lemma distinct_job:
  "distinct (map job_id jobs) \<Longrightarrow> a \<in> set jobs \<Longrightarrow> b \<in> set jobs \<Longrightarrow> job_id a = job_id b \<Longrightarrow> a = b"
  by (simp add: distinct_map inj_on_def)

lemma take_job_distinct:
  "distinct (map job_id jobs) \<Longrightarrow>
   take_job j jobs = (case List.find (\<lambda>job. job_id job = j) jobs of
     None \<Rightarrow> None | Some job \<Rightarrow> Some (job, filter (\<lambda>job. job_id job \<noteq> j) jobs))"
proof (induction jobs)
  case (Cons job jobs)
  have "\<forall>x \<in> set jobs. job_id x \<noteq> job_id job" using Cons.prems by (auto simp: image_iff)
  then have "filter (\<lambda>x. job_id x \<noteq> j) jobs = jobs" if "job_id job = j"
    using that by (auto simp: filter_id_conv)
  with Cons show ?case by (auto split: option.splits)
qed simp

section \<open>The operations keep the invariant\<close>

lemma streams_make_ready:
  assumes inv: "streams_inv obj R acc sta n" and m: "make_ready True i p obj = (st, obj')" and i: "i < length (poolMap0 obj)"
    and z: "msg_jobId p = 0"
  shows "streams_inv obj' R (acc @ [p]) sta n"
proof -
  note r = make_ready_jobs [OF m i]
  have "of_job j (ready_of obj') = of_job j (ready_of obj)" if "j \<noteq> 0" for j using r(1) [of j] z that by auto
  then have "in_flight obj' R j = in_flight obj R j" "order_inv obj' (acc @ [p]) sta j = order_inv obj acc sta j" if "j \<noteq> 0" for j
    using that r(4) z by (auto simp: in_flight_def order_inv_def)
  note same = this
  have "job_inv obj' R job" if "job_inv obj R job" for job
    using that same(1) [of "job_id job"] pool_known_cong [OF r(6)] unfolding job_inv_def by simp
  moreover have "ids_inv obj' (acc @ [p]) n" using inv r(4,5) z by (simp add: streams_inv_def ids_inv_def)
  ultimately show ?thesis using inv same r(4) by (simp add: streams_inv_def)
qed

lemma set_job_fields [simp]:
  "ready_of (set_job j f obj) = ready_of obj" "poolMap0 (set_job j f obj) = poolMap0 obj"
  "last_jobId (set_job j f obj) = last_jobId obj" "in_flight (set_job j f obj) R = in_flight obj R"
  "pool_known (set_job j f obj) = pool_known obj"
  by (auto simp: set_job_def ready_of_def in_flight_def fun_eq_iff pool_known_def getPool_def)

lemma set_job_list:
  "distinct (map job_id (jobList obj)) \<Longrightarrow>
   jobList (set_job j f obj) = map (\<lambda>job. if job_id job = j then f job else job) (jobList obj)"
  by (simp add: set_job_def update_job_distinct)

text \<open>Changing the stream of one job, with what is in flight of it: the other jobs do not notice.\<close>

lemma streams_change_job:
  assumes inv: "streams_inv obj R acc sta n"
    and job: "job \<in> set (jobList obj)" "job_id job = j"
    and list: "jobList obj' = map (\<lambda>x. if job_id x = j then job' else x) (jobList obj)" "job_id job' = j"
    and same: "length (poolMap0 obj') = length (poolMap0 obj)" "last_jobId obj' = last_jobId obj"
      "\<And>k. k \<noteq> j \<Longrightarrow> of_job k (ready_of obj') = of_job k (ready_of obj)"
      "\<And>k. k \<noteq> j \<Longrightarrow> k \<noteq> 0 \<Longrightarrow> R' k = R k"
      "\<And>k. k \<noteq> j \<Longrightarrow> of_job k acc' = of_job k acc" "set acc' \<subseteq> set acc \<union> {p. msg_jobId p = j}"
    and new: "job_inv obj' R' job'" "of_job j acc' = of_job j sta @ of_job j (ready_of obj') @ msgQue job'"
  shows "streams_inv obj' R' acc' sta n"
proof -
  have j: "j \<noteq> 0" "unat j \<le> n" using inv job by (auto simp: streams_inv_def job_inv_def ids_inv_def)
  have d: "distinct (map job_id (jobList obj))" using inv by (simp add: streams_inv_def)
  have ids: "map job_id (jobList obj') = map job_id (jobList obj)" using list job by auto
  have fl: "in_flight obj' R' k = in_flight obj R k" if "k \<noteq> j" "k \<noteq> 0" for k
    using that same by (simp add: in_flight_def)
  have "job_inv obj' R' x" if x: "x \<in> set (jobList obj')" for x
  proof (cases "job_id x = j")
    case True
    with x list have "x = job'" by auto
    with new show ?thesis by simp
  next
    case False
    with x list have "x \<in> set (jobList obj)" by auto
    then have "job_inv obj R x" using inv by (simp add: streams_inv_def)
    with fl [of "job_id x"] False pool_known_cong [OF same(1)] show ?thesis unfolding job_inv_def by simp
  qed
  moreover have "in_flight obj' R' k \<le> 1 \<and> order_inv obj' acc' sta k \<and> (in_flight obj' R' k \<noteq> 0 \<longrightarrow> unat k \<le> n)" if k: "k \<noteq> 0" for k
  proof (cases "k = j")
    case True
    have "in_flight obj' R' j \<le> 1" using new(1) list(2) by (auto simp: job_inv_def split: if_splits)
    moreover have "order_inv obj' acc' sta j" using new(2) list by (auto simp: order_inv_def)
    ultimately show ?thesis using True j by simp
  next
    case False
    have "(\<forall>x \<in> set (jobList obj'). job_id x = k \<longrightarrow> rest = msgQue x) = (\<forall>x \<in> set (jobList obj). job_id x = k \<longrightarrow> rest = msgQue x)" for rest
      using False list by auto
    then have "order_inv obj' acc' sta k = order_inv obj acc sta k" using False same by (simp add: order_inv_def)
    with fl [OF False k] inv k show ?thesis by (simp add: streams_inv_def)
  qed
  moreover have "\<forall>p \<in> set acc'. unat (msg_jobId p) \<le> n"
    using same(6) inv j(2) by (auto simp: streams_inv_def ids_inv_def)
  moreover have "\<forall>x \<in> set (jobList obj'). unat (job_id x) \<le> n"
    using inv list j(2) by (auto simp: streams_inv_def ids_inv_def)
  ultimately show ?thesis
    using inv ids d same(2) unfolding streams_inv_def ids_inv_def by simp
qed

lemma streams_dispatch:
  assumes inv: "streams_inv obj R acc sta n" and d: "dispatch True obj p = (st, obj')"
  shows "streams_inv obj' R (if st \<ge> 0 then acc @ [p] else acc) sta n"
proof (cases "snd (getPool obj p)")
  case None
  then have "st = fst (getPool obj p)" "obj' = obj" "fst (getPool obj p) < 0"
    using d by (auto simp: dispatch_def getPool_def Let_def rcm_codes split: prod.splits if_splits)
  with inv show ?thesis by simp
next
  case (Some i)
  then have gp: "getPool obj p = (RcmServer_S_SUCCESS, Some i)" and i: "i < length (poolMap0 obj)"
    using getPool_bound [of obj p _ i] by (cases "getPool obj p"; auto)+
  have dj: "distinct (map job_id (jobList obj))" using inv by (simp add: streams_inv_def)
  show ?thesis
  proof (cases "msg_jobId p = 0")
    case True
    then have m: "make_ready True i p obj = (st, obj')"
      using d gp by (simp add: dispatch_def RcmClient_DISCRETEJOBID_def)
    with streams_make_ready [OF inv m i True] make_ready_jobs(7) [OF m i] show ?thesis by (simp add: rcm_codes)
  next
    case nz: False
    show ?thesis
    proof (cases "find_job (msg_jobId p) obj")
      case None
      with d gp nz have "st = RcmServer_E_JobIdNotFound" "obj' = obj"
        by (simp_all add: dispatch_def RcmClient_DISCRETEJOBID_def)
      with inv show ?thesis by (simp add: rcm_codes)
    next
      case (Some job)
      then have job: "job \<in> set (jobList obj)" "job_id job = msg_jobId p" using find_job_Some by auto
      have jinv: "job_inv obj R job" using inv job by (simp add: streams_inv_def)
      obtain rest where o: "of_job (msg_jobId p) acc = of_job (msg_jobId p) sta @ of_job (msg_jobId p) (ready_of obj) @ rest" "rest = msgQue job"
        using inv job nz unfolding streams_inv_def order_inv_def by blast
      have all: "x = job" if "x \<in> set (jobList obj)" "job_id x = msg_jobId p" for x
        using distinct_job [OF dj that(1) job(1)] that job by simp
      show ?thesis
      proof (cases "job_empty job")
        case True
        let ?f = "job_empty_update (\<lambda>_. False)"
        let ?o = "set_job (msg_jobId p) ?f obj"
        have m: "make_ready True i p ?o = (st, obj')"
          using d gp nz Some True by (simp add: dispatch_def RcmClient_DISCRETEJOBID_def Let_def)
        note r = make_ready_jobs [OF m, simplified, OF i]
        have e: "msgQue job = []" "of_job (msg_jobId p) (ready_of obj) = []" "R (msg_jobId p) = 0"
          using jinv True job by (auto simp: job_inv_def in_flight_def)
        have "streams_inv obj' R (acc @ [p]) sta n"
        proof (rule streams_change_job [OF inv job, where job' = "?f job"])
          show "jobList obj' = map (\<lambda>x. if job_id x = msg_jobId p then ?f job else x) (jobList obj)"
            using r(4) set_job_list [OF dj] all by auto
          show "job_inv obj' R (?f job)"
            using e r(2) job nz by (simp add: job_inv_def in_flight_def)
          show "of_job k (ready_of obj') = of_job k (ready_of obj)" if "k \<noteq> msg_jobId p" for k
            using r(1) [of k] that by auto
        qed (use r o e job in auto)
        with r(7) show ?thesis by (simp add: rcm_codes)
      next
        case False
        let ?f = "\<lambda>job. job \<lparr> msgQue := msgQue job @ [p] \<rparr>"
        have st: "st = RcmServer_S_SUCCESS" and obj': "obj' = set_job (msg_jobId p) ?f obj"
          using d gp nz Some False by (simp_all add: dispatch_def RcmClient_DISCRETEJOBID_def Let_def)
        have "streams_inv obj' R (acc @ [p]) sta n"
        proof (rule streams_change_job [OF inv job, where job' = "?f job"])
          show "jobList obj' = map (\<lambda>x. if job_id x = msg_jobId p then ?f job else x) (jobList obj)"
            unfolding obj' set_job_list [OF dj] using all by auto
          show "job_inv obj' R (?f job)"
            using jinv False job nz gp by (simp add: job_inv_def obj' pool_known_def)
        qed (use o job in \<open>auto simp: obj'\<close>)
        with st show ?thesis by (simp add: rcm_codes)
      qed
    qed
  qed
qed

lemma streams_same_jobs:
  assumes inv: "streams_inv obj R acc sta n"
    and same: "jobList obj' = jobList obj" "last_jobId obj' = last_jobId obj" "length (poolMap0 obj') = length (poolMap0 obj)"
    and fl: "\<And>j. j \<noteq> 0 \<Longrightarrow> in_flight obj' R' j = in_flight obj R j"
    and o: "\<And>j. j \<noteq> 0 \<Longrightarrow> order_inv obj acc sta j \<Longrightarrow> order_inv obj' acc sta' j"
  shows "streams_inv obj' R' acc sta' n"
proof -
  have "job_inv obj' R' job" if "job_inv obj R job" for job
    using that fl [of "job_id job"] pool_known_cong [OF same(3)] unfolding job_inv_def by simp
  with assms show ?thesis by (simp add: streams_inv_def ids_inv_def)
qed

text \<open>A worker takes the first packet of a ready queue.\<close>

definition take_ready :: "nat \<Rightarrow> RcmClient_Packet list \<Rightarrow> RcmServer_Object \<Rightarrow> RcmServer_Object" where
  "take_ready i ps obj = obj \<lparr> poolMap0 := (poolMap0 obj)[i := (poolMap0 obj ! i) \<lparr> readyQueue := ps \<rparr>] \<rparr>"

lemma take_ready_fields [simp]:
  "jobList (take_ready i ps obj) = jobList obj" "last_jobId (take_ready i ps obj) = last_jobId obj"
  "length (poolMap0 (take_ready i ps obj)) = length (poolMap0 obj)"
  by (simp_all add: take_ready_def)

definition busy_with :: "RcmClient_Packet \<Rightarrow> (u16 \<Rightarrow> nat) \<Rightarrow> u16 \<Rightarrow> nat" where
  "busy_with p R j = (if j \<noteq> 0 \<and> msg_jobId p = j then Suc (R j) else R j)"

lemma streams_fetch:
  assumes inv: "streams_inv obj R acc sta n" and i: "i < length (poolMap0 obj)" and q: "readyQueue (poolMap0 obj ! i) = p # ps"
  shows "streams_inv (take_ready i ps obj) (busy_with p R) acc (sta @ [p]) n"
proof -
  obtain A B where ab: "ready_of obj = A @ readyQueue (poolMap0 obj ! i) @ B"
    "\<And>pool. ready_of (obj \<lparr> poolMap0 := (poolMap0 obj)[i := pool] \<rparr>) = A @ readyQueue pool @ B"
    by (rule ready_split [OF i]) blast
  have r: "ready_of obj = A @ p # ps @ B" "ready_of (take_ready i ps obj) = A @ ps @ B"
    using ab q by (simp_all add: take_ready_def)
  show ?thesis
  proof (rule streams_same_jobs [OF inv])
    fix j :: u16
    assume j: "j \<noteq> 0"
    show "in_flight (take_ready i ps obj) (busy_with p R) j = in_flight obj R j"
      using j by (simp add: in_flight_def r busy_with_def)
    assume o: "order_inv obj acc sta j"
    have "of_job j A = []" if "msg_jobId p = j"
    proof -
      have "in_flight obj R j \<le> 1" using inv j by (simp add: streams_inv_def)
      with that show ?thesis by (simp add: in_flight_def r)
    qed
    with o show "order_inv (take_ready i ps obj) acc (sta @ [p]) j"
      by (cases "msg_jobId p = j") (auto simp: order_inv_def r)
  qed simp_all
qed

lemma first_try:
  assumes inv: "ids_inv obj acc n" and n: "n < 65535"
  shows "try_jobIds 0xFFFF (jobList obj) 0 (last_jobId obj) = (word_of_nat (Suc n), word_of_nat (Suc n))"
    "unat (word_of_nat (Suc n) :: u16) = Suc n"
proof -
  show u: "unat (word_of_nat (Suc n) :: u16) = Suc n"
    using n by (simp only: unat_of_nat) (simp add: take_bit_nat_eq_self del: of_nat_Suc)
  have "unat (next_jobId (last_jobId obj)) = Suc n"
  proof (cases "n = 0")
    case True
    with inv show ?thesis by (simp add: unat_next_jobId ids_inv_def)
  next
    case False
    then have "unat (last_jobId obj) = n" using inv n by (simp add: ids_inv_def unat_of_nat take_bit_nat_eq_self)
    with n show ?thesis by (simp add: unat_next_jobId)
  qed
  then have nx: "next_jobId (last_jobId obj) = word_of_nat (Suc n)" using u word_unat_eq_iff by metis
  have "\<not> list_ex (\<lambda>job. word_of_nat (Suc n) = job_id job) (jobList obj)"
  proof
    assume "list_ex (\<lambda>job. word_of_nat (Suc n) = job_id job) (jobList obj)"
    then obtain job where "job \<in> set (jobList obj)" "job_id job = word_of_nat (Suc n)" by (auto simp: list_ex_iff simp del: of_nat_Suc)
    with inv u have "Suc n \<le> n" unfolding ids_inv_def by metis
    then show False by simp
  qed
  moreover have "(0xFFFF :: nat) = Suc 65534" by simp
  moreover have "next_jobId (last_jobId obj) \<noteq> RcmClient_DISCRETEJOBID" by (simp add: RcmClient_DISCRETEJOBID_def)
  ultimately show "try_jobIds 0xFFFF (jobList obj) 0 (last_jobId obj) = (word_of_nat (Suc n), word_of_nat (Suc n))"
    by (simp only: try_jobIds.simps Let_def nx if_False simp_thms) simp
qed

lemma streams_acquire:
  assumes inv: "streams_inv obj R acc sta n" and n: "n < 65535" and a: "acqJobId m g obj = (st, jo, obj')"
  shows "streams_inv obj' R acc sta (Suc n)"
proof -
  define t where "t = (word_of_nat (Suc n) :: u16)"
  have ids: "ids_inv obj acc n" using inv by (simp add: streams_inv_def)
  have t: "unat t = Suc n" and tr: "try_jobIds 0xFFFF (jobList obj) 0 (last_jobId obj) = (t, t)"
    using first_try [OF ids n] by (simp_all add: t_def)
  have tnz: "t \<noteq> 0" using t by auto
  have o: "jobList obj' = jobList obj \<or> jobList obj' = jobList obj @ [new_job t]" "last_jobId obj' = t" "poolMap0 obj' = poolMap0 obj"
    using a tr tnz by (auto simp: acqJobId_def Let_def RcmClient_DISCRETEJOBID_def split: if_splits)
  have ready: "ready_of obj' = ready_of obj" using o(3) by (simp add: ready_of_def)
  have fl: "in_flight obj' R = in_flight obj R" by (simp add: in_flight_def ready fun_eq_iff)
  have z: "in_flight obj R t = 0" using inv t tnz unfolding streams_inv_def by (metis Suc_n_not_le_n)
  have none: "of_job t acc = []" using ids t by (auto simp: ids_inv_def of_job_def filter_empty_conv)
  have nid: "t \<notin> job_id ` set (jobList obj)" using ids t by (fastforce simp: ids_inv_def)
  have ji: "job_inv obj' R job" if "job_inv obj R job" for job
    using that fl pool_known_cong [of obj' obj] o(3) unfolding job_inv_def by simp
  have "job_inv obj' R job" if "job \<in> set (jobList obj')" for job
  proof -
    have "job_inv obj' R (new_job t)" using z fl tnz by (simp add: job_inv_def new_job_def)
    moreover have "job = new_job t \<or> job \<in> set (jobList obj)" using that o(1) by auto
    ultimately show ?thesis using inv ji unfolding streams_inv_def by blast
  qed
  moreover have "distinct (map job_id (jobList obj'))"
    using o(1) inv nid by (auto simp: streams_inv_def new_job_def)
  moreover have "order_inv obj' acc sta j" if j: "j \<noteq> 0" for j
  proof -
    have "order_inv obj acc sta j" using inv j by (simp add: streams_inv_def)
    then obtain rest where rest: "of_job j acc = of_job j sta @ of_job j (ready_of obj) @ rest"
      "\<forall>job \<in> set (jobList obj). job_id job = j \<longrightarrow> rest = msgQue job" by (auto simp: order_inv_def)
    moreover have "rest = msgQue (new_job t)" if "j = t" using that rest(1) none by (simp add: new_job_def)
    ultimately show ?thesis
      unfolding order_inv_def ready using o(1) by (intro exI [of _ rest]) (auto simp: new_job_def)
  qed
  moreover have "ids_inv obj' acc (Suc n)"
  proof -
    have "unat (job_id job) \<le> Suc n" if "job \<in> set (jobList obj')" for job
      using that o(1) ids t by (fastforce simp: ids_inv_def new_job_def)
    moreover have "\<forall>p \<in> set acc. unat (msg_jobId p) \<le> Suc n" using ids by (auto simp: ids_inv_def intro: le_SucI)
    ultimately show ?thesis unfolding ids_inv_def o(2) using n by (simp add: t_def)
  qed
  ultimately show ?thesis
    using inv fl unfolding streams_inv_def by (auto intro: le_SucI)
qed

lemma streams_release:
  assumes inv: "streams_inv obj R acc sta n" and r: "relJobId g obj j = (st, back, obj')"
  shows "streams_inv obj' R acc sta n"
proof -
  have d: "distinct (map job_id (jobList obj))" using inv by (simp add: streams_inv_def)
  have o: "jobList obj' = jobList obj \<or> jobList obj' = filter (\<lambda>job. job_id job \<noteq> j) (jobList obj)"
    "last_jobId obj' = last_jobId obj" "poolMap0 obj' = poolMap0 obj"
    using r by (auto simp: relJobId_def take_job_distinct [OF d] split: option.splits)
  have fl: "in_flight obj' R = in_flight obj R" and ready: "ready_of obj' = ready_of obj"
    using o(3) by (simp_all add: in_flight_def ready_of_def fun_eq_iff)
  have ji: "job_inv obj' R job" if "job_inv obj R job" for job
    using that fl pool_known_cong [of obj' obj] o(3) unfolding job_inv_def by simp
  have sub: "set (jobList obj') \<subseteq> set (jobList obj)" using o(1) by auto
  have "order_inv obj' acc sta k" if "order_inv obj acc sta k" for k
    using that sub unfolding order_inv_def ready by blast
  moreover have "distinct (map job_id (jobList obj'))" using o(1) d by (auto simp: distinct_map_filter)
  moreover have "ids_inv obj' acc n" using inv o(2) sub unfolding streams_inv_def ids_inv_def by auto
  ultimately show ?thesis using inv fl ji sub unfolding streams_inv_def by auto
qed

lemma streams_advance:
  assumes inv: "streams_inv obj R acc sta n" and j: "j \<noteq> 0" and R: "0 < R j"
  shows "\<exists>obj'. advance_job True j obj = Some ([], False, obj') \<and> streams_inv obj' (R(j := R j - 1)) acc sta n"
proof -
  have d: "distinct (map job_id (jobList obj))" using inv by (simp add: streams_inv_def)
  show ?thesis
  proof (cases "find_job j obj")
    case None
    then have nid: "job_id job \<noteq> j" if "job \<in> set (jobList obj)" for job using that find_job_None by force
    have fl: "in_flight obj (R(j := R j - 1)) k = (if k = j then in_flight obj R k - 1 else in_flight obj R k)" for k
      using R by (simp add: in_flight_def)
    have "job_inv obj (R(j := R j - 1)) job" if "job \<in> set (jobList obj)" for job
      using that nid [OF that] inv fl [of "job_id job"] unfolding streams_inv_def job_inv_def by simp
    then have "streams_inv obj (R(j := R j - 1)) acc sta n"
      using inv fl unfolding streams_inv_def by (auto split: if_splits intro: le_trans [OF diff_le_self])
    with None show ?thesis by (simp add: advance_job_def)
  next
    case (Some job)
    then have job: "job \<in> set (jobList obj)" "job_id job = j" using find_job_Some by auto
    have jinv: "job_inv obj R job" using inv job by (simp add: streams_inv_def)
    have "in_flight obj R j = 1" and e: "\<not> job_empty job"
      using jinv R job by (auto simp: job_inv_def in_flight_def split: if_splits)
    then have "length (of_job j (ready_of obj)) = 0" "R j = 1" using R unfolding in_flight_def by arith+
    with e have f: "\<not> job_empty job" "R j = 1" "of_job j (ready_of obj) = []" by simp_all
    obtain rest where o: "of_job j acc = of_job j sta @ of_job j (ready_of obj) @ rest" "rest = msgQue job"
      using inv job j unfolding streams_inv_def order_inv_def by blast
    have all: "x = job" if "x \<in> set (jobList obj)" "job_id x = j" for x
      using distinct_job [OF d that(1) job(1)] that job by simp
    show ?thesis
    proof (cases "msgQue job")
      case Nil
      let ?f = "job_empty_update (\<lambda>_. True)"
      have "advance_job True j obj = Some ([], False, set_job j ?f obj)"
        using Some Nil by (simp add: advance_job_def pop_from_def)
      moreover have "streams_inv (set_job j ?f obj) (R(j := R j - 1)) acc sta n"
      proof (rule streams_change_job [OF inv job, where job' = "?f job"])
        show "jobList (set_job j ?f obj) = map (\<lambda>x. if job_id x = j then ?f job else x) (jobList obj)"
          unfolding set_job_list [OF d] using all by auto
        show "job_inv (set_job j ?f obj) (R(j := R j - 1)) (?f job)"
          using Nil f job j by (simp add: job_inv_def in_flight_def)
      qed (use o job in auto)
      ultimately show ?thesis by blast
    next
      case (Cons p ps)
      let ?f = "msgQue_update (\<lambda>_. ps)"
      let ?o = "set_job j ?f obj"
      have p: "msg_jobId p = j" "pool_known obj p" using jinv Cons job by (auto simp: job_inv_def)
      then obtain i where gp: "getPool obj p = (RcmServer_S_SUCCESS, Some i)" "i < length (poolMap0 obj)"
        using getPool_bound [of obj p] by (cases "getPool obj p") (auto simp: pool_known_def)
      then have gp': "getPool ?o p = (RcmServer_S_SUCCESS, Some i)" using getPool_cong [of ?o obj p] by simp
      obtain st obj' where m: "make_ready True i p ?o = (st, obj')" by fastforce
      note r = make_ready_jobs [OF m, simplified, OF gp(2)]
      have "advance_job True j obj = Some ([], False, obj')"
        using Some Cons gp' m r(7) by (simp add: advance_job_def pop_from_def rcm_codes)
      moreover have "streams_inv obj' (R(j := R j - 1)) acc sta n"
      proof (rule streams_change_job [OF inv job, where job' = "?f job"])
        show "jobList obj' = map (\<lambda>x. if job_id x = j then ?f job else x) (jobList obj)"
          using r(4) set_job_list [OF d] all by auto
        show "job_inv obj' (R(j := R j - 1)) (?f job)"
          using jinv f r(2,6) Cons p job pool_known_cong [of obj' obj] by (auto simp: job_inv_def in_flight_def)
        show "of_job k (ready_of obj') = of_job k (ready_of obj)" if "k \<noteq> j" for k
          using r(1) [of k] that p by auto
      qed (use r o p f job Cons in auto)
      ultimately show ?thesis by blast
    qed
  qed
qed

end
