(* ===== verification/Rcm_Workers.thy ===== *)
theory Rcm_Workers
  imports Rcm_Streams
begin

text \<open>
  The server thread and the worker threads of \<open>RcmServer.c\<close> as one system: a step is the server thread taking in a
  message, or one worker moving on. A worker (\<open>_RcmServer_workerThrFxn\<close>) waits on the semaphore of its pool, takes
  the first packet of the ready queue, processes it and, after a job message, passes the job on. The steps
  between these points are those that the gates and the semaphore of the code make atomic. The lists
  \<open>accepted\<close> (packets that were queued for the pools), \<open>started\<close> (packets that workers took up) and the number
  \<open>attempts\<close> of job ids requested are history; they do not influence the steps. Posting a semaphore succeeds
  (the code reports a failure and goes on; \<open>failed_post_spins\<close> shows what follows), and the server is not being
  deleted.
\<close>

datatype worker_pc = Waiting | Fetching | Running RcmClient_Packet | Advancing u16

record rcm_system =
  server :: RcmServer_Object
  workers :: "(nat \<times> worker_pc) list"
  accepted :: "RcmClient_Packet list"
  started :: "RcmClient_Packet list"
  attempts :: nat
  events :: "rcm_event list"

definition requests_job :: "RcmClient_Packet \<Rightarrow> nat" where
  "requests_job p = (if messageType p = RcmClient_Desc_JOB_ACQ then 1 else 0)"

definition pend :: "nat \<Rightarrow> RcmServer_Object \<Rightarrow> RcmServer_Object" where
  "pend i obj = obj \<lparr> poolMap0 := (poolMap0 obj)[i := sem_update (\<lambda>n. n - 1) (poolMap0 obj ! i)] \<rparr>"

inductive rcm_step :: "rcm_env \<Rightarrow> rcm_system \<Rightarrow> rcm_system \<Rightarrow> bool" for env where
  in_band: "in_band (server s) p \<Longrightarrow> process env (server s) p = Inr (ev, obj) \<Longrightarrow>
     rcm_step env s (s \<lparr> server := obj, attempts := attempts s + requests_job p, events := events s @ ev \<rparr>)"
| queued: "\<not> in_band (server s) p \<Longrightarrow> server_step env True (server s) p = Inr (ev, obj) \<Longrightarrow>
     rcm_step env s (s \<lparr> server := obj, events := events s @ ev,
       accepted := (if fst (dispatch True (server s) p) \<ge> 0 then accepted s @ [p] else accepted s) \<rparr>)"
| wake: "w < length (workers s) \<Longrightarrow> workers s ! w = (i, Waiting) \<Longrightarrow> 0 < sem (poolMap0 (server s) ! i) \<Longrightarrow>
     rcm_step env s (s \<lparr> server := pend i (server s), workers := (workers s)[w := (i, Fetching)] \<rparr>)"
| fetch: "w < length (workers s) \<Longrightarrow> workers s ! w = (i, Fetching) \<Longrightarrow> readyQueue (poolMap0 (server s) ! i) = p # ps \<Longrightarrow>
     rcm_step env s (s \<lparr> server := take_ready i ps (server s), workers := (workers s)[w := (i, Running p)],
       started := started s @ [p] \<rparr>)"
| fetch_nothing: "w < length (workers s) \<Longrightarrow> workers s ! w = (i, Fetching) \<Longrightarrow> readyQueue (poolMap0 (server s) ! i) = [] \<Longrightarrow>
     rcm_step env s (s \<lparr> workers := (workers s)[w := (i, Waiting)] \<rparr>)"
| run: "w < length (workers s) \<Longrightarrow> workers s ! w = (i, Running p) \<Longrightarrow> process env (server s) p = Inr (ev, obj) \<Longrightarrow>
     rcm_step env s (s \<lparr> server := obj, events := events s @ ev, attempts := attempts s + requests_job p,
       workers := (workers s)[w := (i, if msg_jobId p = RcmClient_DISCRETEJOBID then Waiting else Advancing (msg_jobId p))] \<rparr>)"
| advance: "w < length (workers s) \<Longrightarrow> workers s ! w = (i, Advancing j) \<Longrightarrow>
     advance_job True j (server s) = Some (sent, holds, obj) \<Longrightarrow>
     rcm_step env s (s \<lparr> server := obj, events := events s @ map Reply sent,
       workers := (workers s)[w := (i, if holds then Fetching else Waiting)] \<rparr>)"

text \<open>The system as \<open>_RcmServer_Instance_init\<close> sets it up.\<close>

definition rcm_start :: "rcm_system \<Rightarrow> bool" where
  "rcm_start s \<longleftrightarrow>
     jobList (server s) = [] \<and> last_jobId (server s) = 0xFFFF \<and>
     (\<forall>pool \<in> set (poolMap0 (server s)). readyQueue pool = [] \<and> sem pool = 0) \<and>
     (\<forall>w \<in> set (workers s). snd w = Waiting \<and> fst w < length (poolMap0 (server s))) \<and>
     accepted s = [] \<and> started s = [] \<and> attempts s = 0"

inductive rcm_reachable :: "rcm_env \<Rightarrow> rcm_system \<Rightarrow> rcm_system \<Rightarrow> bool" for env s0 where
  start: "rcm_reachable env s0 s0"
| step: "rcm_reachable env s0 s \<Longrightarrow> rcm_step env s t \<Longrightarrow> rcm_reachable env s0 t"

section \<open>What the workers hold\<close>

fun pc_job :: "worker_pc \<Rightarrow> u16" where
  "pc_job (Running p) = msg_jobId p"
| "pc_job (Advancing j) = j"
| "pc_job _ = 0"

definition busy :: "(nat \<times> worker_pc) list \<Rightarrow> u16 \<Rightarrow> nat" where
  "busy ws j = length (filter (\<lambda>w. pc_job (snd w) = j) ws)"

definition fetching :: "(nat \<times> worker_pc) list \<Rightarrow> nat \<Rightarrow> nat" where
  "fetching ws i = length (filter (\<lambda>w. w = (i, Fetching)) ws)"

lemma filter_update_length:
  assumes "w < length ws"
  shows "length (filter P (ws[w := x])) + (if P (ws ! w) then 1 else 0) = length (filter P ws) + (if P x then 1 else 0)"
proof -
  have "ws = take w ws @ ws ! w # drop (Suc w) ws" using assms by (rule id_take_nth_drop)
  then have "length (filter P ws) = length (filter P (take w ws @ ws ! w # drop (Suc w) ws))" by simp
  with assms show ?thesis by (simp add: upd_conv_take_nth_drop)
qed

lemma busy_update:
  "w < length ws \<Longrightarrow> busy (ws[w := x]) j + (if pc_job (snd (ws ! w)) = j then 1 else 0) =
     busy ws j + (if pc_job (snd x) = j then 1 else 0)"
  unfolding busy_def by (rule filter_update_length)

lemma fetching_update:
  "w < length ws \<Longrightarrow> fetching (ws[w := x]) i + (if ws ! w = (i, Fetching) then 1 else 0) =
     fetching ws i + (if x = (i, Fetching) then 1 else 0)"
  unfolding fetching_def by (rule filter_update_length)

lemma streams_inv_busy:
  assumes "streams_inv obj R acc sta n" "\<And>j. j \<noteq> 0 \<Longrightarrow> R' j = R j"
  shows "streams_inv obj R' acc sta n"
  by (rule streams_same_jobs [OF assms(1)]) (use assms(2) in \<open>simp_all add: in_flight_def\<close>)

section \<open>The stream invariant of the system\<close>

lemma keep_object: "map_sum id (\<lambda>ev. (ev, obj)) r = Inr (ev', obj') \<longleftrightarrow> r = Inr ev' \<and> obj' = obj"
  by (cases r) auto

lemma process_streams:
  assumes inv: "streams_inv obj R acc sta n" and p: "process env obj p = Inr (ev, obj')" and n: "n + requests_job p \<le> 65535"
  shows "streams_inv obj' R acc sta (n + requests_job p)"
proof (cases "messageType p = RcmClient_Desc_JOB_ACQ")
  case True
  then have "\<exists>st j. acqJobId (job_mem env) (gate_created env) obj = (st, j, obj')"
    using p by (auto simp: process_def rcm_desc_types Let_def process_job_acq_def bindE_eq_Inr split: prod.splits if_splits)
  with True n streams_acquire [OF inv] show ?thesis by (auto simp: requests_job_def)
next
  case False
  have "obj' = obj \<or> (\<exists>st back j. relJobId (gate_deleted env) obj j = (st, back, obj'))"
    using p False
    by (auto simp: process_def Let_def process_job_rel_def keep_object split: if_splits list.splits prod.splits)
  with inv streams_release [OF inv] False show ?thesis by (auto simp: requests_job_def)
qed

definition system_inv :: "rcm_system \<Rightarrow> bool" where
  "system_inv s \<longleftrightarrow> (attempts s \<le> 65535 \<longrightarrow>
     streams_inv (server s) (busy (workers s)) (accepted s) (started s) (attempts s))"

lemma start_inv: "rcm_start s \<Longrightarrow> system_inv s"
proof -
  assume s: "rcm_start s"
  then have "ready_of (server s) = []" by (auto simp: rcm_start_def ready_of_def)
  moreover have "busy (workers s) j = 0" if "j \<noteq> 0" for j
    using s that by (fastforce simp: rcm_start_def busy_def filter_empty_conv)
  ultimately show ?thesis
    using s by (auto simp: rcm_start_def system_inv_def streams_inv_def ids_inv_def in_flight_def order_inv_def)
qed

lemma step_inv:
  assumes "rcm_step env s t" "system_inv s" "\<forall>w \<in> set (workers s). fst w < length (poolMap0 (server s))"
  shows "system_inv t"
  using assms
proof (cases rule: rcm_step.cases)
  case (in_band p ev obj)
  then show ?thesis
    using assms(2) process_streams [of "server s" _ _ _ _ env p ev obj] by (auto simp: system_inv_def)
next
  case (queued p ev obj)
  then obtain st where "dispatch True (server s) p = (st, obj)"
    by (auto simp: server_step_def split: prod.splits)
  with queued assms(2) streams_dispatch [of "server s" _ _ _ _ p st obj] show ?thesis
    by (auto simp: system_inv_def split: if_splits)
next
  case (wake w i)
  have "i < length (poolMap0 (server s))" using wake(2,3) assms(3) nth_mem by fastforce
  then obtain A B where ab: "ready_of (server s) = A @ readyQueue (poolMap0 (server s) ! i) @ B"
    "\<And>pool. ready_of (server s \<lparr> poolMap0 := (poolMap0 (server s))[i := pool] \<rparr>) = A @ readyQueue pool @ B"
    by (rule ready_split) blast
  have r: "ready_of (pend i (server s)) = ready_of (server s)" unfolding pend_def ab(2) by (simp add: ab(1))
  have b: "busy ((workers s)[w := (i, Fetching)]) j = busy (workers s) j" if "j \<noteq> 0" for j
    using busy_update [OF wake(2), of "(i, Fetching)" j] wake(3) that by simp
  have "streams_inv (pend i (server s)) (busy ((workers s)[w := (i, Fetching)])) (accepted s) (started s) (attempts s)"
    if "streams_inv (server s) (busy (workers s)) (accepted s) (started s) (attempts s)"
    by (rule streams_same_jobs [OF that]) (use r b in \<open>simp_all add: in_flight_def order_inv_def pend_def\<close>)
  with assms(2) wake(1) show ?thesis by (simp add: system_inv_def)
next
  case (fetch w i p ps)
  have i: "i < length (poolMap0 (server s))" using fetch(2,3) assms(3) nth_mem by fastforce
  have b: "busy ((workers s)[w := (i, Running p)]) j = busy_with p (busy (workers s)) j" if "j \<noteq> 0" for j
    using busy_update [OF fetch(2), of "(i, Running p)" j] fetch(3) that by (simp add: busy_with_def)
  have "streams_inv (take_ready i ps (server s)) (busy ((workers s)[w := (i, Running p)])) (accepted s) (started s @ [p]) (attempts s)"
    if "streams_inv (server s) (busy (workers s)) (accepted s) (started s) (attempts s)"
    using streams_inv_busy [OF streams_fetch [OF that i fetch(4)]] b by blast
  with assms(2) fetch(1) show ?thesis by (simp add: system_inv_def)
next
  case (fetch_nothing w i)
  have b: "busy ((workers s)[w := (i, Waiting)]) j = busy (workers s) j" if "j \<noteq> 0" for j
    using busy_update [OF fetch_nothing(2), of "(i, Waiting)" j] fetch_nothing(3) that by simp
  with assms(2) fetch_nothing(1) streams_inv_busy show ?thesis by (simp add: system_inv_def) blast
next
  case (run w i p ev obj)
  let ?pc = "if msg_jobId p = RcmClient_DISCRETEJOBID then Waiting else Advancing (msg_jobId p)"
  have b: "busy ((workers s)[w := (i, ?pc)]) j = busy (workers s) j" if "j \<noteq> 0" for j
    using busy_update [OF run(2), of "(i, ?pc)" j] run(3) that by (auto simp: RcmClient_DISCRETEJOBID_def)
  have "streams_inv obj (busy ((workers s)[w := (i, ?pc)])) (accepted s) (started s) (attempts s + requests_job p)"
    if "attempts s + requests_job p \<le> 65535"
    using streams_inv_busy [OF process_streams [OF _ run(4) that], of "busy (workers s)"] assms(2) that b
    unfolding system_inv_def by (metis add_leD1)
  with run(1) show ?thesis by (simp add: system_inv_def)
next
  case (advance w i j sent holds obj)
  let ?ws = "(workers s)[w := (i, if holds then Fetching else Waiting)]"
  have inv: "streams_inv (server s) (busy (workers s)) (accepted s) (started s) (attempts s)" if "attempts s \<le> 65535"
    using that assms(2) by (simp add: system_inv_def)
  have "streams_inv obj (busy ?ws) (accepted s) (started s) (attempts s)" if a: "attempts s \<le> 65535"
  proof (cases "j = 0")
    case True
    have "find_job 0 (server s) = None"
      using inv [OF a] by (auto simp: find_job_None streams_inv_def job_inv_def)
    with advance(4) True have "obj = server s" "\<not> holds" by (auto simp: advance_job_def)
    moreover have "busy ?ws k = busy (workers s) k" if "k \<noteq> 0" for k
      using busy_update [OF advance(2), of "(i, if holds then Fetching else Waiting)" k] advance(3) that True by auto
    ultimately show ?thesis using streams_inv_busy [OF inv [OF a]] by simp
  next
    case False
    have bj: "busy ?ws k = ((busy (workers s))(j := busy (workers s) j - 1)) k" if "k \<noteq> 0" for k
      using busy_update [OF advance(2), of "(i, if holds then Fetching else Waiting)" k] advance(3) that by auto
    have "0 < busy (workers s) j"
      using busy_update [OF advance(2), of "(i, Waiting)" j] advance(3) False by simp
    from streams_advance [OF inv [OF a] False this] advance(4)
    have "streams_inv obj ((busy (workers s))(j := busy (workers s) j - 1)) (accepted s) (started s) (attempts s)"
      by auto
    from streams_inv_busy [OF this] bj show ?thesis by blast
  qed
  with advance(1) show ?thesis by (simp add: system_inv_def)
qed

section \<open>The pools\<close>

definition workers_ok :: "rcm_system \<Rightarrow> bool" where
  "workers_ok s \<longleftrightarrow> (\<forall>w \<in> set (workers s). fst w < length (poolMap0 (server s)))"

text \<open>Packets on a ready queue that no post of the semaphore stands for.\<close>

definition backlog :: "RcmServer_Object \<Rightarrow> nat \<Rightarrow> int" where
  "backlog obj i = int (length (readyQueue (poolMap0 obj ! i))) - int (sem (poolMap0 obj ! i))"

definition wake_inv :: "rcm_system \<Rightarrow> bool" where
  "wake_inv s \<longleftrightarrow> (\<forall>i < length (poolMap0 (server s)). backlog (server s) i \<le> int (fetching (workers s) i))"

lemma process_pools: "process env obj p = Inr (ev, obj') \<Longrightarrow> poolMap0 obj' = poolMap0 obj"
  by (auto simp: process_def Let_def keep_object process_job_rel_def relJobId_def process_job_acq_def acqJobId_def bindE_eq_Inr
      split: if_splits list.splits prod.splits option.splits)

lemma make_ready_backlog:
  "make_ready True k p obj = (st, obj') \<Longrightarrow> length (poolMap0 obj') = length (poolMap0 obj) \<and> (i < length (poolMap0 obj) \<longrightarrow> backlog obj' i = backlog obj i)"
  by (cases "k = i") (auto simp: make_ready_def Let_def backlog_def)

lemma set_job_backlog [simp]: "backlog (set_job j f obj) i = backlog obj i"
  by (simp add: backlog_def)

lemma dispatch_backlog:
  assumes "dispatch True obj p = (st, obj')"
  shows "length (poolMap0 obj') = length (poolMap0 obj) \<and> (i < length (poolMap0 obj) \<longrightarrow> backlog obj' i = backlog obj i)"
  using assms
  by (auto simp: dispatch_def Let_def dest: make_ready_backlog [where i = i] split: prod.splits option.splits if_splits)

lemma advance_loop_backlog:
  "advance_loop n True j None h obj = Some (sent, h', obj') \<Longrightarrow>
   length (poolMap0 obj') = length (poolMap0 obj) \<and> (i < length (poolMap0 obj) \<longrightarrow> backlog obj' i = backlog obj i)"
proof (induction n arbitrary: obj h sent h')
  case (Suc n)
  show ?case
  proof (cases "pop_from j None obj")
    case None
    with Suc.prems show ?thesis by auto
  next
    case (Some r)
    then obtain p f where r: "r = (p, set_job j f obj)" by (auto simp: pop_from_def split: option.splits list.splits)
    let ?o = "set_job j f obj"
    show ?thesis
    proof (cases "snd (getPool ?o p)")
      case None
      then obtain sent1 h1 where "advance_loop n True j None True ?o = Some (sent1, h1, obj')"
        using Suc.prems Some r by (auto split: prod.splits)
      from Suc.IH [OF this] show ?thesis by simp
    next
      case k: (Some k)
      obtain st obj2 where m: "make_ready True k p ?o = (st, obj2)" by fastforce
      then have "st = RcmServer_S_SUCCESS" by (auto simp: make_ready_def Let_def)
      with Suc.prems Some r k m have "obj' = obj2" by (auto simp: rcm_codes split: prod.splits)
      with make_ready_backlog [OF m, of i] show ?thesis by simp
    qed
  qed
qed simp

lemma advance_job_backlog:
  "advance_job True j obj = Some (sent, h, obj') \<Longrightarrow>
   length (poolMap0 obj') = length (poolMap0 obj) \<and> (i < length (poolMap0 obj) \<longrightarrow> backlog obj' i = backlog obj i)"
  unfolding advance_job_def by (auto split: option.splits simp del: advance_loop.simps dest: advance_loop_backlog [where i = i])

lemma step_poolsI:
  assumes ok: "workers_ok s" "wake_inv s" and w: "w < length (workers s)" "workers s ! w = (i, pc)"
    and t: "workers t = (workers s)[w := (i, pc_new)]" "length (poolMap0 (server t)) = length (poolMap0 (server s))"
    and wake: "\<And>k. k < length (poolMap0 (server s)) \<Longrightarrow> backlog (server s) k \<le> int (fetching (workers s) k) \<Longrightarrow>
      backlog (server t) k \<le> int (fetching ((workers s)[w := (i, pc_new)]) k)"
  shows "workers_ok t \<and> wake_inv t"
proof -
  have "fst x < length (poolMap0 (server s))" if "x \<in> set ((workers s)[w := (i, pc_new)])" for x
    using that ok(1) w set_update_subset_insert nth_mem [OF w(1)] by (fastforce simp: workers_ok_def)
  then have "workers_ok t" using t by (simp add: workers_ok_def)
  moreover have "wake_inv t" using wake ok(2) t by (simp add: wake_inv_def)
  ultimately show ?thesis ..
qed

lemma step_pools:
  assumes s: "rcm_step env s t" and ok: "workers_ok s" "wake_inv s"
  shows "workers_ok t \<and> wake_inv t"
  using s
proof (cases rule: rcm_step.cases)
  case (in_band p ev obj)
  with ok process_pools [OF in_band(3)] show ?thesis by (simp add: workers_ok_def wake_inv_def backlog_def)
next
  case (queued p ev obj)
  then obtain st where "dispatch True (server s) p = (st, obj)" by (auto simp: server_step_def split: prod.splits)
  with queued(1) ok dispatch_backlog [OF this] show ?thesis by (simp add: workers_ok_def wake_inv_def)
next
  case (wake w i)
  have "backlog (pend i (server s)) k = backlog (server s) k + (if k = i then 1 else 0)"
    if "k < length (poolMap0 (server s))" for k
    using wake(4) that by (auto simp: backlog_def pend_def)
  with wake(1) show ?thesis
    by (intro step_poolsI [OF ok wake(2,3)])
      (use fetching_update [OF wake(2), of "(i, Fetching)"] wake(3) in \<open>force simp: pend_def split: if_splits\<close>)+
next
  case (fetch w i p ps)
  have "backlog (take_ready i ps (server s)) k = backlog (server s) k - (if k = i then 1 else 0)"
    if "k < length (poolMap0 (server s))" for k
    using fetch(4) that by (auto simp: backlog_def take_ready_def)
  with fetch(1) show ?thesis
    by (intro step_poolsI [OF ok fetch(2,3)])
      (use fetching_update [OF fetch(2), of "(i, Running p)"] fetch(3) in \<open>force split: if_splits\<close>)+
next
  case (fetch_nothing w i)
  have b: "backlog (server s) i \<le> 0" using fetch_nothing(4) by (simp add: backlog_def)
  have "backlog (server s) k \<le> int (fetching ((workers s)[w := (i, Waiting)]) k)" if "backlog (server s) k \<le> int (fetching (workers s) k)" for k
    using fetching_update [OF fetch_nothing(2), of "(i, Waiting)" k] fetch_nothing(3) b that by (cases "k = i") auto
  with fetch_nothing(1) show ?thesis by (intro step_poolsI [OF ok fetch_nothing(2,3)]) auto
next
  case (run w i p ev obj)
  let ?pc = "if msg_jobId p = RcmClient_DISCRETEJOBID then Waiting else Advancing (msg_jobId p)"
  have "fetching ((workers s)[w := (i, ?pc)]) k = fetching (workers s) k" for k
    using fetching_update [OF run(2), of "(i, ?pc)" k] run(3) by (auto split: if_splits)
  with run(1) process_pools [OF run(4)] show ?thesis
    by (intro step_poolsI [OF ok run(2,3), where pc_new = ?pc]) (simp_all add: backlog_def)
next
  case (advance w i j sent holds obj)
  let ?pc = "if holds then Fetching else Waiting"
  have "fetching (workers s) k \<le> fetching ((workers s)[w := (i, ?pc)]) k" for k
    using fetching_update [OF advance(2), of "(i, ?pc)" k] advance(3) by (auto split: if_splits)
  then have "int (fetching (workers s) k) \<le> int (fetching ((workers s)[w := (i, ?pc)]) k)" for k by simp
  with advance(1) advance_job_backlog [OF advance(4)] show ?thesis
    by (intro step_poolsI [OF ok advance(2,3), where pc_new = ?pc]) (auto intro: order_trans)
qed

lemma reachable_inv:
  assumes "rcm_reachable env s0 s" "rcm_start s0"
  shows "system_inv s \<and> workers_ok s \<and> wake_inv s"
  using assms
proof (induction rule: rcm_reachable.induct)
  case start
  then show ?case
    using start_inv [of s0] nth_mem by (auto simp: rcm_start_def workers_ok_def wake_inv_def backlog_def)
next
  case (step s t)
  then show ?case using step_inv step_pools by (metis workers_ok_def)
qed

section \<open>The loops end\<close>

lemma find_job_set:
  assumes "find_job j obj = Some job" "\<And>job. job_id (f job) = job_id job"
  shows "find_job j (set_job j f obj) = Some (f job)"
proof -
  have "List.find (\<lambda>x. job_id x = j) (update_job j f jobs) = map_option f (List.find (\<lambda>x. job_id x = j) jobs)" for jobs
    using assms(2) by (induction jobs) auto
  with assms(1) show ?thesis by (simp add: find_job_def set_job_def)
qed

lemma advance_loop_ends:
  "find_job j obj = Some job \<Longrightarrow> length (msgQue job) < n \<Longrightarrow> \<exists>r. advance_loop n True j None h obj = Some r"
proof (induction n arbitrary: obj job h)
  case (Suc n)
  show ?case
  proof (cases "msgQue job")
    case Nil
    with Suc.prems show ?thesis by (simp add: pop_from_def)
  next
    case (Cons p ps)
    let ?o = "set_job j (msgQue_update (\<lambda>_. ps)) obj"
    have pop: "pop_from j None obj = Some (p, ?o)" using Suc.prems(1) Cons by (simp add: pop_from_def)
    have "\<exists>r. advance_loop n True j None True ?o = Some r"
      using Suc.IH [of ?o "msgQue_update (\<lambda>_. ps) job"] find_job_set [OF Suc.prems(1)] Suc.prems(2) Cons by auto
    then show ?thesis
      using pop by (auto simp: make_ready_def Let_def rcm_codes split: prod.splits option.splits)
  qed
qed simp

section \<open>Properties\<close>

text \<open>C3: Among the messages that go through the queues of the worker pools, those of one job stream never run at the same time:
  in every state that the server can reach from its start while at most 65535 job ids have been requested (then ids
  are used again), at most one message of a job is on a ready queue, being processed by a worker, or processed
  but not yet passed on. A message for the in-band default pool is processed by the server thread at once, whatever its job id, and is not
  counted (\<open>in_band_overtakes\<close> in \<open>Rcm_Props\<close> is an example).\<close>

theorem job_stream_serialised:
  assumes "rcm_start s0" "rcm_reachable env s0 s" "attempts s \<le> 65535" "j \<noteq> 0"
  shows "length (of_job j (ready_of (server s))) + busy (workers s) j \<le> 1"
  using reachable_inv [OF assms(2,1)] assms(3,4) by (auto simp: system_inv_def streams_inv_def in_flight_def)


text \<open>C16: No wake-up is lost: in every reachable state in which a pool has a packet on its ready queue and a worker that
  waits or is fetching, a worker of the pool can take up the first packet, after at most one step of its own.\<close>

theorem ready_packet_can_start:
  assumes start: "rcm_start s0" "rcm_reachable env s0 s" and i: "i < length (poolMap0 (server s))"
    and q: "readyQueue (poolMap0 (server s) ! i) = p # ps"
    and w: "(i, Waiting) \<in> set (workers s) \<or> (i, Fetching) \<in> set (workers s)"
  shows "\<exists>s1 s2. (s1 = s \<or> rcm_step env s s1) \<and> rcm_step env s1 s2 \<and> started s2 = started s @ [p]"
proof -
  have start_fetch: "\<exists>s2. rcm_step env s1 s2 \<and> started s2 = started s1 @ [p]"
    if fw: "(i, Fetching) \<in> set (workers s1)" and q1: "readyQueue (poolMap0 (server s1) ! i) = p # ps" for s1
  proof -
    obtain n where "n < length (workers s1)" "workers s1 ! n = (i, Fetching)"
      using fw unfolding in_set_conv_nth by blast
    from rcm_step.fetch [OF this q1] show ?thesis by fastforce
  qed
  show ?thesis
  proof (cases "(i, Fetching) \<in> set (workers s)")
    case True
    with start_fetch [OF this q] show ?thesis by blast
  next
    case False
    then have "fetching (workers s) i = 0" by (auto simp: fetching_def filter_empty_conv)
    then have pos: "0 < sem (poolMap0 (server s) ! i)"
      using reachable_inv [OF start(2,1)] i q by (fastforce simp: wake_inv_def backlog_def)
    obtain n where n: "n < length (workers s)" "workers s ! n = (i, Waiting)"
      using w False unfolding in_set_conv_nth by blast
    let ?s1 = "s \<lparr> server := pend i (server s), workers := (workers s)[n := (i, Fetching)] \<rparr>"
    have step: "rcm_step env s ?s1" by (rule rcm_step.wake [OF n pos])
    have "(i, Fetching) \<in> set (workers ?s1)" using n(1) by (simp add: set_update_memI)
    moreover have "readyQueue (poolMap0 (server ?s1) ! i) = p # ps" using i q by (simp add: pend_def)
    ultimately show ?thesis using start_fetch [of ?s1] step by fastforce
  qed
qed

text \<open>After a job message a worker is free again: the loop that passes the job on ends, for any server object, after
  at most one round for each message of the job and one more, if semaphores can be posted.\<close>

theorem advance_job_ends: "\<exists>sent holds obj'. advance_job True j obj = Some (sent, holds, obj')"
  unfolding advance_job_def
  using advance_loop_ends by (auto split: option.splits simp del: advance_loop.simps)

text \<open>A server with the in-band default pool and one pool with one worker.\<close>

definition echo_env :: rcm_env where
  "echo_env = \<lparr> run_fxn = (\<lambda>_ _ d. (0, d)), job_mem = True, gate_created = True, gate_deleted = True \<rparr>"

definition two_pools :: RcmServer_Object where
  "two_pools = one_symbol \<lparr> poolMap0 := [\<lparr> count = 0, sem = 0, readyQueue = [] \<rparr>, \<lparr> count = 1, sem = 0, readyQueue = [] \<rparr>] \<rparr>"

definition idle_system :: rcm_system where
  "idle_system = \<lparr> server = two_pools, workers = [(1, Waiting)], accepted = [], started = [], attempts = 0, events = [] \<rparr>"

lemma idle_system_start: "rcm_start idle_system"
  by (simp add: rcm_start_def idle_system_def two_pools_def one_symbol_def fresh_server_def)

definition acquire_msg :: RcmClient_Packet where
  "acquire_msg = \<lparr> packet_at = 0, desc = 0x0600, msgId = 1, poolId = 0x8000, msg_jobId = 0, fxnIdx = 0, msg_result = 0,
     msg_dataSize = 4, msg_data = [0] \<rparr>"

definition job_msg :: "nat \<Rightarrow> u16 \<Rightarrow> RcmClient_Packet" where
  "job_msg a pool = \<lparr> packet_at = a, desc = 0x0100, msgId = 2, poolId = pool, msg_jobId = 1, fxnIdx = 0x7FF01000, msg_result = 0,
     msg_dataSize = 4, msg_data = [word_of_nat a] \<rparr>"

text \<open>The system after the job id 1 was acquired and two messages for it were sent to the pool.\<close>

definition busy_system :: rcm_system where
  "busy_system = idle_system \<lparr>
     server := two_pools \<lparr> last_jobId := 1,
       jobList := [\<lparr> job_id = 1, job_empty = False, msgQue = [job_msg 2 0x8001] \<rparr>],
       poolMap0 := [\<lparr> count = 0, sem = 0, readyQueue = [] \<rparr>, \<lparr> count = 1, sem = 1, readyQueue = [job_msg 1 0x8001] \<rparr>] \<rparr>,
     accepted := [job_msg 1 0x8001, job_msg 2 0x8001], attempts := 1,
     events := [Reply (acquire_msg \<lparr> desc := 0, msg_data := [1] \<rparr>)] \<rparr>"

lemma busy_system_reachable: "rcm_reachable echo_env idle_system busy_system"
proof -
  define o1 where "o1 = two_pools \<lparr> last_jobId := 1, jobList := [\<lparr> job_id = 1, job_empty = True, msgQue = [] \<rparr>] \<rparr>"
  define o2 where "o2 = two_pools \<lparr> last_jobId := 1, jobList := [\<lparr> job_id = 1, job_empty = False, msgQue = [] \<rparr>],
    poolMap0 := [\<lparr> count = 0, sem = 0, readyQueue = [] \<rparr>, \<lparr> count = 1, sem = 1, readyQueue = [job_msg 1 0x8001] \<rparr>] \<rparr>"
  let ?ev = "[Reply (acquire_msg \<lparr> desc := 0, msg_data := [1] \<rparr>)]"
  let ?s1 = "idle_system \<lparr> server := o1, attempts := 1, events := ?ev \<rparr>"
  let ?s2 = "?s1 \<lparr> server := o2, accepted := [job_msg 1 0x8001] \<rparr>"
  have "ids_inv two_pools [] 0" by (simp add: ids_inv_def two_pools_def one_symbol_def fresh_server_def)
  from first_try [OF this] have "try_jobIds 0xFFFF (jobList two_pools) 0 (last_jobId two_pools) = (1, 1)" by simp
  then have "acqJobId True True two_pools = (RcmServer_S_SUCCESS, Some 1, o1)"
    by (simp add: acqJobId_def RcmClient_DISCRETEJOBID_def o1_def new_job_def two_pools_def one_symbol_def fresh_server_def)
  moreover have "messageType acquire_msg = RcmClient_Desc_JOB_ACQ"
    "set_data0 (put_low16 1) (setStatusCode Status_SUCCESS acquire_msg) = Inr (acquire_msg \<lparr> desc := 0, msg_data := [1] \<rparr>)"
    by code_simp+
  ultimately have 1: "in_band two_pools acquire_msg" "process echo_env two_pools acquire_msg = Inr (?ev, o1)" "requests_job acquire_msg = 1"
    by (simp_all add: process_def rcm_desc_types process_job_acq_def echo_env_def requests_job_def in_band_def acquire_msg_def
        RcmClient_DEFAULTPOOLID_def two_pools_def rcm_codes)
  have "rcm_step echo_env idle_system ?s1"
    using rcm_step.in_band [of idle_system acquire_msg echo_env ?ev o1] 1 by (simp add: idle_system_def)
  then have r1: "rcm_reachable echo_env idle_system ?s1" by (rule rcm_reachable.step [OF rcm_reachable.start])
  have 2: "\<not> in_band o1 (job_msg 1 0x8001)" "server_step echo_env True o1 (job_msg 1 0x8001) = Inr ([], o2)"
    "fst (dispatch True o1 (job_msg 1 0x8001)) = 0"
    unfolding o1_def o2_def by code_simp+
  have "rcm_step echo_env ?s1 ?s2"
    using rcm_step.queued [of ?s1 "job_msg 1 0x8001" echo_env "[]" o2] 2 by (simp add: idle_system_def)
  with r1 have r2: "rcm_reachable echo_env idle_system ?s2" by (rule rcm_reachable.step)
  have 3: "\<not> in_band o2 (job_msg 2 0x8001)" "server_step echo_env True o2 (job_msg 2 0x8001) = Inr ([], server busy_system)"
    "fst (dispatch True o2 (job_msg 2 0x8001)) = 0"
    unfolding o2_def by code_simp+
  have "rcm_step echo_env ?s2 busy_system"
    using rcm_step.queued [of ?s2 "job_msg 2 0x8001" echo_env "[]" "server busy_system"] 3
    by (simp add: idle_system_def busy_system_def)
  with r2 show ?thesis by (rule rcm_reachable.step)
qed

theorem job_stream_serialised_witness:
  "length (of_job 1 (ready_of (server busy_system))) + busy (workers busy_system) 1 \<le> 1"
  by (rule job_stream_serialised [OF idle_system_start busy_system_reachable]) (simp_all add: busy_system_def)


theorem ready_packet_can_start_witness:
  "\<exists>s1 s2. (s1 = busy_system \<or> rcm_step echo_env busy_system s1) \<and> rcm_step echo_env s1 s2 \<and>
     started s2 = started busy_system @ [job_msg 1 0x8001]"
  by (rule ready_packet_can_start [OF idle_system_start busy_system_reachable, of 1 _ "[]"])
    (simp_all add: busy_system_def idle_system_def two_pools_def)

end
