(* ===== verification/Rcm_Props.thy ===== *)
theory Rcm_Props
  imports Rcm_Workers
begin

text \<open>
  What becomes of a single message, and runs of the server that show where its promises end.
\<close>

section \<open>The descriptor\<close>

lemma type_mask_bits: "bit RcmClient_Desc_TYPE_MASK n \<longleftrightarrow> 8 \<le> n \<and> n < 12"
proof -
  have "RcmClient_Desc_TYPE_MASK = push_bit 8 (mask 4)"
    by (simp add: RcmClient_Desc_TYPE_MASK_def mask_eq_exp_minus_1 push_bit_eq_mult)
  then have "bit RcmClient_Desc_TYPE_MASK n = bit (push_bit 8 (mask 4) :: u16) n" by (rule arg_cong)
  also have "\<dots> \<longleftrightarrow> 8 \<le> n \<and> n < 12" unfolding bit_push_bit_iff bit_mask_iff by auto
  finally show ?thesis .
qed

text \<open>The status code goes into the four type bits of the descriptor and nowhere else: a code below 16 can be read
  back, the other bits of the descriptor and the rest of the packet stay as they were.\<close>

theorem setStatusCode_field:
  assumes "code < 16"
  shows "messageType (setStatusCode code p) = code \<and>
    desc (setStatusCode code p) AND NOT RcmClient_Desc_TYPE_MASK = desc p AND NOT RcmClient_Desc_TYPE_MASK \<and>
    setStatusCode code p \<lparr> desc := desc p \<rparr> = p"
proof -
  have b: "n < 4" if "bit code n" for n
    using bit_bound [OF _ that, of 4] assms by (simp add: word_less_nat_alt)
  have "messageType (setStatusCode code p) = code"
    unfolding messageType_def setStatusCode_def
    by (rule bit_word_eqI) (auto simp: bit_simps type_mask_bits RcmClient_Desc_TYPE_SHIFT_def dest: b)
  moreover have "desc (setStatusCode code p) AND NOT RcmClient_Desc_TYPE_MASK = desc p AND NOT RcmClient_Desc_TYPE_MASK"
    unfolding setStatusCode_def by (rule bit_word_eqI) (auto simp: bit_simps)
  ultimately show ?thesis by (simp add: setStatusCode_def)
qed

theorem setStatusCode_field_witness: "messageType (setStatusCode Status_JobNotFound acquire_msg) = 7"
  using setStatusCode_field [of 7 acquire_msg] by (simp add: Status_JobNotFound_def)

section \<open>What becomes of a message\<close>

fun returned :: "rcm_event \<Rightarrow> nat option" where
  "returned (CallFxn _ _ _) = None"
| "returned (Reply p) = Some (packet_at p)"
| "returned (FreeMsg p) = Some (packet_at p)"

fun is_call :: "rcm_event \<Rightarrow> bool" where
  "is_call (CallFxn _ _ _) = True"
| "is_call _ = False"

definition known_type :: "RcmClient_Packet \<Rightarrow> bool" where
  "known_type p \<longleftrightarrow> messageType p \<in> {RcmClient_Desc_RCM_MSG, RcmClient_Desc_CMD, RcmClient_Desc_DPC,
     RcmClient_Desc_SYM_IDX, RcmClient_Desc_JOB_ACQ, RcmClient_Desc_JOB_REL}"

text \<open>The messages of the job that a release sends back besides its own.\<close>

definition queued_of :: "RcmServer_Object \<Rightarrow> u16 \<Rightarrow> nat list" where
  "queued_of obj j = (case find_job j obj of None \<Rightarrow> [] | Some job \<Rightarrow> map packet_at (msgQue job))"

definition released_with :: "RcmServer_Object \<Rightarrow> RcmClient_Packet \<Rightarrow> nat list" where
  "released_with obj p =
     (if messageType p = RcmClient_Desc_JOB_REL \<and> msg_data p \<noteq> [] then queued_of obj (ucast (hd (msg_data p))) else [])"

lemma setStatusCode_at [simp]: "packet_at (setStatusCode c p) = packet_at p"
  by (simp add: setStatusCode_def)

lemma set_data0_at: "set_data0 f p = Inr q \<Longrightarrow> packet_at q = packet_at p"
  by (auto simp: set_data0_def split: list.splits)

lemma execMsg_at:
  assumes "execMsg env obj p = Inr (st, ev, q)"
  shows "packet_at q = packet_at p \<and> List.map_filter returned ev = [] \<and> length (filter is_call ev) \<le> 1"
proof (cases "getFxnAddr obj (fxnIdx p)")
  case (Inr r)
  then show ?thesis
    using assms by (cases r; cases "snd r") (auto simp: execMsg_def map_filter_simps split_def Let_def split: if_splits)
qed (use assms in \<open>simp add: execMsg_def\<close>)

lemma map_filter_append: "List.map_filter f (xs @ ys) = List.map_filter f xs @ List.map_filter f ys"
  by (simp add: map_filter_def)

lemma map_filter_replies: "List.map_filter returned (map Reply ps) = map packet_at ps"
  by (simp add: map_filter_def comp_def)

lemma relJobId_back: "map packet_at (fst (snd (relJobId g obj j))) = queued_of obj j"
proof -
  have "map_option fst (take_job j jobs) = List.find (\<lambda>job. job_id job = j) jobs" for jobs
    by (induction jobs) (auto simp: option.map_comp comp_def split_def)
  then have "find_job j obj = map_option fst (take_job j (jobList obj))" by (simp add: find_job_def)
  then show ?thesis
    by (cases "take_job j (jobList obj)") (auto simp: relJobId_def queued_of_def split: prod.splits)
qed

text \<open>C18: Processing a message of a known type that does not leave the defined behaviour of C gives the message back
  exactly once, to the reply queue or to the heap; the only other messages it gives back are those that a
  released job had queued, and it calls at most one function. (A message of an unknown type, or one to add a symbol, is
  never given back: it is dropped without a reply.)\<close>

theorem process_returns_once:
  assumes "process env obj p = Inr (ev, obj')"
  shows "List.map_filter returned ev = (if known_type p then released_with obj p @ [packet_at p] else []) \<and>
    length (filter is_call ev) \<le> 1"
proof -
  consider (msg) "messageType p = RcmClient_Desc_RCM_MSG" | (cmd) "messageType p = RcmClient_Desc_CMD"
    | (dpc) "messageType p = RcmClient_Desc_DPC" | (sym) "messageType p = RcmClient_Desc_SYM_IDX"
    | (acq) "messageType p = RcmClient_Desc_JOB_ACQ" | (rel) "messageType p = RcmClient_Desc_JOB_REL"
    | (other) "\<not> known_type p"
    by (auto simp: known_type_def)
  then show ?thesis
  proof cases
    case msg
    then have "process_msg env obj p = Inr ev" using assms by (simp add: process_def Let_def keep_object)
    then obtain rval ev0 q where x: "execMsg env obj p = Inr (rval, ev0, q)"
      and "\<exists>r. ev = ev0 @ [r] \<and> returned r = Some (packet_at q) \<and> \<not> is_call r"
      by (auto simp: process_msg_def bindE_eq_Inr Let_def)
    with msg execMsg_at [OF x] show ?thesis
      by (auto simp: known_type_def released_with_def rcm_desc_types map_filter_append map_filter_simps)
  next
    case cmd
    then have "process_cmd env obj p = Inr ev" using assms by (simp add: process_def rcm_desc_types keep_object)
    moreover from this obtain rval ev0 q where x: "execMsg env obj p = Inr (rval, ev0, q)"
      by (cases "execMsg env obj p") (auto simp: process_cmd_def)
    ultimately have "ev = ev0 @ [FreeMsg q] \<or> (\<exists>c. ev = ev0 @ [Reply (setStatusCode c q)])"
      by (auto simp: process_cmd_def split: if_splits)
    with cmd execMsg_at [OF x] show ?thesis
      by (auto simp: known_type_def released_with_def rcm_desc_types map_filter_append map_filter_simps)
  next
    case dpc
    then have d: "process_dpc obj p = Inr ev" using assms by (simp add: process_def rcm_desc_types keep_object)
    then obtain rval a where "getFxnAddr obj (fxnIdx p) = Inr (rval, a)"
      by (cases "getFxnAddr obj (fxnIdx p)") (auto simp: process_dpc_def)
    with d have "\<exists>q b. ev = [Reply q, CallFxn b 0 []] \<and> packet_at q = packet_at p"
      by (cases a) (auto simp: process_dpc_def Let_def split: if_splits)
    with dpc show ?thesis by (auto simp: known_type_def released_with_def rcm_desc_types map_filter_simps)
  next
    case sym
    with assms show ?thesis
      by (auto simp: process_def Let_def keep_object process_sym_idx_def bindE_eq_Inr known_type_def released_with_def
          rcm_desc_types map_filter_simps dest!: set_data0_at split: option.splits prod.splits)
  next
    case acq
    with assms show ?thesis
      by (auto simp: process_def Let_def process_job_acq_def bindE_eq_Inr known_type_def released_with_def
          rcm_desc_types map_filter_simps dest!: set_data0_at split: if_splits prod.splits)
  next
    case rel
    then obtain w ws where w: "msg_data p = w # ws"
      using assms by (cases "msg_data p") (auto simp: process_def rcm_desc_types process_job_rel_def)
    obtain rval sent obj1 where r: "relJobId (gate_deleted env) obj (ucast w) = (rval, sent, obj1)"
      by (cases "relJobId (gate_deleted env) obj (ucast w :: u16)") auto
    then have "map packet_at sent = queued_of obj (ucast w)" using relJobId_back by (metis fst_conv snd_conv)
    moreover have "\<exists>q. ev = map Reply sent @ [Reply q] \<and> packet_at q = packet_at p"
      using assms rel r w by (auto simp: process_def rcm_desc_types process_job_rel_def Let_def)
    moreover have "filter is_call (map Reply sent) = []" by (auto simp: filter_empty_conv)
    ultimately show ?thesis
      using rel w by (auto simp: known_type_def released_with_def map_filter_append map_filter_replies map_filter_simps)
  next
    case other
    then have "ev = []" using assms by (simp add: process_def known_type_def Let_def split: if_splits)
    with other show ?thesis by (simp add: map_filter_simps)
  qed
qed

theorem process_returns_once_witness:
  "process echo_env two_pools (job_msg 1 0x8000) =
     Inr ([CallFxn 64 4 [1], Reply (setStatusCode Status_SUCCESS (job_msg 1 0x8000))], two_pools) \<and>
   List.map_filter returned [CallFxn 64 4 [1], Reply (setStatusCode Status_SUCCESS (job_msg 1 0x8000))] = [1]"
proof -
  have e: "process echo_env two_pools (job_msg 1 0x8000) =
     Inr ([CallFxn 64 4 [1], Reply (setStatusCode Status_SUCCESS (job_msg 1 0x8000))], two_pools)"
    by code_simp
  moreover have "known_type (job_msg 1 0x8000)" "released_with two_pools (job_msg 1 0x8000) = []" by code_simp+
  ultimately show ?thesis using process_returns_once [OF e] by (simp add: job_msg_def)
qed

section \<open>Where the promises end\<close>

definition open_job :: RcmServer_Object where
  "open_job = two_pools \<lparr> last_jobId := 1, jobList := [new_job 1] \<rparr>"

theorem in_band_overtakes:
  "\<exists>obj1 obj2. server_step echo_env True open_job (job_msg 1 0x8001) = Inr ([], obj1) \<and>
     server_step echo_env True obj1 (job_msg 2 0x8000) =
       Inr ([CallFxn 64 4 [2], Reply (setStatusCode Status_SUCCESS (job_msg 2 0x8000))], obj2) \<and>
     ready_of obj2 = [job_msg 1 0x8001]"
proof -
  let ?o = "open_job \<lparr> jobList := [new_job 1 \<lparr> job_empty := False \<rparr>], poolMap0 :=
    [\<lparr> count = 0, sem = 0, readyQueue = [] \<rparr>, \<lparr> count = 1, sem = 1, readyQueue = [job_msg 1 0x8001] \<rparr>] \<rparr>"
  have "server_step echo_env True open_job (job_msg 1 0x8001) = Inr ([], ?o)"
    "server_step echo_env True ?o (job_msg 2 0x8000) =
       Inr ([CallFxn 64 4 [2], Reply (setStatusCode Status_SUCCESS (job_msg 2 0x8000))], ?o)"
    "ready_of ?o = [job_msg 1 0x8001]"
    by code_simp+
  then show ?thesis by blast
qed

text \<open>If a semaphore cannot be posted, two things go wrong. A packet that was put on a ready queue is also sent back
  to its client, so that it has two owners. And a worker that passes a job on keeps taking packets from the ready
  queue and putting them back: the loop does not end, whatever the fuel.\<close>

definition one_queued :: RcmServer_Object where
  "one_queued = open_job \<lparr> jobList := [\<lparr> job_id = 1, job_empty = False, msgQue = [job_msg 2 0x8001] \<rparr>] \<rparr>"

definition one_ready :: RcmServer_Object where
  "one_ready = open_job \<lparr> jobList := [\<lparr> job_id = 1, job_empty = False, msgQue = [] \<rparr>], poolMap0 :=
     [\<lparr> count = 0, sem = 0, readyQueue = [] \<rparr>, \<lparr> count = 1, sem = 0, readyQueue = [job_msg 2 0x8001] \<rparr>] \<rparr>"

lemma spin_step:
  "getPool one_ready (job_msg 2 0x8001) = (RcmServer_S_SUCCESS, Some 1)"
  "\<exists>o1. pop_from 1 (Some 1) one_ready = Some (job_msg 2 0x8001, o1) \<and> getPool o1 (job_msg 2 0x8001) = (RcmServer_S_SUCCESS, Some 1) \<and>
     make_ready False 1 (job_msg 2 0x8001) o1 = (RcmServer_E_FAIL, one_ready)"
  "\<exists>o1. pop_from 1 None one_queued = Some (job_msg 2 0x8001, o1) \<and> getPool o1 (job_msg 2 0x8001) = (RcmServer_S_SUCCESS, Some 1) \<and>
     make_ready False 1 (job_msg 2 0x8001) o1 = (RcmServer_E_FAIL, one_ready)"
proof -
  let ?o = "one_ready \<lparr> poolMap0 := [\<lparr> count = 0, sem = 0, readyQueue = [] \<rparr>, \<lparr> count = 1, sem = 0, readyQueue = [] \<rparr>] \<rparr>"
  show "getPool one_ready (job_msg 2 0x8001) = (RcmServer_S_SUCCESS, Some 1)" by code_simp
  have "pop_from 1 (Some 1) one_ready = Some (job_msg 2 0x8001, ?o)" "getPool ?o (job_msg 2 0x8001) = (RcmServer_S_SUCCESS, Some 1)"
    "make_ready False 1 (job_msg 2 0x8001) ?o = (RcmServer_E_FAIL, one_ready)"
    "pop_from 1 None one_queued = Some (job_msg 2 0x8001, ?o)"
    by code_simp+
  then show "\<exists>o1. pop_from 1 (Some 1) one_ready = Some (job_msg 2 0x8001, o1) \<and> getPool o1 (job_msg 2 0x8001) = (RcmServer_S_SUCCESS, Some 1) \<and>
     make_ready False 1 (job_msg 2 0x8001) o1 = (RcmServer_E_FAIL, one_ready)"
    "\<exists>o1. pop_from 1 None one_queued = Some (job_msg 2 0x8001, o1) \<and> getPool o1 (job_msg 2 0x8001) = (RcmServer_S_SUCCESS, Some 1) \<and>
     make_ready False 1 (job_msg 2 0x8001) o1 = (RcmServer_E_FAIL, one_ready)"
    by blast+
qed

lemma spins: "advance_loop n False 1 (Some 1) h one_ready = None"
proof (induction n arbitrary: h)
  case (Suc n)
  with spin_step(2) show ?case by (auto simp: RcmServer_E_FAIL_def)
qed simp

text \<open>A message for the in-band default pool is run by the server thread at once, whatever its job: with two
  messages of one job sent one after the other, the first to a worker pool and the second to the default pool, the second
  runs while the first still waits, so the order within the job is lost.\<close>

theorem failed_post_spins:
  "(\<exists>obj1. server_step echo_env False open_job (job_msg 1 0x8001) =
      Inr ([Reply (return_unprocessed RcmServer_E_FAIL Status_ERROR (job_msg 1 0x8001))], obj1) \<and>
      ready_of obj1 = [job_msg 1 0x8001]) \<and>
   advance_loop n False 1 None False one_queued = None"
proof -
  let ?o = "open_job \<lparr> jobList := [new_job 1 \<lparr> job_empty := False \<rparr>], poolMap0 :=
    [\<lparr> count = 0, sem = 0, readyQueue = [] \<rparr>, \<lparr> count = 1, sem = 0, readyQueue = [job_msg 1 0x8001] \<rparr>] \<rparr>"
  have "server_step echo_env False open_job (job_msg 1 0x8001) =
      Inr ([Reply (return_unprocessed RcmServer_E_FAIL Status_ERROR (job_msg 1 0x8001))], ?o)" "ready_of ?o = [job_msg 1 0x8001]"
    by code_simp+
  moreover have "advance_loop n False 1 None False one_queued = None"
    using spin_step(3) spins by (cases n) (auto simp: RcmServer_E_FAIL_def)
  ultimately show ?thesis by blast
qed

definition dpc_msg :: "u32 \<Rightarrow> RcmClient_Packet" where
  "dpc_msg idx = \<lparr> packet_at = 3, desc = 0x0200, msgId = 3, poolId = 0x8000, msg_jobId = 0, fxnIdx = idx, msg_result = 0,
     msg_dataSize = 0, msg_data = [] \<rparr>"

text \<open>A deferred call cannot be answered properly: with a function that is found, the reply keeps the type
  of the request in its status bits, which reads as "symbol not found"; with one that is not, the code calls a function
  pointer that was never set.\<close>

theorem dpc_misanswered:
  "process echo_env two_pools (dpc_msg 0x7FF01000) = Inr ([Reply (dpc_msg 0x7FF01000), CallFxn 64 0 []], two_pools) \<and>
   messageType (dpc_msg 0x7FF01000) = Status_SYMBOL_NOT_FOUND \<and>
   process echo_env two_pools (dpc_msg 0x00101000) = Inl UninitialisedCall"
  by code_simp

end
