(* ===== verification/Rcm_Calls.thy ===== *)
theory Rcm_Calls
  imports Rcm_Client Rcm_Props
begin

text \<open>
  Properties of the remote command client, and of client and server together: a remote function is found by its name and
  called with the data of the message, and its result comes back.
\<close>

section \<open>Instances\<close>

lemma finalize_holds: "mset (Instance_finalize obj) = mset (client_holds obj)"
  by (simp add: Instance_finalize_def client_holds_def)

text \<open>Whatever step of the creation fails, exactly what it had obtained is given back, and no handle is returned.\<close>

lemma failed_create_releases_all:
  assumes "RcmClient_create refs env True (Some params) (Some srv) = (status, handle, released)" "status < 0"
  shows "handle = None \<and> mset released =
    (if refs \<noteq> 0 \<and> length srv \<le> MAX_NAME_LEN \<and> obj_mem env then mset (client_holds (snd (Instance_init env params))) else {#})"
  using assms finalize_holds
  by (cases "Instance_init env params") (auto simp: RcmClient_create_def client_codes split: if_splits)

lemma init_queues_ok:
  "init_queues env blank_client = (st, obj) \<Longrightarrow> st \<ge> 0 \<Longrightarrow>
     cl_gate obj \<and> cl_msgQue obj \<and> errorMsgQue obj \<and> serverMsgQ obj = opened_queue env"
  by (auto simp: init_queues_def Let_def client_codes split: if_splits)

lemma init_locks_ok:
  "init_locks env obj = (st, obj') \<Longrightarrow> st \<ge> 0 \<Longrightarrow>
     mbxLock obj' \<and> queueLock obj' \<and> has_recipients obj' \<and> has_newMail obj' \<and> cl_gate obj' = cl_gate obj \<and>
     cl_msgQue obj' = cl_msgQue obj \<and> errorMsgQue obj' = errorMsgQue obj \<and> serverMsgQ obj' = serverMsgQ obj"
  by (auto simp: init_locks_def Let_def client_codes split: if_splits)

lemma created_client_complete:
  assumes "Instance_init env params = (st, obj)" "st \<ge> 0"
    and "\<not> callbackNotification params" "opened_queue env \<noteq> MessageQ_INVALIDMESSAGEQ"
  shows "client_holds obj = [Gate, InboundQueue, ErrorQueue, ServerQueue, MbxLock, QueueLock, RecipientList, NewMailList]"
proof -
  obtain st1 obj1 where q: "init_queues env blank_client = (st1, obj1)" by (cases "init_queues env blank_client")
  have "st1 \<ge> 0" using assms(1,2) q by (auto simp: Instance_init_def split: if_splits)
  note ok = init_queues_ok [OF q this]
  obtain h where "init_locks env (obj1 \<lparr> cbNotify := False, heapId := h \<rparr>) = (st, obj)"
    using assms(1-3) q \<open>st1 \<ge> 0\<close> by (auto simp: Instance_init_def Let_def client_codes split: if_splits)
  from init_locks_ok [OF this assms(2)] ok assms(4) show ?thesis by (simp add: client_holds_def)
qed

lemma client_procId_0: "client_procId q = 0"
  unfolding client_procId_def by (rule bit_word_eqI) (auto simp: bit_simps)

section \<open>Message ids\<close>

fun gen_ids :: "u32 \<Rightarrow> nat \<Rightarrow> RcmClient_Object \<Rightarrow> u16 list" where
  "gen_ids refs 0 obj = []"
| "gen_ids refs (Suc n) obj = (let (m, obj1) = genMsgId refs obj in m # gen_ids refs n obj1)"

lemma next_id: "unat (if j = 0xFFFF then 1 else j + 1 :: u16) = (if unat j = 0 then 1 else unat j mod 65535 + 1)"
proof (cases "j = 0xFFFF")
  case False
  then have "unat j \<noteq> 65535" by (simp add: word_unat_eq_iff)
  with unsigned_less [of j, where 'a = nat] have "unat j < 65535" by simp
  with False show ?thesis by (simp add: unat_word_ariths(1))
qed simp

lemma unat_pos: "unat (m :: u16) = k + 1 \<Longrightarrow> m \<noteq> 0"
  by auto

lemma gen_ids_nth:
  assumes "refs \<noteq> 0" "k < n" "last_msgId obj \<noteq> 0"
  shows "unat (gen_ids refs n obj ! k) = (unat (last_msgId obj) + k) mod 65535 + 1"
  using assms(2,3)
proof (induction n arbitrary: k obj)
  case (Suc n)
  define m where "m = (if last_msgId obj = 0xFFFF then 1 else last_msgId obj + 1)"
  have "unat (last_msgId obj) \<noteq> 0" using Suc.prems(2) by (simp add: unat_eq_0)
  then have m: "unat m = unat (last_msgId obj) mod 65535 + 1" using next_id [of "last_msgId obj"] by (simp only: m_def if_False)
  have g: "gen_ids refs (Suc n) obj = m # gen_ids refs n (obj \<lparr> last_msgId := m \<rparr>)"
    using assms(1) by (simp add: genMsgId_def Let_def m_def)
  show ?case
  proof (cases k)
    case 0
    with m g show ?thesis by simp
  next
    case (Suc k')
    have "unat (gen_ids refs n (obj \<lparr> last_msgId := m \<rparr>) ! k') = (unat m + k') mod 65535 + 1"
      using Suc.IH [of k' "obj \<lparr> last_msgId := m \<rparr>"] Suc Suc.prems(1) unat_pos [OF m] by simp
    also have "(unat m + k') mod 65535 = (unat (last_msgId obj) + k) mod 65535" unfolding m Suc
      using mod_add_left_eq [of "unat (last_msgId obj)" 65535 "Suc k'"] by simp
    finally show ?thesis using g Suc by simp
  qed
qed simp

lemma gen_ids_length [simp]: "length (gen_ids refs n obj) = n"
  by (induction n arbitrary: obj) (auto simp: split_def Let_def)

lemma same_mod: "i < 65535 \<Longrightarrow> j < 65535 \<Longrightarrow> (a + i) mod 65535 = (a + j) mod 65535 \<Longrightarrow> i = j" for a i j :: nat
proof (induction i j rule: linorder_wlog)
  case (le i j)
  then have "(a + j) mod 65535 = (a + i) mod 65535" by simp
  then have "65535 dvd (a + j) - (a + i)" using le by (subst (asm) mod_eq_dvd_iff_nat) simp_all
  then have "65535 dvd j - i" by simp
  with le show ?case using nat_dvd_not_less [of "j - i" 65535] by linarith
next
  case (sym i j)
  from sym(1) [OF sym(3,2) sym(4) [symmetric]] show ?case by (rule HOL.sym)
qed

text \<open>C36: any 65535 message ids that an instance gives out one after the other differ, and none is the invalid id 0.\<close>

theorem message_ids_distinct:
  assumes "refs \<noteq> 0" "last_msgId obj \<noteq> 0" "n \<le> 65535"
  shows "distinct (gen_ids refs n obj) \<and> RcmClient_INVALIDMSGID \<notin> set (gen_ids refs n obj)"
proof
  note nth = gen_ids_nth [OF assms(1) _ assms(2)]
  show "distinct (gen_ids refs n obj)"
    unfolding distinct_conv_nth
  proof (intro allI impI)
    fix i j assume h: "i < length (gen_ids refs n obj)" "j < length (gen_ids refs n obj)" "i \<noteq> j"
    let ?a = "unat (last_msgId obj)"
    have "(?a + i) mod 65535 \<noteq> (?a + j) mod 65535"
      using h assms(3) same_mod [of i j ?a] by auto
    with nth [of i n] nth [of j n] h show "gen_ids refs n obj ! i \<noteq> gen_ids refs n obj ! j" by auto
  qed
  show "RcmClient_INVALIDMSGID \<notin> set (gen_ids refs n obj)"
  proof
    assume "RcmClient_INVALIDMSGID \<in> set (gen_ids refs n obj)"
    then obtain k where "k < n" "gen_ids refs n obj ! k = 0" by (auto simp: in_set_conv_nth RcmClient_INVALIDMSGID_def)
    with unat_pos [OF nth [of k n]] show False by simp
  qed
qed

section \<open>Strings in messages\<close>

lemma word_bytes_word: "word_bytes (bytes_word [a, b, c, d]) = [a, b, c, d]"
proof -
  have "ucast (bytes_word [a, b, c, d]) = a" "ucast (drop_bit 8 (bytes_word [a, b, c, d])) = b"
    "ucast (drop_bit 16 (bytes_word [a, b, c, d])) = c" "ucast (drop_bit 24 (bytes_word [a, b, c, d])) = d"
    by (rule bit_word_eqI, auto simp: bytes_word_def bit_simps bit_beyond)+
  then show ?thesis by (simp add: word_bytes_def)
qed

lemma word_bytes_length [simp]: "length (word_bytes w) = 4"
  by (simp add: word_bytes_def)

lemma bytes_word_4: "length bs = 4 \<Longrightarrow> word_bytes (bytes_word bs) = bs"
  using word_bytes_word by (auto simp: numeral_eq_Suc length_Suc_conv)

lemma put_bytes_written:
  "put_bytes bs ws = Inr ws' \<Longrightarrow> concat (map word_bytes ws') = bs @ drop (length bs) (concat (map word_bytes ws))"
proof (induction bs ws arbitrary: ws' rule: put_bytes.induct)
  case (3 b bs w ws)
  define cs where "cs = b # bs"
  define here where "here = take 4 cs"
  define old where "old = concat (map word_bytes ws)"
  obtain rest where r: "put_bytes (drop 4 cs) ws = Inr rest"
    and ws': "ws' = bytes_word (here @ drop (length here) (word_bytes w)) # rest"
    using 3(2) by (cases "put_bytes (drop 4 (b # bs)) ws") (auto simp: here_def cs_def Let_def)
  have IH: "concat (map word_bytes rest) = drop 4 cs @ drop (length cs - 4) old"
    using 3(1) [OF refl r [unfolded cs_def]] by (simp add: cs_def old_def)
  have "length here \<le> 4" by (simp add: here_def)
  then have "length (here @ drop (length here) (word_bytes w)) = 4" by simp
  then have new: "concat (map word_bytes ws') = here @ drop (length here) (word_bytes w) @ drop 4 cs @ drop (length cs - 4) old"
    using bytes_word_4 IH by (simp add: ws')
  have "concat (map word_bytes ws') = cs @ drop (length cs) (word_bytes w @ old)"
  proof (cases "4 \<le> length cs")
    case True
    then have "length here = 4" by (simp add: here_def)
    then have "concat (map word_bytes ws') = (here @ drop 4 cs) @ drop (length cs - 4) old" using new by simp
    also have "here @ drop 4 cs = cs" by (simp add: here_def)
    finally show ?thesis using True by simp
  next
    case False
    then have "here = cs" "drop 4 cs = []" by (simp_all add: here_def)
    with new False show ?thesis by simp
  qed
  then show ?case by (simp add: cs_def old_def)
qed simp_all

lemma put_bytes_fits: "length bs \<le> 4 * length ws \<Longrightarrow> \<exists>ws'. put_bytes bs ws = Inr ws'"
proof (induction bs ws rule: put_bytes.induct)
  case (3 b bs w ws)
  then have "length (drop 4 (b # bs)) \<le> 4 * length ws" by simp
  with 3(1) [OF refl] obtain rest where "put_bytes (drop 4 (b # bs)) ws = Inr rest" by blast
  then show ?case by (simp add: Let_def)
qed simp_all

lemma char_byte: "char_of (unat (of_char c :: u8)) = c" "(of_char c :: u8) = 0 \<longleftrightarrow> c = CHR 0x00"
proof -
  have "unat (of_char c :: u8) = of_char c" by (simp add: of_char_def)
  then show "char_of (unat (of_char c :: u8)) = c" by simp
  show "(of_char c :: u8) = 0 \<longleftrightarrow> c = CHR 0x00"
  proof
    assume "(of_char c :: u8) = 0"
    then have "unat (of_char c :: u8) = 0" by simp
    with \<open>char_of (unat (of_char c :: u8)) = c\<close> have "char_of (0 :: nat) = c" by simp
    then show "c = CHR 0x00" by (simp add: char_of_def)
  qed simp
qed

lemma data_string_put:
  assumes "put_bytes (string_bytes nm) ws = Inr ws'" "CHR 0x00 \<notin> set nm"
  shows "data_string ws' = Some nm"
proof -
  have "takeWhile (\<lambda>b. b \<noteq> 0) (map of_char nm @ 0 # xs) = (map of_char nm :: u8 list)" for xs
    using assms(2) char_byte(2) by (induction nm) auto
  with put_bytes_written [OF assms(1)] show ?thesis
    by (simp add: data_string_def string_bytes_def Let_def char_byte(1) o_def)
qed

section \<open>Client and server\<close>

text \<open>The answer of a server to a message: the first packet it returns.\<close>

definition answer :: "rcm_env \<Rightarrow> RcmServer_Object \<Rightarrow> RcmClient_Packet \<Rightarrow> int + RcmClient_Packet" where
  "answer senv obj q =
     (case process senv obj q of
        Inl _ \<Rightarrow> Inl RcmClient_E_LOSTMSG
      | Inr (ev, _) \<Rightarrow>
          (case List.map_filter (\<lambda>e. case e of Reply r \<Rightarrow> Some r | _ \<Rightarrow> None) ev of
             [] \<Rightarrow> Inl RcmClient_E_LOSTMSG
           | r # _ \<Rightarrow> Inr r))"

lemma classify_type: "t < 16 \<Longrightarrow> messageType (classify t p) = messageType p OR t"
proof -
  assume t: "t < 16"
  have b: "n < 4" if "bit t n" for n using bit_bound [OF _ that, of 4] t by (simp add: word_less_nat_alt)
  have c: "n < 8" if "bit t n" for n using b [OF that] by simp
  show ?thesis
    unfolding messageType_def classify_def
    by (rule bit_word_eqI) (auto simp: bit_simps type_mask_bits RcmClient_Desc_TYPE_SHIFT_def dest: b c)
qed

lemma classify_fields [simp]:
  "msgId (classify t p) = msgId p" "fxnIdx (classify t p) = fxnIdx p" "msg_data (classify t p) = msg_data p"
  "msg_dataSize (classify t p) = msg_dataSize p" "poolId (classify t p) = poolId p" "msg_jobId (classify t p) = msg_jobId p"
  by (simp_all add: classify_def)

lemma new_type: "desc p = 0 \<Longrightarrow> t < 16 \<Longrightarrow> messageType (classify t p) = t"
  using classify_type [of t p] by (simp add: messageType_def)

lemma status_is_type: "serverStatus p = messageType p"
  by (simp add: serverStatus_def messageType_def)


lemma set_status_type: "code < 16 \<Longrightarrow> serverStatus (setStatusCode code p) = code"
  using setStatusCode_field status_is_type by simp

lemma process_function:
  assumes "messageType q = RcmClient_Desc_RCM_MSG" "getFxnAddr obj (fxnIdx q) = Inr (RcmServer_S_SUCCESS, Some a)" "a \<noteq> 0"
    and "run_fxn senv a (msg_dataSize q) (msg_data q) = (res, data)"
  shows "process senv obj q =
    Inr ([CallFxn a (msg_dataSize q) (msg_data q),
      Reply (setStatusCode (if sint res < 0 then Status_MSG_FXN_ERR else Status_SUCCESS) (q \<lparr> msg_data := data, msg_result := res \<rparr>))], obj)"
  using assms by (simp add: process_def process_msg_def execMsg_def rcm_desc_types rcm_codes)

lemma process_symbol:
  assumes "messageType q = RcmClient_Desc_SYM_IDX" "data_string (msg_data q) = Some nm"
    and "getSymIdx obj nm = (RcmServer_S_SUCCESS, Some idx)"
  shows "\<exists>r. process senv obj q = Inr ([Reply r], obj) \<and> serverStatus r = Status_SUCCESS \<and> hd (msg_data r) = idx \<and> msg_data r \<noteq> []"
proof -
  obtain w ws where d: "msg_data q = w # ws" using assms(2) by (cases "msg_data q") (auto simp: data_string_def)
  have "serverStatus (setStatusCode Status_SUCCESS q \<lparr> msg_data := idx # ws, msg_result := 0 \<rparr>) = Status_SUCCESS"
    using set_status_type [of Status_SUCCESS q] by (simp add: serverStatus_def Status_SUCCESS_def)
  then show ?thesis
    using assms d by (simp add: process_def process_sym_idx_def rcm_desc_types set_data0_def setStatusCode_def rcm_status)
qed

text \<open>C11: a symbol added to the server is found from the client by its name, and a message sent with the index found calls the
  function that was registered, with the size and the data of the message; its result and data come back to the caller.\<close>

theorem remote_call:
  assumes ok: "tables_ok obj0"
    and add: "RcmServer_addSymbol srefs tab_ok name_ok (Some obj0) (Some nm) addr (Some old) = (RcmServer_S_SUCCESS, Some idx, Some obj)"
    and nm: "\<not> has_name obj0 nm" "CHR 0x00 \<notin> set nm"
    and refs: "refs \<noteq> 0" "put_status env \<ge> 0"
    and req: "RcmClient_alloc refs env (Some cl) (of_nat (length nm + 1)) True = (st, Some cl', Some p)" "symbol_request nm p = Inr q"
      "return_mail env (msgId q) = answer senv obj q"
    and msg: "desc m = 0" "fxnIdx m = idx" "put_status env2 \<ge> 0"
      "return_mail env2 (msgId m) = answer senv obj (classify RcmClient_Desc_RCM_MSG m)"
    and fxn: "run_fxn senv addr (msg_dataSize m) (msg_data m) = (res, data)"
  shows "(\<exists>ev. RcmClient_getSymbolIndex refs env (Some cl) (Some nm) True = Inr (RcmClient_S_SUCCESS, Some cl', ev, Some idx)) \<and>
    (\<exists>r. RcmClient_exec refs env2 True (Some m) True =
          (if sint res < 0 then RcmClient_E_MSGFXNERROR else RcmClient_S_SUCCESS,
           [Put ToInbound (classify RcmClient_Desc_RCM_MSG m)], Some (Some r)) \<and>
       process senv obj (classify RcmClient_Desc_RCM_MSG m) = Inr ([CallFxn addr (msg_dataSize m) (msg_data m), Reply r], obj) \<and>
       msgId r = msgId m \<and> msg_result r = res \<and> msg_data r = data)"
proof
  have res: "getFxnAddr obj idx = Inr (RcmServer_S_SUCCESS, Some addr)" "getSymIdx obj nm = (RcmServer_S_SUCCESS, Some idx)"
    using symbol_added [OF ok add] nm(1) by simp_all
  obtain ws where ws: "put_bytes (string_bytes nm) (msg_data p) = Inr ws"
    and q: "q = classify RcmClient_Desc_SYM_IDX (p \<lparr> msg_dataSize := of_nat (length nm + 1), msg_data := ws \<rparr>)"
    using req(2) by (cases "put_bytes (string_bytes nm) (msg_data p)") (auto simp: symbol_request_def)
  have p0: "desc p = 0" "st = RcmClient_S_SUCCESS" using req(1) refs(1) by (auto simp: RcmClient_alloc_def alloc_message_def args_status_def client_codes Let_def split: option.splits prod.splits)
  have "messageType q = RcmClient_Desc_SYM_IDX" using p0 new_type [of "p \<lparr> msg_dataSize := of_nat (length nm + 1), msg_data := ws \<rparr>" RcmClient_Desc_SYM_IDX]
    by (simp add: q RcmClient_Desc_SYM_IDX_def)
  moreover have "data_string (msg_data q) = Some nm" using data_string_put [OF ws nm(2)] by (simp add: q)
  ultimately obtain r where r: "process senv obj q = Inr ([Reply r], obj)" "serverStatus r = Status_SUCCESS"
    "hd (msg_data r) = idx" "msg_data r \<noteq> []"
    using process_symbol res(2) by blast
  then have "return_mail env (msgId q) = Inr r" using req(3) by (simp add: answer_def map_filter_simps)
  moreover have "alloc_message refs env cl (of_nat (length nm + 1)) = (st, cl', Some p)"
    using req(1) refs(1) by (simp add: RcmClient_alloc_def args_status_def client_codes split: prod.splits)
  ultimately show "\<exists>ev. RcmClient_getSymbolIndex refs env (Some cl) (Some nm) True = Inr (RcmClient_S_SUCCESS, Some cl', ev, Some idx)"
    using refs req(2) r by (cases "msg_data r") (auto simp: RcmClient_getSymbolIndex_def args_status_def Let_def rcm_status client_codes)
next
  show "\<exists>r. RcmClient_exec refs env2 True (Some m) True =
          (if sint res < 0 then RcmClient_E_MSGFXNERROR else RcmClient_S_SUCCESS,
           [Put ToInbound (classify RcmClient_Desc_RCM_MSG m)], Some (Some r)) \<and>
       process senv obj (classify RcmClient_Desc_RCM_MSG m) = Inr ([CallFxn addr (msg_dataSize m) (msg_data m), Reply r], obj) \<and>
       msgId r = msgId m \<and> msg_result r = res \<and> msg_data r = data"
  proof -
    have a: "addr \<noteq> 0" using add by (auto simp: RcmServer_addSymbol_def rcm_codes split: if_splits)
    let ?q = "classify RcmClient_Desc_RCM_MSG m"
    let ?r = "setStatusCode (if sint res < 0 then Status_MSG_FXN_ERR else Status_SUCCESS) (?q \<lparr> msg_data := data, msg_result := res \<rparr>)"
    have "messageType ?q = RcmClient_Desc_RCM_MSG" using msg(1) new_type [of m] by (simp add: RcmClient_Desc_RCM_MSG_def)
    from process_function [OF this _ a, of obj senv res data] symbol_added [OF ok add] msg(2) fxn
    have p: "process senv obj ?q = Inr ([CallFxn addr (msg_dataSize m) (msg_data m), Reply ?r], obj)" by simp
    then have "return_mail env2 (msgId m) = Inr ?r" using msg(4) by (simp add: answer_def map_filter_simps)
    moreover have "serverStatus ?r = (if sint res < 0 then Status_MSG_FXN_ERR else Status_SUCCESS)"
      by (rule set_status_type) (simp add: Status_MSG_FXN_ERR_def Status_SUCCESS_def)
    moreover have "msgId ?r = msgId m \<and> msg_result ?r = res \<and> msg_data ?r = data" by (simp add: setStatusCode_def)
    ultimately show ?thesis using refs(1) msg(3) p
      by (intro exI [of _ ?r])
         (simp add: RcmClient_exec_def args_status_def Let_def client_codes exec_code_def Status_MSG_FXN_ERR_def
           Status_SUCCESS_def Status_INVALID_FXN_def)
  qed
qed

theorem message_ids_distinct_witness:
  "distinct (gen_ids 1 65535 blank_client) \<and> RcmClient_INVALIDMSGID \<notin> set (gen_ids 1 65535 blank_client)"
  by (rule message_ids_distinct) (simp_all add: blank_client_def)

text \<open>A server with one function, at address 64, that doubles the first word of the data and returns 3.\<close>

definition twice_env :: rcm_env where
  "twice_env = \<lparr> run_fxn = (\<lambda>a n ws. (3, map (\<lambda>w. 2 * w) ws)), job_mem = True, gate_created = True, gate_deleted = True \<rparr>"

definition twice_msg :: RcmClient_Packet where
  "twice_msg = \<lparr> packet_at = 7, desc = 0, msgId = 9, poolId = RcmClient_DEFAULTPOOLID, msg_jobId = 0, fxnIdx = 0x7FF01000,
     msg_result = 0, msg_dataSize = 4, msg_data = [21] \<rparr>"

definition asked_env :: "RcmClient_Packet \<Rightarrow> call_env" where
  "asked_env q = \<lparr> new_message = (\<lambda>n. Some (100, [0xFFFFFFFF])), put_status = 0, free_status = 0,
     return_mail = (\<lambda>m. answer twice_env one_symbol q), error_mail = (0, None) \<rparr>"

definition f_request :: RcmClient_Packet where
  "f_request = \<lparr> packet_at = 100, desc = 0x400, msgId = 1, poolId = RcmClient_DEFAULTPOOLID, msg_jobId = 0, fxnIdx = 0xFFFFFFFF,
     msg_result = 0, msg_dataSize = 2, msg_data = [0xFFFF0066] \<rparr>"

theorem remote_call_witness:
  "(\<exists>ev. RcmClient_getSymbolIndex 1 (asked_env f_request) (Some blank_client) (Some ''f'') True =
      Inr (RcmClient_S_SUCCESS, Some (blank_client \<lparr> last_msgId := 1 \<rparr>), ev, Some 0x7FF01000)) \<and>
   (\<exists>r. RcmClient_exec 1 (asked_env (classify RcmClient_Desc_RCM_MSG twice_msg)) True (Some twice_msg) True =
      (RcmClient_S_SUCCESS, [Put ToInbound (classify RcmClient_Desc_RCM_MSG twice_msg)], Some (Some r)) \<and> msg_data r = [42])"
proof -
  have "\<not> has_name fresh_server ''f''" by (auto simp: has_name_def fresh_server_def)
  moreover have "RcmClient_alloc 1 (asked_env f_request) (Some blank_client) (of_nat (length ''f'' + 1)) True =
      (RcmClient_S_SUCCESS, Some (blank_client \<lparr> last_msgId := 1 \<rparr>),
       Some (f_request \<lparr> desc := 0, msg_dataSize := 4, msg_data := [0xFFFFFFFF] \<rparr>))"
    by (simp add: RcmClient_alloc_def alloc_message_def args_status_def client_codes asked_env_def genMsgId_def blank_client_def f_request_def RcmClient_DISCRETEJOBID_def
      RcmClient_INVALIDFXNIDX_def)
  moreover have "symbol_request ''f'' (f_request \<lparr> desc := 0, msg_dataSize := 4, msg_data := [0xFFFFFFFF] \<rparr>) = Inr f_request"
    by code_simp
  ultimately show ?thesis
    using remote_call [OF fresh_server_ok add_first_symbol, of 1 "asked_env f_request" blank_client RcmClient_S_SUCCESS
        "blank_client \<lparr> last_msgId := 1 \<rparr>" _ f_request twice_env twice_msg "asked_env (classify RcmClient_Desc_RCM_MSG twice_msg)"
        3 "[42]"]
    by (auto simp: asked_env_def twice_msg_def twice_env_def f_request_def)
qed

section \<open>Messages that are used again\<close>



text \<open>C39: A command whose job is not found: one that names a job the server does not have is returned unprocessed with the
  status that the job was not found, and \<open>RcmClient_checkForError\<close>, which receives it, reports success. A deferred call reports success whatever status the
  server has returned.
\<close>

theorem client_hides_errors:
  assumes "refs \<noteq> 0" "put_status env \<ge> 0" "desc c = 0" "getPool obj c = (RcmServer_S_SUCCESS, Some k)" "\<not> in_band obj c"
    and "msg_jobId c \<noteq> RcmClient_DISCRETEJOBID" "find_job (msg_jobId c) obj = None"
  shows "\<exists>q r. RcmClient_execCmd refs env True (Some c) = (RcmClient_S_SUCCESS, [Put ToErrors q]) \<and>
    server_step senv True obj q = Inr ([Reply r], obj) \<and> serverStatus r = Status_JobNotFound \<and> msg_data r = msg_data c \<and>
    (error_mail env' = (0, Some r) \<longrightarrow>
       RcmClient_checkForError refs env' True True = (RcmClient_S_SUCCESS, Some (Some r))) \<and>
    (return_mail env (msgId d) = Inr s \<longrightarrow> fst (RcmClient_execDpc refs env True (Some d) True) = RcmClient_S_SUCCESS)"
proof -
  let ?q = "classify RcmClient_Desc_CMD c"
  let ?r = "setStatusCode Status_JobNotFound ?q"
  have c: "getPool obj ?q = getPool obj c" "in_band obj ?q = in_band obj c"
    by (simp_all add: getPool_def in_band_def)
  have "dispatch True obj ?q = (RcmServer_E_JobIdNotFound, obj)"
    using assms(4,6,7) c by (simp add: dispatch_def)
  then have "\<exists>r. server_step senv True obj ?q = Inr ([Reply r], obj) \<and> serverStatus r = Status_JobNotFound \<and> msg_data r = msg_data c"
    using assms(5) c set_status_type [of Status_JobNotFound]
    by (simp add: server_step_def rcm_codes dispatch_status_def return_unprocessed_def rcm_status setStatusCode_def serverStatus_def)
  then obtain r where r: "server_step senv True obj ?q = Inr ([Reply r], obj)" "serverStatus r = Status_JobNotFound" "msg_data r = msg_data c"
    by blast
  show ?thesis
    by (rule exI [of _ ?q], rule exI [of _ r])
      (use assms r in \<open>auto simp: RcmClient_execCmd_def RcmClient_checkForError_def RcmClient_execDpc_def args_status_def Let_def
        client_codes error_code_def MessageQ_E_TIMEOUT_def\<close>)
qed

definition stray_cmd :: RcmClient_Packet where
  "stray_cmd = twice_msg \<lparr> msg_jobId := 5 \<rparr>"

definition pooled_server :: RcmServer_Object where
  "pooled_server = one_symbol \<lparr> poolMap0 := map (count_update (\<lambda>_. 1)) (poolMap0 one_symbol) \<rparr>"

theorem client_hides_errors_witness:
  "\<exists>q r. RcmClient_execCmd 1 (asked_env twice_msg) True (Some stray_cmd) = (RcmClient_S_SUCCESS, [Put ToErrors q]) \<and>
    server_step twice_env True pooled_server q = Inr ([Reply r], pooled_server) \<and> serverStatus r = Status_JobNotFound"
proof -
  have "getPool pooled_server stray_cmd = (RcmServer_S_SUCCESS, Some 0)" "\<not> in_band pooled_server stray_cmd"
    "find_job (msg_jobId stray_cmd) pooled_server = None" "desc stray_cmd = 0" "msg_jobId stray_cmd \<noteq> RcmClient_DISCRETEJOBID"
    "put_status (asked_env twice_msg) \<ge> 0"
    by code_simp+
  from client_hides_errors [OF _ this(6,4,1,2,5,3), of 1 twice_env "asked_env twice_msg" twice_msg twice_msg] show ?thesis by fastforce
qed

end
