(* ===== verification/Shared_Regions.thy ===== *)
theory Shared_Regions
  imports Prelude
begin

text \<open>
  The shared region module of \<open>src/syslink/api/src/ipc/SharedRegion.c\<close>: its table of regions, the translation
  between addresses and portable pointers (SRPtr), and the operations on the table, as compiled with the
  argument checks. The table lives in memory that \<open>setup\<close> allocates and \<open>destroy\<close> frees; reading it when it is
  not there is a fault of the model. The outcomes of the kernel driver, of the allocations and of the memory
  mapping are parameters. Addresses are 32-bit words.
\<close>

section \<open>Data\<close>

record SharedRegion_Entry =
  sr_base :: u32
  sr_len :: u32
  ownerProcId :: u16
  isValid :: bool
  cacheEnable :: bool
  sr_cacheLineSize :: u32
  createHeap :: bool
  sr_name :: "string option"

record SharedRegion_Region =
  entry :: SharedRegion_Entry
  reservedSize :: u32
  heap :: u32

record SharedRegion_Config =
  cfg_cacheLineSize :: u32
  numEntries :: u16
  translate :: bool

text \<open>The array of flags keeps its address after it has been freed.\<close>

datatype flag_array = NoFlags | Flags "bool list" | FreedFlags

record SharedRegion_ModuleObject =
  setupRefCount :: u32
  localLock :: bool
  regions :: "SharedRegion_Region list option"
  numOffsetBits :: u32
  offsetMask :: u32
  bCreatedInKnlSpace :: flag_array
  cfg :: SharedRegion_Config

datatype region_fault = NoRegions | UnnamedRegion | FlagsNotThere | DoubleFree

definition SharedRegion_S_SUCCESS :: int where "SharedRegion_S_SUCCESS = 0"
definition SharedRegion_S_ALREADYSETUP :: int where "SharedRegion_S_ALREADYSETUP = 1"
definition SharedRegion_E_FAIL :: int where "SharedRegion_E_FAIL = -1"
definition SharedRegion_E_INVALIDARG :: int where "SharedRegion_E_INVALIDARG = -2"
definition SharedRegion_E_MEMORY :: int where "SharedRegion_E_MEMORY = -3"
definition SharedRegion_E_INVALIDSTATE :: int where "SharedRegion_E_INVALIDSTATE = -7"
definition SharedRegion_E_OSFAILURE :: int where "SharedRegion_E_OSFAILURE = -8"
definition SharedRegion_INVALIDREGIONID :: u16 where "SharedRegion_INVALIDREGIONID = 0xFFFF"
definition SharedRegion_DEFAULTOWNERID :: u16 where "SharedRegion_DEFAULTOWNERID = NOT 0"
definition SharedRegion_INVALIDSRPTR :: u32 where "SharedRegion_INVALIDSRPTR = NOT 0"

lemmas region_codes =
  SharedRegion_S_SUCCESS_def SharedRegion_S_ALREADYSETUP_def SharedRegion_E_FAIL_def SharedRegion_E_INVALIDARG_def
  SharedRegion_E_MEMORY_def SharedRegion_E_INVALIDSTATE_def SharedRegion_E_OSFAILURE_def

text \<open>The static object before the first call.\<close>

definition SharedRegion_state :: SharedRegion_ModuleObject where
  "SharedRegion_state =
     \<lparr> setupRefCount = 0, localLock = False, regions = None, numOffsetBits = 0, offsetMask = 0,
       bCreatedInKnlSpace = NoFlags, cfg = \<lparr> cfg_cacheLineSize = 0, numEntries = 0, translate = False \<rparr> \<rparr>"

section \<open>Access to the table\<close>

definition region_at :: "SharedRegion_ModuleObject \<Rightarrow> u16 \<Rightarrow> region_fault + SharedRegion_Region" where
  "region_at m rid =
     (case regions m of
        None \<Rightarrow> Inl NoRegions
      | Some rs \<Rightarrow> if unat rid < length rs then Inr (rs ! unat rid) else Inl NoRegions)"

definition set_region :: "u16 \<Rightarrow> SharedRegion_Region \<Rightarrow> SharedRegion_ModuleObject \<Rightarrow> SharedRegion_ModuleObject" where
  "set_region rid r m = m \<lparr> regions := map_option (\<lambda>rs. rs[unat rid := r]) (regions m) \<rparr>"

text \<open>The regions a loop up to \<open>numEntries\<close> reads.\<close>

definition region_table :: "SharedRegion_ModuleObject \<Rightarrow> region_fault + SharedRegion_Region list" where
  "region_table m =
     (case regions m of
        None \<Rightarrow> if numEntries (cfg m) = 0 then Inr [] else Inl NoRegions
      | Some rs \<Rightarrow> if length rs < unat (numEntries (cfg m)) then Inl NoRegions else Inr (take (unat (numEntries (cfg m))) rs))"

section \<open>The number of offset bits\<close>

function index_bits :: "u32 \<Rightarrow> u32" where
  "index_bits n = (if n = 0 then 0 else index_bits (drop_bit 1 n) + 1)"
  by auto

termination
proof (relation "measure unat")
  fix n :: u32
  assume "n \<noteq> 0"
  then have "0 < unat n" by (simp add: unat_gt_0)
  then show "(drop_bit 1 n, n) \<in> measure unat" by (simp add: drop_bit_eq_div unat_div)
qed simp

declare index_bits.simps [simp del]

definition SharedRegion_getNumOffsetBits :: "SharedRegion_ModuleObject \<Rightarrow> u32" where
  "SharedRegion_getNumOffsetBits m =
     (if setupRefCount m = 0 then 0
      else
        let n = ucast (numEntries (cfg m)) :: u32;
            indexBits = (if n = 0 then 0 else if n = 1 then 1 else index_bits (n - 1))
        in 32 - indexBits)"

section \<open>Set-up and removal of the module\<close>

record region_env =
  drv_open :: int
  drv_cfg :: SharedRegion_Config
  regions_mem :: bool
  flags_mem :: bool
  setup_ioctl :: int
  destroy_ioctl :: int
  self_id :: u16
  lock_created :: bool

text \<open>
  \<open>GateMutex_delete\<close> of a gate that exists returns 0 and clears the handle; its status replaces that of the
  driver call.
\<close>

definition SharedRegion_destroy :: "region_env \<Rightarrow> SharedRegion_ModuleObject \<Rightarrow> region_fault + (int \<times> SharedRegion_ModuleObject)" where
  "SharedRegion_destroy env m =
     (let m1 = m \<lparr> setupRefCount := setupRefCount m - 1 \<rparr>
      in if setupRefCount m1 \<noteq> 0 then Inr (SharedRegion_S_SUCCESS, m1)
         else if bCreatedInKnlSpace m1 = FreedFlags then Inl DoubleFree
         else
           (let m2 = m1 \<lparr> bCreatedInKnlSpace := (if bCreatedInKnlSpace m1 = NoFlags then NoFlags else FreedFlags),
                          regions := None,
                          cfg := \<lparr> cfg_cacheLineSize = 0, numEntries = 0, translate = False \<rparr>,
                          numOffsetBits := 0, offsetMask := 0 \<rparr>
            in if localLock m2 then Inr (0, m2 \<lparr> localLock := False \<rparr>)
               else Inr (if destroy_ioctl env < 0 then SharedRegion_E_OSFAILURE else destroy_ioctl env, m2)))"

definition entry_defaults :: "u32 \<Rightarrow> SharedRegion_Entry" where
  "entry_defaults line =
     \<lparr> sr_base = 0, sr_len = 0, ownerProcId = 0, isValid = False, cacheEnable = True, sr_cacheLineSize = line,
       createHeap = False, sr_name = None \<rparr>"

text \<open>The loop that initialises the new table, and the defaults of region 0.\<close>

definition fresh_regions :: "region_env \<Rightarrow> SharedRegion_Config \<Rightarrow> SharedRegion_Region list" where
  "fresh_regions env c =
     (let r = \<lparr> entry = entry_defaults (cfg_cacheLineSize c), reservedSize = 0, heap = 0 \<rparr>;
          r0 = r \<lparr> entry := entry r \<lparr> createHeap := True, ownerProcId := self_id env \<rparr> \<rparr>
      in (replicate (unat (numEntries c)) r)[0 := r0])"

definition setup_table :: "region_env \<Rightarrow> SharedRegion_Config \<Rightarrow> SharedRegion_ModuleObject \<Rightarrow> int \<times> SharedRegion_ModuleObject" where
  "setup_table env c m =
     (if numEntries c = 0 then (SharedRegion_E_INVALIDARG, m)
      else
        let m1 = m \<lparr> cfg := c \<rparr>
        in if \<not> regions_mem env then (SharedRegion_E_MEMORY, m1 \<lparr> regions := None \<rparr>)
           else if \<not> flags_mem env then
             (SharedRegion_E_MEMORY, m1 \<lparr> regions := Some (fresh_regions env c), bCreatedInKnlSpace := NoFlags \<rparr>)
           else
             (if setup_ioctl env < 0 then SharedRegion_E_OSFAILURE else setup_ioctl env,
              m1 \<lparr> regions := Some (fresh_regions env c),
                   bCreatedInKnlSpace := Flags (replicate (unat (numEntries c)) False) \<rparr>))"

definition setup_lock :: "region_env \<Rightarrow> int \<Rightarrow> SharedRegion_ModuleObject \<Rightarrow> int \<times> SharedRegion_ModuleObject" where
  "setup_lock env status m =
     (let bits = SharedRegion_getNumOffsetBits m;
          m1 = m \<lparr> numOffsetBits := bits, offsetMask := push_bit (unat bits) 1 - 1, localLock := lock_created env \<rparr>
      in (if lock_created env then status else SharedRegion_E_MEMORY, m1))"

definition SharedRegion_setup :: "region_env \<Rightarrow> SharedRegion_Config option \<Rightarrow> SharedRegion_ModuleObject \<Rightarrow>
    region_fault + (int \<times> SharedRegion_ModuleObject)" where
  "SharedRegion_setup env cfg_arg m =
     (let m1 = m \<lparr> setupRefCount := setupRefCount m + 1 \<rparr>
      in if setupRefCount m1 > 1 then Inr (SharedRegion_S_ALREADYSETUP, m1)
         else
           let (status, m2) =
                 (if drv_open env < 0 then (drv_open env, m1)
                  else
                    let (st, m2) = setup_table env (case cfg_arg of None \<Rightarrow> drv_cfg env | Some c \<Rightarrow> c) m1
                    in if st \<ge> 0 then setup_lock env st m2 else (st, m2))
           in if status < 0 then bindE (SharedRegion_destroy env m2) (\<lambda>(_, m3). Inr (status, m3))
              else Inr (status, m2))"

section \<open>Entries\<close>

definition SharedRegion_setEntry :: "int \<Rightarrow> u16 \<Rightarrow> SharedRegion_Entry option \<Rightarrow> SharedRegion_ModuleObject \<Rightarrow>
    region_fault + (int \<times> SharedRegion_ModuleObject)" where
  "SharedRegion_setEntry ioctl rid ent m =
     (if setupRefCount m = 0 then Inr (SharedRegion_E_INVALIDSTATE, m)
      else case ent of
        None \<Rightarrow> Inr (SharedRegion_E_INVALIDARG, m)
      | Some e \<Rightarrow>
          if rid \<ge> numEntries (cfg m) then Inr (SharedRegion_E_INVALIDARG, m)
          else if ioctl < 0 then Inr (ioctl, m)
          else bindE (region_at m rid) (\<lambda>r. Inr (ioctl, set_region rid (r \<lparr> entry := e \<rparr>) m)))"

definition cleared_region :: "SharedRegion_Config \<Rightarrow> SharedRegion_Region" where
  "cleared_region c =
     \<lparr> entry = \<lparr> sr_base = 0, sr_len = 0, ownerProcId = SharedRegion_DEFAULTOWNERID, isValid = False, cacheEnable = True,
         sr_cacheLineSize = cfg_cacheLineSize c, createHeap = False, sr_name = None \<rparr>,
       reservedSize = 0, heap = 0 \<rparr>"

definition SharedRegion_clearEntry :: "int \<Rightarrow> u16 \<Rightarrow> SharedRegion_ModuleObject \<Rightarrow>
    region_fault + (int \<times> SharedRegion_ModuleObject)" where
  "SharedRegion_clearEntry ioctl rid m =
     (if setupRefCount m = 0 then Inr (SharedRegion_E_INVALIDSTATE, m)
      else if rid \<ge> numEntries (cfg m) then Inr (SharedRegion_E_INVALIDARG, m)
      else if rid = 0 then Inr (SharedRegion_E_INVALIDARG, m)
      else if ioctl < 0 then Inr (ioctl, m)
      else bindE (region_at m rid) (\<lambda>_. Inr (ioctl, set_region rid (cleared_region (cfg m)) m)))"

definition SharedRegion_entryInit :: "SharedRegion_ModuleObject \<Rightarrow> SharedRegion_Entry \<Rightarrow> SharedRegion_Entry" where
  "SharedRegion_entryInit m e =
     (if setupRefCount m = 0 then e else entry (cleared_region (cfg m)))"

text \<open>The second component is what is left in the caller's entry.\<close>

definition SharedRegion_getEntry :: "u16 \<Rightarrow> SharedRegion_Entry option \<Rightarrow> SharedRegion_ModuleObject \<Rightarrow>
    region_fault + (int \<times> SharedRegion_Entry option)" where
  "SharedRegion_getEntry rid ent m =
     (if setupRefCount m = 0 then Inr (SharedRegion_S_SUCCESS, ent)
      else if ent = None then Inr (SharedRegion_E_INVALIDARG, ent)
      else if rid \<ge> numEntries (cfg m) then Inr (SharedRegion_S_SUCCESS, ent)
      else bindE (region_at m rid) (\<lambda>r. Inr (SharedRegion_S_SUCCESS, Some (entry r))))"

text \<open>The default of the cache line size is \<open>sizeof (Int)\<close>.\<close>

definition SharedRegion_getCacheLineSize :: "u16 \<Rightarrow> SharedRegion_ModuleObject \<Rightarrow> region_fault + u32" where
  "SharedRegion_getCacheLineSize rid m =
     (if setupRefCount m = 0 \<or> rid \<ge> numEntries (cfg m) then Inr 4
      else if translate (cfg m) \<or> rid \<noteq> SharedRegion_INVALIDREGIONID then
        bindE (region_at m rid) (\<lambda>r. Inr (sr_cacheLineSize (entry r)))
      else Inr 4)"

definition SharedRegion_isCacheEnabled :: "u16 \<Rightarrow> SharedRegion_ModuleObject \<Rightarrow> region_fault + bool" where
  "SharedRegion_isCacheEnabled rid m =
     (if setupRefCount m = 0 \<or> rid \<ge> numEntries (cfg m) then Inr False
      else if translate (cfg m) \<or> rid \<noteq> SharedRegion_INVALIDREGIONID then
        bindE (region_at m rid) (\<lambda>r. Inr (cacheEnable (entry r)))
      else Inr False)"

text \<open>The heap is the one the driver knows, or NULL.\<close>

definition SharedRegion_getHeap :: "(u16 \<Rightarrow> u32 option) \<Rightarrow> u16 \<Rightarrow> SharedRegion_ModuleObject \<Rightarrow> u32" where
  "SharedRegion_getHeap usr_heap rid m =
     (if setupRefCount m = 0 \<or> rid \<ge> numEntries (cfg m) then 0
      else if translate (cfg m) \<or> rid \<noteq> SharedRegion_INVALIDREGIONID then
        (case usr_heap rid of None \<Rightarrow> 0 | Some h \<Rightarrow> h)
      else 0)"

definition SharedRegion_getRegionInfo :: "u16 \<Rightarrow> SharedRegion_Region \<Rightarrow> SharedRegion_ModuleObject \<Rightarrow>
    region_fault + SharedRegion_Region" where
  "SharedRegion_getRegionInfo i old m =
     (if setupRefCount m = 0 \<or> i \<ge> numEntries (cfg m) then Inr old else region_at m i)"

section \<open>Translation\<close>

definition in_region :: "u32 \<Rightarrow> SharedRegion_Region \<Rightarrow> bool" where
  "in_region a r \<longleftrightarrow> sr_base (entry r) \<le> a \<and> a < sr_base (entry r) + sr_len (entry r)"

fun first_region :: "(SharedRegion_Region \<Rightarrow> bool) \<Rightarrow> SharedRegion_Region list \<Rightarrow> u16 \<Rightarrow> u16 option" where
  "first_region P [] i = None"
| "first_region P (r # rs) i = (if P r then Some i else first_region P rs (i + 1))"

definition SharedRegion_getId :: "SharedRegion_ModuleObject \<Rightarrow> u32 \<Rightarrow> region_fault + u16" where
  "SharedRegion_getId m addr =
     (if setupRefCount m = 0 \<or> addr = 0 then Inr SharedRegion_INVALIDREGIONID
      else bindE (region_table m) (\<lambda>rs.
        Inr (case first_region (\<lambda>r. isValid (entry r) \<and> in_region addr r) rs 0 of
               None \<Rightarrow> SharedRegion_INVALIDREGIONID
             | Some rid \<Rightarrow> rid)))"

definition SharedRegion_getPtr :: "SharedRegion_ModuleObject \<Rightarrow> u32 \<Rightarrow> region_fault + u32" where
  "SharedRegion_getPtr m srPtr =
     (if setupRefCount m = 0 \<or> srPtr = SharedRegion_INVALIDSRPTR then Inr 0
      else if \<not> translate (cfg m) then Inr srPtr
      else
        let regionId = ucast (drop_bit (unat (numOffsetBits m)) srPtr) :: u16
        in if regionId \<ge> numEntries (cfg m) then Inr 0
           else bindE (region_at m regionId) (\<lambda>r. Inr ((srPtr AND offsetMask m) + sr_base (entry r))))"

definition SharedRegion_getSRPtr :: "SharedRegion_ModuleObject \<Rightarrow> u32 \<Rightarrow> u16 \<Rightarrow> region_fault + u32" where
  "SharedRegion_getSRPtr m addr rid =
     (if setupRefCount m = 0 \<or> addr = 0 then Inr SharedRegion_INVALIDSRPTR
      else if rid = SharedRegion_INVALIDREGIONID \<or> rid \<ge> numEntries (cfg m) then Inr SharedRegion_INVALIDSRPTR
      else if \<not> translate (cfg m) then Inr addr
      else bindE (region_at m rid) (\<lambda>r.
        Inr (if in_region addr r
             then push_bit (unat (numOffsetBits m)) (ucast rid) OR (addr - sr_base (entry r))
             else SharedRegion_INVALIDSRPTR)))"

definition SharedRegion_translateEnabled :: "SharedRegion_ModuleObject \<Rightarrow> bool" where
  "SharedRegion_translateEnabled m = translate (cfg m)"

definition SharedRegion_getNumRegions :: "SharedRegion_ModuleObject \<Rightarrow> u16" where
  "SharedRegion_getNumRegions m = numEntries (cfg m)"

text \<open>The loop compares the names of the valid regions; a valid region need not have one.\<close>

fun id_by_name :: "string \<Rightarrow> SharedRegion_Region list \<Rightarrow> u16 \<Rightarrow> region_fault + u16" where
  "id_by_name nm [] i = Inr SharedRegion_INVALIDREGIONID"
| "id_by_name nm (r # rs) i =
     (if isValid (entry r) then
        (case sr_name (entry r) of
           None \<Rightarrow> Inl UnnamedRegion
         | Some n \<Rightarrow> if n = nm then Inr i else id_by_name nm rs (i + 1))
      else id_by_name nm rs (i + 1))"

definition SharedRegion_getIdByName :: "SharedRegion_ModuleObject \<Rightarrow> string option \<Rightarrow> region_fault + u16" where
  "SharedRegion_getIdByName m nm =
     (if setupRefCount m = 0 then Inr SharedRegion_INVALIDREGIONID
      else case nm of
        None \<Rightarrow> Inr SharedRegion_INVALIDREGIONID
      | Some n \<Rightarrow> bindE (region_table m) (\<lambda>rs. id_by_name n rs 0))"

section \<open>Overlap and reservation\<close>

fun overlap_loop :: "u32 \<Rightarrow> u32 \<Rightarrow> SharedRegion_Region list \<Rightarrow> int" where
  "overlap_loop b n [] = SharedRegion_S_SUCCESS"
| "overlap_loop b n (r # rs) =
     (if isValid (entry r) \<and>
         (if b \<ge> sr_base (entry r) then b < sr_base (entry r) + sr_len (entry r) else b + n > sr_base (entry r))
      then SharedRegion_E_FAIL
      else overlap_loop b n rs)"

definition SharedRegion_checkOverlap :: "SharedRegion_ModuleObject \<Rightarrow> u32 \<Rightarrow> u32 \<Rightarrow> region_fault + int" where
  "SharedRegion_checkOverlap m b n =
     (if setupRefCount m = 0 then Inr SharedRegion_E_INVALIDSTATE
      else bindE (region_table m) (\<lambda>rs. Inr (overlap_loop b n rs)))"

definition ROUND_UP :: "u32 \<Rightarrow> u32 \<Rightarrow> u32" where
  "ROUND_UP a b = (a + (b - 1)) AND NOT (b - 1)"

definition Memory_getMaxDefaultTypeAlign :: u32 where
  "Memory_getMaxDefaultTypeAlign = 4"

text \<open>The address is computed before the size is checked and returned in either case.\<close>

definition SharedRegion_reserveMemory :: "u16 \<Rightarrow> u32 \<Rightarrow> SharedRegion_ModuleObject \<Rightarrow>
    region_fault + (u32 \<times> SharedRegion_ModuleObject)" where
  "SharedRegion_reserveMemory rid bytes m =
     (if setupRefCount m = 0 \<or> rid \<ge> numEntries (cfg m) then Inr (0, m)
      else bindE (region_at m rid) (\<lambda>r.
        if \<not> isValid (entry r) then Inr (0, m)
        else bindE (SharedRegion_getCacheLineSize rid m) (\<lambda>line.
          let minAlign = (if line > Memory_getMaxDefaultTypeAlign then line else Memory_getMaxDefaultTypeAlign);
              curSize = reservedSize r;
              retPtr = sr_base (entry r) + curSize;
              newSize = ROUND_UP bytes minAlign
          in Inr (retPtr,
                  if sr_len (entry r) < curSize + newSize then m
                  else set_region rid (r \<lparr> reservedSize := curSize + newSize \<rparr>) m))))"

section \<open>Calls passed on to the kernel\<close>

text \<open>The heaps of the regions are created and opened by the driver; the argument is its status.\<close>

definition SharedRegion_start :: "int \<Rightarrow> SharedRegion_ModuleObject \<Rightarrow> int" where
  "SharedRegion_start ioctl m = (if setupRefCount m = 0 then SharedRegion_E_INVALIDSTATE else ioctl)"

definition SharedRegion_stop :: "int \<Rightarrow> SharedRegion_ModuleObject \<Rightarrow> int" where
  "SharedRegion_stop ioctl m = (if setupRefCount m = 0 then SharedRegion_E_INVALIDSTATE else ioctl)"

definition SharedRegion_attach :: "int \<Rightarrow> SharedRegion_ModuleObject \<Rightarrow> int" where
  "SharedRegion_attach ioctl m = (if setupRefCount m = 0 then SharedRegion_E_INVALIDSTATE else ioctl)"

definition SharedRegion_detach :: "int \<Rightarrow> SharedRegion_ModuleObject \<Rightarrow> int" where
  "SharedRegion_detach ioctl m = (if setupRefCount m = 0 then SharedRegion_E_INVALIDSTATE else ioctl)"

definition SharedRegion_invalidSRPtr :: u32 where
  "SharedRegion_invalidSRPtr = SharedRegion_INVALIDSRPTR"

section \<open>Regions created in the kernel\<close>

text \<open>
  The loops over the table that take over the regions the kernel has, and give them back. \<open>mapped\<close> is what
  \<open>Memory_map\<close> yields for an address and a size: the status and the new address.
\<close>

definition take_over :: "(u32 \<Rightarrow> u32 \<Rightarrow> int \<times> u32) \<Rightarrow> SharedRegion_Region \<Rightarrow> SharedRegion_Region \<Rightarrow> bool \<Rightarrow>
    int \<times> SharedRegion_Region \<times> bool" where
  "take_over mapped knl mine flag =
     (if isValid (entry knl) \<and> \<not> isValid (entry mine) then
        (case mapped (sr_base (entry knl)) (sr_len (entry knl)) of (status, dst) \<Rightarrow>
           if status < 0 then (status, mine, flag)
           else (status, knl \<lparr> entry := entry knl \<lparr> sr_base := dst, isValid := True \<rparr> \<rparr>, True))
      else (0, mine, flag))"

fun take_over_loop :: "(u32 \<Rightarrow> u32 \<Rightarrow> int \<times> u32) \<Rightarrow> int \<Rightarrow> SharedRegion_Region list \<Rightarrow> SharedRegion_Region list \<Rightarrow> bool list \<Rightarrow>
    int \<times> SharedRegion_Region list \<times> bool list" where
  "take_over_loop mapped st (k # ks) (r # rs) (f # fs) =
     (if st < 0 then (st, r # rs, f # fs)
      else
        let (st1, r1, f1) = take_over mapped k r f;
            (st2, rs1, fs1) = take_over_loop mapped (if isValid (entry k) \<and> \<not> isValid (entry r) then st1 else st) ks rs fs
        in (st2, r1 # rs1, f1 # fs1))"
| "take_over_loop mapped st ks rs fs = (st, rs, fs)"

definition SharedRegion_setRegions :: "bool \<Rightarrow> int \<Rightarrow> SharedRegion_Region list \<Rightarrow> (u32 \<Rightarrow> u32 \<Rightarrow> int \<times> u32) \<Rightarrow>
    SharedRegion_ModuleObject \<Rightarrow> region_fault + (int \<times> SharedRegion_ModuleObject)" where
  "SharedRegion_setRegions mem ioctl knl mapped m =
     (if \<not> mem then Inr (SharedRegion_E_MEMORY, m)
      else if ioctl < 0 then Inr (ioctl, m)
      else bindE (region_table m) (\<lambda>rs.
        case bCreatedInKnlSpace m of
          Flags fs \<Rightarrow>
            (let (st, rs1, fs1) = take_over_loop mapped ioctl knl rs fs
             in Inr (st, m \<lparr> regions := Some rs1, bCreatedInKnlSpace := Flags fs1 \<rparr>))
        | _ \<Rightarrow> Inl FlagsNotThere))"

definition give_back :: "(u32 \<Rightarrow> u32 \<Rightarrow> int) \<Rightarrow> SharedRegion_Region \<Rightarrow> bool \<Rightarrow> int \<times> SharedRegion_Region \<times> bool" where
  "give_back unmapped r flag =
     (if isValid (entry r) \<and> flag then
        let r1 = r \<lparr> entry := entry r \<lparr> isValid := False \<rparr> \<rparr>;
            status = unmapped (sr_base (entry r)) (sr_len (entry r))
        in if status < 0 then (SharedRegion_E_FAIL, r1, False)
           else (status, r1 \<lparr> entry := entry r1 \<lparr> sr_base := 0 \<rparr> \<rparr>, False)
      else (0, r, flag))"

fun give_back_loop :: "(u32 \<Rightarrow> u32 \<Rightarrow> int) \<Rightarrow> int \<Rightarrow> SharedRegion_Region list \<Rightarrow> bool list \<Rightarrow>
    int \<times> SharedRegion_Region list \<times> bool list" where
  "give_back_loop unmapped st (r # rs) (f # fs) =
     (if st < 0 then (st, r # rs, f # fs)
      else
        let (st1, r1, f1) = give_back unmapped r f;
            (st2, rs1, fs1) = give_back_loop unmapped (if isValid (entry r) \<and> f then st1 else st) rs fs
        in (st2, r1 # rs1, f1 # fs1))"
| "give_back_loop unmapped st rs fs = (st, rs, fs)"

definition SharedRegion_clearRegions :: "(u32 \<Rightarrow> u32 \<Rightarrow> int) \<Rightarrow> SharedRegion_ModuleObject \<Rightarrow>
    region_fault + (int \<times> SharedRegion_ModuleObject)" where
  "SharedRegion_clearRegions unmapped m =
     bindE (region_table m) (\<lambda>rs.
       case bCreatedInKnlSpace m of
         Flags fs \<Rightarrow>
           (let (st, rs1, fs1) = give_back_loop unmapped SharedRegion_S_SUCCESS rs fs
            in Inr (st, m \<lparr> regions := Some rs1, bCreatedInKnlSpace := Flags fs1 \<rparr>))
       | _ \<Rightarrow> if list_all (\<lambda>r. \<not> isValid (entry r)) rs then Inr (SharedRegion_S_SUCCESS, m) else Inl FlagsNotThere)"

end
