(* ===== verification/Region_Props.thy ===== *)
theory Region_Props
  imports Shared_Regions Simulation
begin

text \<open>
  Properties of the shared region table: the offset bits are enough for every region id, portable pointers translate
  back, the search finds the lowest region, and the overlap check is exact for regions that do not wrap.
\<close>

section \<open>The number of offset bits\<close>

lemma index_bits_0 [simp]: "index_bits 0 = 0"
  by (simp add: index_bits.simps)

lemma index_bits_bound: "unat n < 2 ^ k \<Longrightarrow> k \<le> 31 \<Longrightarrow> unat (index_bits n) \<le> k"
proof (induction n arbitrary: k rule: index_bits.induct)
  case (1 n)
  show ?case
  proof (cases "n = 0")
    case False
    with 1 obtain j where k: "k = Suc j" by (cases k) (auto simp: unat_eq_0)
    with 1 have "unat (drop_bit 1 n) < 2 ^ j" by (simp add: drop_bit_eq_div unat_div)
    with 1 False k have "unat (index_bits (drop_bit 1 n)) \<le> j" by simp
    moreover from this k 1 have "unat (index_bits (drop_bit 1 n) + 1) = unat (index_bits (drop_bit 1 n)) + 1"
      by (subst unat_plus_simple [THEN iffD1]) (auto simp: no_olen_add_nat)
    ultimately show ?thesis using False k by (subst index_bits.simps) simp
  qed simp
qed

lemma index_bits_enough: "unat n < 2 ^ 31 \<Longrightarrow> unat n < 2 ^ unat (index_bits n)"
proof (induction n rule: index_bits.induct)
  case (1 n)
  show ?case
  proof (cases "n = 0")
    case False
    let ?d = "drop_bit 1 n"
    have d: "unat ?d = unat n div 2" by (simp add: drop_bit_eq_div unat_div)
    with 1 False have "unat ?d < 2 ^ unat (index_bits ?d)" by simp
    moreover have "unat (index_bits ?d) \<le> 30" using index_bits_bound [of ?d 30] 1 d by simp
    then have "unat (index_bits ?d + 1) = unat (index_bits ?d) + 1"
      by (subst unat_plus_simple [THEN iffD1]) (auto simp: no_olen_add_nat)
    moreover have "unat n < 2 * Suc (unat n div 2)" by simp
    ultimately have "unat n < 2 ^ unat (index_bits ?d + 1)" using d by simp
    with False show ?thesis by (subst index_bits.simps) simp
  qed simp
qed

definition table_ok :: "SharedRegion_ModuleObject \<Rightarrow> bool" where
  "table_ok m \<longleftrightarrow>
     setupRefCount m \<noteq> 0 \<and> 0 < numEntries (cfg m) \<and>
     (case regions m of None \<Rightarrow> False | Some rs \<Rightarrow> length rs = unat (numEntries (cfg m))) \<and>
     numOffsetBits m = SharedRegion_getNumOffsetBits m \<and>
     offsetMask m = push_bit (unat (numOffsetBits m)) 1 - 1"

lemma offset_bits:
  assumes "table_ok m"
  shows "16 \<le> unat (numOffsetBits m)" "unat (numOffsetBits m) \<le> 31"
    "rid < numEntries (cfg m) \<Longrightarrow> unat rid < 2 ^ (32 - unat (numOffsetBits m))"
proof -
  define N :: u32 where "N = ucast (numEntries (cfg m))"
  have N: "unat N = unat (numEntries (cfg m))" using unsigned_less [of "numEntries (cfg m)", where 'a = nat] by (simp add: N_def unsigned_ucast_eq take_bit_nat_eq_self)
  have N0: "0 < unat N" using assms N by (simp add: table_ok_def word_less_nat_alt)
  define b where "b = (if N = 1 then 1 else index_bits (N - 1))"
  have bits: "numOffsetBits m = 32 - b"
    using assms N0 by (auto simp: table_ok_def SharedRegion_getNumOffsetBits_def b_def N_def Let_def)
  have N16: "unat N < 65536" using N unsigned_less [of "numEntries (cfg m)", where 'a = nat] by simp
  have N1: "unat (N - 1) = unat N - 1" using N0 by (simp add: unat_sub word_le_nat_alt)
  have b: "1 \<le> unat b \<and> unat b \<le> 16 \<and> unat N \<le> 2 ^ unat b"
  proof (cases "N = 1")
    case False
    then have "1 < unat N" using N0 by (auto simp: word_unat_eq_iff)
    then have "unat (N - 1) < 2 ^ unat (index_bits (N - 1))" "unat (index_bits (N - 1)) \<le> 16"
      using index_bits_enough [of "N - 1"] index_bits_bound [of "N - 1" 16] N1 N16 by simp_all
    moreover from this have "unat (index_bits (N - 1)) \<noteq> 0"
      using \<open>1 < unat N\<close> N1 by (cases "unat (index_bits (N - 1))") auto
    ultimately show ?thesis using False N1 by (auto simp: b_def)
  qed (simp add: b_def)
  then have u: "unat (numOffsetBits m) = 32 - unat b"
    by (simp add: bits unat_sub word_le_nat_alt)
  show "16 \<le> unat (numOffsetBits m)" "unat (numOffsetBits m) \<le> 31" using u b by auto
  show "unat rid < 2 ^ (32 - unat (numOffsetBits m))" if "rid < numEntries (cfg m)"
    using that u b N by (simp add: word_less_nat_alt)
qed

section \<open>Translation\<close>

lemma low_part:
  fixes v :: u32
  shows "unat v < 2 ^ k \<Longrightarrow> k \<le> n \<Longrightarrow> \<not> bit v n"
  by (metis bit_take_bit_iff linorder_not_le take_bit_nat_eq_self_iff unsigned_take_bit_eq
      word_unat_eq_iff not_less)

lemma split_srptr:
  fixes off :: u32 and rid :: u16
  assumes "unat off < 2 ^ b" "b \<le> 31" "16 \<le> b" "unat rid < 2 ^ (32 - b)"
  shows "ucast (drop_bit b (push_bit b (ucast rid) OR off)) = rid"
    and "(push_bit b (ucast rid) OR off) AND (push_bit b 1 - 1) = off"
proof -
  have m: "push_bit b 1 - 1 = (mask b :: u32)" by (simp add: mask_eq_exp_minus_1)
  have hi: "n < b" if "bit off n" for n using low_part [OF assms(1), of n] that by (meson not_le)
  have rhi: "n < 32 - b" if "bit rid n" for n
    using assms(4) that by (metis bit_take_bit_iff take_bit_nat_eq_self_iff unsigned_take_bit_eq word_unat_eq_iff)
  show "ucast (drop_bit b (push_bit b (ucast rid) OR off)) = rid"
    by (rule bit_word_eqI) (use assms(2) hi rhi in \<open>force simp: bit_simps not_le\<close>)
  show "(push_bit b (ucast rid) OR off) AND (push_bit b 1 - 1) = off"
    unfolding m by (rule bit_word_eqI) (use hi in \<open>auto simp: bit_simps not_le dest: bit_imp_le_length\<close>)
qed

lemma region_offset:
  assumes "in_region a r"
  shows "unat (a - sr_base (entry r)) < unat (sr_len (entry r))" "unat (a - sr_base (entry r)) = unat a - unat (sr_base (entry r))"
proof -
  have "unat (sr_base (entry r) + sr_len (entry r)) \<le> unat (sr_base (entry r)) + unat (sr_len (entry r))"
    by (simp add: unat_word_ariths(1))
  with assms show "unat (a - sr_base (entry r)) < unat (sr_len (entry r))"
    "unat (a - sr_base (entry r)) = unat a - unat (sr_base (entry r))"
    by (auto simp: in_region_def unat_sub word_le_nat_alt word_less_nat_alt)
qed

definition regions_fit :: "SharedRegion_ModuleObject \<Rightarrow> bool" where
  "regions_fit m \<longleftrightarrow> (\<forall>r \<in> set (case regions m of None \<Rightarrow> [] | Some rs \<Rightarrow> rs).
     unat (sr_len (entry r)) \<le> 2 ^ unat (numOffsetBits m))"

lemma region_at_in_table:
  "table_ok m \<Longrightarrow> rid < numEntries (cfg m) \<Longrightarrow> \<exists>rs. regions m = Some rs \<and> unat rid < length rs \<and> region_at m rid = Inr (rs ! unat rid)"
  by (auto simp: table_ok_def region_at_def word_less_nat_alt split: option.splits)

text \<open>C25: In a table that is set up and whose regions fit the offset bits (the limit of the format of the pointers), a portable pointer that
  \<open>SharedRegion_getSRPtr\<close> makes from an address of a region is translated back to this address by \<open>SharedRegion_getPtr\<close>.\<close>

theorem srptr_roundtrip:
  assumes "table_ok m" "regions_fit m"
    and "SharedRegion_getSRPtr m addr rid = Inr p" "p \<noteq> SharedRegion_INVALIDSRPTR"
  shows "SharedRegion_getPtr m p = Inr addr"
proof (cases "translate (cfg m)")
  case True
  from assms have rid: "rid < numEntries (cfg m)" and s: "setupRefCount m \<noteq> 0"
    by (auto simp: SharedRegion_getSRPtr_def split: if_splits)
  obtain rs where rs: "regions m = Some rs" "unat rid < length rs" "region_at m rid = Inr (rs ! unat rid)"
    using region_at_in_table [OF assms(1) rid] by auto
  let ?r = "rs ! unat rid" and ?b = "unat (numOffsetBits m)"
  have inr: "in_region addr ?r" and p: "p = push_bit ?b (ucast rid) OR (addr - sr_base (entry ?r))"
    using assms(3,4) rs True by (auto simp: SharedRegion_getSRPtr_def split: if_splits)
  have "?r \<in> set rs" using rs by simp
  then have "unat (addr - sr_base (entry ?r)) < 2 ^ ?b"
    using region_offset(1) [OF inr] assms(2) rs(1) by (force simp: regions_fit_def)
  from split_srptr [OF this offset_bits(2,1,3) [OF assms(1)]] rid assms(1)
  have "ucast (drop_bit ?b p) = rid" "p AND offsetMask m = addr - sr_base (entry ?r)"
    by (auto simp: p table_ok_def)
  moreover have "\<not> numEntries (cfg m) \<le> rid" using rid by simp
  ultimately show ?thesis using True rs s assms(4) by (simp add: SharedRegion_getPtr_def)
next
  case False
  with assms show ?thesis by (auto simp: SharedRegion_getSRPtr_def SharedRegion_getPtr_def split: if_splits)
qed


lemma diff_is_top: "y \<le> x \<Longrightarrow> 0 < p \<Longrightarrow> x - y = p - 1 \<longleftrightarrow> x = y + p - 1" for x y p :: nat
  by arith

lemma unat_mask_word: "k \<le> LENGTH('w) \<Longrightarrow> unat (mask k :: 'w::len word) = 2 ^ k - 1"
proof -
  assume "k \<le> LENGTH('w)"
  then have "min LENGTH('w) k = k" by simp
  then have "uint (mask k :: 'w word) = mask k" by (simp only: uint_mask_eq)
  then have "unat (mask k :: 'w word) = nat (mask k)" by (simp only: unat_eq_nat_uint)
  also have "\<dots> = nat (2 ^ k - 1)" by (simp only: mask_eq_exp_minus_1)
  also have "\<dots> = 2 ^ k - 1" by (simp add: nat_diff_distrib nat_power_eq)
  finally show ?thesis .
qed

theorem srptr_lost_only_at_top:
  assumes "table_ok m" "translate (cfg m)" "addr \<noteq> 0" "rid < numEntries (cfg m)" "rid \<noteq> SharedRegion_INVALIDREGIONID"
    and "region_at m rid = Inr r" "in_region addr r" "unat (sr_len (entry r)) \<le> 2 ^ unat (numOffsetBits m)"
  shows "SharedRegion_getSRPtr m addr rid = Inr SharedRegion_INVALIDSRPTR \<longleftrightarrow>
    unat rid = 2 ^ (32 - unat (numOffsetBits m)) - 1 \<and> unat addr = unat (sr_base (entry r)) + 2 ^ unat (numOffsetBits m) - 1"
proof -
  let ?b = "unat (numOffsetBits m)" and ?off = "addr - sr_base (entry r)"
  have b: "16 \<le> ?b" "?b \<le> 31" "unat rid < 2 ^ (32 - ?b)" using offset_bits [OF assms(1)] assms(4) by auto
  have off: "unat ?off < 2 ^ ?b" using region_offset(1) [OF assms(7)] assms(8) by simp
  let ?p = "push_bit ?b (ucast rid) OR ?off :: u32"
  note sp = split_srptr [OF off b(2,1,3)]
  have get: "SharedRegion_getSRPtr m addr rid = Inr ?p"
    using assms by (auto simp: SharedRegion_getSRPtr_def table_ok_def)
  have m: "push_bit ?b 1 - 1 = (mask ?b :: u32)" by (simp add: mask_eq_exp_minus_1)
  have all_ones: "ucast (drop_bit ?b (NOT 0 :: u32)) = (mask (32 - ?b) :: u16)"
    by (rule bit_word_eqI) (use b in \<open>auto simp: bit_simps\<close>)
  have "?p = NOT 0 \<longleftrightarrow> rid = mask (32 - ?b) \<and> ?off = mask ?b"
  proof
    assume p: "?p = NOT 0"
    with sp(1) all_ones have "rid = mask (32 - ?b)" by simp
    moreover from p sp(2) m have "?off = mask ?b" by simp
    ultimately show "rid = mask (32 - ?b) \<and> ?off = mask ?b" ..
  next
    assume h: "rid = mask (32 - ?b) \<and> ?off = mask ?b"
    show "?p = NOT 0"
      unfolding h [THEN conjunct1] h [THEN conjunct2]
      by (rule bit_word_eqI) (use b in \<open>auto simp: bit_simps\<close>)
  qed
  moreover have "rid = mask (32 - ?b) \<longleftrightarrow> unat rid = 2 ^ (32 - ?b) - 1"
    using b by (simp add: word_unat_eq_iff unat_mask_word)
  moreover have "?off = mask ?b \<longleftrightarrow> unat ?off = 2 ^ ?b - 1"
    using b by (simp add: word_unat_eq_iff [of ?off] unat_mask_word)
  moreover have "sr_base (entry r) \<le> addr" using assms(7) by (simp add: in_region_def)
  then have "unat ?off = 2 ^ ?b - 1 \<longleftrightarrow> unat addr = unat (sr_base (entry r)) + 2 ^ ?b - 1"
    using region_offset(2) [OF assms(7)] diff_is_top [of "unat (sr_base (entry r))" "unat addr" "2 ^ ?b"]
    by (simp add: word_le_nat_alt)
  ultimately show ?thesis by (simp add: get SharedRegion_INVALIDSRPTR_def)
qed

section \<open>Set-up\<close>

lemma undone_status: "bindE d (\<lambda>(_, m3). Inr (st, m3)) = Inr (status, m') \<Longrightarrow> status = st"
  by (cases d) auto

lemma setup_steps:
  assumes "setupRefCount m = 0" "SharedRegion_setup env c m = Inr (status, m')" "status \<ge> 0"
  shows "\<exists>st m2. setup_table env (case c of None \<Rightarrow> drv_cfg env | Some c \<Rightarrow> c) (m \<lparr> setupRefCount := 1 \<rparr>) = (st, m2) \<and>
    st \<ge> 0 \<and> setup_lock env st m2 = (status, m')"
proof -
  obtain st m2 where t: "setup_table env (case c of None \<Rightarrow> drv_cfg env | Some c \<Rightarrow> c) (m \<lparr> setupRefCount := 1 \<rparr>) = (st, m2)"
    by (cases "setup_table env (case c of None \<Rightarrow> drv_cfg env | Some c \<Rightarrow> c) (m \<lparr> setupRefCount := 1 \<rparr>)")
  have "drv_open env \<ge> 0" "st \<ge> 0"
    using assms t by (auto simp: SharedRegion_setup_def Let_def not_less dest!: undone_status split: if_splits)
  moreover from this have "setup_lock env st m2 = (status, m')"
    using assms t by (cases "setup_lock env st m2") (auto simp: SharedRegion_setup_def dest!: undone_status split: if_splits)
  ultimately show ?thesis using t by blast
qed

theorem setup_makes_table:
  assumes "setupRefCount m = 0" "SharedRegion_setup env c m = Inr (status, m')" "status \<ge> 0"
  shows "table_ok m' \<and> setupRefCount m' = 1"
proof -
  obtain st m2 where t: "setup_table env (case c of None \<Rightarrow> drv_cfg env | Some c \<Rightarrow> c) (m \<lparr> setupRefCount := 1 \<rparr>) = (st, m2)"
    and st: "st \<ge> 0" and l: "setup_lock env st m2 = (status, m')"
    using setup_steps [OF assms] by metis
  from t st have "setupRefCount m2 = 1 \<and> 0 < numEntries (cfg m2) \<and>
      (\<exists>rs. regions m2 = Some rs \<and> length rs = unat (numEntries (cfg m2)))"
    by (auto simp: setup_table_def Let_def region_codes fresh_regions_def word_neq_0_conv split: if_splits)
  with l show ?thesis
    by (auto simp: setup_lock_def Let_def table_ok_def SharedRegion_getNumOffsetBits_def)
qed

section \<open>Searching the table\<close>

lemma first_region_Some:
  "first_region P rs i = Some k \<Longrightarrow> unat i + length rs < 65536 \<Longrightarrow>
     \<exists>j < length rs. unat k = unat i + j \<and> P (rs ! j) \<and> (\<forall>j' < j. \<not> P (rs ! j'))"
proof (induction rs arbitrary: i)
  case (Cons r rs)
  show ?case
  proof (cases "P r")
    case False
    have "unat (i + 1) = unat i + 1" using Cons.prems(2) by (simp add: unat_word_ariths(1))
    with Cons False obtain j where "j < length rs" "unat k = unat i + Suc j" "P (rs ! j)" "\<forall>j' < j. \<not> P (rs ! j')"
      by fastforce
    with False show ?thesis by (intro exI [of _ "Suc j"]) (auto simp: nth_Cons split: nat.splits)
  qed (use Cons in auto)
qed simp

lemma first_region_None: "first_region P rs i = None \<longleftrightarrow> (\<forall>r \<in> set rs. \<not> P r)"
  by (induction rs arbitrary: i) auto

lemma table_of:
  assumes "table_ok m"
  obtains rs where "regions m = Some rs" "region_table m = Inr rs" "length rs = unat (numEntries (cfg m))" "length rs < 65536"
  using assms unsigned_less [of "numEntries (cfg m)", where 'a = nat]
  by (auto simp: table_ok_def region_table_def split: option.splits)

theorem getId_lowest_region:
  assumes "table_ok m" "addr \<noteq> 0"
  shows "\<exists>rs rid. regions m = Some rs \<and> SharedRegion_getId m addr = Inr rid \<and>
    (if rid = SharedRegion_INVALIDREGIONID then \<not> (\<exists>r \<in> set rs. isValid (entry r) \<and> in_region addr r)
     else unat rid < length rs \<and> isValid (entry (rs ! unat rid)) \<and> in_region addr (rs ! unat rid) \<and>
       \<not> (\<exists>j < unat rid. isValid (entry (rs ! j)) \<and> in_region addr (rs ! j)))"
proof -
  obtain rs where rs: "regions m = Some rs" "region_table m = Inr rs" "length rs < 65536"
    using table_of [OF assms(1)] by metis
  have ids: "rid \<noteq> SharedRegion_INVALIDREGIONID" if "unat rid < length rs" for rid
    using that rs(3) by (auto simp: SharedRegion_INVALIDREGIONID_def)
  let ?P = "\<lambda>r. isValid (entry r) \<and> in_region addr r"
  have get: "SharedRegion_getId m addr =
      Inr (case first_region ?P rs 0 of None \<Rightarrow> SharedRegion_INVALIDREGIONID | Some rid \<Rightarrow> rid)"
    using assms rs by (simp add: SharedRegion_getId_def table_ok_def)
  show ?thesis
  proof (cases "first_region ?P rs 0")
    case None
    with get rs first_region_None [of ?P rs 0] show ?thesis by auto
  next
    case (Some k)
    with first_region_Some [OF Some] rs ids get show ?thesis by fastforce
  qed
qed

section \<open>Overlap\<close>

definition region_range :: "SharedRegion_Region \<Rightarrow> nat set" where
  "region_range r = {unat (sr_base (entry r)) ..< unat (sr_base (entry r)) + unat (sr_len (entry r))}"

lemma overlap_loop_none:
  assumes "0 < n" "unat b + unat n < 2 ^ 32"
    and "\<forall>r \<in> set rs. isValid (entry r) \<longrightarrow>
           0 < sr_len (entry r) \<and> unat (sr_base (entry r)) + unat (sr_len (entry r)) < 2 ^ 32"
  shows "overlap_loop b n rs = SharedRegion_S_SUCCESS \<longleftrightarrow>
    (\<forall>r \<in> set rs. isValid (entry r) \<longrightarrow> region_range r \<inter> {unat b ..< unat b + unat n} = {})"
  using assms(3)
proof (induction rs)
  case (Cons r rs)
  have "(if b \<ge> sr_base (entry r) then b < sr_base (entry r) + sr_len (entry r) else b + n > sr_base (entry r)) \<longleftrightarrow>
      region_range r \<inter> {unat b ..< unat b + unat n} \<noteq> {}" if "isValid (entry r)"
  proof -
    have "unat (b + n) = unat b + unat n" "unat (sr_base (entry r) + sr_len (entry r)) = unat (sr_base (entry r)) + unat (sr_len (entry r))"
      "0 < unat n" "0 < unat (sr_len (entry r))"
      using assms(1,2) Cons.prems that by (auto simp: unat_word_ariths(1) word_less_nat_alt)
    then show ?thesis
      by (auto simp: region_range_def word_le_nat_alt word_less_nat_alt disjoint_iff not_le not_less)
  qed
  with Cons show ?case by (auto simp: region_codes)
qed simp

text \<open>for regions and a range that do not wrap around the address space, \<open>SharedRegion_checkOverlap\<close> succeeds
  exactly if the range has no address in common with a valid region.\<close>

theorem checkOverlap_exact:
  assumes "table_ok m" "regions m = Some rs" "0 < n" "unat b + unat n < 2 ^ 32"
    and "\<forall>r \<in> set rs. isValid (entry r) \<longrightarrow>
           0 < sr_len (entry r) \<and> unat (sr_base (entry r)) + unat (sr_len (entry r)) < 2 ^ 32"
  shows "SharedRegion_checkOverlap m b n = Inr SharedRegion_S_SUCCESS \<longleftrightarrow>
    (\<forall>r \<in> set rs. isValid (entry r) \<longrightarrow> region_range r \<inter> {unat b ..< unat b + unat n} = {})"
proof -
  have "region_table m = Inr rs" using table_of [OF assms(1)] assms(2) by auto
  then have "SharedRegion_checkOverlap m b n = Inr (overlap_loop b n rs)"
    using assms(1) by (simp add: SharedRegion_checkOverlap_def table_ok_def)
  then show ?thesis using overlap_loop_none [OF assms(3,4,5)] by simp
qed

end
