(* ===== verification/Region_Memory.thy ===== *)
theory Region_Memory
  imports Region_Props
begin

text \<open>
  The shared region table over sequences of operations: memory reserved from a region, the table after set-up and any
  calls, and the regions that are taken over from the kernel and given back.
\<close>

section \<open>Rounding\<close>

lemma and_not_low: "s AND NOT (mask k) = push_bit k (drop_bit k s)" for s :: u32
  by (rule bit_word_eqI) (auto simp: bit_simps not_less)

lemma round_up_bounds:
  assumes "k < 32" "unat n + 2 ^ k \<le> 2 ^ 32"
  shows "n \<le> ROUND_UP n (push_bit k 1)" "unat (ROUND_UP n (push_bit k 1)) < unat n + 2 ^ k" "ROUND_UP n (push_bit k 1) AND mask k = 0"
proof -
  let ?b = "push_bit k 1 :: u32"
  have b: "?b - 1 = mask k" by (simp add: mask_eq_exp_minus_1)
  have um: "unat (mask k :: u32) = 2 ^ k - 1" using assms(1) by (simp add: unat_mask_word)
  have k: "(0::nat) < 2 ^ k" by simp
  define s where "s = n + mask k"
  have s: "unat s = unat n + (2 ^ k - 1)"
    using assms(2) k by (simp add: s_def unat_word_ariths(1) um)
  have "ROUND_UP n ?b = s AND NOT (mask k)" by (simp only: ROUND_UP_def b s_def)
  then have r: "ROUND_UP n ?b = s - (s AND mask k)"
    using and_not_low [of s k] bits_ident [of k s] by (simp add: take_bit_eq_mask algebra_simps)
  have low: "unat (s AND mask k) = unat s mod 2 ^ k"
    by (metis take_bit_eq_mask take_bit_eq_mod unsigned_take_bit_eq)
  have "unat (ROUND_UP n ?b) = unat s - unat s mod 2 ^ k"
    unfolding r using low by (simp add: unat_sub word_le_nat_alt)
  moreover have "unat s mod 2 ^ k < 2 ^ k" by simp
  ultimately show "n \<le> ROUND_UP n ?b" "unat (ROUND_UP n ?b) < unat n + 2 ^ k"
    unfolding word_le_nat_alt using s k by linarith+
  show "ROUND_UP n ?b AND mask k = 0"
    unfolding ROUND_UP_def b by (simp add: and.assoc)
qed

section \<open>Reservation\<close>

text \<open>
  A region memory can be reserved from: it ends below the top of the address space, what is reserved lies in it,
  and its cache line size is a power of two. A request for which neither the rounding up nor the sum with what is reserved
  can pass the end of the 32-bit words: the size, the line size and the length of the region together are at most \<open>2 ^ 32\<close>.
\<close>

definition line_size :: "SharedRegion_Region \<Rightarrow> u32" where
  "line_size r = (if sr_cacheLineSize (entry r) > 4 then sr_cacheLineSize (entry r) else 4)"

definition region_reservable :: "SharedRegion_Region \<Rightarrow> bool" where
  "region_reservable r \<longleftrightarrow>
     unat (sr_base (entry r)) + unat (sr_len (entry r)) < 2 ^ 32 \<and> reservedSize r \<le> sr_len (entry r) \<and>
     (\<exists>k < 32. line_size r = push_bit k 1)"

definition no_wrap :: "u32 \<Rightarrow> SharedRegion_Region \<Rightarrow> bool" where
  "no_wrap n r \<longleftrightarrow> unat n + unat (line_size r) + unat (sr_len (entry r)) \<le> 2 ^ 32"

definition requests_fit :: "(u16 \<times> u32) list \<Rightarrow> SharedRegion_Region list \<Rightarrow> bool" where
  "requests_fit cs rs \<longleftrightarrow> list_all (\<lambda>(rid, n). unat rid < length rs \<longrightarrow> isValid (entry (rs ! unat rid)) \<longrightarrow> no_wrap n (rs ! unat rid)) cs"

definition reservable :: "SharedRegion_ModuleObject \<Rightarrow> bool" where
  "reservable m \<longleftrightarrow> table_ok m \<and> (\<forall>r \<in> set (the (regions m)). isValid (entry r) \<longrightarrow> region_reservable r)"

text \<open>The blocks that a sequence of requests really reserves: those that change the table.\<close>

fun granted_blocks :: "(u16 \<times> u32) list \<Rightarrow> SharedRegion_ModuleObject \<Rightarrow> (u16 \<times> u32 \<times> u32) list" where
  "granted_blocks [] m = []"
| "granted_blocks ((rid, n) # cs) m =
     (case SharedRegion_reserveMemory rid n m of
        Inl _ \<Rightarrow> []
      | Inr (p, m1) \<Rightarrow> (if m1 = m then [] else [(rid, p, n)]) @ granted_blocks cs m1)"

lemma reserve_cases:
  assumes "table_ok m"
  obtains (refused) p where "SharedRegion_reserveMemory rid n m = Inr (p, m)"
  | (granted) rs r where "regions m = Some rs" "unat rid < length rs" "r = rs ! unat rid" "isValid (entry r)"
      "\<not> sr_len (entry r) < reservedSize r + ROUND_UP n (line_size r)"
      "SharedRegion_reserveMemory rid n m =
         Inr (sr_base (entry r) + reservedSize r, set_region rid (r \<lparr> reservedSize := reservedSize r + ROUND_UP n (line_size r) \<rparr>) m)"
proof (cases "rid < numEntries (cfg m)")
  case True
  obtain rs where rs: "regions m = Some rs" "unat rid < length rs" "region_at m rid = Inr (rs ! unat rid)"
    using region_at_in_table [OF assms True] by auto
  have "rid \<noteq> SharedRegion_INVALIDREGIONID"
    using True unsigned_less [of "numEntries (cfg m)", where 'a = nat]
    by (auto simp: SharedRegion_INVALIDREGIONID_def word_less_nat_alt)
  with True rs assms have line: "SharedRegion_getCacheLineSize rid m = Inr (sr_cacheLineSize (entry (rs ! unat rid)))"
    by (auto simp: SharedRegion_getCacheLineSize_def table_ok_def)
  let ?r = "rs ! unat rid"
  have reserve: "SharedRegion_reserveMemory rid n m =
      (if \<not> isValid (entry ?r) then Inr (0, m)
       else Inr (sr_base (entry ?r) + reservedSize ?r,
         if sr_len (entry ?r) < reservedSize ?r + ROUND_UP n (line_size ?r) then m
         else set_region rid (?r \<lparr> reservedSize := reservedSize ?r + ROUND_UP n (line_size ?r) \<rparr>) m))"
    using True rs line assms
    by (simp add: SharedRegion_reserveMemory_def table_ok_def line_size_def Memory_getMaxDefaultTypeAlign_def Let_def
        linorder_not_le [THEN iffD2])
  then show ?thesis using refused granted [OF rs(1,2) refl] by (auto split: if_splits)
next
  case False
  then show ?thesis using refused by (simp add: SharedRegion_reserveMemory_def not_less)
qed

lemma set_region_table:
  "table_ok m \<Longrightarrow> table_ok (set_region rid r m)"
  "regions m = Some rs \<Longrightarrow> regions (set_region rid r m) = Some (rs[unat rid := r])"
  by (auto simp: table_ok_def set_region_def SharedRegion_getNumOffsetBits_def split: option.splits)

lemma granted_step:
  assumes "region_reservable r" "no_wrap n r" "\<not> sr_len (entry r) < reservedSize r + ROUND_UP n (line_size r)"
  defines "r' \<equiv> r \<lparr> reservedSize := reservedSize r + ROUND_UP n (line_size r) \<rparr>"
  shows "region_reservable r'" "unat (reservedSize r) + unat n \<le> unat (reservedSize r')"
    "unat (sr_base (entry r) + reservedSize r) = unat (sr_base (entry r)) + unat (reservedSize r)"
proof -
  obtain k where k: "k < 32" "line_size r = push_bit k 1" using assms(1) by (auto simp: region_reservable_def)
  then have line: "unat (line_size r) = 2 ^ k" by (simp add: push_bit_eq_mult unat_exp_u32)
  have n: "unat n \<le> unat (ROUND_UP n (line_size r))" "unat (ROUND_UP n (line_size r)) < unat n + 2 ^ k"
    using round_up_bounds(1,2) [of k n] k assms(2) line by (auto simp: word_le_nat_alt no_wrap_def)
  have "unat (reservedSize r) \<le> unat (sr_len (entry r))"
    using assms(1) by (simp add: region_reservable_def word_le_nat_alt)
  then have "unat (reservedSize r) + unat (ROUND_UP n (line_size r)) < 2 ^ 32"
    using n(2) assms(2) line unfolding no_wrap_def by linarith
  then have sum: "unat (reservedSize r + ROUND_UP n (line_size r)) = unat (reservedSize r) + unat (ROUND_UP n (line_size r))"
    by (simp add: unat_word_ariths(1))
  with n show "unat (reservedSize r) + unat n \<le> unat (reservedSize r')" by (simp add: r'_def)
  have same: "entry r' = entry r" "reservedSize r' = reservedSize r + ROUND_UP n (line_size r)" "line_size r' = line_size r"
    by (simp_all add: r'_def line_size_def)
  show "region_reservable r'"
    using assms(1,3) same by (simp add: region_reservable_def not_less)
  show "unat (sr_base (entry r) + reservedSize r) = unat (sr_base (entry r)) + unat (reservedSize r)"
    using assms(1) by (auto simp: region_reservable_def unat_word_ariths(1) word_le_nat_alt)
qed

lemma granted_next:
  assumes "reservable m" "regions m = Some rs" "unat rid < length rs" "r = rs ! unat rid" "isValid (entry r)"
    "\<not> sr_len (entry r) < reservedSize r + ROUND_UP n (line_size r)" "requests_fit ((rid, n) # cs) rs"
  defines "r' \<equiv> r \<lparr> reservedSize := reservedSize r + ROUND_UP n (line_size r) \<rparr>"
  shows "region_reservable r'" "unat (reservedSize r) + unat n \<le> unat (reservedSize r')"
    "unat (sr_base (entry r) + reservedSize r) = unat (sr_base (entry r)) + unat (reservedSize r)"
    "reservable (set_region rid r' m)" "regions (set_region rid r' m) = Some (rs[unat rid := r'])"
    "requests_fit cs (rs[unat rid := r'])"
proof -
  have "region_reservable r" "no_wrap n r" using assms(1-5,7) by (auto simp: reservable_def requests_fit_def)
  from granted_step [OF this assms(6)]
  show rr: "region_reservable r'" and "unat (reservedSize r) + unat n \<le> unat (reservedSize r')"
    and "unat (sr_base (entry r) + reservedSize r) = unat (sr_base (entry r)) + unat (reservedSize r)"
    by (simp_all add: r'_def)
  show regs: "regions (set_region rid r' m) = Some (rs[unat rid := r'])" using set_region_table(2) assms(2) .
  have "region_reservable x" if "x \<in> set (rs[unat rid := r'])" "isValid (entry x)" for x
    using that rr assms(1,2) set_update_subset_insert [of rs "unat rid" r'] by (auto simp: reservable_def)
  then show "reservable (set_region rid r' m)" using set_region_table(1) assms(1) regs by (simp add: reservable_def)
  have "no_wrap k r' = no_wrap k r" "entry r' = entry r" for k
    by (simp_all add: r'_def no_wrap_def line_size_def)
  then show "requests_fit cs (rs[unat rid := r'])"
    using assms(3,4,7) by (fastforce simp: requests_fit_def list_all_iff nth_list_update)
qed

text \<open>
  Every granted block starts at or above what was reserved before, and ends within its region.
\<close>

lemma granted_above:
  assumes "reservable m" "requests_fit cs rs" "regions m = Some rs"
    and "(rid, p, n) \<in> set (granted_blocks cs m)"
  shows "unat rid < length rs \<and> unat (sr_base (entry (rs ! unat rid))) + unat (reservedSize (rs ! unat rid)) \<le> unat p \<and>
    unat p + unat n \<le> unat (sr_base (entry (rs ! unat rid))) + unat (sr_len (entry (rs ! unat rid)))"
  using assms
proof (induction cs arbitrary: m rs)
  case (Cons c cs)
  obtain i k where c: "c = (i, k)" by (cases c)
  have ok: "table_ok m" using Cons.prems(1) by (simp add: reservable_def)
  show ?case
  proof (cases rule: reserve_cases [OF ok, of i k, case_names refused granted])
    case (refused q)
    with Cons c show ?thesis by (auto simp: reservable_def requests_fit_def)
  next
    case (granted rs' r)
    define r' where "r' = r \<lparr> reservedSize := reservedSize r + ROUND_UP k (line_size r) \<rparr>"
    have rs': "rs' = rs" using granted(1) Cons.prems(3) by simp
    note st = granted_next [OF Cons.prems(1,3) granted(2-5) [unfolded rs'] Cons.prems(2) [unfolded c], folded r'_def]
    note IH = Cons.IH [OF st(4,6,5)]
    from granted(6) Cons.prems(4) c consider
      (this) "rid = i" "n = k" "p = sr_base (entry r) + reservedSize r"
      | (later) "(rid, p, n) \<in> set (granted_blocks cs (set_region i r' m))"
      by (auto simp: r'_def split: if_splits)
    then show ?thesis
    proof cases
      case this
      with st granted rs' show ?thesis
        by (auto simp: region_reservable_def r'_def word_le_nat_alt)
    next
      case later
      with IH st(2) granted rs' show ?thesis
        by (cases "i = rid") (auto simp: r'_def nth_list_update word_unat_eq_iff)
    qed
  qed
qed simp

lemma blocks_ordered:
  assumes "(rid, q, k) \<in> set after" "reservable m" "requests_fit cs rs" "regions m = Some rs"
    and "granted_blocks cs m = before @ (rid, p, n) # after"
  shows "unat p + unat n \<le> unat q"
  using assms
proof (induction cs arbitrary: m rs before)
  case (Cons c cs)
  obtain i l where c: "c = (i, l)" by (cases c)
  have ok: "table_ok m" using Cons.prems(2) by (simp add: reservable_def)
  show ?case
  proof (cases rule: reserve_cases [OF ok, of i l, case_names refused granted])
    case (refused q)
    with Cons c show ?thesis by (auto simp: requests_fit_def)
  next
    case (granted rs' r)
    define r' where "r' = r \<lparr> reservedSize := reservedSize r + ROUND_UP l (line_size r) \<rparr>"
    have rs': "rs' = rs" using granted(1) Cons.prems(4) by simp
    have st: "region_reservable r'" "unat (reservedSize r) + unat l \<le> unat (reservedSize r')"
        "unat (sr_base (entry r) + reservedSize r) = unat (sr_base (entry r)) + unat (reservedSize r)"
      and next_ok: "reservable (set_region i r' m)" "requests_fit cs (rs[unat i := r'])" "regions (set_region i r' m) = Some (rs[unat i := r'])"
      using granted_next [OF Cons.prems(2,4) granted(2-5) [unfolded rs'] Cons.prems(3) [unfolded c]] by (simp_all add: r'_def)
    show ?thesis
    proof (cases "set_region i r' m \<noteq> m \<and> before = []")
      case True
      then have eq: "rid = i" "n = l" "p = sr_base (entry r) + reservedSize r" "after = granted_blocks cs (set_region i r' m)"
        using Cons.prems(5) granted(6) c by (auto simp: r'_def)
      show ?thesis
        using granted_above [OF next_ok, of rid q k] Cons.prems(1) eq st(2,3) granted(2,3) rs' by (auto simp: r'_def)
    next
      case False
      with Cons.prems(5) granted(6) c obtain before' where
        "granted_blocks cs (set_region i r' m) = before' @ (rid, p, n) # after"
        by (auto simp: r'_def Cons_eq_append_conv split: if_splits)
      from Cons.IH [OF Cons.prems(1) next_ok this] show ?thesis .
    qed
  qed
qed simp

text \<open>C27: Over any sequence of requests of which none can wrap around, from regions with a power-of-two line size that lie below the
  top of the address space: the blocks reserved, which are those of the requests that change the table, lie in their regions; later blocks
  of the same region lie behind earlier ones, and blocks of two regions that do not overlap are disjoint. A request that does not fit is
  answered with an address too, but reserves nothing.\<close>

theorem reserved_blocks_disjoint:
  assumes "reservable m" "regions m = Some rs"
    and "list_all (\<lambda>(rid, n). unat rid < length rs \<longrightarrow> isValid (entry (rs ! unat rid)) \<longrightarrow>
      unat n + unat (line_size (rs ! unat rid)) + unat (sr_len (entry (rs ! unat rid))) \<le> 2 ^ 32) cs"
    and "granted_blocks cs m = before @ (rid, p, n) # after"
  shows "unat rid < length rs \<and> unat (sr_base (entry (rs ! unat rid))) \<le> unat p \<and>
    unat p + unat n \<le> unat (sr_base (entry (rs ! unat rid))) + unat (sr_len (entry (rs ! unat rid))) \<and>
    ((rid', q, k) \<in> set after \<longrightarrow>
       (if rid' = rid then unat p + unat n \<le> unat q
        else unat (sr_base (entry (rs ! unat rid))) + unat (sr_len (entry (rs ! unat rid))) \<le> unat (sr_base (entry (rs ! unat rid'))) \<or>
             unat (sr_base (entry (rs ! unat rid'))) + unat (sr_len (entry (rs ! unat rid'))) \<le> unat (sr_base (entry (rs ! unat rid))) \<longrightarrow>
             unat p + unat n \<le> unat q \<or> unat q + unat k \<le> unat p))"
proof -
  have fit: "requests_fit cs rs"
    using assms(3) by (simp add: requests_fit_def no_wrap_def)
  have in_region: "unat i < length rs \<and> unat (sr_base (entry (rs ! unat i))) \<le> unat a \<and>
      unat a + unat l \<le> unat (sr_base (entry (rs ! unat i))) + unat (sr_len (entry (rs ! unat i)))"
    if "(i, a, l) \<in> set (granted_blocks cs m)" for i a l
    using granted_above [OF assms(1) fit assms(2) that] by linarith
  have "unat p + unat n \<le> unat q" if "(rid', q, k) \<in> set after" "rid' = rid"
    using blocks_ordered [OF _ assms(1) fit assms(2,4)] that by blast
  moreover have "unat p + unat n \<le> unat q \<or> unat q + unat k \<le> unat p" if "(rid', q, k) \<in> set after"
    "unat (sr_base (entry (rs ! unat rid))) + unat (sr_len (entry (rs ! unat rid))) \<le> unat (sr_base (entry (rs ! unat rid'))) \<or>
     unat (sr_base (entry (rs ! unat rid'))) + unat (sr_len (entry (rs ! unat rid'))) \<le> unat (sr_base (entry (rs ! unat rid)))"
    using in_region [of rid p n] in_region [of rid' q k] assms(4) that by auto
  ultimately show ?thesis
    using in_region [of rid p n] assms(4) by simp
qed

text \<open>when a reservation leaves the table unchanged (a refusal), the address it returns is the one that
  the next request for this region gets; the caller is not told of the refusal.\<close>

theorem refused_reservation_same_block:
  assumes "SharedRegion_reserveMemory rid n m = Inr (p, m)" "SharedRegion_reserveMemory rid k m = Inr (q, m')"
  shows "p = q"
  using assms
  by (cases "region_at m rid"; cases "SharedRegion_getCacheLineSize rid m")
     (auto simp: SharedRegion_reserveMemory_def Let_def split: if_splits)

text \<open>C40: After the module has been removed, a set-up frees the array of flags a second time exactly if it fails before it
  allocates a new one: the driver cannot be opened, the configuration has no entries, or there is no memory for the table. With all
  other failures, and without any, it returns.\<close>

theorem failed_setup_frees_twice:
  assumes "setupRefCount m = 1" "bCreatedInKnlSpace m = Flags fs"
  shows "\<exists>status m'. SharedRegion_destroy env m = Inr (status, m') \<and>
    (let early = drv_open env' < 0 \<or> numEntries (case c of None \<Rightarrow> drv_cfg env' | Some c \<Rightarrow> c) = 0 \<or> \<not> regions_mem env'
     in (SharedRegion_setup env' c m' = Inl DoubleFree \<longleftrightarrow> early) \<and> ((\<exists>r. SharedRegion_setup env' c m' = Inr r) \<longleftrightarrow> \<not> early))"
proof -
  obtain status m' where d: "SharedRegion_destroy env m = Inr (status, m')" "setupRefCount m' = 0" "bCreatedInKnlSpace m' = FreedFlags"
    using assms by (cases "localLock m") (auto simp: SharedRegion_destroy_def Let_def)
  let ?c = "case c of None \<Rightarrow> drv_cfg env' | Some c \<Rightarrow> c"
  let ?early = "drv_open env' < 0 \<or> numEntries ?c = 0 \<or> \<not> regions_mem env'"
  have "SharedRegion_setup env' c m' = Inl DoubleFree" if ?early
    using that d(2,3) by (auto simp: SharedRegion_setup_def setup_table_def Let_def region_codes SharedRegion_destroy_def)
  moreover have "\<exists>r. SharedRegion_setup env' c m' = Inr r" if "\<not> ?early"
    using that d(2,3)
    by (auto simp: SharedRegion_setup_def setup_table_def setup_lock_def Let_def region_codes SharedRegion_destroy_def)
  ultimately show ?thesis
    using d(1) unfolding Let_def by (cases ?early) fastforce+
qed

section \<open>Sequences of operations\<close>

lemma take_over_lengths:
  "take_over_loop mapped st ks rs fs = (st', rs', fs') \<Longrightarrow> length rs' = length rs \<and> length fs' = length fs"
  by (induction mapped st ks rs fs arbitrary: st' rs' fs' rule: take_over_loop.induct)
     (auto simp: Let_def split: if_splits prod.splits)

lemma give_back_lengths:
  "give_back_loop unmapped st rs fs = (st', rs', fs') \<Longrightarrow> length rs' = length rs \<and> length fs' = length fs"
  by (induction unmapped st rs fs arbitrary: st' rs' fs' rule: give_back_loop.induct)
     (auto simp: Let_def split: if_splits prod.splits)

datatype region_call =
    SetEntry int u16 "SharedRegion_Entry option"
  | ClearEntry int u16
  | ReserveMemory u16 u32
  | SetRegions bool int "SharedRegion_Region list" "u32 \<Rightarrow> u32 \<Rightarrow> int \<times> u32"
  | ClearRegions "u32 \<Rightarrow> u32 \<Rightarrow> int"

fun region_step :: "region_call \<Rightarrow> SharedRegion_ModuleObject \<Rightarrow> region_fault + (int \<times> SharedRegion_ModuleObject)" where
  "region_step (SetEntry ioctl rid e) m = SharedRegion_setEntry ioctl rid e m"
| "region_step (ClearEntry ioctl rid) m = SharedRegion_clearEntry ioctl rid m"
| "region_step (ReserveMemory rid n) m = bindE (SharedRegion_reserveMemory rid n m) (\<lambda>(p, m1). Inr (uint p, m1))"
| "region_step (SetRegions mem ioctl knl mapped) m = SharedRegion_setRegions mem ioctl knl mapped m"
| "region_step (ClearRegions unmapped) m = SharedRegion_clearRegions unmapped m"

definition region_ready :: "SharedRegion_ModuleObject \<Rightarrow> bool" where
  "region_ready m \<longleftrightarrow> table_ok m \<and> (\<exists>fs. bCreatedInKnlSpace m = Flags fs \<and> length fs = unat (numEntries (cfg m)))"

lemma set_region_ready: "region_ready m \<Longrightarrow> region_ready (set_region rid r m)"
  using set_region_table(1) by (auto simp: region_ready_def) (auto simp: set_region_def)

lemma table_replace:
  "region_ready m \<Longrightarrow> length rs = unat (numEntries (cfg m)) \<Longrightarrow> length fs = unat (numEntries (cfg m)) \<Longrightarrow>
     region_ready (m \<lparr> regions := Some rs, bCreatedInKnlSpace := Flags fs \<rparr>)"
  by (auto simp: region_ready_def table_ok_def SharedRegion_getNumOffsetBits_def)

lemma region_at_ready: "region_ready m \<Longrightarrow> rid < numEntries (cfg m) \<Longrightarrow> \<exists>r. region_at m rid = Inr r"
  using region_at_in_table by (fastforce simp: region_ready_def)

lemma ready_tables:
  assumes "region_ready m"
  shows "\<exists>rs fs. region_table m = Inr rs \<and> length rs = unat (numEntries (cfg m)) \<and> bCreatedInKnlSpace m = Flags fs \<and>
    length fs = unat (numEntries (cfg m))"
proof -
  have "table_ok m" using assms by (simp add: region_ready_def)
  then obtain rs where "region_table m = Inr rs" "length rs = unat (numEntries (cfg m))" using table_of by metis
  with assms show ?thesis by (auto simp: region_ready_def)
qed

lemma region_step_ready: "region_ready m \<Longrightarrow> \<exists>v m'. region_step c m = Inr (v, m') \<and> region_ready m'"
proof (cases c)
  case (SetEntry ioctl rid e)
  assume "region_ready m"
  with SetEntry region_at_ready [of m rid] set_region_ready [of m rid] show ?thesis
    by (auto simp: SharedRegion_setEntry_def not_le split: option.splits)
next
  case (ClearEntry ioctl rid)
  assume "region_ready m"
  with ClearEntry region_at_ready [of m rid] set_region_ready [of m rid] show ?thesis
    by (auto simp: SharedRegion_clearEntry_def not_le)
next
  case (ReserveMemory rid n)
  assume m: "region_ready m"
  then have "table_ok m" by (simp add: region_ready_def)
  then show ?thesis
    by (cases rule: reserve_cases [of m rid n]) (use ReserveMemory m set_region_ready in auto)
next
  case (SetRegions mem ioctl knl mapped)
  assume m: "region_ready m"
  then obtain rs fs where "region_table m = Inr rs" "length rs = unat (numEntries (cfg m))"
    "bCreatedInKnlSpace m = Flags fs" "length fs = unat (numEntries (cfg m))"
    using ready_tables by metis
  with SetRegions m take_over_lengths [of mapped ioctl knl rs fs] show ?thesis
    by (auto simp: SharedRegion_setRegions_def intro: table_replace split: prod.splits)
next
  case (ClearRegions unmapped)
  assume m: "region_ready m"
  then obtain rs fs where "region_table m = Inr rs" "length rs = unat (numEntries (cfg m))"
    "bCreatedInKnlSpace m = Flags fs" "length fs = unat (numEntries (cfg m))"
    using ready_tables by metis
  with ClearRegions m give_back_lengths [of unmapped SharedRegion_S_SUCCESS rs fs] show ?thesis
    by (auto simp: SharedRegion_clearRegions_def intro: table_replace split: prod.splits)
qed

lemma setup_ready:
  assumes "setupRefCount m = 0" "SharedRegion_setup env c m = Inr (status, m')" "status \<ge> 0"
  shows "region_ready m'"
proof -
  obtain st m2 where t: "setup_table env (case c of None \<Rightarrow> drv_cfg env | Some c \<Rightarrow> c) (m \<lparr> setupRefCount := 1 \<rparr>) = (st, m2)"
    and st: "st \<ge> 0" and l: "setup_lock env st m2 = (status, m')"
    using setup_steps [OF assms] by metis
  from t st have "\<exists>fs. bCreatedInKnlSpace m2 = Flags fs \<and> length fs = unat (numEntries (cfg m2))"
    by (auto simp: setup_table_def Let_def region_codes split: if_splits)
  with l setup_makes_table [OF assms] show ?thesis by (auto simp: region_ready_def setup_lock_def Let_def)
qed

text \<open>C26: after a successful set-up every sequence of calls on the table runs without a fault and leaves a complete
  table with consistent offset bits, on which all translations return.\<close>

theorem region_calls_keep_table:
  assumes "setupRefCount m = 0" "SharedRegion_setup env c m = Inr (status, m1)" "status \<ge> 0"
  shows "\<exists>vs m2. run_calls region_step cs m1 = Inr (vs, m2) \<and> table_ok m2 \<and>
    (\<exists>a. SharedRegion_getPtr m2 srp = Inr a) \<and> (\<exists>p. SharedRegion_getSRPtr m2 addr rid = Inr p) \<and>
    (\<exists>i. SharedRegion_getId m2 addr = Inr i)"
proof -
  have "\<exists>vs m2. run_calls region_step cs m1 = Inr (vs, m2) \<and> region_ready m2" if "region_ready m1" for m1
    using that
  proof (induction cs arbitrary: m1)
    case (Cons c cs)
    obtain v m' where s: "region_step c m1 = Inr (v, m')" "region_ready m'" using region_step_ready [OF Cons.prems] by blast
    with Cons.IH [OF s(2)] show ?case by auto
  qed simp
  then obtain vs m2 where m2: "run_calls region_step cs m1 = Inr (vs, m2)" "region_ready m2"
    using setup_ready [OF assms] by blast
  obtain rs where "region_table m2 = Inr rs" using table_of [of m2] m2(2) by (auto simp: region_ready_def)
  with m2 region_at_ready [OF m2(2)] show ?thesis
    by (fastforce simp: region_ready_def SharedRegion_getPtr_def SharedRegion_getSRPtr_def SharedRegion_getId_def Let_def not_le)
qed

section \<open>Regions of the kernel\<close>

lemma take_over_status: "take_over_loop mapped st ks rs fs = (st', rs', fs') \<Longrightarrow> st' \<ge> 0 \<Longrightarrow> st \<ge> 0"
  by (induction mapped st ks rs fs arbitrary: st' rs' fs' rule: take_over_loop.induct)
     (auto simp: Let_def split: if_splits prod.splits)

lemma take_over_all:
  "take_over_loop mapped st ks rs fs = (st', rs', fs') \<Longrightarrow> st' \<ge> 0 \<Longrightarrow> length ks = length rs \<Longrightarrow> length fs = length rs \<Longrightarrow>
     i < length rs \<Longrightarrow>
     \<exists>s \<ge> 0. take_over mapped (ks ! i) (rs ! i) (fs ! i) = (s, rs' ! i, fs' ! i)"
proof (induction mapped st ks rs fs arbitrary: i st' rs' fs' rule: take_over_loop.induct)
  case (1 mapped st k ks r rs f fs)
  obtain s1 r1 f1 where h: "take_over mapped k r f = (s1, r1, f1)" by (cases "take_over mapped k r f")
  define st1 where "st1 = (if isValid (entry k) \<and> \<not> isValid (entry r) then s1 else st)"
  obtain rs1 fs1 where st: "\<not> st < 0" and t: "take_over_loop mapped st1 ks rs fs = (st', rs1, fs1)"
    and eq: "rs' = r1 # rs1" "fs' = f1 # fs1"
    using 1(2,3) h by (auto simp: st1_def Let_def split: if_splits prod.splits)
  have "st1 \<ge> 0" using take_over_status [OF t] 1(3) by simp
  then have "s1 \<ge> 0" using h by (auto simp: st1_def take_over_def split: if_splits prod.splits)
  with 1(1) [OF st h [symmetric] refl refl t [unfolded st1_def] 1(3), of "i - 1"] 1(4-6) h eq show ?case by (cases i) auto
qed auto

lemma give_back_status: "give_back_loop unmapped st rs fs = (st', rs', fs') \<Longrightarrow> st' \<ge> 0 \<Longrightarrow> st \<ge> 0"
  by (induction unmapped st rs fs arbitrary: st' rs' fs' rule: give_back_loop.induct)
     (auto simp: Let_def split: if_splits prod.splits)

lemma give_back_all:
  "give_back_loop unmapped st rs fs = (st', rs', fs') \<Longrightarrow> st' \<ge> 0 \<Longrightarrow> length fs = length rs \<Longrightarrow> i < length rs \<Longrightarrow>
     \<exists>s. give_back unmapped (rs ! i) (fs ! i) = (s, rs' ! i, fs' ! i)"
proof (induction unmapped st rs fs arbitrary: i st' rs' fs' rule: give_back_loop.induct)
  case (1 unmapped st r rs f fs)
  obtain s1 r1 f1 where h: "give_back unmapped r f = (s1, r1, f1)" by (cases "give_back unmapped r f")
  define st1 where "st1 = (if isValid (entry r) \<and> f then s1 else st)"
  obtain rs1 fs1 where st: "\<not> st < 0" and t: "give_back_loop unmapped st1 rs fs = (st', rs1, fs1)"
    and eq: "rs' = r1 # rs1" "fs' = f1 # fs1"
    using 1(2,3) h by (auto simp: st1_def Let_def split: if_splits prod.splits)
  with 1(1) [OF st h [symmetric] refl refl t [unfolded st1_def] 1(3), of "i - 1"] 1(4,5) h show ?case by (cases i) auto
qed auto

lemma take_over_valid:
  "take_over mapped k r False = (s, r', f') \<Longrightarrow> s \<ge> 0 \<Longrightarrow>
     f' = (isValid (entry k) \<and> \<not> isValid (entry r)) \<and> (if f' then isValid (entry r') else r' = r)"
  by (auto simp: take_over_def split: if_splits prod.splits)

lemma give_back_valid:
  "give_back unmapped r f = (s, r', f') \<Longrightarrow> if isValid (entry r) \<and> f then \<not> isValid (entry r') else r' = r"
  by (auto simp: give_back_def Let_def split: if_splits)

theorem take_over_give_back:
  assumes "region_ready m" "regions m = Some rs" "bCreatedInKnlSpace m = Flags (replicate (length rs) False)"
    and "length knl = length rs" "i < length rs"
    and "SharedRegion_setRegions True 0 knl mapped m = Inr (st1, m1)" "st1 \<ge> 0"
    and "SharedRegion_clearRegions unmapped m1 = Inr (st2, m2)" "st2 \<ge> 0"
  shows "\<exists>rs1 rs2. regions m1 = Some rs1 \<and> regions m2 = Some rs2 \<and>
    isValid (entry (rs1 ! i)) = (isValid (entry (rs ! i)) \<or> isValid (entry (knl ! i))) \<and>
    isValid (entry (rs2 ! i)) = isValid (entry (rs ! i)) \<and>
    (isValid (entry (rs ! i)) \<longrightarrow> rs1 ! i = rs ! i \<and> rs2 ! i = rs ! i)"
proof -
  have t: "region_table m = Inr rs" and len: "length rs = unat (numEntries (cfg m))"
    using table_of [of m] assms(1,2) by (auto simp: region_ready_def)
  obtain rs1 fs1 where s1: "take_over_loop mapped 0 knl rs (replicate (length rs) False) = (st1, rs1, fs1)"
    and m1: "m1 = m \<lparr> regions := Some rs1, bCreatedInKnlSpace := Flags fs1 \<rparr>"
    using assms(3,6) t by (auto simp: SharedRegion_setRegions_def split: prod.splits)
  have l1: "length rs1 = length rs" "length fs1 = length rs" using take_over_lengths [OF s1] by simp_all
  have "region_ready m1" unfolding m1 using table_replace [OF assms(1)] l1 len by simp
  then have "region_table m1 = Inr rs1" using table_of [of m1] m1 by (auto simp: region_ready_def)
  then obtain rs2 fs2 where s2: "give_back_loop unmapped SharedRegion_S_SUCCESS rs1 fs1 = (st2, rs2, fs2)"
    and m2: "m2 = m1 \<lparr> regions := Some rs2, bCreatedInKnlSpace := Flags fs2 \<rparr>"
    using assms(8) m1 by (auto simp: SharedRegion_clearRegions_def split: prod.splits)
  obtain s where a: "take_over mapped (knl ! i) (rs ! i) False = (s, rs1 ! i, fs1 ! i)" "s \<ge> 0"
    using take_over_all [OF s1 assms(7,4) _ assms(5)] assms(5) by auto
  obtain u where b: "give_back unmapped (rs1 ! i) (fs1 ! i) = (u, rs2 ! i, fs2 ! i)"
    using give_back_all [OF s2 assms(9), of i] l1 assms(5) by auto
  show ?thesis
    by (rule exI [of _ rs1], rule exI [of _ rs2])
       (use take_over_valid [OF a] give_back_valid [OF b] m1 m2 in \<open>auto split: if_splits\<close>)
qed

section \<open>Examples\<close>

text \<open>A table of four regions, two of them in use.\<close>

definition example_env :: region_env where
  "example_env =
     \<lparr> drv_open = 0, drv_cfg = \<lparr> cfg_cacheLineSize = 128, numEntries = 4, translate = True \<rparr>, regions_mem = True,
       flags_mem = True, setup_ioctl = 0, destroy_ioctl = 0, self_id = 3, lock_created = True \<rparr>"

definition example_region :: "u32 \<Rightarrow> u32 \<Rightarrow> SharedRegion_Region" where
  "example_region b n =
     \<lparr> entry = (entry_defaults 128) \<lparr> sr_base := b, sr_len := n, isValid := True \<rparr>, reservedSize = 0, heap = 0 \<rparr>"

definition unused_region :: SharedRegion_Region where
  "unused_region = \<lparr> entry = entry_defaults 128, reservedSize = 0, heap = 0 \<rparr>"

definition example_table :: "u32 \<Rightarrow> SharedRegion_ModuleObject" where
  "example_table n =
     \<lparr> setupRefCount = 1, localLock = True,
       regions = Some [example_region 0xA0000000 n, unused_region, example_region 0x80000000 0x1000, unused_region],
       numOffsetBits = 30, offsetMask = 0x3FFFFFFF, bCreatedInKnlSpace = Flags [False, False, False, False],
       cfg = drv_cfg example_env \<rparr>"

lemma index_bits_3: "index_bits 3 = 2"
  by (simp add: index_bits.simps)

lemma example_table_ok: "table_ok (example_table n)"
  by (simp add: table_ok_def example_table_def example_env_def SharedRegion_getNumOffsetBits_def index_bits_3)

lemmas region_examples = example_table_def example_region_def unused_region_def entry_defaults_def example_env_def

lemma srptr_roundtrip_witness:
  "SharedRegion_getSRPtr (example_table 0x100000) 0x80000010 2 = Inr 0x80000010 \<and>
   SharedRegion_getSRPtr (example_table 0x100000) 0xA0000010 0 = Inr 0x10 \<and>
   SharedRegion_getPtr (example_table 0x100000) 0x10 = Inr 0xA0000010"
proof -
  have p: "SharedRegion_getSRPtr (example_table 0x100000) 0xA0000010 0 = Inr 0x10"
    by (simp add: SharedRegion_getSRPtr_def region_examples region_at_def in_region_def region_codes
        SharedRegion_INVALIDREGIONID_def SharedRegion_INVALIDSRPTR_def)
  have "regions_fit (example_table 0x100000)" by (simp add: regions_fit_def region_examples)
  from srptr_roundtrip [OF example_table_ok this p] p show ?thesis
    by (simp add: SharedRegion_getSRPtr_def region_examples region_at_def in_region_def
        SharedRegion_INVALIDREGIONID_def SharedRegion_INVALIDSRPTR_def)
qed

lemma checkOverlap_exact_witness:
  "SharedRegion_checkOverlap (example_table 0x100000) 0x80001000 0x1000 = Inr SharedRegion_S_SUCCESS"
proof -
  have rs: "regions (example_table 0x100000) =
      Some [example_region 0xA0000000 0x100000, unused_region, example_region 0x80000000 0x1000, unused_region]"
    by (simp add: example_table_def)
  show ?thesis
    using checkOverlap_exact [OF example_table_ok rs, of "0x1000" "0x80001000"]
    by (simp add: example_region_def unused_region_def entry_defaults_def region_range_def)
qed

lemma example_reservable: "reservable (example_table 0x1000)"
proof -
  have "region_reservable (example_region b n)" if "unat b + unat n < 2 ^ 32" "unat n \<le> 2 ^ 31 - 1" for b n
    using that by (auto simp: region_reservable_def example_region_def entry_defaults_def line_size_def intro: exI [of _ 7])
  with example_table_ok show ?thesis
    by (auto simp: reservable_def example_table_def unused_region_def entry_defaults_def)
qed

lemma example_blocks:
  "granted_blocks [(0, 0x10), (2, 0x20), (0, 0x1000), (0, 0x90)] (example_table 0x1000) =
     [(0, 0xA0000000, 0x10), (2, 0x80000000, 0x20), (0, 0xA0000080, 0x90)]"
  by code_simp

text \<open>A request that wraps around sets back what is reserved, and the next one is given the first block again.\<close>

lemma wrapped_request_overlaps:
  "granted_blocks [(0, 0x10), (0, 0xFFFFFF80), (0, 0x10)] (example_table 0x1000) =
     [(0, 0xA0000000, 0x10), (0, 0xA0000080, 0xFFFFFF80), (0, 0xA0000000, 0x10)]"
  by code_simp

lemma reserved_blocks_disjoint_witness:
  "unat (0xA0000000 :: u32) + unat (0x10 :: u32) \<le> unat (0xA0000080 :: u32) \<and>
   granted_blocks [(0, 0x10), (2, 0x20), (0, 0x1000), (0, 0x90)] (example_table 0x1000) =
     [(0, 0xA0000000, 0x10), (2, 0x80000000, 0x20), (0, 0xA0000080, 0x90)]"
proof -
  have rs: "regions (example_table 0x1000) =
      Some [example_region 0xA0000000 0x1000, unused_region, example_region 0x80000000 0x1000, unused_region]"
    by (simp add: example_table_def)
  let ?rs = "[example_region 0xA0000000 0x1000, unused_region, example_region 0x80000000 0x1000, unused_region]"
  have l: "list_all (\<lambda>(rid, n). unat rid < length ?rs \<longrightarrow> isValid (entry (?rs ! unat rid)) \<longrightarrow>
      unat n + unat (line_size (?rs ! unat rid)) + unat (sr_len (entry (?rs ! unat rid))) \<le> 2 ^ 32)
      [(0 :: u16, 0x10 :: u32), (2, 0x20), (0, 0x1000), (0, 0x90)]"
    by (simp add: example_region_def entry_defaults_def line_size_def)
  have b: "granted_blocks [(0, 0x10), (2, 0x20), (0, 0x1000), (0, 0x90)] (example_table 0x1000) =
      [] @ (0, 0xA0000000, 0x10) # [(2, 0x80000000, 0x20), (0, 0xA0000080, 0x90)]"
    unfolding append_Nil by (rule example_blocks)
  have "(0, 0xA0000080, 0x90) \<in> set [(2, 0x80000000, 0x20), (0 :: u16, 0xA0000080 :: u32, 0x90 :: u32)]" by simp
  with reserved_blocks_disjoint [OF example_reservable rs l b, of 0 "0xA0000080" "0x90"]
  have "unat (0xA0000000 :: u32) + unat (0x10 :: u32) \<le> unat (0xA0000080 :: u32)" by simp
  then show ?thesis using example_blocks by (rule conjI)
qed

lemma refused_reservation_same_block_witness:
  "SharedRegion_reserveMemory 0 0x2000 (example_table 0x1000) = Inr (0xA0000000, example_table 0x1000) \<and>
   (\<exists>m. SharedRegion_reserveMemory 0 0x10 (example_table 0x1000) = Inr (0xA0000000, m))"
proof -
  have r: "SharedRegion_reserveMemory 0 0x2000 (example_table 0x1000) = Inr (0xA0000000, example_table 0x1000)"
    by (simp add: SharedRegion_reserveMemory_def SharedRegion_getCacheLineSize_def region_examples region_at_def
        ROUND_UP_def Memory_getMaxDefaultTypeAlign_def SharedRegion_INVALIDREGIONID_def Let_def)
  obtain q m where g: "SharedRegion_reserveMemory 0 0x10 (example_table 0x1000) = Inr (q, m)"
    using reserve_cases [OF example_table_ok] by metis
  from refused_reservation_same_block [OF r g] r g show ?thesis by auto
qed

lemma failed_setup_frees_twice_witness:
  "\<exists>status m'. SharedRegion_destroy example_env (example_table 0x1000) = Inr (status, m') \<and>
     SharedRegion_setup (example_env \<lparr> regions_mem := False \<rparr>) (Some (drv_cfg example_env)) m' = Inl DoubleFree"
proof -
  have m: "setupRefCount (example_table 0x1000) = 1" "bCreatedInKnlSpace (example_table 0x1000) = Flags [False, False, False, False]"
    by (simp_all add: example_table_def)
  show ?thesis
    using failed_setup_frees_twice [OF m, of example_env "example_env \<lparr> regions_mem := False \<rparr>" "Some (drv_cfg example_env)"]
    by (auto simp: Let_def)
qed

lemma region_calls_keep_table_witness:
  "\<exists>m1 vs m2. SharedRegion_setup example_env None SharedRegion_state = Inr (0, m1) \<and>
     run_calls region_step
       [SetEntry 0 1 (Some (entry (example_region 0x90000000 0x1000))), ReserveMemory 1 0x10, ClearEntry 0 1] m1 = Inr (vs, m2) \<and>
     table_ok m2"
proof -
  obtain m1 where "SharedRegion_setup example_env None SharedRegion_state = Inr (0, m1)"
    by (simp add: SharedRegion_setup_def setup_table_def setup_lock_def SharedRegion_state_def example_env_def Let_def)
  moreover have "setupRefCount SharedRegion_state = 0" by (simp add: SharedRegion_state_def)
  ultimately show ?thesis using region_calls_keep_table [of SharedRegion_state example_env None 0 m1] by blast
qed

end
